(* ===== verification/Kernel_Prelude.thy ===== *)
theory Kernel_Prelude imports Main "HOL-Library.Word" begin

text \<open>
  The kernel vocabulary the components share: machine integers, C return codes, pointers,
  bit maps, reference counts, and the generic lemmas about them.

  \<^item> \<open>u8\<close>, \<open>u16\<close>, \<open>u32\<close>, \<open>u64\<close> are words of HOL-Library.Word, so \<open>+\<close>, \<open>-\<close>, \<open>*\<close> wrap. A C
    \<open>int\<close> that the code only uses as a return code is a HOL \<open>int\<close>; the errno values are
    those of \<open>uapi/asm-generic/errno*.h\<close> and \<open>linux/errno.h\<close>.
  \<^item> A pointer the code only stores, compares and passes on is a \<open>ptr\<close>; NULL is \<open>None\<close>.
  \<^item> A bit map of \<open>linux/bitmap.h\<close> is the set of its one bits, as a predicate on indices.
  \<^item> \<open>refcount_t\<close> of \<open>linux/refcount.h\<close> saturates instead of wrapping.
  \<^item> A \<open>list_head\<close> is the list of its entries, first entry first.

  Each lock of the code guards one critical section; the model runs a whole critical
  section as one step, so the locks themselves carry no state.
\<close>

unbundle bit_operations_syntax

section \<open>Machine integers, pointers, return codes\<close>

type_synonym u8 = "8 word"
type_synonym u16 = "16 word"
type_synonym u32 = "32 word"
type_synonym u64 = "64 word"
type_synonym ptr = "nat option"

abbreviation EPERM :: int where "EPERM \<equiv> 1"
abbreviation ENOENT :: int where "ENOENT \<equiv> 2"
abbreviation EAGAIN :: int where "EAGAIN \<equiv> 11"
abbreviation ENOMEM :: int where "ENOMEM \<equiv> 12"
abbreviation EFAULT :: int where "EFAULT \<equiv> 14"
abbreviation EEXIST :: int where "EEXIST \<equiv> 17"
abbreviation ENODEV :: int where "ENODEV \<equiv> 19"
abbreviation EINVAL :: int where "EINVAL \<equiv> 22"
abbreviation EBADR :: int where "EBADR \<equiv> 53"
abbreviation ENOSR :: int where "ENOSR \<equiv> 63"
abbreviation ETIMEDOUT :: int where "ETIMEDOUT \<equiv> 110"
abbreviation EALREADY :: int where "EALREADY \<equiv> 114"
abbreviation ENOIOCTLCMD :: int where "ENOIOCTLCMD \<equiv> 515"

named_theorems kernel_simps \<open>unfoldings and evaluation rules of the kernel vocabulary\<close>

section \<open>Bit maps\<close>

type_synonym bitmap = "nat \<Rightarrow> bool"

text \<open>\<open>find_first_zero_bit (bm, sz)\<close>: the least clear bit below \<open>sz\<close>, or \<open>sz\<close>.\<close>

function ffz_from :: "bitmap \<Rightarrow> nat \<Rightarrow> nat \<Rightarrow> nat" where
  "ffz_from bm sz i = (if i < sz then (if bm i then ffz_from bm sz (Suc i) else i) else sz)"
  by pat_completeness auto
termination
  by (relation "measure (\<lambda>(bm, sz, i). sz - i)") auto

declare ffz_from.simps [simp del]

definition find_first_zero_bit :: "bitmap \<Rightarrow> nat \<Rightarrow> nat" where
  "find_first_zero_bit bm sz = ffz_from bm sz 0"

definition set_bit_map :: "nat \<Rightarrow> bitmap \<Rightarrow> bitmap" where
  "set_bit_map i bm = bm(i := True)"

definition clear_bit_map :: "nat \<Rightarrow> bitmap \<Rightarrow> bitmap" where
  "clear_bit_map i bm = bm(i := False)"

definition bitmap_zero :: "nat \<Rightarrow> bitmap \<Rightarrow> bitmap" where
  "bitmap_zero n bm = (\<lambda>i. if i < n then False else bm i)"

text \<open>\<open>test_and_set_bit\<close>: the old value of the bit, and the map with the bit set.\<close>

definition test_and_set_bit :: "nat \<Rightarrow> bitmap \<Rightarrow> bool \<times> bitmap" where
  "test_and_set_bit i bm = (bm i, bm(i := True))"

lemma ffz_from_le: "ffz_from bm sz i \<le> sz"
  by (induction bm sz i rule: ffz_from.induct) (subst ffz_from.simps, auto)

lemma ffz_from_below: "i \<le> j \<Longrightarrow> j < ffz_from bm sz i \<Longrightarrow> bm j"
proof (induction bm sz i rule: ffz_from.induct)
  case (1 bm sz i)
  show ?case
  proof (cases "i < sz \<and> bm i")
    case True
    then have "ffz_from bm sz i = ffz_from bm sz (Suc i)"
      by (simp add: ffz_from.simps [of bm sz i])
    with 1 True show ?thesis by (cases "i = j") auto
  next
    case False
    with "1.prems" ffz_from_le [of bm sz i] show ?thesis
      by (auto simp: ffz_from.simps [of bm sz i] split: if_splits)
  qed
qed

lemma ffz_from_clear: "ffz_from bm sz i < sz \<Longrightarrow> \<not> bm (ffz_from bm sz i)"
proof (induction bm sz i rule: ffz_from.induct)
  case (1 bm sz i)
  then show ?case
    by (auto simp: ffz_from.simps [of bm sz i] split: if_splits)
qed

lemma find_first_zero_bit_le [simp]: "find_first_zero_bit bm sz \<le> sz"
  by (simp add: find_first_zero_bit_def ffz_from_le)

lemma find_first_zero_bit_below: "j < find_first_zero_bit bm sz \<Longrightarrow> bm j"
  using ffz_from_below [of 0 j bm sz] by (simp add: find_first_zero_bit_def)

lemma find_first_zero_bit_clear:
  "find_first_zero_bit bm sz < sz \<Longrightarrow> \<not> bm (find_first_zero_bit bm sz)"
  by (simp add: find_first_zero_bit_def ffz_from_clear)

lemma find_first_zero_bit_full:
  "find_first_zero_bit bm sz = sz \<longleftrightarrow> (\<forall>i < sz. bm i)"
  by (metis find_first_zero_bit_below find_first_zero_bit_clear find_first_zero_bit_le
      order_le_imp_less_or_eq)

lemma find_first_zero_bit_ge: "sz \<le> find_first_zero_bit bm sz \<longleftrightarrow> (\<forall>i < sz. bm i)"
  by (metis find_first_zero_bit_full find_first_zero_bit_le order_antisym)

lemma find_first_zero_bit_eqI:
  assumes "k < sz" and "\<not> bm k" and "\<And>j. j < k \<Longrightarrow> bm j"
  shows "find_first_zero_bit bm sz = k"
  by (metis assms find_first_zero_bit_below find_first_zero_bit_clear linorder_neqE_nat
      order.strict_trans)

section \<open>Allocators of small indices\<close>

text \<open>
  The contract several tables rely on: an allocation returns an unused index below the
  capacity and marks it used, fails only when every index is used, and a release makes
  exactly its index unused.
\<close>

locale id_allocator =
  fixes alloc :: "'s \<Rightarrow> (nat \<times> 's) option"
    and release :: "nat \<Rightarrow> 's \<Rightarrow> 's"
    and used :: "'s \<Rightarrow> nat \<Rightarrow> bool"
    and capacity :: nat
    and wf :: "'s \<Rightarrow> bool"
  assumes alloc_Some: "wf s \<Longrightarrow> alloc s = Some (i, s') \<Longrightarrow>
      wf s' \<and> i < capacity \<and> \<not> used s i \<and> used s' = (used s)(i := True)"
    and alloc_None: "wf s \<Longrightarrow> alloc s = None \<Longrightarrow> i < capacity \<Longrightarrow> used s i"
    and release_used: "wf s \<Longrightarrow> i < capacity \<Longrightarrow>
      wf (release i s) \<and> used (release i s) = (used s)(i := False)"
begin

fun alloc_many :: "nat \<Rightarrow> 's \<Rightarrow> (nat list \<times> 's) option" where
  "alloc_many 0 s = Some ([], s)"
| "alloc_many (Suc n) s =
     (case alloc s of None \<Rightarrow> None
      | Some (i, s') \<Rightarrow> (case alloc_many n s' of None \<Rightarrow> None | Some (is, s'') \<Rightarrow> Some (i # is, s'')))"

lemma alloc_many_fresh:
  "wf s \<Longrightarrow> alloc_many n s = Some (is, s') \<Longrightarrow>
     wf s' \<and> distinct is \<and> (\<forall>i\<in>set is. i < capacity \<and> \<not> used s i) \<and> (\<forall>i. used s' i \<longleftrightarrow> used s i \<or> i \<in> set is)"
proof (induction n arbitrary: s "is" s')
  case 0
  then show ?case by simp
next
  case (Suc n)
  then obtain i s1 js where a: "alloc s = Some (i, s1)" and m: "alloc_many n s1 = Some (js, s')"
    and "is": "is = i # js"
    by (auto split: option.splits)
  show ?case
    using Suc.IH [OF _ m] alloc_Some [OF Suc.prems(1) a] Suc.prems(1) "is" by (auto split: if_splits)
qed

lemma alloc_many_length: "alloc_many n s = Some (is, s') \<Longrightarrow> length is = n"
  by (induction n arbitrary: s "is" s') (auto split: option.splits)

lemma alloc_after_release: "wf s \<Longrightarrow> i < capacity \<Longrightarrow> alloc (release i s) \<noteq> None"
  by (metis alloc_None fun_upd_same release_used)

lemma alloc_succeeds_iff: "wf s \<Longrightarrow> alloc s \<noteq> None \<longleftrightarrow> (\<exists>i<capacity. \<not> used s i)"
  by (cases "alloc s") (auto dest: alloc_Some alloc_None)

text \<open>An allocator with a free index left can serve that many requests, and no more.\<close>

lemma alloc_many_succeeds:
  "wf s \<Longrightarrow> n \<le> card {i. i < capacity \<and> \<not> used s i} \<Longrightarrow> alloc_many n s \<noteq> None"
proof (induction n arbitrary: s)
  case 0
  then show ?case by simp
next
  case (Suc n)
  let ?free = "\<lambda>s. {i. i < capacity \<and> \<not> used s i}"
  have "?free s \<noteq> {}" using Suc.prems(2) by (metis card.empty not_less_eq_eq zero_le)
  then obtain i s1 where a: "alloc s = Some (i, s1)"
    using alloc_succeeds_iff [OF Suc.prems(1)] by auto
  have "?free s1 = ?free s - {i}" and i: "i \<in> ?free s"
    using alloc_Some [OF Suc.prems(1) a] by auto
  then have "card (?free s1) = card (?free s) - 1" by simp
  with Suc a alloc_Some [OF Suc.prems(1) a] show ?case by (auto split: option.splits)
qed

lemma alloc_many_iff:
  assumes "wf s"
  shows "alloc_many n s \<noteq> None \<longleftrightarrow> n \<le> card {i. i < capacity \<and> \<not> used s i}"
proof
  assume "alloc_many n s \<noteq> None"
  then obtain "is" s' where r: "alloc_many n s = Some (is, s')" by auto
  from alloc_many_fresh [OF assms r] have "distinct is" and sub: "set is \<subseteq> {i. i < capacity \<and> \<not> used s i}"
    by auto
  then show "n \<le> card {i. i < capacity \<and> \<not> used s i}"
    using card_mono [OF _ sub] distinct_card [of "is"] alloc_many_length [OF r] by simp
qed (rule alloc_many_succeeds [OF assms])

end

section \<open>Reference counts\<close>

text \<open>
  \<open>linux/refcount.h\<close>: \<open>refcount_inc_not_zero\<close> fails on 0 and otherwise increments;
  \<open>refcount_dec_and_test\<close> decrements and reports whether the count went from 1 to 0. A
  decrement of a count that is not positive, or an increment past the maximum, pins the
  count at the saturation value.
\<close>

definition REFCOUNT_SATURATED :: int where
  "REFCOUNT_SATURATED = - 0x40000000"

definition REFCOUNT_MAX :: int where
  "REFCOUNT_MAX = 0x7fffffff"

definition refcount_inc_not_zero :: "int \<Rightarrow> bool \<times> int" where
  "refcount_inc_not_zero r =
     (if r = 0 then (False, 0)
      else if r < 0 \<or> r + 1 > REFCOUNT_MAX then (True, REFCOUNT_SATURATED)
      else (True, r + 1))"

definition refcount_dec_and_test :: "int \<Rightarrow> bool \<times> int" where
  "refcount_dec_and_test r =
     (if r = 1 then (True, 0)
      else if r \<le> 0 then (False, REFCOUNT_SATURATED)
      else (False, r - 1))"

section \<open>Lists\<close>

text \<open>
  \<open>list_for_each_entry_safe\<close> with a \<open>break\<close> after the first match deletes the first match:
  \<open>remove1\<close>; without the \<open>break\<close> it deletes every match: \<open>filter\<close>.
\<close>

lemma count_list_remove1: "count_list (remove1 x xs) y = (if x = y then count_list xs y - 1 else count_list xs y)"
  by (induction xs) auto

lemma count_list_distinct: "x \<in> set xs \<Longrightarrow> distinct xs \<Longrightarrow> count_list xs x = 1"
  by (induction xs) (auto simp: count_list_0_iff)

lemma distinct_remove1_set: "distinct xs \<Longrightarrow> set (remove1 x xs) = set xs - {x}"
  by (simp add: set_remove1_eq)

lemma set_remove1_lower: "set xs - {x} \<subseteq> set (remove1 x xs)"
  by (metis DiffE in_set_remove1 insertI1 subsetI)

section \<open>Words\<close>

lemma unat_dec: "x \<noteq> 0 \<Longrightarrow> unat (x - 1 :: 'a::len word) = unat x - 1"
  by (simp add: unat_minus_one)

lemma unat_inc: "unat x + 1 < 2 ^ LENGTH('a) \<Longrightarrow> unat (x + 1 :: 'a::len word) = unat x + 1"
  by (simp add: unat_word_ariths)

lemma unat_of_nat_u32: "n < 2 ^ 32 \<Longrightarrow> unat (of_nat n :: u32) = n"
  by (simp add: unat_of_nat take_bit_nat_eq_self)

lemma unat_ucast_u8: "unat (ucast (b :: u8) :: u32) = unat b"
proof -
  have "unat b < 2 ^ 32" using unsigned_less [of b, where ?'a = nat] by simp
  then show ?thesis by (simp add: unsigned_ucast_eq take_bit_nat_eq_self)
qed

lemma ucast_of_nat_u8: "(ucast (of_nat k :: u8) :: u32) = of_nat (take_bit 8 k)"
  by (simp add: word_unat_eq_iff unat_ucast_u8 unat_of_nat)
    (simp add: take_bit_eq_mod)

section \<open>Counting\<close>

lemma card_below_eq: "card {i. i < (n::nat) \<and> P i} = n \<longleftrightarrow> (\<forall>i<n. P i)"
proof
  assume c: "card {i. i < n \<and> P i} = n"
  have "{i. i < n \<and> P i} = {..<n}"
    by (rule card_subset_eq) (auto simp: c)
  then show "\<forall>i<n. P i" by auto
next
  assume "\<forall>i<n. P i"
  then have "{i. i < n \<and> P i} = {..<n}" by auto
  then show "card {i. i < n \<and> P i} = n" by simp
qed

end
