(* ===== verification/Cam_Common.thy ===== *)
theory Cam_Common imports Kernel_Prelude begin

text \<open>
  The helpers of \<open>camera-kernel/drivers/cam_utils/cam_common_util.c\<close> the sync driver uses: the
  in-place removal of duplicates from an array (the merge of fences relies on it to reject a
  fence named twice) and the scaled completion timeout. The array is the list of its
  elements; an element is written with a list update.
\<close>

section \<open>Removing duplicates in place\<close>

text \<open>The inner loop: the first \<open>j\<close> below \<open>wr_idx\<close> with \<open>arr[j] = x\<close>, or \<open>wr_idx\<close>.\<close>

function scan_dup :: "int list \<Rightarrow> int \<Rightarrow> nat \<Rightarrow> nat \<Rightarrow> nat" where
  "scan_dup arr x wr j = (if j < wr then (if x = arr ! j then j else scan_dup arr x wr (Suc j)) else j)"
  by pat_completeness auto
termination by (relation "measure (\<lambda>(arr, x, wr, j). wr - j)") auto

text \<open>The outer loop.\<close>

function dedup_loop :: "nat \<Rightarrow> nat \<Rightarrow> nat \<Rightarrow> int list \<Rightarrow> nat \<times> int list" where
  "dedup_loop num i wr arr =
     (if i < num
      then if scan_dup arr (arr ! i) wr 0 = wr
           then dedup_loop num (Suc i) (Suc wr) (arr[wr := arr ! i])
           else dedup_loop num (Suc i) wr arr
      else (wr, arr))"
  by pat_completeness auto
termination by (relation "measure (\<lambda>(num, i, wr, arr). num - i)") auto

declare scan_dup.simps [simp del] dedup_loop.simps [simp del]

definition cam_common_util_remove_duplicate_arr :: "int list option \<Rightarrow> nat \<Rightarrow> nat \<times> int list option" where
  "cam_common_util_remove_duplicate_arr arr num =
     (case arr of
        None \<Rightarrow> (0, None)
      | Some xs \<Rightarrow> (let (wr, ys) = dedup_loop num 1 1 xs in (wr, Some ys)))"

lemma scan_dup_le: "j \<le> wr \<Longrightarrow> scan_dup arr x wr j \<le> wr"
  by (induction arr x wr j rule: scan_dup.induct) (subst scan_dup.simps, auto)

lemma scan_dup_none:
  "j \<le> wr \<Longrightarrow> scan_dup arr x wr j = wr \<longleftrightarrow> (\<forall>k. j \<le> k \<and> k < wr \<longrightarrow> arr ! k \<noteq> x)"
proof (induction arr x wr j rule: scan_dup.induct)
  case (1 arr x wr j)
  show ?case
  proof (cases "j < wr \<and> x \<noteq> arr ! j")
    case True
    then have "scan_dup arr x wr j = scan_dup arr x wr (Suc j)" by (subst scan_dup.simps) simp
    moreover have "(\<forall>k. j \<le> k \<and> k < wr \<longrightarrow> arr ! k \<noteq> x) \<longleftrightarrow> (\<forall>k. Suc j \<le> k \<and> k < wr \<longrightarrow> arr ! k \<noteq> x)"
      using True by (metis Suc_leD Suc_leI le_neq_implies_less)
    ultimately show ?thesis using 1 True by simp
  next
    case False
    with "1.prems" show ?thesis by (subst scan_dup.simps) auto
  qed
qed

lemma scan_dup_nth: "wr \<le> length arr \<Longrightarrow> scan_dup arr x wr 0 = wr \<longleftrightarrow> x \<notin> set (take wr arr)"
  by (auto simp: scan_dup_none in_set_conv_nth)

text \<open>
  After the first \<open>i\<close> elements the prefix of length \<open>wr_idx\<close> holds their distinct values in the
  order of first occurrence, and the elements from \<open>i\<close> on are as they were.
\<close>

definition firsts :: "int list \<Rightarrow> int list" where
  "firsts xs = rev (remdups (rev xs))"

lemma firsts_snoc: "firsts (xs @ [x]) = (if x \<in> set xs then firsts xs else firsts xs @ [x])"
  by (simp add: firsts_def)

lemma set_firsts [simp]: "set (firsts xs) = set xs"
  by (simp add: firsts_def)

lemma length_firsts: "length (firsts xs) = card (set xs)"
  by (simp add: firsts_def length_remdups_card_conv)

lemma distinct_firsts [simp]: "distinct (firsts xs)"
  by (simp add: firsts_def)

lemma firsts_distinct: "distinct xs \<Longrightarrow> firsts xs = xs"
  by (simp add: firsts_def distinct_remdups_id)

lemma dedup_loop_correct:
  assumes "i \<le> num" "num \<le> length xs" "length arr = length xs" "wr \<le> i"
    and "take wr arr = firsts (take i xs)" "drop i arr = drop i xs"
  shows "\<exists>ys. dedup_loop num i wr arr = (card (set (take num xs)), ys) \<and> length ys = length xs \<and>
     take (card (set (take num xs))) ys = firsts (take num xs) \<and> drop num ys = drop num xs"
  using assms
proof (induction num i wr arr rule: dedup_loop.induct)
  case (1 num i wr arr)
  have "wr \<le> length arr" using "1.prems"(1-4) by linarith
  then have "length (take wr arr) = wr" by simp
  then have wr: "wr = card (set (take i xs))"
    using length_firsts [of "take i xs"] by (simp only: "1.prems"(5))
  show ?case
  proof (cases "i < num")
    case False
    with "1.prems" wr show ?thesis by (subst dedup_loop.simps) auto
  next
    case True
    then have nth: "arr ! i = xs ! i" and takeS: "take (Suc i) xs = take i xs @ [xs ! i]"
      and dropS: "drop (Suc i) arr = drop (Suc i) xs"
      using "1.prems" by (metis Cons_nth_drop_Suc less_le_trans list.inject)
        (use True "1.prems" take_Suc_conv_app_nth [of i xs] in simp,
         metis "1.prems"(6) drop_Suc tl_drop)
    have mem: "scan_dup arr (arr ! i) wr 0 = wr \<longleftrightarrow> xs ! i \<notin> set (take i xs)"
      using "1.prems" True nth by (simp add: scan_dup_nth)
    show ?thesis
    proof (cases "xs ! i \<in> set (take i xs)")
      case dup: True
      then have "dedup_loop num i wr arr = dedup_loop num (Suc i) wr arr"
        using True mem by (subst dedup_loop.simps) simp
      moreover have "take wr arr = firsts (take (Suc i) xs)"
        using "1.prems"(5) dup by (simp add: takeS firsts_snoc)
      ultimately show ?thesis using "1.IH"(2) [OF True] mem dup "1.prems" True dropS by auto
    next
      case new: False
      let ?a = "arr[wr := arr ! i]"
      have step: "dedup_loop num i wr arr = dedup_loop num (Suc i) (Suc wr) ?a"
        using True mem new by (subst dedup_loop.simps) simp
      have "wr < length arr" using "1.prems" True by simp
      then have tk: "take (Suc wr) ?a = firsts (take (Suc i) xs)"
        using "1.prems"(5) new nth by (simp add: takeS firsts_snoc take_Suc_conv_app_nth)
      have "drop (Suc i) ?a = drop (Suc i) xs"
        using "1.prems"(4) dropS by simp
      with step tk "1.IH"(1) [OF True] mem new "1.prems" True show ?thesis by auto
    qed
  qed
qed

section \<open>Completion timeout\<close>

text \<open>
  \<open>wait_for_completion_timeout\<close> is a parameter; the result is the jiffies left and the new
  value of the module parameter \<open>timeout_multiplier\<close>.
\<close>

definition cam_common_wait_for_completion_timeout ::
  "('c \<Rightarrow> u64 \<Rightarrow> u64) \<Rightarrow> 'c option \<Rightarrow> u64 \<Rightarrow> u32 \<Rightarrow> u64 \<times> u32" where
  "cam_common_wait_for_completion_timeout wait complete timeout_jiffies timeout_multiplier =
     (case complete of
        None \<Rightarrow> (0, timeout_multiplier)
      | Some c \<Rightarrow>
          let mult = (if timeout_multiplier < 1 then 1 else timeout_multiplier) in
          (wait c (timeout_jiffies * ucast mult), mult))"

section \<open>Properties\<close>

text \<open>C21: the in-place removal of duplicates returns the number of distinct values among the first
  \<open>num\<close> elements, leaves those values at the front in order of first occurrence and never touches
  the elements from \<open>num\<close> on; it returns \<open>num\<close> exactly when there was no duplicate, and then the
  array is unchanged.\<close>

theorem remove_duplicate_arr_correct:
  assumes "1 \<le> num" and "num \<le> length xs"
  shows "\<exists>wr ys. cam_common_util_remove_duplicate_arr (Some xs) num = (wr, Some ys) \<and>
     wr = card (set (take num xs)) \<and> length ys = length xs \<and>
     take wr ys = firsts (take num xs) \<and> drop num ys = drop num xs \<and>
     (wr = num \<longleftrightarrow> distinct (take num xs)) \<and> (distinct (take num xs) \<longrightarrow> ys = xs)"
proof -
  have "take 1 xs = firsts (take 1 xs)" using assms by (cases xs) (simp_all add: firsts_def)
  then obtain ys where ys: "dedup_loop num 1 1 xs = (card (set (take num xs)), ys)" "length ys = length xs"
    "take (card (set (take num xs))) ys = firsts (take num xs)" "drop num ys = drop num xs"
    using dedup_loop_correct [of 1 num xs xs 1] assms by auto
  have d: "card (set (take num xs)) = num \<longleftrightarrow> distinct (take num xs)"
    using card_distinct [of "take num xs"] distinct_card [of "take num xs"] assms(2) by auto
  have "ys = xs" if "distinct (take num xs)"
  proof -
    have "take num ys = take num xs" using ys(3) d that by (simp add: firsts_distinct)
    with ys(4) show ?thesis by (metis append_take_drop_id)
  qed
  with ys d show ?thesis by (simp add: cam_common_util_remove_duplicate_arr_def)
qed

theorem remove_duplicate_arr_correct_witness:
  "\<exists>ys. cam_common_util_remove_duplicate_arr (Some [4, 7, 4, 2]) 3 = (2, Some ys) \<and> take 2 ys = [4, 7]"
  using remove_duplicate_arr_correct [of 3 "[4, 7, 4, 2]"] by (auto simp: firsts_def card_insert_if numeral_2_eq_2)

end
