(* ===== verification/Cam_Sync.thy ===== *)
theory Cam_Sync imports Cam_Common begin

text \<open>
  The fence driver of the camera stack: \<open>camera-kernel/drivers/cam_sync/cam_sync.c\<close> and
  \<open>cam_sync_util.c\<close>. A table of 2048 rows holds individual fences and merged (group) fences; an
  individual fence knows the groups it is part of (\<open>r_parents\<close>), a group its members
  (\<open>r_children\<close>) and how many of them are not signalled (\<open>r_remaining\<close>).

  This theory holds the data and the operations; \<open>Cam_Sync_Invariant\<close> and \<open>Cam_Sync_Props\<close> hold
  the lemmas. A row is reached through its index, a list head is the list of its entries. What
  leaves the driver (work queued on its work queue, callbacks run in place, events queued for
  user space) is recorded, oldest first, in \<open>sd_log\<close>. Allocations, user copies and the video
  device are parameters.
\<close>

section \<open>Data\<close>

abbreviation CAM_SYNC_MAX_OBJS :: nat where "CAM_SYNC_MAX_OBJS \<equiv> 2048"
abbreviation SYNC_DEBUG_NAME_LEN :: nat where "SYNC_DEBUG_NAME_LEN \<equiv> 63"

abbreviation CAM_SYNC_STATE_INVALID :: u32 where "CAM_SYNC_STATE_INVALID \<equiv> 0"
abbreviation CAM_SYNC_STATE_ACTIVE :: u32 where "CAM_SYNC_STATE_ACTIVE \<equiv> 1"
abbreviation CAM_SYNC_STATE_SIGNALED_SUCCESS :: u32 where "CAM_SYNC_STATE_SIGNALED_SUCCESS \<equiv> 2"
abbreviation CAM_SYNC_STATE_SIGNALED_ERROR :: u32 where "CAM_SYNC_STATE_SIGNALED_ERROR \<equiv> 3"
abbreviation CAM_SYNC_STATE_SIGNALED_CANCEL :: u32 where "CAM_SYNC_STATE_SIGNALED_CANCEL \<equiv> 4"

abbreviation CAM_SYNC_COMMON_EVENT_SYNX :: u32 where "CAM_SYNC_COMMON_EVENT_SYNX \<equiv> 4"
abbreviation CAM_SYNC_COMMON_REG_PAYLOAD_EVENT :: u32 where "CAM_SYNC_COMMON_REG_PAYLOAD_EVENT \<equiv> 5"
abbreviation CAM_SYNC_COMMON_SYNC_SIGNAL_EVENT :: u32 where "CAM_SYNC_COMMON_SYNC_SIGNAL_EVENT \<equiv> 6"
abbreviation CAM_SYNC_COMMON_RELEASE_EVENT :: u32 where "CAM_SYNC_COMMON_RELEASE_EVENT \<equiv> 7"

text \<open>\<open>V4L2_EVENT_PRIVATE_START\<close> of \<open>uapi/linux/videodev2.h\<close>, and the next number.\<close>

abbreviation CAM_SYNC_V4L_EVENT :: u32 where "CAM_SYNC_V4L_EVENT \<equiv> 0x08000000"
abbreviation CAM_SYNC_V4L_EVENT_V2 :: u32 where "CAM_SYNC_V4L_EVENT_V2 \<equiv> 0x08000001"
abbreviation CAM_SYNC_V4L_EVENT_ID_CB_TRIG :: u32 where "CAM_SYNC_V4L_EVENT_ID_CB_TRIG \<equiv> 0"

datatype sync_type = SYNC_TYPE_INDV | SYNC_TYPE_GROUP

datatype sync_list_clean_type = SYNC_LIST_CLEAN_ONE | SYNC_LIST_CLEAN_ALL

type_synonym payload = "u64 \<times> u64"

record sync_callback_info =
  cb_func :: nat
  cb_data :: ptr
  cb_status :: u32
  cb_sync_obj :: nat

record sync_table_row =
  r_name :: string
  r_type :: sync_type
  r_sync_id :: nat
  r_parents :: "nat list"
  r_children :: "nat list"
  r_state :: u32
  r_remaining :: u32
  r_signaled :: bool
  r_callbacks :: "sync_callback_info list"
  r_payloads :: "payload list"
  r_ref_cnt :: u32
  r_wait_ref_cnt :: int

text \<open>
  \<open>Ev_Work cb\<close>: the dispatch work of \<open>cb\<close> queued; \<open>Ev_Call f obj status data\<close>: a callback run
  in place; \<open>Ev_V4l2\<close>: event type, id, fence, status, payload, and the reason code of a
  version-2 event.
\<close>

datatype sync_ev =
    Ev_Work sync_callback_info
  | Ev_Call nat nat u32 ptr
  | Ev_V4l2 u32 u32 nat u32 payload "u32 option"

record sync_device =
  sd_table :: "nat \<Rightarrow> sync_table_row"
  sd_bitmap :: bitmap
  sd_open_cnt :: int
  sd_eventq :: bool
  sd_version :: u32
  sd_direct :: bool
  sd_log :: "sync_ev list"

text \<open>A row after \<open>memset\<close> and the list initialisations.\<close>

definition zero_row :: sync_table_row where
  "zero_row = \<lparr>r_name = [], r_type = SYNC_TYPE_INDV, r_sync_id = 0, r_parents = [], r_children = [],
     r_state = CAM_SYNC_STATE_INVALID, r_remaining = 0, r_signaled = False, r_callbacks = [],
     r_payloads = [], r_ref_cnt = 0, r_wait_ref_cnt = 0\<rparr>"

definition row_upd :: "nat \<Rightarrow> (sync_table_row \<Rightarrow> sync_table_row) \<Rightarrow> sync_device \<Rightarrow> sync_device" where
  "row_upd i f d = d\<lparr>sd_table := (sd_table d)(i := f (sd_table d i))\<rparr>"

definition emit :: "sync_ev list \<Rightarrow> sync_device \<Rightarrow> sync_device" where
  "emit es d = d\<lparr>sd_log := sd_log d @ es\<rparr>"

abbreviation out_of_range :: "int \<Rightarrow> bool" where
  "out_of_range obj \<equiv> obj \<ge> int CAM_SYNC_MAX_OBJS \<or> obj \<le> 0"

section \<open>The utilities\<close>

definition cam_sync_util_find_and_set_empty_row :: "sync_device \<Rightarrow> int \<times> nat \<times> sync_device" where
  "cam_sync_util_find_and_set_empty_row d =
     (let idx = find_first_zero_bit (sd_bitmap d) CAM_SYNC_MAX_OBJS in
      if idx < CAM_SYNC_MAX_OBJS then (0, idx, d\<lparr>sd_bitmap := set_bit_map idx (sd_bitmap d)\<rparr>)
      else (- 1, idx, d))"

definition cam_sync_util_send_v4l2_event ::
  "u32 \<Rightarrow> nat \<Rightarrow> u32 \<Rightarrow> payload \<Rightarrow> u32 \<Rightarrow> sync_device \<Rightarrow> sync_device" where
  "cam_sync_util_send_v4l2_event ev_id sync_obj status payload event_cause d =
     (if sd_version d = CAM_SYNC_V4L_EVENT_V2
      then emit [Ev_V4l2 CAM_SYNC_V4L_EVENT_V2 ev_id sync_obj status payload (Some event_cause)] d
      else emit [Ev_V4l2 CAM_SYNC_V4L_EVENT ev_id sync_obj status payload None] d)"

text \<open>
  \<open>list_for_each_entry_safe\<close> over the entries: \<open>CLEAN_ONE\<close> deletes the first entry of the fence
  and stops, \<open>CLEAN_ALL\<close> deletes every entry.
\<close>

fun clean_entries :: "sync_list_clean_type \<Rightarrow> nat \<Rightarrow> nat list \<Rightarrow> nat list" where
  "clean_entries ty obj [] = []"
| "clean_entries ty obj (c # cs) =
     (if ty = SYNC_LIST_CLEAN_ONE \<and> c \<noteq> obj then c # clean_entries ty obj cs
      else if ty = SYNC_LIST_CLEAN_ONE \<and> c = obj then cs
      else clean_entries ty obj cs)"

definition cam_sync_util_cleanup_children_list ::
  "sync_list_clean_type \<Rightarrow> nat \<Rightarrow> sync_table_row \<Rightarrow> sync_table_row" where
  "cam_sync_util_cleanup_children_list ty obj row = row\<lparr>r_children := clean_entries ty obj (r_children row)\<rparr>"

definition cam_sync_util_cleanup_parents_list ::
  "sync_list_clean_type \<Rightarrow> nat \<Rightarrow> sync_table_row \<Rightarrow> sync_table_row" where
  "cam_sync_util_cleanup_parents_list ty obj row = row\<lparr>r_parents := clean_entries ty obj (r_parents row)\<rparr>"

definition cam_sync_util_update_parent_state :: "u32 \<Rightarrow> sync_table_row \<Rightarrow> int \<times> sync_table_row" where
  "cam_sync_util_update_parent_state new_state row =
     (if r_state row = CAM_SYNC_STATE_ACTIVE \<or> r_state row = CAM_SYNC_STATE_SIGNALED_SUCCESS
      then (0, row\<lparr>r_state := new_state\<rparr>)
      else if r_state row = CAM_SYNC_STATE_SIGNALED_ERROR \<or> r_state row = CAM_SYNC_STATE_SIGNALED_CANCEL
      then (0, row)
      else (- EINVAL, row))"

text \<open>The work function: the callback call it makes.\<close>

definition cam_sync_util_cb_dispatch :: "sync_callback_info \<Rightarrow> sync_device \<Rightarrow> sync_device" where
  "cam_sync_util_cb_dispatch cb d = emit [Ev_Call (cb_func cb) (cb_sync_obj cb) (cb_status cb) (cb_data cb)] d"

text \<open>The payload loop stops at once, keeping the payloads, when no event queue is open.\<close>

definition cam_sync_util_dispatch_signaled_cb :: "nat \<Rightarrow> u32 \<Rightarrow> u32 \<Rightarrow> sync_device \<Rightarrow> sync_device" where
  "cam_sync_util_dispatch_signaled_cb sync_obj status event_cause d =
     (if r_state (sd_table d sync_obj) = CAM_SYNC_STATE_INVALID then d
      else
        let row = sd_table d sync_obj;
            d1 = row_upd sync_obj (\<lambda>r. r\<lparr>r_callbacks := []\<rparr>)
                   (emit (map (\<lambda>cb. Ev_Work (cb\<lparr>cb_status := status\<rparr>)) (r_callbacks row)) d);
            d2 = (if sd_eventq d1
                  then row_upd sync_obj (\<lambda>r. r\<lparr>r_payloads := []\<rparr>)
                         (fold (\<lambda>p. cam_sync_util_send_v4l2_event CAM_SYNC_V4L_EVENT_ID_CB_TRIG sync_obj
                                      status p event_cause) (r_payloads row) d1)
                  else d1)
        in row_upd sync_obj (\<lambda>r. r\<lparr>r_signaled := True\<rparr>) d2)"

definition cam_sync_init_row :: "nat \<Rightarrow> string \<Rightarrow> sync_type \<Rightarrow> sync_device \<Rightarrow> int \<times> sync_device" where
  "cam_sync_init_row idx nm ty d =
     (if idx = 0 \<or> idx \<ge> CAM_SYNC_MAX_OBJS then (- EINVAL, d)
      else (0, row_upd idx (\<lambda>_. zero_row\<lparr>r_name := take (SYNC_DEBUG_NAME_LEN - 1) nm, r_type := ty,
                 r_sync_id := idx, r_state := CAM_SYNC_STATE_ACTIVE, r_remaining := 0,
                 r_ref_cnt := 0, r_wait_ref_cnt := 1\<rparr>) d))"

text \<open>
  \<open>cam_sync_init_group_object\<close>. The loop over the members: \<open>mem i\<close> is the outcome of the two
  allocations of iteration \<open>i\<close>. It yields the error of the failing iteration and its index, or
  success. A merged fence takes over the state of the last member that was signalled with error
  or cancel, and counts the members still active.
\<close>

fun group_members ::
  "(nat \<Rightarrow> bool \<times> bool) \<Rightarrow> nat \<Rightarrow> nat \<Rightarrow> nat list \<Rightarrow> sync_device \<Rightarrow> (int \<times> nat) option \<times> sync_device" where
  "group_members mem idx i [] d = (None, d)"
| "group_members mem idx i (c # cs) d =
     (let child = sd_table d c in
      if r_type child = SYNC_TYPE_GROUP \<or> r_state child = CAM_SYNC_STATE_INVALID
      then (Some (- EINVAL, i), d)
      else if r_state child = CAM_SYNC_STATE_SIGNALED_ERROR \<or> r_state child = CAM_SYNC_STATE_SIGNALED_CANCEL
      then group_members mem idx (Suc i) cs (row_upd idx (\<lambda>r. r\<lparr>r_state := r_state child\<rparr>) d)
      else if r_state child \<noteq> CAM_SYNC_STATE_ACTIVE
      then group_members mem idx (Suc i) cs d
      else
        let d1 = row_upd idx (\<lambda>r. r\<lparr>r_remaining := r_remaining r + 1\<rparr>) d in
        if \<not> fst (mem i) then (Some (- ENOMEM, i), d1)
        else
          let d2 = row_upd idx (\<lambda>r. r\<lparr>r_children := r_children r @ [c]\<rparr>) d1 in
          if \<not> snd (mem i) then (Some (- ENOMEM, i), d2)
          else group_members mem idx (Suc i) cs (row_upd c (\<lambda>r. r\<lparr>r_parents := r_parents r @ [idx]\<rparr>) d2))"

definition cam_sync_init_group_object ::
  "(nat \<Rightarrow> bool \<times> bool) \<Rightarrow> nat \<Rightarrow> nat list \<Rightarrow> sync_device \<Rightarrow> int \<times> sync_device" where
  "cam_sync_init_group_object mem idx sync_objs d =
     (let (_, d0) = cam_sync_init_row idx ''merged_fence'' SYNC_TYPE_GROUP d;
          (err, d1) = group_members mem idx 0 sync_objs d0
      in case err of
           None \<Rightarrow>
             (0, if r_remaining (sd_table d1 idx) = 0
                 then row_upd idx (\<lambda>r. r\<lparr>r_signaled := True,
                        r_state := (if r_state r \<noteq> CAM_SYNC_STATE_SIGNALED_ERROR \<and>
                                       r_state r \<noteq> CAM_SYNC_STATE_SIGNALED_CANCEL
                                    then CAM_SYNC_STATE_SIGNALED_SUCCESS else r_state r)\<rparr>) d1
                 else d1)
         | Some (rc, i) \<Rightarrow>
             (let d2 = row_upd idx (\<lambda>r. r\<lparr>r_state := CAM_SYNC_STATE_INVALID\<rparr>) d1;
                  d3 = fold (\<lambda>c. row_upd c (cam_sync_util_cleanup_parents_list SYNC_LIST_CLEAN_ONE idx))
                         (rev (take i sync_objs)) d2
              in (rc, row_upd idx (cam_sync_util_cleanup_children_list SYNC_LIST_CLEAN_ALL 0) d3)))"

text \<open>
  \<open>cam_sync_deinit_object\<close>: the entries of positive id leave the row's lists, each child's and
  each parent's link back is deleted unless that row is invalid, the remaining payloads and
  callbacks are sent off with the cancel status, and the row is cleared.
\<close>

definition unlink_child :: "nat \<Rightarrow> nat \<Rightarrow> sync_device \<Rightarrow> sync_device" where
  "unlink_child idx c d =
     (if r_state (sd_table d c) = CAM_SYNC_STATE_INVALID then d
      else row_upd c (cam_sync_util_cleanup_parents_list SYNC_LIST_CLEAN_ONE idx) d)"

definition unlink_parent :: "nat \<Rightarrow> nat \<Rightarrow> sync_device \<Rightarrow> sync_device" where
  "unlink_parent idx p d =
     (if r_state (sd_table d p) = CAM_SYNC_STATE_INVALID then d
      else row_upd p (cam_sync_util_cleanup_children_list SYNC_LIST_CLEAN_ONE idx) d)"

definition cam_sync_deinit_object :: "nat \<Rightarrow> sync_device \<Rightarrow> int \<times> sync_device" where
  "cam_sync_deinit_object idx d =
     (if idx = 0 \<or> idx \<ge> CAM_SYNC_MAX_OBJS then (- EINVAL, d)
      else
        let temp_child_list = filter (\<lambda>c. 0 < c) (r_children (sd_table d idx));
            temp_parent_list = filter (\<lambda>p. 0 < p) (r_parents (sd_table d idx));
            d1 = row_upd idx (\<lambda>r. r\<lparr>r_children := filter (\<lambda>c. \<not> 0 < c) (r_children r),
                                    r_parents := filter (\<lambda>p. \<not> 0 < p) (r_parents r)\<rparr>) d;
            d2 = fold (unlink_child idx) temp_child_list d1;
            d3 = fold (unlink_parent idx) temp_parent_list d2;
            d4 = fold (\<lambda>p. cam_sync_util_send_v4l2_event CAM_SYNC_V4L_EVENT_ID_CB_TRIG idx
                             CAM_SYNC_STATE_SIGNALED_CANCEL p CAM_SYNC_COMMON_SYNC_SIGNAL_EVENT)
                   (r_payloads (sd_table d3 idx)) d3;
            d5 = emit (map (\<lambda>cb. Ev_Work (cb\<lparr>cb_status := CAM_SYNC_STATE_SIGNALED_CANCEL\<rparr>))
                         (r_callbacks (sd_table d4 idx))) d4;
            d6 = row_upd idx (\<lambda>_. zero_row) d5
        in (0, d6\<lparr>sd_bitmap := clear_bit_map idx (sd_bitmap d6)\<rparr>))"

definition cam_sync_init_wait_ref :: "nat \<Rightarrow> sync_device \<Rightarrow> int \<times> sync_device" where
  "cam_sync_init_wait_ref obj d = (0, row_upd obj (\<lambda>r. r\<lparr>r_wait_ref_cnt := 1\<rparr>) d)"

definition cam_sync_get_wait_ref :: "nat \<Rightarrow> sync_device \<Rightarrow> int \<times> sync_device" where
  "cam_sync_get_wait_ref obj d =
     (if r_state (sd_table d obj) = CAM_SYNC_STATE_INVALID then (- EINVAL, d)
      else
        let (ok, n) = refcount_inc_not_zero (r_wait_ref_cnt (sd_table d obj));
            d1 = row_upd obj (\<lambda>r. r\<lparr>r_wait_ref_cnt := n\<rparr>) d
        in if \<not> ok then (- EINVAL, d1) else (0, d1))"

definition cam_sync_put_wait_ref :: "nat \<Rightarrow> sync_device \<Rightarrow> int \<times> sync_device" where
  "cam_sync_put_wait_ref obj d =
     (let (zero, n) = refcount_dec_and_test (r_wait_ref_cnt (sd_table d obj));
          d1 = row_upd obj (\<lambda>r. r\<lparr>r_wait_ref_cnt := n\<rparr>) d
      in (0, if zero then snd (cam_sync_deinit_object obj d1) else d1))"

section \<open>The driver's operations\<close>

text \<open>
  The reservation loop of \<open>cam_sync_create\<close> and \<open>cam_sync_merge\<close> takes no lock between reading
  the bit map and setting the bit. Each element of the first argument is what the other CPUs do
  to the bit map in that window of one iteration; with the list used up nothing interferes.
\<close>

fun reserve_row :: "(bitmap \<Rightarrow> bitmap) list \<Rightarrow> bitmap \<Rightarrow> nat option \<times> bitmap" where
  "reserve_row [] bm =
     (let idx = find_first_zero_bit bm CAM_SYNC_MAX_OBJS in
      if idx \<ge> CAM_SYNC_MAX_OBJS then (None, bm) else (Some idx, snd (test_and_set_bit idx bm)))"
| "reserve_row (others # rest) bm =
     (let idx = find_first_zero_bit bm CAM_SYNC_MAX_OBJS in
      if idx \<ge> CAM_SYNC_MAX_OBJS then (None, bm)
      else
        let (bit, bm') = test_and_set_bit idx (others bm) in
        if bit then reserve_row rest bm' else (Some idx, bm'))"

text \<open>The result is the return code, the fence (\<open>*sync_obj\<close>, when written) and the device.\<close>

definition cam_sync_create ::
  "(bitmap \<Rightarrow> bitmap) list \<Rightarrow> string \<Rightarrow> sync_device \<Rightarrow> int \<times> nat option \<times> sync_device" where
  "cam_sync_create others nm d =
     (let (r, bm) = reserve_row others (sd_bitmap d); d1 = d\<lparr>sd_bitmap := bm\<rparr> in
      case r of
        None \<Rightarrow> (- ENOMEM, None, d1)
      | Some idx \<Rightarrow>
          (let (rc, d2) = cam_sync_init_row idx nm SYNC_TYPE_INDV d1 in
           if rc \<noteq> 0 then (- EINVAL, None, d2\<lparr>sd_bitmap := clear_bit_map idx (sd_bitmap d2)\<rparr>)
           else (rc, Some idx, d2)))"

definition is_signaled_state :: "u32 \<Rightarrow> bool" where
  "is_signaled_state st \<longleftrightarrow> st = CAM_SYNC_STATE_SIGNALED_SUCCESS \<or>
     st = CAM_SYNC_STATE_SIGNALED_ERROR \<or> st = CAM_SYNC_STATE_SIGNALED_CANCEL"

definition cam_sync_register_callback ::
  "bool \<Rightarrow> nat option \<Rightarrow> ptr \<Rightarrow> int \<Rightarrow> sync_device \<Rightarrow> int \<times> sync_device" where
  "cam_sync_register_callback mem cb_fn userdata sync_obj d =
     (case cb_fn of
        None \<Rightarrow> (- EINVAL, d)
      | Some f \<Rightarrow>
          if out_of_range sync_obj then (- EINVAL, d)
          else
            let obj = nat sync_obj; row = sd_table d obj in
            if r_state row = CAM_SYNC_STATE_INVALID then (- EINVAL, d)
            else if \<not> mem then (- ENOMEM, d)
            else if is_signaled_state (r_state row) \<and> r_remaining row = 0
            then if sd_direct d then (0, emit [Ev_Call f obj (r_state row) userdata] d)
                 else (0, emit [Ev_Work \<lparr>cb_func = f, cb_data = userdata, cb_status = r_state row,
                                         cb_sync_obj = obj\<rparr>] d)
            else (0, row_upd obj (\<lambda>r. r\<lparr>r_callbacks := r_callbacks r @
                       [\<lparr>cb_func = f, cb_data = userdata, cb_status = 0, cb_sync_obj = obj\<rparr>]\<rparr>) d))"

definition cam_sync_deregister_callback ::
  "nat option \<Rightarrow> ptr \<Rightarrow> int \<Rightarrow> sync_device \<Rightarrow> int \<times> sync_device" where
  "cam_sync_deregister_callback cb_fn userdata sync_obj d =
     (if out_of_range sync_obj then (- EINVAL, d)
      else
        let obj = nat sync_obj; row = sd_table d obj in
        if r_state row = CAM_SYNC_STATE_INVALID then (- EINVAL, d)
        else
          let hit = (\<lambda>cb. Some (cb_func cb) = cb_fn \<and> cb_data cb = userdata) in
          (if \<exists>cb \<in> set (r_callbacks row). hit cb then 0 else - ENOENT,
           row_upd obj (\<lambda>r. r\<lparr>r_callbacks := filter (\<lambda>cb. \<not> hit cb) (r_callbacks r)\<rparr>) d))"

text \<open>One round of the loop of \<open>cam_sync_signal\<close> over the parents of the signalled fence.\<close>

definition signal_parent :: "u32 \<Rightarrow> u32 \<Rightarrow> nat \<Rightarrow> sync_device \<Rightarrow> sync_device" where
  "signal_parent status event_cause p d =
     (let d1 = row_upd p (\<lambda>r. r\<lparr>r_remaining := r_remaining r - 1\<rparr>) d;
          (rc, row) = cam_sync_util_update_parent_state status (sd_table d1 p);
          d2 = row_upd p (\<lambda>_. row) d1
      in if rc \<noteq> 0 then d2
         else if r_remaining (sd_table d2 p) = 0
         then cam_sync_util_dispatch_signaled_cb p (r_state (sd_table d2 p)) event_cause d2
         else d2)"

definition cam_sync_signal :: "int \<Rightarrow> u32 \<Rightarrow> u32 \<Rightarrow> sync_device \<Rightarrow> int \<times> sync_device" where
  "cam_sync_signal sync_obj status event_cause d =
     (if out_of_range sync_obj then (- EINVAL, d)
      else
        let obj = nat sync_obj; row = sd_table d obj in
        if r_state row = CAM_SYNC_STATE_INVALID then (- EINVAL, d)
        else if r_type row = SYNC_TYPE_GROUP then (- EINVAL, d)
        else if r_state row \<noteq> CAM_SYNC_STATE_ACTIVE then (- EALREADY, d)
        else if status \<noteq> CAM_SYNC_STATE_SIGNALED_SUCCESS \<and> status \<noteq> CAM_SYNC_STATE_SIGNALED_ERROR \<and>
                status \<noteq> CAM_SYNC_STATE_SIGNALED_CANCEL then (- EINVAL, d)
        else
          let d1 = row_upd obj (\<lambda>r. r\<lparr>r_ref_cnt := r_ref_cnt r - 1\<rparr>) d in
          if r_ref_cnt (sd_table d1 obj) \<noteq> 0 then (0, d1)
          else
            let d2 = row_upd obj (\<lambda>r. r\<lparr>r_state := status\<rparr>) d1;
                d3 = cam_sync_util_dispatch_signaled_cb obj status event_cause d2;
                parents = r_parents (sd_table d3 obj);
                d4 = row_upd obj (\<lambda>r. r\<lparr>r_parents := []\<rparr>) d3
            in (0, fold (signal_parent status event_cause) parents d4))"

definition cam_sync_check_valid :: "int \<Rightarrow> sync_device \<Rightarrow> int" where
  "cam_sync_check_valid sync_obj d =
     (if out_of_range sync_obj then - EINVAL
      else if \<not> sd_bitmap d (nat sync_obj) then - EINVAL
      else if r_state (sd_table d (nat sync_obj)) = CAM_SYNC_STATE_INVALID then - EINVAL
      else 0)"

fun check_all_valid :: "int list \<Rightarrow> sync_device \<Rightarrow> int" where
  "check_all_valid [] d = 0"
| "check_all_valid (s # ss) d =
     (let rc = cam_sync_check_valid s d in if rc \<noteq> 0 then rc else check_all_valid ss d)"

text \<open>\<open>merged_ptr\<close>: the pointer for the result is not NULL; \<open>num_objs\<close> is the length of the array.\<close>

definition cam_sync_merge ::
  "(bitmap \<Rightarrow> bitmap) list \<Rightarrow> (nat \<Rightarrow> bool \<times> bool) \<Rightarrow> int list option \<Rightarrow> bool \<Rightarrow> sync_device \<Rightarrow>
     int \<times> nat option \<times> sync_device" where
  "cam_sync_merge others mem sync_objs merged_ptr d =
     (case sync_objs of
        None \<Rightarrow> (- EINVAL, None, d)
      | Some objs \<Rightarrow>
          if \<not> merged_ptr then (- EINVAL, None, d)
          else if length objs \<le> 1 then (- EINVAL, None, d)
          else if fst (cam_common_util_remove_duplicate_arr (Some objs) (length objs)) \<noteq> length objs
          then (- EINVAL, None, d)
          else if check_all_valid objs d \<noteq> 0 then (check_all_valid objs d, None, d)
          else
            (let (r, bm) = reserve_row others (sd_bitmap d); d1 = d\<lparr>sd_bitmap := bm\<rparr> in
             case r of
               None \<Rightarrow> (- ENOMEM, None, d1)
             | Some idx \<Rightarrow>
                 (let (rc, d2) = cam_sync_init_group_object mem idx (map nat objs) d1 in
                  if rc < 0 then (- EINVAL, None, d2\<lparr>sd_bitmap := clear_bit_map idx (sd_bitmap d2)\<rparr>)
                  else (0, Some idx, d2))))"

definition cam_sync_get_obj_ref :: "int \<Rightarrow> sync_device \<Rightarrow> int \<times> sync_device" where
  "cam_sync_get_obj_ref sync_obj d =
     (if out_of_range sync_obj then (- EINVAL, d)
      else if r_state (sd_table d (nat sync_obj)) \<noteq> CAM_SYNC_STATE_ACTIVE then (- EINVAL, d)
      else (0, row_upd (nat sync_obj) (\<lambda>r. r\<lparr>r_ref_cnt := r_ref_cnt r + 1\<rparr>) d))"

definition cam_sync_put_obj_ref :: "int \<Rightarrow> sync_device \<Rightarrow> int \<times> sync_device" where
  "cam_sync_put_obj_ref sync_obj d =
     (if out_of_range sync_obj then (- EINVAL, d)
      else (0, row_upd (nat sync_obj) (\<lambda>r. r\<lparr>r_ref_cnt := r_ref_cnt r - 1\<rparr>) d))"

definition cam_sync_destroy :: "int \<Rightarrow> sync_device \<Rightarrow> int \<times> sync_device" where
  "cam_sync_destroy sync_obj d =
     (if out_of_range sync_obj then (- EINVAL, d)
      else
        let obj = nat sync_obj in
        if r_state (sd_table d obj) = CAM_SYNC_STATE_INVALID then (- EINVAL, d)
        else cam_sync_put_wait_ref obj
               (row_upd obj (\<lambda>r. r\<lparr>r_state := CAM_SYNC_STATE_INVALID, r_signaled := True\<rparr>) d))"

text \<open>
  \<open>cam_sync_wait\<close>: \<open>meanwhile\<close> is what the rest of the system does while the caller sleeps;
  \<open>wait c j\<close> is \<open>wait_for_completion_timeout\<close> on a completion that is then done (\<open>c\<close>) or not.
\<close>

definition cam_sync_wait ::
  "(bool \<Rightarrow> u64 \<Rightarrow> u64) \<Rightarrow> (u64 \<Rightarrow> u64) \<Rightarrow> (sync_device \<Rightarrow> sync_device) \<Rightarrow> u32 \<Rightarrow>
     int \<Rightarrow> u64 \<Rightarrow> sync_device \<Rightarrow> int \<times> sync_device" where
  "cam_sync_wait wait msecs_to_jiffies meanwhile timeout_multiplier sync_obj timeout_ms d =
     (if out_of_range sync_obj then (- EINVAL, d)
      else
        let obj = nat sync_obj; (rc0, d1) = cam_sync_get_wait_ref obj d in
        if rc0 \<noteq> 0 then (- EINVAL, d1)
        else
          let d2 = meanwhile d1; row = sd_table d2 obj;
              (timeleft, _) = cam_common_wait_for_completion_timeout wait (Some (r_signaled row))
                                (msecs_to_jiffies timeout_ms) timeout_multiplier;
              rc = (if timeleft = 0 then - ETIMEDOUT
                    else if r_state row = CAM_SYNC_STATE_SIGNALED_SUCCESS then 0
                    else - EINVAL)
          in (rc, snd (cam_sync_put_wait_ref obj d2)))"

section \<open>The ioctl interface\<close>

record cam_private_ioctl_arg =
  k_id :: u32
  k_size :: u32
  k_result :: u32
  k_ioctl_ptr :: u64

text \<open>
  The common prologue of the handlers: the size check against \<open>sizeof\<close> of the argument, the
  NULL check, and \<open>copy_from_user\<close>, whose outcome is the parameter \<open>user\<close>.
\<close>

definition user_arg :: "u32 \<Rightarrow> cam_private_ioctl_arg \<Rightarrow> 'a option \<Rightarrow> int + 'a" where
  "user_arg sz k user =
     (if k_size k \<noteq> sz then Inl (- EINVAL)
      else if k_ioctl_ptr k = 0 then Inl (- EINVAL)
      else case user of None \<Rightarrow> Inl (- EFAULT) | Some a \<Rightarrow> Inr a)"

text \<open>\<open>copy_out\<close>: whether \<open>copy_to_user\<close> succeeds. The fence written back is the second component.\<close>

definition cam_sync_handle_create ::
  "(bitmap \<Rightarrow> bitmap) list \<Rightarrow> string option \<Rightarrow> bool \<Rightarrow> cam_private_ioctl_arg \<Rightarrow> sync_device \<Rightarrow>
     int \<times> nat option \<times> sync_device" where
  "cam_sync_handle_create others user copy_out k d =
     (case user_arg 68 k user of
        Inl e \<Rightarrow> (e, None, d)
      | Inr nm \<Rightarrow>
          (let (result, obj, d1) = cam_sync_create others (take SYNC_DEBUG_NAME_LEN nm) d in
           if result = 0 \<and> \<not> copy_out then (- EFAULT, None, d1) else (result, obj, d1)))"

definition cam_sync_handle_signal ::
  "(int \<times> u32) option \<Rightarrow> cam_private_ioctl_arg \<Rightarrow> sync_device \<Rightarrow> int \<times> sync_device" where
  "cam_sync_handle_signal user k d =
     (case user_arg 8 k user of
        Inl e \<Rightarrow> (e, d)
      | Inr (sync_obj, sync_state) \<Rightarrow>
          (let (rc, d1) = cam_sync_get_obj_ref sync_obj d in
           if rc \<noteq> 0 then (rc, d1)
           else cam_sync_signal sync_obj sync_state CAM_SYNC_COMMON_SYNC_SIGNAL_EVENT d1))"

text \<open>\<open>user\<close> is \<open>num_objs\<close>; \<open>array\<close> the second copy, of that many fences.\<close>

definition cam_sync_handle_merge ::
  "(bitmap \<Rightarrow> bitmap) list \<Rightarrow> (nat \<Rightarrow> bool \<times> bool) \<Rightarrow> bool \<Rightarrow> u32 option \<Rightarrow> (nat \<Rightarrow> int list option) \<Rightarrow> bool \<Rightarrow>
     cam_private_ioctl_arg \<Rightarrow> sync_device \<Rightarrow> int \<times> nat option \<times> sync_device" where
  "cam_sync_handle_merge others mem arr_mem user array copy_out k d =
     (case user_arg 16 k user of
        Inl e \<Rightarrow> (e, None, d)
      | Inr num_objs \<Rightarrow>
          if unat num_objs \<ge> CAM_SYNC_MAX_OBJS then (- EINVAL, None, d)
          else if \<not> arr_mem then (- ENOMEM, None, d)
          else
            (case array (unat num_objs) of
               None \<Rightarrow> (- EFAULT, None, d)
             | Some objs \<Rightarrow>
                 (let (result, obj, d1) = cam_sync_merge others mem (Some (take (unat num_objs) objs)) True d in
                  if result = 0 \<and> \<not> copy_out then (- EFAULT, None, d1) else (result, obj, d1))))"

definition cam_sync_handle_wait ::
  "(int \<Rightarrow> u64 \<Rightarrow> sync_device \<Rightarrow> int \<times> sync_device) \<Rightarrow> (int \<times> u64) option \<Rightarrow> cam_private_ioctl_arg \<Rightarrow>
     sync_device \<Rightarrow> int \<times> cam_private_ioctl_arg \<times> sync_device" where
  "cam_sync_handle_wait wait_op user k d =
     (case user_arg 16 k user of
        Inl e \<Rightarrow> (e, k, d)
      | Inr (sync_obj, timeout_ms) \<Rightarrow>
          (let (rc, d1) = wait_op sync_obj timeout_ms d in (0, k\<lparr>k_result := word_of_int rc\<rparr>, d1)))"

definition cam_sync_handle_destroy ::
  "int option \<Rightarrow> cam_private_ioctl_arg \<Rightarrow> sync_device \<Rightarrow> int \<times> sync_device" where
  "cam_sync_handle_destroy user k d =
     (case user_arg 68 k user of Inl e \<Rightarrow> (e, d) | Inr sync_obj \<Rightarrow> cam_sync_destroy sync_obj d)"

definition cam_sync_handle_register_user_payload ::
  "bool \<Rightarrow> (u32 \<times> payload) option \<Rightarrow> cam_private_ioctl_arg \<Rightarrow> sync_device \<Rightarrow> int \<times> sync_device" where
  "cam_sync_handle_register_user_payload mem user k d =
     (case user_arg 24 k user of
        Inl e \<Rightarrow> (e, d)
      | Inr (sync_obj, p) \<Rightarrow>
          if unat sync_obj \<ge> CAM_SYNC_MAX_OBJS \<or> sync_obj = 0 then (- EINVAL, d)
          else if \<not> mem then (- ENOMEM, d)
          else
            let obj = unat sync_obj; row = sd_table d obj in
            if r_state row = CAM_SYNC_STATE_INVALID then (- EINVAL, d)
            else if is_signaled_state (r_state row)
            then (0, cam_sync_util_send_v4l2_event CAM_SYNC_V4L_EVENT_ID_CB_TRIG obj (r_state row) p
                       CAM_SYNC_COMMON_REG_PAYLOAD_EVENT d)
            else if p \<in> set (r_payloads row) then (- EALREADY, d)
            else (0, row_upd obj (\<lambda>r. r\<lparr>r_payloads := r_payloads r @ [p]\<rparr>) d))"

definition cam_sync_handle_deregister_user_payload ::
  "(u32 \<times> payload) option \<Rightarrow> cam_private_ioctl_arg \<Rightarrow> sync_device \<Rightarrow> int \<times> sync_device" where
  "cam_sync_handle_deregister_user_payload user k d =
     (case user_arg 24 k user of
        Inl e \<Rightarrow> (e, d)
      | Inr (sync_obj, p) \<Rightarrow>
          if unat sync_obj \<ge> CAM_SYNC_MAX_OBJS \<or> sync_obj = 0 then (- EINVAL, d)
          else
            let obj = unat sync_obj in
            if r_state (sd_table d obj) = CAM_SYNC_STATE_INVALID then (- EINVAL, d)
            else (0, row_upd obj (\<lambda>r. r\<lparr>r_payloads := removeAll p (r_payloads r)\<rparr>) d))"

text \<open>What user space and the environment supply to one \<open>ioctl\<close> call.\<close>

record ioctl_env =
  e_others :: "(bitmap \<Rightarrow> bitmap) list"
  e_mem :: bool
  e_grp_mem :: "nat \<Rightarrow> bool \<times> bool"
  e_copy_out :: bool
  e_create :: "string option"
  e_obj :: "int option"
  e_signal :: "(int \<times> u32) option"
  e_merge :: "u32 option"
  e_array :: "nat \<Rightarrow> int list option"
  e_payload :: "(u32 \<times> payload) option"
  e_wait :: "(int \<times> u64) option"
  e_wait_op :: "int \<Rightarrow> u64 \<Rightarrow> sync_device \<Rightarrow> int \<times> sync_device"

text \<open>\<open>cmd_ok\<close>: the command number is \<open>CAM_PRIVATE_IOCTL_CMD\<close>. The second component is the fence or
  the wait result written back.\<close>

definition cam_sync_dev_ioctl ::
  "ioctl_env \<Rightarrow> bool \<Rightarrow> cam_private_ioctl_arg option \<Rightarrow> sync_device option \<Rightarrow>
     int \<times> (nat option \<times> cam_private_ioctl_arg option) \<times> sync_device option" where
  "cam_sync_dev_ioctl e cmd_ok arg dev =
     (case dev of
        None \<Rightarrow> (- EINVAL, (None, arg), dev)
      | Some d \<Rightarrow>
          (case arg of
             None \<Rightarrow> (- EINVAL, (None, arg), dev)
           | Some k \<Rightarrow>
               if \<not> cmd_ok then (- ENOIOCTLCMD, (None, arg), dev)
               else if k_id k = 0 then
                 (let (rc, obj, d') = cam_sync_handle_create (e_others e) (e_create e) (e_copy_out e) k d
                  in (rc, (obj, arg), Some d'))
               else if k_id k = 1 then
                 (let (rc, d') = cam_sync_handle_destroy (e_obj e) k d in (rc, (None, arg), Some d'))
               else if k_id k = 4 then
                 (let (rc, d') = cam_sync_handle_register_user_payload (e_mem e) (e_payload e) k d
                  in (rc, (None, arg), Some d'))
               else if k_id k = 5 then
                 (let (rc, d') = cam_sync_handle_deregister_user_payload (e_payload e) k d
                  in (rc, (None, arg), Some d'))
               else if k_id k = 2 then
                 (let (rc, d') = cam_sync_handle_signal (e_signal e) k d in (rc, (None, arg), Some d'))
               else if k_id k = 3 then
                 (let (rc, obj, d') = cam_sync_handle_merge (e_others e) (e_grp_mem e) (e_mem e)
                                        (e_merge e) (e_array e) (e_copy_out e) k d
                  in (rc, (obj, arg), Some d'))
               else if k_id k = 6 then
                 (let (rc, k', d') = cam_sync_handle_wait (e_wait_op e) (e_wait e) k d
                  in (rc, (None, Some (k\<lparr>k_result := k_result k'\<rparr>)), Some d'))
               else (- ENOIOCTLCMD, (None, arg), dev)))"

section \<open>Opening, closing, events, binding\<close>

text \<open>\<open>fh_open\<close> is the result of \<open>v4l2_fh_open\<close>.\<close>

definition cam_sync_open :: "int \<Rightarrow> sync_device option \<Rightarrow> int \<times> sync_device option" where
  "cam_sync_open fh_open dev =
     (case dev of
        None \<Rightarrow> (- ENODEV, dev)
      | Some d \<Rightarrow>
          if sd_open_cnt d \<ge> 1 then (- EALREADY, dev)
          else if fh_open = 0 then (0, Some (d\<lparr>sd_open_cnt := sd_open_cnt d + 1, sd_eventq := True\<rparr>))
          else (fh_open, dev))"

text \<open>The two loops of the last close; \<open>rc\<close> is the variable the function returns.\<close>

definition close_signal :: "nat \<Rightarrow> int \<times> sync_device \<Rightarrow> int \<times> sync_device" where
  "close_signal i s =
     (if r_state (sd_table (snd s) i) = CAM_SYNC_STATE_ACTIVE
      then cam_sync_signal (int i) CAM_SYNC_STATE_SIGNALED_ERROR CAM_SYNC_COMMON_RELEASE_EVENT (snd s)
      else s)"

definition close_destroy :: "nat \<Rightarrow> int \<times> sync_device \<Rightarrow> int \<times> sync_device" where
  "close_destroy i s =
     (if r_state (sd_table (snd s) i) \<noteq> CAM_SYNC_STATE_INVALID then cam_sync_destroy (int i) (snd s) else s)"

text \<open>\<open>flush\<close>: \<open>flush_workqueue\<close>, which runs the queued callbacks.\<close>

definition cam_sync_close :: "(sync_device \<Rightarrow> sync_device) \<Rightarrow> sync_device option \<Rightarrow> int \<times> sync_device option" where
  "cam_sync_close flush dev =
     (case dev of
        None \<Rightarrow> (- ENODEV, dev)
      | Some d \<Rightarrow>
          let d1 = d\<lparr>sd_open_cnt := sd_open_cnt d - 1\<rparr>;
              (rc, d2) = (if sd_open_cnt d1 = 0
                then (let (rc1, da) = fold close_signal [1..<CAM_SYNC_MAX_OBJS] (0, d1)
                      in fold close_destroy [1..<CAM_SYNC_MAX_OBJS] (rc1, flush da))
                else (0, d1))
          in (rc, Some (d2\<lparr>sd_eventq := False\<rparr>)))"

definition cam_sync_subscribe_event :: "int \<Rightarrow> u32 \<Rightarrow> sync_device \<Rightarrow> int \<times> sync_device" where
  "cam_sync_subscribe_event v4l2_rc ty d =
     (if \<not> (ty = CAM_SYNC_V4L_EVENT \<or> ty = CAM_SYNC_V4L_EVENT_V2) then (- EINVAL, d)
      else (v4l2_rc, d\<lparr>sd_version := ty\<rparr>))"

definition cam_sync_unsubscribe_event :: "int \<Rightarrow> u32 \<Rightarrow> int" where
  "cam_sync_unsubscribe_event v4l2_rc ty =
     (if \<not> (ty = CAM_SYNC_V4L_EVENT \<or> ty = CAM_SYNC_V4L_EVENT_V2) then - EINVAL else v4l2_rc)"

text \<open>The synx status numbers below 4 belong to the synx driver: arguments.\<close>

definition cam_synx_sync_signal ::
  "u32 \<Rightarrow> u32 \<Rightarrow> u32 \<Rightarrow> int \<Rightarrow> u32 \<Rightarrow> sync_device \<Rightarrow> int \<times> sync_device" where
  "cam_synx_sync_signal SYNX_STATE_ACTIVE SYNX_STATE_SIGNALED_SUCCESS SYNX_STATE_SIGNALED_ERROR
       sync_obj synx_status d =
     (let sync_status =
        (if synx_status = SYNX_STATE_ACTIVE then CAM_SYNC_STATE_ACTIVE
         else if synx_status = SYNX_STATE_SIGNALED_SUCCESS then CAM_SYNC_STATE_SIGNALED_SUCCESS
         else if synx_status = SYNX_STATE_SIGNALED_ERROR then CAM_SYNC_STATE_SIGNALED_ERROR
         else if synx_status = 4 then CAM_SYNC_STATE_SIGNALED_CANCEL
         else CAM_SYNC_STATE_SIGNALED_ERROR)
      in cam_sync_signal sync_obj sync_status CAM_SYNC_COMMON_EVENT_SYNX d)"

text \<open>
  Binding without the optional synx driver: the results of the calls into the video framework
  and of the allocations are parameters; the new device has all rows zeroed and bit 0 set.
\<close>

definition bound_device :: sync_device where
  "bound_device = \<lparr>sd_table = (\<lambda>_. zero_row),
     sd_bitmap = set_bit_map 0 (bitmap_zero CAM_SYNC_MAX_OBJS (\<lambda>_. False)),
     sd_open_cnt = 0, sd_eventq = False, sd_version = 0, sd_direct = False, sd_log = []\<rparr>"

definition cam_sync_component_bind ::
  "bool \<Rightarrow> bool \<Rightarrow> int \<Rightarrow> int \<Rightarrow> int \<Rightarrow> bool \<Rightarrow> int \<times> sync_device option" where
  "cam_sync_component_bind dev_mem vdev_mem mc_rc v4l2_rc video_rc wq_mem =
     (if \<not> dev_mem then (- ENOMEM, None)
      else if \<not> vdev_mem then (- ENOMEM, None)
      else if mc_rc < 0 then (mc_rc, None)
      else if v4l2_rc < 0 then (v4l2_rc, None)
      else if video_rc < 0 then (video_rc, None)
      else if \<not> wq_mem then (- ENOMEM, None)
      else (video_rc, Some bound_device))"

end
