(* ===== verification/Cam_Sync_Invariant.thy ===== *)
theory Cam_Sync_Invariant imports Cam_Sync begin

text \<open>
  The consistency of the fence table and its preservation by every operation of \<open>Cam_Sync\<close>:
  first what each operation changes, then the invariant, then one preservation lemma per
  operation, and the system of operations with sleeping waiters.
\<close>

section \<open>Row updates\<close>

lemma table_row_upd [simp]: "sd_table (row_upd i f d) j = (if j = i then f (sd_table d i) else sd_table d j)"
  by (simp add: row_upd_def)

lemma row_upd_other [simp]:
  "sd_bitmap (row_upd i f d) = sd_bitmap d" "sd_log (row_upd i f d) = sd_log d"
  "sd_eventq (row_upd i f d) = sd_eventq d" "sd_version (row_upd i f d) = sd_version d"
  "sd_direct (row_upd i f d) = sd_direct d" "sd_open_cnt (row_upd i f d) = sd_open_cnt d"
  by (simp_all add: row_upd_def)

lemma emit_other [simp]:
  "sd_table (emit es d) = sd_table d" "sd_bitmap (emit es d) = sd_bitmap d"
  "sd_eventq (emit es d) = sd_eventq d" "sd_version (emit es d) = sd_version d"
  "sd_log (emit es d) = sd_log d @ es" "sd_open_cnt (emit es d) = sd_open_cnt d"
  "sd_direct (emit es d) = sd_direct d"
  by (simp_all add: emit_def)

text \<open>The event a payload becomes under the version user space subscribed to.\<close>

definition v4l2_ev :: "u32 \<Rightarrow> nat \<Rightarrow> u32 \<Rightarrow> u32 \<Rightarrow> payload \<Rightarrow> sync_ev" where
  "v4l2_ev version obj status cause p =
     (if version = CAM_SYNC_V4L_EVENT_V2
      then Ev_V4l2 CAM_SYNC_V4L_EVENT_V2 CAM_SYNC_V4L_EVENT_ID_CB_TRIG obj status p (Some cause)
      else Ev_V4l2 CAM_SYNC_V4L_EVENT CAM_SYNC_V4L_EVENT_ID_CB_TRIG obj status p None)"

lemma send_v4l2_emit:
  "cam_sync_util_send_v4l2_event CAM_SYNC_V4L_EVENT_ID_CB_TRIG obj status p cause d =
     emit [v4l2_ev (sd_version d) obj status cause p] d"
  by (simp add: cam_sync_util_send_v4l2_event_def v4l2_ev_def)

lemma emit_emit: "emit es (emit es' d) = emit (es' @ es) d"
  by (simp add: emit_def)

lemma emit_Nil [simp]: "emit [] d = d"
  by (simp add: emit_def)

lemma fold_send:
  "fold (\<lambda>p. cam_sync_util_send_v4l2_event CAM_SYNC_V4L_EVENT_ID_CB_TRIG obj status p cause) ps d =
     emit (map (v4l2_ev (sd_version d) obj status cause) ps) d"
  by (induction ps arbitrary: d) (simp_all add: send_v4l2_emit emit_emit)

lemma row_upd_emit: "row_upd i f (emit es d) = emit es (row_upd i f d)"
  by (simp add: row_upd_def emit_def)

lemma row_upd_twice: "row_upd i f (row_upd i g d) = row_upd i (f \<circ> g) d"
  by (simp add: row_upd_def)

text \<open>Dispatching a fence: what is sent, and what becomes of the row.\<close>

definition dispatch_evs :: "nat \<Rightarrow> u32 \<Rightarrow> u32 \<Rightarrow> sync_device \<Rightarrow> sync_ev list" where
  "dispatch_evs obj status cause d =
     map (\<lambda>cb. Ev_Work (cb\<lparr>cb_status := status\<rparr>)) (r_callbacks (sd_table d obj)) @
     (if sd_eventq d then map (v4l2_ev (sd_version d) obj status cause) (r_payloads (sd_table d obj)) else [])"

definition dispatched :: "bool \<Rightarrow> sync_table_row \<Rightarrow> sync_table_row" where
  "dispatched evq r = r\<lparr>r_callbacks := [], r_payloads := (if evq then [] else r_payloads r), r_signaled := True\<rparr>"

lemma dispatch_eq:
  "cam_sync_util_dispatch_signaled_cb obj status cause d =
     (if r_state (sd_table d obj) = CAM_SYNC_STATE_INVALID then d
      else emit (dispatch_evs obj status cause d) (row_upd obj (dispatched (sd_eventq d)) d))"
  by (simp add: cam_sync_util_dispatch_signaled_cb_def Let_def fold_send dispatch_evs_def
      row_upd_emit row_upd_twice emit_emit comp_def dispatched_def [abs_def])

lemma dispatched_simps [simp]:
  "r_state (dispatched b r) = r_state r" "r_type (dispatched b r) = r_type r"
  "r_parents (dispatched b r) = r_parents r" "r_children (dispatched b r) = r_children r"
  "r_remaining (dispatched b r) = r_remaining r" "r_wait_ref_cnt (dispatched b r) = r_wait_ref_cnt r"
  "r_signaled (dispatched b r)" "r_callbacks (dispatched b r) = []" "r_ref_cnt (dispatched b r) = r_ref_cnt r"
  by (simp_all add: dispatched_def)

lemma dispatch_other [simp]:
  "sd_bitmap (cam_sync_util_dispatch_signaled_cb obj st cause d) = sd_bitmap d"
  "sd_eventq (cam_sync_util_dispatch_signaled_cb obj st cause d) = sd_eventq d"
  "sd_version (cam_sync_util_dispatch_signaled_cb obj st cause d) = sd_version d"
  by (simp_all add: dispatch_eq)

lemma clean_one: "clean_entries SYNC_LIST_CLEAN_ONE obj xs = remove1 obj xs"
  by (induction xs) auto

lemma clean_all: "clean_entries SYNC_LIST_CLEAN_ALL obj xs = []"
  by (induction xs) auto

lemmas clean_defs = cam_sync_util_cleanup_parents_list_def cam_sync_util_cleanup_children_list_def
  clean_one clean_all

section \<open>Deinitialisation in closed form\<close>

lemma fold_unlink_child:
  "sd_bitmap (fold (unlink_child idx) cs d) = sd_bitmap d \<and> sd_log (fold (unlink_child idx) cs d) = sd_log d \<and>
   (distinct cs \<longrightarrow> (\<forall>j. sd_table (fold (unlink_child idx) cs d) j =
     (if j \<in> set cs \<and> r_state (sd_table d j) \<noteq> CAM_SYNC_STATE_INVALID
      then (sd_table d j)\<lparr>r_parents := remove1 idx (r_parents (sd_table d j))\<rparr> else sd_table d j)))"
proof (induction cs arbitrary: d)
  case (Cons c cs)
  have *: "sd_bitmap (unlink_child idx c d) = sd_bitmap d" "sd_log (unlink_child idx c d) = sd_log d"
    "sd_table (unlink_child idx c d) j = (if j = c \<and> r_state (sd_table d j) \<noteq> CAM_SYNC_STATE_INVALID
      then (sd_table d j)\<lparr>r_parents := remove1 idx (r_parents (sd_table d j))\<rparr> else sd_table d j)" for j
    by (auto simp: unlink_child_def clean_defs)
  show ?case using Cons [of "unlink_child idx c d"] by (auto simp: *)
qed simp

lemma fold_unlink_parent:
  "sd_bitmap (fold (unlink_parent idx) ps d) = sd_bitmap d \<and> sd_log (fold (unlink_parent idx) ps d) = sd_log d \<and>
   (\<forall>j. \<exists>xs. sd_table (fold (unlink_parent idx) ps d) j = (sd_table d j)\<lparr>r_children := xs\<rparr> \<and>
      set (r_children (sd_table d j)) - {idx} \<subseteq> set xs \<and> set xs \<subseteq> set (r_children (sd_table d j)) \<and>
      (distinct (r_children (sd_table d j)) \<longrightarrow> distinct xs))"
proof (induction ps arbitrary: d)
  case Nil
  show ?case by (auto intro!: exI [of _ "r_children (sd_table d _)"])
next
  case (Cons p ps)
  have *: "sd_bitmap (unlink_parent idx p d) = sd_bitmap d" "sd_log (unlink_parent idx p d) = sd_log d"
    "sd_table (unlink_parent idx p d) j = (if j = p \<and> r_state (sd_table d j) \<noteq> CAM_SYNC_STATE_INVALID
      then (sd_table d j)\<lparr>r_children := remove1 idx (r_children (sd_table d j))\<rparr> else sd_table d j)" for j
    by (auto simp: unlink_parent_def clean_defs)
  show ?case
  proof (intro conjI allI)
    fix j
    obtain xs where "sd_table (fold (unlink_parent idx) ps (unlink_parent idx p d)) j =
        (sd_table (unlink_parent idx p d) j)\<lparr>r_children := xs\<rparr>"
      "set (r_children (sd_table (unlink_parent idx p d) j)) - {idx} \<subseteq> set xs"
      "set xs \<subseteq> set (r_children (sd_table (unlink_parent idx p d) j))"
      "distinct (r_children (sd_table (unlink_parent idx p d) j)) \<longrightarrow> distinct xs"
      using Cons by blast
    then show "\<exists>xs. sd_table (fold (unlink_parent idx) (p # ps) d) j = (sd_table d j)\<lparr>r_children := xs\<rparr> \<and>
      set (r_children (sd_table d j)) - {idx} \<subseteq> set xs \<and> set xs \<subseteq> set (r_children (sd_table d j)) \<and>
      (distinct (r_children (sd_table d j)) \<longrightarrow> distinct xs)"
      using set_remove1_subset [of idx "r_children (sd_table d j)"]
        set_remove1_lower [of "r_children (sd_table d j)" idx]
      by (intro exI [of _ xs]) (simp add: * split: if_splits, blast+)
  qed (use Cons [of "unlink_parent idx p d"] in \<open>simp_all add: *\<close>)
qed

lemma deinit_closed:
  assumes "0 < idx" "idx < 2048" "distinct (r_children (sd_table d idx))"
    and "r_state (sd_table d idx) = CAM_SYNC_STATE_INVALID"
  shows "fst (cam_sync_deinit_object idx d) = 0"
    and "sd_bitmap (snd (cam_sync_deinit_object idx d)) = (sd_bitmap d)(idx := False)"
    and "sd_table (snd (cam_sync_deinit_object idx d)) idx = zero_row"
    and "j \<noteq> idx \<Longrightarrow> \<exists>xs. sd_table (snd (cam_sync_deinit_object idx d)) j =
      (sd_table d j)\<lparr>r_children := xs,
         r_parents := (if j \<in> set (r_children (sd_table d idx)) \<and> 0 < j \<and>
                          r_state (sd_table d j) \<noteq> CAM_SYNC_STATE_INVALID
                       then remove1 idx (r_parents (sd_table d j)) else r_parents (sd_table d j))\<rparr> \<and>
      set (r_children (sd_table d j)) - {idx} \<subseteq> set xs \<and> set xs \<subseteq> set (r_children (sd_table d j)) \<and>
      (distinct (r_children (sd_table d j)) \<longrightarrow> distinct xs)"
proof -
  let ?cs = "filter (\<lambda>c. 0 < c) (r_children (sd_table d idx))"
  let ?ps = "filter (\<lambda>p. 0 < p) (r_parents (sd_table d idx))"
  define d1 where "d1 = row_upd idx (\<lambda>r. r\<lparr>r_children := filter (\<lambda>c. \<not> 0 < c) (r_children r),
                                    r_parents := filter (\<lambda>p. \<not> 0 < p) (r_parents r)\<rparr>) d"
  define d3 where "d3 = fold (unlink_parent idx) ?ps (fold (unlink_child idx) ?cs d1)"
  have eq: "cam_sync_deinit_object idx d = (0,
      let d6 = row_upd idx (\<lambda>_. zero_row)
        (emit (map (v4l2_ev (sd_version d3) idx CAM_SYNC_STATE_SIGNALED_CANCEL CAM_SYNC_COMMON_SYNC_SIGNAL_EVENT)
                 (r_payloads (sd_table d3 idx)) @
               map (\<lambda>cb. Ev_Work (cb\<lparr>cb_status := CAM_SYNC_STATE_SIGNALED_CANCEL\<rparr>)) (r_callbacks (sd_table d3 idx))) d3)
      in d6\<lparr>sd_bitmap := clear_bit_map idx (sd_bitmap d6)\<rparr>)"
    using assms(1,2) by (simp add: cam_sync_deinit_object_def Let_def fold_send d1_def d3_def emit_emit)
  show "fst (cam_sync_deinit_object idx d) = 0" by (simp add: eq)
  have bm: "sd_bitmap d3 = sd_bitmap d"
    using fold_unlink_child [of idx ?cs d1] fold_unlink_parent [of idx ?ps "fold (unlink_child idx) ?cs d1"]
    by (simp add: d1_def d3_def)
  show "sd_bitmap (snd (cam_sync_deinit_object idx d)) = (sd_bitmap d)(idx := False)"
    by (simp add: eq Let_def bm clear_bit_map_def)
  show "sd_table (snd (cam_sync_deinit_object idx d)) idx = zero_row"
    by (simp add: eq Let_def)
  show "\<exists>xs. sd_table (snd (cam_sync_deinit_object idx d)) j =
      (sd_table d j)\<lparr>r_children := xs,
         r_parents := (if j \<in> set (r_children (sd_table d idx)) \<and> 0 < j \<and>
                          r_state (sd_table d j) \<noteq> CAM_SYNC_STATE_INVALID
                       then remove1 idx (r_parents (sd_table d j)) else r_parents (sd_table d j))\<rparr> \<and>
      set (r_children (sd_table d j)) - {idx} \<subseteq> set xs \<and> set xs \<subseteq> set (r_children (sd_table d j)) \<and>
      (distinct (r_children (sd_table d j)) \<longrightarrow> distinct xs)" if "j \<noteq> idx"
  proof -
    have c: "sd_table (fold (unlink_child idx) ?cs d1) j =
       (if j \<in> set ?cs \<and> r_state (sd_table d j) \<noteq> CAM_SYNC_STATE_INVALID
        then (sd_table d j)\<lparr>r_parents := remove1 idx (r_parents (sd_table d j))\<rparr> else sd_table d j)"
      using fold_unlink_child [of idx ?cs d1] assms(3) that by (simp add: d1_def)
    obtain xs where "sd_table d3 j = (sd_table (fold (unlink_child idx) ?cs d1) j)\<lparr>r_children := xs\<rparr>"
      "set (r_children (sd_table (fold (unlink_child idx) ?cs d1) j)) - {idx} \<subseteq> set xs"
      "set xs \<subseteq> set (r_children (sd_table (fold (unlink_child idx) ?cs d1) j))"
      "distinct (r_children (sd_table (fold (unlink_child idx) ?cs d1) j)) \<longrightarrow> distinct xs"
      using fold_unlink_parent [of idx ?ps "fold (unlink_child idx) ?cs d1"] unfolding d3_def by blast
    then show ?thesis using that by (intro exI [of _ xs]) (auto simp: c eq Let_def split: if_splits)
  qed
qed

section \<open>Merging in closed form\<close>

definition is_active :: "sync_device \<Rightarrow> nat \<Rightarrow> bool" where
  "is_active d c \<longleftrightarrow> r_state (sd_table d c) = CAM_SYNC_STATE_ACTIVE"

text \<open>The state of a group over its members: that of the last one in error or cancel, else active.\<close>

definition group_state :: "sync_device \<Rightarrow> nat list \<Rightarrow> u32 \<Rightarrow> u32" where
  "group_state d cs st =
     fold (\<lambda>c st. if r_state (sd_table d c) = CAM_SYNC_STATE_SIGNALED_ERROR \<or>
                     r_state (sd_table d c) = CAM_SYNC_STATE_SIGNALED_CANCEL
                  then r_state (sd_table d c) else st) cs st"

definition linked :: "nat \<Rightarrow> nat list \<Rightarrow> sync_device \<Rightarrow> nat \<Rightarrow> sync_table_row" where
  "linked idx cs d j =
     (if j \<in> set cs \<and> is_active d j then (sd_table d j)\<lparr>r_parents := r_parents (sd_table d j) @ [idx]\<rparr>
      else sd_table d j)"

lemma group_state_cong:
  "(\<And>c. c \<in> set cs \<Longrightarrow> r_state (sd_table d c) = r_state (sd_table d' c)) \<Longrightarrow> group_state d cs st = group_state d' cs st"
  unfolding group_state_def by (rule fold_cong) auto

lemma is_active_cong: "r_state (sd_table d c) = r_state (sd_table d' c) \<Longrightarrow> is_active d c = is_active d' c"
  by (simp add: is_active_def)

definition same_rest :: "sync_device \<Rightarrow> sync_device \<Rightarrow> bool" where
  "same_rest d d' \<longleftrightarrow> sd_bitmap d' = sd_bitmap d \<and> sd_log d' = sd_log d \<and> sd_eventq d' = sd_eventq d \<and>
     sd_version d' = sd_version d \<and> sd_direct d' = sd_direct d \<and> sd_open_cnt d' = sd_open_cnt d"

lemma same_rest_trans: "same_rest d d1 \<Longrightarrow> same_rest d1 d2 \<Longrightarrow> same_rest d d2"
  by (simp add: same_rest_def)

lemma same_rest_upd [simp]: "same_rest d (row_upd i f d')  = same_rest d d'" "same_rest (row_upd i f d) d' = same_rest d d'"
  "same_rest d d"
  by (simp_all add: same_rest_def)

definition grouped :: "nat list \<Rightarrow> sync_device \<Rightarrow> sync_table_row \<Rightarrow> sync_table_row" where
  "grouped cs d r = r\<lparr>r_state := group_state d cs (r_state r),
     r_remaining := r_remaining r + of_nat (length (filter (is_active d) cs)),
     r_children := r_children r @ filter (is_active d) cs\<rparr>"

lemma not_group [simp]: "t \<noteq> SYNC_TYPE_GROUP \<longleftrightarrow> t = SYNC_TYPE_INDV"
  by (cases t) simp_all

text \<open>One successful iteration of the loop over the members.\<close>

definition add_member :: "nat \<Rightarrow> nat \<Rightarrow> sync_device \<Rightarrow> sync_device" where
  "add_member idx c d =
     (let st = r_state (sd_table d c) in
      if st = CAM_SYNC_STATE_SIGNALED_ERROR \<or> st = CAM_SYNC_STATE_SIGNALED_CANCEL
      then row_upd idx (\<lambda>r. r\<lparr>r_state := st\<rparr>) d
      else if st \<noteq> CAM_SYNC_STATE_ACTIVE then d
      else row_upd c (\<lambda>r. r\<lparr>r_parents := r_parents r @ [idx]\<rparr>)
             (row_upd idx (\<lambda>r. r\<lparr>r_children := r_children r @ [c]\<rparr>)
               (row_upd idx (\<lambda>r. r\<lparr>r_remaining := r_remaining r + 1\<rparr>) d)))"

lemma add_member_facts:
  assumes "c \<noteq> idx"
  shows "same_rest d' (add_member idx c d) = same_rest d' d" "same_rest (add_member idx c d) d' = same_rest d d'"
    and "j \<noteq> idx \<Longrightarrow> sd_table (add_member idx c d) j = linked idx [c] d j"
    and "sd_table (add_member idx c d) idx = grouped [c] d (sd_table d idx)"
  using assms by (simp_all add: add_member_def linked_def is_active_def grouped_def group_state_def Let_def)

lemma linked_simps [simp]:
  "r_state (linked idx cs d j) = r_state (sd_table d j)" "r_type (linked idx cs d j) = r_type (sd_table d j)"
  "r_children (linked idx cs d j) = r_children (sd_table d j)"
  "r_remaining (linked idx cs d j) = r_remaining (sd_table d j)"
  "r_signaled (linked idx cs d j) = r_signaled (sd_table d j)"
  "r_wait_ref_cnt (linked idx cs d j) = r_wait_ref_cnt (sd_table d j)"
  by (simp_all add: linked_def)

lemma add_member_step:
  assumes "c \<noteq> idx" "c \<notin> set cs" "idx \<notin> set cs"
  shows "j \<noteq> idx \<Longrightarrow> linked idx cs (add_member idx c d) j = linked idx (c # cs) d j"
    and "grouped cs (add_member idx c d) (sd_table (add_member idx c d) idx) = grouped (c # cs) d (sd_table d idx)"
proof -
  have st: "r_state (sd_table (add_member idx c d) x) = r_state (sd_table d x)" if "x \<noteq> idx" for x
    using that by (simp add: add_member_facts [OF assms(1)])
  show "linked idx cs (add_member idx c d) j = linked idx (c # cs) d j" if "j \<noteq> idx"
    using that assms by (auto simp: linked_def is_active_def st add_member_facts(3) [OF assms(1)])
  have "filter (is_active (add_member idx c d)) cs = filter (is_active d) cs"
  proof (intro filter_cong refl)
    fix x
    assume "x \<in> set cs"
    with assms(3) have "x \<noteq> idx" by blast
    then show "is_active (add_member idx c d) x = is_active d x" by (simp add: is_active_def st)
  qed
  moreover have "group_state (add_member idx c d) cs x = group_state d cs x" for x
    using assms(3) by (intro group_state_cong st) auto
  ultimately show "grouped cs (add_member idx c d) (sd_table (add_member idx c d) idx)
      = grouped (c # cs) d (sd_table d idx)"
    by (simp add: add_member_facts(4) [OF assms(1)] grouped_def) (simp add: group_state_def)
qed

lemma group_members_Cons:
  "group_members mem idx i (c # cs) d =
     (if r_type (sd_table d c) = SYNC_TYPE_GROUP \<or> r_state (sd_table d c) = CAM_SYNC_STATE_INVALID
      then (Some (- EINVAL, i), d)
      else if is_active d c \<and> \<not> fst (mem i)
      then (Some (- ENOMEM, i), row_upd idx (\<lambda>r. r\<lparr>r_remaining := r_remaining r + 1\<rparr>) d)
      else if is_active d c \<and> \<not> snd (mem i)
      then (Some (- ENOMEM, i), row_upd idx (\<lambda>r. r\<lparr>r_children := r_children r @ [c]\<rparr>)
                                  (row_upd idx (\<lambda>r. r\<lparr>r_remaining := r_remaining r + 1\<rparr>) d))
      else group_members mem idx (Suc i) cs (add_member idx c d))"
  by (simp add: add_member_def is_active_def Let_def)

lemma group_members_ok:
  assumes "idx \<notin> set cs" "distinct cs" "group_members mem idx i cs d = (None, d')"
  shows "same_rest d d' \<and>
    (\<forall>c \<in> set cs. r_type (sd_table d c) = SYNC_TYPE_INDV \<and> r_state (sd_table d c) \<noteq> CAM_SYNC_STATE_INVALID) \<and>
    (\<forall>j. sd_table d' j = (if j = idx then grouped cs d (sd_table d idx) else linked idx cs d j))"
  using assms
proof (induction cs arbitrary: i d)
  case Nil
  then show ?case by (simp add: grouped_def linked_def group_state_def)
next
  case (Cons c cs)
  have ne: "c \<noteq> idx" "c \<notin> set cs" "idx \<notin> set cs" "distinct cs" using Cons.prems by auto
  have ok: "r_type (sd_table d c) = SYNC_TYPE_INDV" "r_state (sd_table d c) \<noteq> CAM_SYNC_STATE_INVALID"
    and rec: "group_members mem idx (Suc i) cs (add_member idx c d) = (None, d')"
    using Cons.prems(3) by (auto simp: group_members_Cons simp del: group_members.simps split: if_splits)
  have st: "r_state (sd_table (add_member idx c d) x) = r_state (sd_table d x)"
    "r_type (sd_table (add_member idx c d) x) = r_type (sd_table d x)" if "x \<noteq> idx" for x
    using that by (simp_all add: add_member_facts [OF ne(1)])
  note IH = Cons.IH [OF ne(3,4) rec]
  from IH have "\<forall>x\<in>set (c # cs). r_type (sd_table d x) = SYNC_TYPE_INDV \<and> r_state (sd_table d x) \<noteq> CAM_SYNC_STATE_INVALID"
    using ok st ne(3) by (metis set_ConsD)
  with IH show ?case
    by (simp add: add_member_facts(1,2) [OF ne(1)] add_member_step [OF ne(1-3)])
qed

lemma group_members_fail:
  assumes "idx \<notin> set cs" "distinct cs" "group_members mem idx i cs d = (Some (rc, k), d')"
  shows "same_rest d d' \<and> rc < 0 \<and> i \<le> k \<and> k < i + length cs \<and>
    (\<forall>j. j \<noteq> idx \<longrightarrow> sd_table d' j = linked idx (take (k - i) cs) d j)"
  using assms
proof (induction cs arbitrary: i d)
  case Nil
  then show ?case by simp
next
  case (Cons c cs)
  have ne: "c \<noteq> idx" "c \<notin> set cs" "idx \<notin> set cs" "distinct cs" using Cons.prems by auto
  consider (now) "rc < 0" "k = i" "same_rest d d'" "\<forall>j. j \<noteq> idx \<longrightarrow> sd_table d' j = sd_table d j"
    | (later) "group_members mem idx (Suc i) cs (add_member idx c d) = (Some (rc, k), d')"
    using Cons.prems(3) by (auto simp: group_members_Cons simp del: group_members.simps split: if_splits)
  then show ?case
  proof cases
    case now
    then show ?thesis by (simp add: linked_def)
  next
    case later
    note IH = Cons.IH [OF ne(3,4) later]
    have "c \<notin> set (take n cs)" "idx \<notin> set (take n cs)" for n
      using ne by (auto dest: in_set_takeD)
    moreover have "take (k - i) (c # cs) = c # take (k - Suc i) cs" using IH by (simp add: take_Cons')
    ultimately show ?thesis using IH
      by (simp add: add_member_facts(1,2) [OF ne(1)] add_member_step(1) [OF ne(1)])
  qed
qed

text \<open>The cleanup of a failed merge takes back exactly the links made.\<close>

lemma cleanup_linked:
  assumes "distinct cs" "idx \<notin> set cs" "\<forall>c \<in> set cs. idx \<notin> set (r_parents (sd_table d c))"
    and "\<forall>j. j \<noteq> idx \<longrightarrow> sd_table d' j = linked idx cs d j"
  shows "(\<forall>j. j \<noteq> idx \<longrightarrow> sd_table (fold (\<lambda>c. row_upd c (cam_sync_util_cleanup_parents_list SYNC_LIST_CLEAN_ONE idx))
            (rev cs) d') j = sd_table d j) \<and>
    sd_table (fold (\<lambda>c. row_upd c (cam_sync_util_cleanup_parents_list SYNC_LIST_CLEAN_ONE idx)) (rev cs) d') idx
      = sd_table d' idx"
proof -
  have *: "sd_table (fold (\<lambda>c. row_upd c (cam_sync_util_cleanup_parents_list SYNC_LIST_CLEAN_ONE idx)) xs e) j =
     (if j \<in> set xs then (sd_table e j)\<lparr>r_parents := remove1 idx (r_parents (sd_table e j))\<rparr> else sd_table e j)"
    if "distinct xs" for xs e j
    using that by (induction xs arbitrary: e) (auto simp: clean_defs)
  show ?thesis
    using assms by (auto simp: * linked_def remove1_append remove1_idem)
qed

lemma fold_row_upd_rest: "same_rest d (fold (\<lambda>c. row_upd c (f c)) xs d') = same_rest d d'"
  by (induction xs arbitrary: d') simp_all

section \<open>The invariant\<close>

abbreviation valid :: "sync_device \<Rightarrow> nat \<Rightarrow> bool" where
  "valid d i \<equiv> r_state (sd_table d i) \<noteq> CAM_SYNC_STATE_INVALID"

text \<open>The members of group \<open>p\<close> that still link to it.\<close>

definition pend :: "sync_device \<Rightarrow> nat \<Rightarrow> nat set" where
  "pend d p = {c. valid d c \<and> p \<in> set (r_parents (sd_table d c))}"

definition link_ok :: "sync_device \<Rightarrow> nat \<Rightarrow> nat \<Rightarrow> bool" where
  "link_ok d c p \<longleftrightarrow> r_state (sd_table d c) = CAM_SYNC_STATE_ACTIVE \<and>
     r_type (sd_table d c) = SYNC_TYPE_INDV \<and> r_type (sd_table d p) = SYNC_TYPE_GROUP \<and>
     c \<in> set (r_children (sd_table d p)) \<and> sd_bitmap d p \<and> 0 < p \<and> p < CAM_SYNC_MAX_OBJS"

definition valid_ok :: "sync_device \<Rightarrow> nat \<Rightarrow> bool" where
  "valid_ok d i \<longleftrightarrow> 0 < i \<and> i < CAM_SYNC_MAX_OBJS \<and> sd_bitmap d i \<and>
     (r_state (sd_table d i) = CAM_SYNC_STATE_ACTIVE \<or> is_signaled_state (r_state (sd_table d i))) \<and>
     (r_signaled (sd_table d i) \<longleftrightarrow>
        (if r_type (sd_table d i) = SYNC_TYPE_GROUP then r_remaining (sd_table d i) = 0
         else r_state (sd_table d i) \<noteq> CAM_SYNC_STATE_ACTIVE))"

text \<open>
  \<open>extra p\<close>: decrements of the counter of group \<open>p\<close> that are due although the link is gone, as
  in the middle of a signal.
\<close>

definition group_ok :: "(nat \<Rightarrow> nat) \<Rightarrow> sync_device \<Rightarrow> nat \<Rightarrow> bool" where
  "group_ok extra d p \<longleftrightarrow> card (pend d p) + extra p \<le> unat (r_remaining (sd_table d p)) \<and>
     (r_remaining (sd_table d p) = 0 \<longrightarrow> is_signaled_state (r_state (sd_table d p)))"

definition sync_inv_with :: "(nat \<Rightarrow> nat) \<Rightarrow> sync_device \<Rightarrow> bool" where
  "sync_inv_with extra d \<longleftrightarrow> sd_bitmap d 0 \<and>
     (\<forall>i. distinct (r_children (sd_table d i))) \<and>
     (\<forall>i. valid d i \<longrightarrow> valid_ok d i \<and> distinct (r_parents (sd_table d i)) \<and>
        (\<forall>p \<in> set (r_parents (sd_table d i)). link_ok d i p)) \<and>
     (\<forall>p. valid d p \<and> r_type (sd_table d p) = SYNC_TYPE_GROUP \<longrightarrow> group_ok extra d p)"

abbreviation sync_inv :: "sync_device \<Rightarrow> bool" where
  "sync_inv \<equiv> sync_inv_with (\<lambda>_. 0)"

text \<open>The part of the device the invariant reads.\<close>

definition core_eq :: "sync_device \<Rightarrow> sync_device \<Rightarrow> bool" where
  "core_eq d d' \<longleftrightarrow> sd_bitmap d = sd_bitmap d' \<and>
     (\<forall>i. r_type (sd_table d i) = r_type (sd_table d' i) \<and> r_state (sd_table d i) = r_state (sd_table d' i) \<and>
          r_parents (sd_table d i) = r_parents (sd_table d' i) \<and>
          r_children (sd_table d i) = r_children (sd_table d' i) \<and>
          r_remaining (sd_table d i) = r_remaining (sd_table d' i) \<and>
          r_signaled (sd_table d i) = r_signaled (sd_table d' i))"

lemma sync_inv_cong: "core_eq d d' \<Longrightarrow> sync_inv_with extra d = sync_inv_with extra d'"
proof -
  assume c: "core_eq d d'"
  then have "pend d = pend d'" by (simp add: core_eq_def pend_def fun_eq_iff)
  with c show ?thesis
    by (simp add: core_eq_def sync_inv_with_def valid_ok_def link_ok_def group_ok_def)
qed

lemma core_eq_emit [simp]: "core_eq d (emit es d') = core_eq d d'" "core_eq (emit es d) d' = core_eq d d'"
  by (simp_all add: core_eq_def)

lemma core_eq_refl [simp]: "core_eq d d"
  by (simp add: core_eq_def)

lemma core_eq_upd:
  "(\<And>r. r_type (f r) = r_type r \<and> r_state (f r) = r_state r \<and> r_parents (f r) = r_parents r \<and>
       r_children (f r) = r_children r \<and> r_remaining (f r) = r_remaining r \<and> r_signaled (f r) = r_signaled r) \<Longrightarrow>
   core_eq d (row_upd i f d)"
  by (simp add: core_eq_def)

lemma pend_finite: "sync_inv_with e d \<Longrightarrow> finite (pend d p)"
  by (rule finite_subset [of _ "{..<2048}"]) (auto simp: pend_def sync_inv_with_def valid_ok_def)

lemma pend_iff: "c \<in> pend d p \<longleftrightarrow> valid d c \<and> p \<in> set (r_parents (sd_table d c))"
  by (simp add: pend_def)

lemma inv_valid: "sync_inv_with e d \<Longrightarrow> valid d i \<Longrightarrow> valid_ok d i"
  by (simp add: sync_inv_with_def)

lemma inv_link: "sync_inv_with e d \<Longrightarrow> valid d c \<Longrightarrow> p \<in> set (r_parents (sd_table d c)) \<Longrightarrow> link_ok d c p"
  by (simp add: sync_inv_with_def)

lemma inv_parents_distinct: "sync_inv_with e d \<Longrightarrow> valid d c \<Longrightarrow> distinct (r_parents (sd_table d c))"
  by (simp add: sync_inv_with_def)

lemma inv_group: "sync_inv_with e d \<Longrightarrow> valid d p \<Longrightarrow> r_type (sd_table d p) = SYNC_TYPE_GROUP \<Longrightarrow> group_ok e d p"
  by (simp add: sync_inv_with_def)

lemma inv_children: "sync_inv_with e d \<Longrightarrow> distinct (r_children (sd_table d i))"
  by (simp add: sync_inv_with_def)

text \<open>A row whose bit is clear is invalid and nobody's parent.\<close>

lemma fresh_row:
  assumes "sync_inv_with e d" "\<not> sd_bitmap d idx"
  shows "\<not> valid d idx" "valid d c \<Longrightarrow> idx \<notin> set (r_parents (sd_table d c))" "0 < idx"
  using assms inv_valid [OF assms(1), of idx] inv_link [OF assms(1), of c idx]
  by (auto simp: valid_ok_def link_ok_def) (cases "idx = 0"; simp add: sync_inv_with_def)

section \<open>Preservation\<close>

text \<open>A new row \<open>R\<close> at a free index, linked to the active individual fences \<open>act\<close>.\<close>

lemma install_row_inv:
  assumes inv: "sync_inv d" and fresh: "\<not> sd_bitmap d idx" "idx < 2048"
    and bm: "sd_bitmap d' = (sd_bitmap d)(idx := True)"
    and others: "\<And>j. j \<noteq> idx \<Longrightarrow> sd_table d' j = linked idx act d j"
    and act: "distinct act" "\<And>c. c \<in> set act \<Longrightarrow> is_active d c \<and> r_type (sd_table d c) = SYNC_TYPE_INDV"
    and R: "r_parents (sd_table d' idx) = []" "r_children (sd_table d' idx) = act"
      "r_state (sd_table d' idx) = CAM_SYNC_STATE_ACTIVE \<or> is_signaled_state (r_state (sd_table d' idx))"
      "r_remaining (sd_table d' idx) = of_nat (length act)"
    and kind: "r_type (sd_table d' idx) = SYNC_TYPE_INDV \<and> act = [] \<and>
        (r_signaled (sd_table d' idx) \<longleftrightarrow> r_state (sd_table d' idx) \<noteq> CAM_SYNC_STATE_ACTIVE) \<or>
      r_type (sd_table d' idx) = SYNC_TYPE_GROUP \<and> (r_signaled (sd_table d' idx) \<longleftrightarrow> act = []) \<and>
        (act = [] \<longrightarrow> is_signaled_state (r_state (sd_table d' idx)))"
  shows "sync_inv d'"
proof -
  note fr = fresh_row [OF inv fresh(1)]
  have sub: "set act \<subseteq> {..<2048}"
    using act(2) inv_valid [OF inv] by (force simp: is_active_def valid_ok_def)
  have len: "length act \<le> 2048"
    using card_mono [OF finite_lessThan sub] distinct_card [OF act(1)] by simp
  then have rem: "unat (r_remaining (sd_table d' idx)) = length act"
    by (simp add: R(4) unat_of_nat_u32)
  then have rem0: "r_remaining (sd_table d' idx) = 0 \<longleftrightarrow> act = []"
    by (metis length_0_conv unat_eq_0)
  have idx_act: "idx \<notin> set act" using act(2) fr(1) by (auto simp: is_active_def)
  have val: "valid d' j = valid d j" if "j \<noteq> idx" for j using that by (simp add: others)
  have par: "set (r_parents (sd_table d' j)) =
      (if j \<in> set act then insert idx (set (r_parents (sd_table d j))) else set (r_parents (sd_table d j)))"
    if "j \<noteq> idx" for j using that act(2) by (auto simp: others linked_def)
  have mem: "c \<in> pend d' p \<longleftrightarrow> c \<noteq> idx \<and> valid d c \<and>
      (p \<in> set (r_parents (sd_table d c)) \<or> c \<in> set act \<and> p = idx)" for c p
    using R(1) val [of c] par [of c] by (cases "c = idx") (auto simp: pend_def)
  have pend_other: "pend d' p = pend d p" if "p \<noteq> idx" for p
    using that fr(1) by (intro set_eqI) (auto simp: mem pend_iff [of _ d])
  have pend_idx: "pend d' idx = set act"
    using fr(2) act(2) idx_act by (auto simp: mem is_active_def)
  have row: "valid_ok d' i \<and> distinct (r_parents (sd_table d' i)) \<and> (\<forall>p\<in>set (r_parents (sd_table d' i)). link_ok d' i p)"
    if v: "valid d' i" for i
  proof (cases "i = idx")
    case True
    then show ?thesis using R kind fr(3) fresh(2) by (auto simp: valid_ok_def bm rem0)
  next
    case False
    then have vd: "valid d i" using v val by simp
    have "valid_ok d' i" using inv_valid [OF inv vd] False by (simp add: valid_ok_def others bm)
    moreover have "distinct (r_parents (sd_table d' i))"
      using inv_parents_distinct [OF inv vd] fr(2) [OF vd] False by (simp add: others linked_def)
    moreover have "link_ok d' i p" if "p \<in> set (r_parents (sd_table d' i))" for p
    proof (cases "p = idx")
      case True
      then have "i \<in> set act" using that par [OF False] fr(2) [OF vd] by (auto split: if_splits)
      with True False act(2) R(2) kind fr(3) fresh(2) show ?thesis
        by (auto simp: link_ok_def others bm is_active_def)
    next
      case pn: False
      then have "link_ok d i p" using that par [OF False] inv_link [OF inv vd] by (auto split: if_splits)
      with False pn show ?thesis by (simp add: link_ok_def others bm)
    qed
    ultimately show ?thesis by blast
  qed
  have "group_ok (\<lambda>_. 0) d' p" if "valid d' p" "r_type (sd_table d' p) = SYNC_TYPE_GROUP" for p
  proof (cases "p = idx")
    case True
    with that kind rem rem0 distinct_card [OF act(1)] show ?thesis
      by (auto simp: group_ok_def pend_idx)
  next
    case False
    with that inv_group [OF inv, of p] val show ?thesis by (simp add: group_ok_def pend_other others)
  qed
  moreover have "distinct (r_children (sd_table d' i))" for i
    using act(1) R(2) inv_children [OF inv] others by (cases "i = idx") auto
  moreover have "sd_bitmap d' 0" using inv by (simp add: bm sync_inv_with_def)
  ultimately show ?thesis using row by (simp add: sync_inv_with_def)
qed

text \<open>A change confined to a row that is free before and after.\<close>

lemma free_row_inv:
  assumes inv: "sync_inv d" and free: "\<not> sd_bitmap d idx"
    and "sd_bitmap d' = sd_bitmap d" "\<And>j. j \<noteq> idx \<Longrightarrow> sd_table d' j = sd_table d j"
    and "\<not> valid d' idx" "distinct (r_children (sd_table d' idx))"
  shows "sync_inv d'"
proof -
  note fr = fresh_row [OF inv free]
  have val: "valid d' j = valid d j" for j using assms(4,5) fr(1) by (cases "j = idx") auto
  have same: "sd_table d' j = sd_table d j" if "valid d j" for j
  proof -
    have "j \<noteq> idx" using that fr(1) by auto
    then show ?thesis by (rule assms(4))
  qed
  have pend: "pend d' p = pend d p" for p
    using val same by (auto simp: pend_def)
  have link: "link_ok d' c p" if "valid d c" "p \<in> set (r_parents (sd_table d c))" for c p
  proof -
    have "p \<noteq> idx" using fr(2) that by blast
    with inv_link [OF inv that] show ?thesis
      by (simp add: link_ok_def same [OF that(1)] assms(3,4))
  qed
  have ch: "distinct (r_children (sd_table d' i))" for i
    using inv_children [OF inv] assms(4,6) by (cases "i = idx") auto
  have row: "valid_ok d' i \<and> distinct (r_parents (sd_table d' i)) \<and> (\<forall>p\<in>set (r_parents (sd_table d' i)). link_ok d' i p)"
    if "valid d' i" for i
  proof -
    have v: "valid d i" using that val by simp
    with inv_valid [OF inv v] inv_parents_distinct [OF inv v] link [OF v] show ?thesis
      by (simp add: same [OF v] valid_ok_def assms(3))
  qed
  have grp: "group_ok (\<lambda>_. 0) d' p" if "valid d' p" "r_type (sd_table d' p) = SYNC_TYPE_GROUP" for p
  proof -
    have v: "valid d p" using that val by simp
    with that inv_group [OF inv v] show ?thesis by (simp add: group_ok_def pend same [OF v])
  qed
  show ?thesis using row grp ch inv assms(3) by (simp add: sync_inv_with_def)
qed

lemma reserve_none: "reserve_row [] bm = (None, bm') \<Longrightarrow> bm' = bm \<and> (\<forall>i<2048. bm i)"
  by (auto simp: Let_def find_first_zero_bit_ge split: if_splits)

lemma reserve_some:
  "reserve_row [] bm = (Some idx, bm') \<Longrightarrow>
     idx < 2048 \<and> \<not> bm idx \<and> bm' = bm(idx := True) \<and> (\<forall>j<idx. bm j)"
  by (auto simp: Let_def test_and_set_bit_def not_le find_first_zero_bit_clear
      dest: find_first_zero_bit_below split: if_splits)

lemma linked_Nil [simp]: "linked idx [] d j = sd_table d j"
  by (simp add: linked_def)

lemma bitmap_upd [simp]: "sd_table (d\<lparr>sd_bitmap := bm\<rparr>) = sd_table d"
  by simp

lemma cam_sync_create_cases:
  assumes inv: "sync_inv d"
  obtains (full) "cam_sync_create [] nm d = (- ENOMEM, None, d)" "\<forall>i<2048. sd_bitmap d i"
  | (ok) idx where "0 < idx" "idx < 2048" "\<not> sd_bitmap d idx" "\<forall>j<idx. sd_bitmap d j"
      "cam_sync_create [] nm d = (0, Some idx,
         row_upd idx (\<lambda>_. zero_row\<lparr>r_name := take 62 nm, r_type := SYNC_TYPE_INDV, r_sync_id := idx,
           r_state := CAM_SYNC_STATE_ACTIVE, r_remaining := 0, r_ref_cnt := 0, r_wait_ref_cnt := 1\<rparr>)
           (d\<lparr>sd_bitmap := (sd_bitmap d)(idx := True)\<rparr>))"
proof -
  obtain r bm where r: "reserve_row [] (sd_bitmap d) = (r, bm)" by fastforce
  show thesis
  proof (cases r)
    case None
    with r reserve_none [of "sd_bitmap d" bm] show thesis
      by (intro full) (simp_all add: cam_sync_create_def)
  next
    case (Some idx)
    with r reserve_some [of "sd_bitmap d" idx bm] have s: "idx < 2048" "\<not> sd_bitmap d idx"
      "bm = (sd_bitmap d)(idx := True)" "\<forall>j<idx. sd_bitmap d j" by auto
    with fresh_row(3) [OF inv s(2)] r Some show thesis
      by (intro ok [of idx]) (simp_all add: cam_sync_create_def cam_sync_init_row_def)
  qed
qed

lemma create_inv:
  assumes inv: "sync_inv d"
  shows "sync_inv (snd (snd (cam_sync_create [] nm d)))"
  using inv
proof (cases rule: cam_sync_create_cases [of d nm])
  case (ok idx)
  show ?thesis
    unfolding ok(5) snd_conv
    by (rule install_row_inv [OF inv ok(3,2), of _ "[]"]) (simp_all add: zero_row_def)
qed (use inv in simp)

text \<open>Merging: success installs the group row, failure leaves every other row as it was.\<close>

lemma check_all_valid_ok: "check_all_valid objs d = 0 \<Longrightarrow> s \<in> set objs \<Longrightarrow>
    0 < s \<and> s < 2048 \<and> sd_bitmap d (nat s) \<and> valid d (nat s)"
  by (induction objs) (auto simp: Let_def cam_sync_check_valid_def split: if_splits)

lemma dedup_full:
  assumes "1 \<le> length objs"
  shows "fst (cam_common_util_remove_duplicate_arr (Some objs) (length objs)) = length objs \<longleftrightarrow> distinct objs"
proof -
  have "take 1 objs = firsts (take 1 objs)" using assms by (cases objs) (simp_all add: firsts_def)
  then obtain ys where "dedup_loop (length objs) 1 1 objs = (card (set objs), ys)"
    using dedup_loop_correct [of 1 "length objs" objs objs 1] assms by auto
  then show ?thesis
    using card_distinct [of objs] distinct_card [of objs] by (auto simp: cam_common_util_remove_duplicate_arr_def)
qed

definition merged_row :: "nat \<Rightarrow> nat list \<Rightarrow> sync_device \<Rightarrow> sync_table_row" where
  "merged_row idx cs d =
     (let act = filter (is_active d) cs; st = group_state d cs CAM_SYNC_STATE_ACTIVE in
      zero_row\<lparr>r_name := take 62 ''merged_fence'', r_type := SYNC_TYPE_GROUP, r_sync_id := idx,
        r_state := (if act = [] \<and> st = CAM_SYNC_STATE_ACTIVE then CAM_SYNC_STATE_SIGNALED_SUCCESS else st),
        r_remaining := of_nat (length act), r_children := act, r_signaled := (act = []),
        r_wait_ref_cnt := 1\<rparr>)"

lemma group_state_range:
  "group_state d cs st = st \<or> group_state d cs st = CAM_SYNC_STATE_SIGNALED_ERROR \<or>
     group_state d cs st = CAM_SYNC_STATE_SIGNALED_CANCEL"
  by (induction cs arbitrary: st) (auto simp: group_state_def)

lemma merged_row_simps [simp]:
  "r_type (merged_row idx cs d) = SYNC_TYPE_GROUP" "r_parents (merged_row idx cs d) = []"
  "r_children (merged_row idx cs d) = filter (is_active d) cs"
  "r_remaining (merged_row idx cs d) = of_nat (length (filter (is_active d) cs))"
  "r_signaled (merged_row idx cs d) = (filter (is_active d) cs = [])"
  "r_callbacks (merged_row idx cs d) = []" "r_wait_ref_cnt (merged_row idx cs d) = 1"
  by (simp_all add: merged_row_def zero_row_def Let_def)

lemma merged_row_state:
  "r_state (merged_row idx cs d) = CAM_SYNC_STATE_ACTIVE \<or> is_signaled_state (r_state (merged_row idx cs d))"
  "filter (is_active d) cs = [] \<Longrightarrow> is_signaled_state (r_state (merged_row idx cs d))"
  using group_state_range [of d cs CAM_SYNC_STATE_ACTIVE]
  by (auto simp: merged_row_def Let_def is_signaled_state_def)

lemma init_group_ok:
  assumes "0 < idx" "idx < 2048" "idx \<notin> set cs" "distinct cs" "length cs \<le> 2048"
    and "cam_sync_init_group_object mem idx cs d = (rc, d')" "rc \<ge> 0"
  shows "rc = 0 \<and> same_rest d d' \<and>
    (\<forall>c \<in> set cs. r_type (sd_table d c) = SYNC_TYPE_INDV \<and> valid d c) \<and>
    (\<forall>j. sd_table d' j = (if j = idx then merged_row idx cs d else linked idx (filter (is_active d) cs) d j))"
proof -
  define d0 where "d0 = snd (cam_sync_init_row idx ''merged_fence'' SYNC_TYPE_GROUP d)"
  have d0: "same_rest d d0" "j \<noteq> idx \<Longrightarrow> sd_table d0 j = sd_table d j"
    "sd_table d0 idx = zero_row\<lparr>r_name := take 62 ''merged_fence'', r_type := SYNC_TYPE_GROUP,
       r_sync_id := idx, r_state := CAM_SYNC_STATE_ACTIVE, r_remaining := 0, r_ref_cnt := 0, r_wait_ref_cnt := 1\<rparr>" for j
    using assms(1,2) by (simp_all add: d0_def cam_sync_init_row_def)
  have init: "cam_sync_init_row idx ''merged_fence'' SYNC_TYPE_GROUP d = (0, d0)"
    using assms(1,2) by (simp add: d0_def cam_sync_init_row_def)
  obtain err d1 where g: "group_members mem idx 0 cs d0 = (err, d1)" by fastforce
  have none: "err = None"
  proof (rule ccontr)
    assume "err \<noteq> None"
    then obtain e k where e: "err = Some (e, k)" by auto
    with group_members_fail [OF assms(3,4) g [unfolded e]] g assms(6,7) show False
      by (auto simp: cam_sync_init_group_object_def init Let_def)
  qed
  note ok = group_members_ok [OF assms(3,4) g [unfolded none]]
  have eqs: "sd_table d0 c = sd_table d c" if "c \<in> set cs" for c
  proof -
    have "c \<noteq> idx" using that assms(3) by blast
    then show ?thesis by (rule d0(2))
  qed
  have act: "filter (is_active d0) cs = filter (is_active d) cs"
    by (intro filter_cong) (simp_all add: is_active_def eqs)
  have gs: "group_state d0 cs st = group_state d cs st" for st
    by (intro group_state_cong) (simp add: eqs)
  have lnk: "linked idx cs d0 j = linked idx (filter (is_active d) cs) d j" if "j \<noteq> idx" for j
    using that by (auto simp: linked_def is_active_def d0(2))
  have len: "unat (of_nat (length (filter (is_active d) cs)) :: u32) = length (filter (is_active d) cs)"
    by (rule unat_of_nat_u32, rule le_less_trans [OF length_filter_le])
      (rule le_less_trans [OF assms(5)], simp)
  then have zero: "(of_nat (length (filter (is_active d) cs)) :: u32) = 0 \<longleftrightarrow> filter (is_active d) cs = []"
    by (metis length_0_conv unat_eq_0)
  have row: "sd_table d1 idx = zero_row\<lparr>r_name := take 62 ''merged_fence'', r_type := SYNC_TYPE_GROUP,
     r_sync_id := idx, r_state := group_state d cs CAM_SYNC_STATE_ACTIVE,
     r_remaining := of_nat (length (filter (is_active d) cs)), r_children := filter (is_active d) cs,
     r_wait_ref_cnt := 1\<rparr>"
    using ok by (simp add: grouped_def d0(3) act gs zero_row_def)
  have d': "rc = 0 \<and> d' = (if r_remaining (sd_table d1 idx) = 0
                 then row_upd idx (\<lambda>r. r\<lparr>r_signaled := True,
                        r_state := (if r_state r \<noteq> CAM_SYNC_STATE_SIGNALED_ERROR \<and>
                                       r_state r \<noteq> CAM_SYNC_STATE_SIGNALED_CANCEL
                                    then CAM_SYNC_STATE_SIGNALED_SUCCESS else r_state r)\<rparr>) d1
                 else d1)"
    using assms(6) g none by (auto simp: cam_sync_init_group_object_def init Let_def)
  have "sd_table d' idx = merged_row idx cs d"
    using d' group_state_range [of d cs CAM_SYNC_STATE_ACTIVE]
    by (auto simp: row zero merged_row_def Let_def zero_row_def)
  moreover have "sd_table d' j = linked idx (filter (is_active d) cs) d j" if "j \<noteq> idx" for j
    using d' ok lnk that by simp
  moreover have "same_rest d d1" using ok d0(1) by (blast intro: same_rest_trans)
  then have "same_rest d d'" using d' by simp
  moreover have "r_type (sd_table d c) = SYNC_TYPE_INDV \<and> valid d c" if "c \<in> set cs" for c
    using ok eqs [OF that] that by auto
  ultimately show ?thesis using d' by auto
qed

lemma init_group_fail:
  assumes "0 < idx" "idx < 2048" "idx \<notin> set cs" "distinct cs"
    and "\<forall>c \<in> set cs. idx \<notin> set (r_parents (sd_table d c))"
    and "cam_sync_init_group_object mem idx cs d = (rc, d')" "rc < 0"
  shows "same_rest d d' \<and> (\<forall>j. j \<noteq> idx \<longrightarrow> sd_table d' j = sd_table d j) \<and> \<not> valid d' idx \<and>
    r_children (sd_table d' idx) = []"
proof -
  define d0 where "d0 = snd (cam_sync_init_row idx ''merged_fence'' SYNC_TYPE_GROUP d)"
  have d0: "same_rest d d0" "j \<noteq> idx \<Longrightarrow> sd_table d0 j = sd_table d j" for j
    using assms(1,2) by (simp_all add: d0_def cam_sync_init_row_def)
  have init: "cam_sync_init_row idx ''merged_fence'' SYNC_TYPE_GROUP d = (0, d0)"
    using assms(1,2) by (simp add: d0_def cam_sync_init_row_def)
  obtain err d1 where g: "group_members mem idx 0 cs d0 = (err, d1)" by fastforce
  obtain k where k: "err = Some (rc, k)"
    using assms(6,7) g by (auto simp: cam_sync_init_group_object_def init Let_def split: option.splits)
  note f = group_members_fail [OF assms(3,4) g [unfolded k]]
  let ?xs = "take k cs" and ?d2 = "row_upd idx (\<lambda>r. r\<lparr>r_state := CAM_SYNC_STATE_INVALID\<rparr>) d1"
  let ?d3 = "fold (\<lambda>c. row_upd c (cam_sync_util_cleanup_parents_list SYNC_LIST_CLEAN_ONE idx)) (rev ?xs) ?d2"
  have d': "d' = row_upd idx (cam_sync_util_cleanup_children_list SYNC_LIST_CLEAN_ALL 0) ?d3"
    using assms(6) g k by (simp add: cam_sync_init_group_object_def init Let_def)
  have xs: "set ?xs \<subseteq> set cs" by (rule set_take_subset)
  have idx: "idx \<notin> set ?xs" and dist: "distinct ?xs" using xs assms(3,4) by auto
  have np: "\<forall>c\<in>set ?xs. idx \<notin> set (r_parents (sd_table d0 c))"
  proof
    fix c
    assume c: "c \<in> set ?xs"
    then have "c \<noteq> idx" using idx by blast
    with c xs assms(5) show "idx \<notin> set (r_parents (sd_table d0 c))" by (auto simp: d0(2))
  qed
  have "\<forall>j. j \<noteq> idx \<longrightarrow> sd_table ?d2 j = linked idx ?xs d0 j" using f by simp
  note c = cleanup_linked [OF dist idx np this]
  have "same_rest d d1" using f d0(1) by (blast intro: same_rest_trans)
  then have "same_rest d ?d3" by (simp add: fold_row_upd_rest)
  with c d0(2) show ?thesis by (auto simp: d' clean_defs)
qed

text \<open>The outcomes of a merge, with no interference on the bit map.\<close>

lemma cam_sync_merge_cases:
  assumes inv: "sync_inv d"
  obtains (reject) rc where "rc < 0" "cam_sync_merge [] mem objs mp d = (rc, None, d)"
  | (undone) idx d' where "cam_sync_merge [] mem objs mp d = (- EINVAL, None, d')" "0 < idx" "idx < 2048"
      "\<not> sd_bitmap d idx" "same_rest d d'" "\<forall>j. j \<noteq> idx \<longrightarrow> sd_table d' j = sd_table d j"
      "\<not> valid d' idx" "r_children (sd_table d' idx) = []"
  | (ok) os idx cs d' where "objs = Some os" "cs = map nat os" "distinct cs" "2 \<le> length cs"
      "\<forall>c \<in> set cs. 0 < c \<and> c < 2048 \<and> valid d c \<and> r_type (sd_table d c) = SYNC_TYPE_INDV"
      "0 < idx" "idx < 2048" "\<not> sd_bitmap d idx" "\<forall>j<idx. sd_bitmap d j"
      "cam_sync_merge [] mem objs mp d = (0, Some idx, d')" "sd_log d' = sd_log d"
      "sd_bitmap d' = (sd_bitmap d)(idx := True)"
      "\<forall>j. sd_table d' j = (if j = idx then merged_row idx cs d else linked idx (filter (is_active d) cs) d j)"
proof (cases "\<exists>rc<0. cam_sync_merge [] mem objs mp d = (rc, None, d)")
  case True
  then show thesis using reject by blast
next
  case no: False
  have n1: "cam_sync_merge [] mem objs mp d \<noteq> (- EINVAL, None, d)"
    and n2: "cam_sync_merge [] mem objs mp d \<noteq> (- ENOMEM, None, d)"
    and n3: "rc < 0 \<Longrightarrow> cam_sync_merge [] mem objs mp d \<noteq> (rc, None, d)" for rc
    using no by force+
  then obtain os where os: "objs = Some os" by (cases objs) (auto simp: cam_sync_merge_def)
  have valid_neg: "check_all_valid os d \<noteq> 0 \<Longrightarrow> check_all_valid os d < 0"
    by (induction os) (auto simp: Let_def cam_sync_check_valid_def)
  have len: "2 \<le> length os" "mp" "check_all_valid os d = 0"
    and dup: "fst (cam_common_util_remove_duplicate_arr (Some os) (length os)) = length os"
    using n1 n3 [OF valid_neg] os by (auto simp: cam_sync_merge_def split: if_splits)
  have dist: "distinct os" using dup dedup_full [of os] len(1) by simp
  note v = check_all_valid_ok [OF len(3)]
  define cs where "cs = map nat os"
  have cs: "distinct cs" "2 \<le> length cs" "\<And>c. c \<in> set cs \<Longrightarrow> 0 < c \<and> c < 2048 \<and> sd_bitmap d c \<and> valid d c"
  proof -
    have "inj_on nat (set os)" using v by (intro inj_onI) (metis eq_nat_nat_iff order_less_imp_le)
    then show "distinct cs" using dist by (simp add: cs_def distinct_map)
    show "2 \<le> length cs" using len(1) by (simp add: cs_def)
    show "0 < c \<and> c < 2048 \<and> sd_bitmap d c \<and> valid d c" if "c \<in> set cs" for c
    proof -
      from that obtain x where x: "x \<in> set os" "c = nat x" by (auto simp: cs_def)
      with v [OF x(1)] show ?thesis by (simp add: nat_less_iff)
    qed
  qed
  have sub: "set cs \<subseteq> {..<2048}" using cs(3) by auto
  have clen: "length cs \<le> 2048"
    using card_mono [OF finite_lessThan sub] distinct_card [OF cs(1)] by simp
  obtain r bm where rr: "reserve_row [] (sd_bitmap d) = (r, bm)" by fastforce
  obtain idx where r: "r = Some idx"
    using n2 os len dup rr reserve_none [of "sd_bitmap d" bm] by (cases r) (auto simp: cam_sync_merge_def)
  have s: "idx < 2048" "\<not> sd_bitmap d idx" "bm = (sd_bitmap d)(idx := True)" "\<forall>j<idx. sd_bitmap d j"
    using reserve_some [OF rr [unfolded r]] by auto
  note fr = fresh_row [OF inv s(2)]
  have ni: "idx \<notin> set cs" using cs(3) s(2) by auto
  let ?d1 = "d\<lparr>sd_bitmap := bm\<rparr>"
  obtain rc d2 where g: "cam_sync_init_group_object mem idx cs ?d1 = (rc, d2)" by fastforce
  have m: "cam_sync_merge [] mem objs mp d =
      (if rc < 0 then (- EINVAL, None, d2\<lparr>sd_bitmap := clear_bit_map idx (sd_bitmap d2)\<rparr>) else (0, Some idx, d2))"
    using os len dup rr r g by (simp add: cam_sync_merge_def cs_def)
  show thesis
  proof (cases "rc < 0")
    case True
    have np: "\<forall>c\<in>set cs. idx \<notin> set (r_parents (sd_table ?d1 c))" using cs(3) fr(2) by auto
    note f = init_group_fail [OF fr(3) s(1) ni cs(1) np g True]
    have "(sd_bitmap d)(idx := False) = sd_bitmap d" using s(2) by (simp add: fun_upd_idem)
    with True m f fr(3) s show thesis
      by (intro undone [of "d2\<lparr>sd_bitmap := clear_bit_map idx (sd_bitmap d2)\<rparr>" idx])
        (auto simp: same_rest_def clear_bit_map_def)
  next
    case False
    then have ge: "rc \<ge> 0" by simp
    note o = init_group_ok [OF fr(3) s(1) ni cs(1) clen g ge]
    have ia: "is_active ?d1 = is_active d" by (simp add: is_active_def fun_eq_iff)
    then have act: "filter (is_active ?d1) cs = filter (is_active d) cs" by simp
    have "merged_row idx cs ?d1 = merged_row idx cs d"
      by (simp add: merged_row_def group_state_def ia Let_def)
    moreover have "linked idx xs ?d1 j = linked idx xs d j" for xs j by (simp add: linked_def ia)
    ultimately have tbl: "\<forall>j. sd_table d2 j =
        (if j = idx then merged_row idx cs d else linked idx (filter (is_active d) cs) d j)"
      using o by (simp add: act)
    have mem: "\<forall>c \<in> set cs. 0 < c \<and> c < 2048 \<and> valid d c \<and> r_type (sd_table d c) = SYNC_TYPE_INDV"
      using o cs(3) by simp
    have rest: "sd_log d2 = sd_log d" "sd_bitmap d2 = (sd_bitmap d)(idx := True)"
      using o s(3) by (simp_all add: same_rest_def)
    have "cam_sync_merge [] mem objs mp d = (0, Some idx, d2)" using m False by simp
    from ok [OF os cs_def cs(1,2) mem fr(3) s(1,2,4) this rest tbl] show thesis .
  qed
qed

lemma merge_inv:
  assumes inv: "sync_inv d"
  shows "sync_inv (snd (snd (cam_sync_merge [] mem objs mp d)))"
  using inv
proof (cases rule: cam_sync_merge_cases [of d mem objs mp])
  case (reject rc)
  with inv show ?thesis by simp
next
  case (undone idx d')
  then have "sync_inv d'"
    by (intro free_row_inv [OF inv undone(4)]) (auto simp: same_rest_def)
  with undone(1) show ?thesis by simp
next
  case (ok os idx cs d')
  have "sync_inv d'"
  proof (rule install_row_inv [OF inv ok(8,7,12)])
    show "\<And>c. c \<in> set (filter (is_active d) cs) \<Longrightarrow> is_active d c \<and> r_type (sd_table d c) = SYNC_TYPE_INDV"
      using ok(5) by simp
  qed (use ok merged_row_state [where d = d and cs = cs and idx = idx] in simp_all)
  with ok(10) show ?thesis by simp
qed

section \<open>Signalling\<close>

text \<open>What one round of the parents loop makes of the parent's row.\<close>

definition parent_state :: "u32 \<Rightarrow> u32 \<Rightarrow> u32" where
  "parent_state status st =
     (if st = CAM_SYNC_STATE_ACTIVE \<or> st = CAM_SYNC_STATE_SIGNALED_SUCCESS then status else st)"

definition told :: "u32 \<Rightarrow> sync_table_row \<Rightarrow> sync_table_row" where
  "told status r = r\<lparr>r_remaining := r_remaining r - 1, r_state := parent_state status (r_state r)\<rparr>"

lemma told_simps [simp]:
  "r_type (told st r) = r_type r" "r_parents (told st r) = r_parents r" "r_children (told st r) = r_children r"
  "r_remaining (told st r) = r_remaining r - 1" "r_state (told st r) = parent_state st (r_state r)"
  "r_signaled (told st r) = r_signaled r" "r_wait_ref_cnt (told st r) = r_wait_ref_cnt r"
  "r_callbacks (told st r) = r_callbacks r" "r_payloads (told st r) = r_payloads r" "r_ref_cnt (told st r) = r_ref_cnt r"
  by (simp_all add: told_def)

lemma row_upd_cong: "f (sd_table d i) = g (sd_table d i) \<Longrightarrow> row_upd i f d = row_upd i g d"
  by (simp add: row_upd_def)

lemma signal_parent_eq:
  "signal_parent status cause p d =
     (if valid d p \<longrightarrow> r_state (sd_table d p) = CAM_SYNC_STATE_ACTIVE \<or> is_signaled_state (r_state (sd_table d p))
      then (if \<not> valid d p then row_upd p (\<lambda>r. r\<lparr>r_remaining := r_remaining r - 1\<rparr>) d
            else
              let d1 = row_upd p (told status) d in
              if r_remaining (sd_table d p) - 1 = 0
              then cam_sync_util_dispatch_signaled_cb p (parent_state status (r_state (sd_table d p))) cause d1
              else d1)
      else signal_parent status cause p d)"
  by (auto simp: signal_parent_def cam_sync_util_update_parent_state_def Let_def row_upd_twice
      is_signaled_state_def parent_state_def told_def comp_def intro!: row_upd_cong
      arg_cong [of _ _ "cam_sync_util_dispatch_signaled_cb p _ cause"])

lemma signal_parent_rest [simp]:
  "sd_bitmap (signal_parent st cause p d) = sd_bitmap d"
  "sd_eventq (signal_parent st cause p d) = sd_eventq d"
  "sd_version (signal_parent st cause p d) = sd_version d"
  by (auto simp: signal_parent_def Let_def split: prod.splits)

lemma parent_state_signaled: "is_signaled_state st \<Longrightarrow> is_signaled_state (parent_state status st) \<longleftrightarrow>
    is_signaled_state status \<or> st \<noteq> CAM_SYNC_STATE_SIGNALED_SUCCESS"
  by (auto simp: parent_state_def is_signaled_state_def)

lemma parent_state_ok:
  "is_signaled_state status \<Longrightarrow> st = CAM_SYNC_STATE_ACTIVE \<or> is_signaled_state st \<Longrightarrow> is_signaled_state (parent_state status st)"
  by (auto simp: parent_state_def is_signaled_state_def)

text \<open>The row of a parent that is valid after its round.\<close>

lemma signal_parent_valid:
  assumes "valid d p" "r_state (sd_table d p) = CAM_SYNC_STATE_ACTIVE \<or> is_signaled_state (r_state (sd_table d p))"
    and "is_signaled_state status"
  shows "sd_table (signal_parent status cause p d) p =
     (if r_remaining (sd_table d p) - 1 = 0 then dispatched (sd_eventq d) (told status (sd_table d p))
      else told status (sd_table d p))"
    and "j \<noteq> p \<Longrightarrow> sd_table (signal_parent status cause p d) j = sd_table d j"
    and "sd_log (signal_parent status cause p d) = sd_log d @
      (if r_remaining (sd_table d p) - 1 = 0
       then dispatch_evs p (parent_state status (r_state (sd_table d p))) cause d else [])"
proof -
  have "parent_state status (r_state (sd_table d p)) \<noteq> CAM_SYNC_STATE_INVALID"
    using parent_state_ok [OF assms(3,2)] by (auto simp: is_signaled_state_def)
  moreover have "signal_parent status cause p d = (let d1 = row_upd p (told status) d in
      if r_remaining (sd_table d p) - 1 = 0
      then cam_sync_util_dispatch_signaled_cb p (parent_state status (r_state (sd_table d p))) cause d1 else d1)"
    using assms(1,2) by (subst signal_parent_eq) simp
  ultimately show "sd_table (signal_parent status cause p d) p =
     (if r_remaining (sd_table d p) - 1 = 0 then dispatched (sd_eventq d) (told status (sd_table d p))
      else told status (sd_table d p))"
    and "j \<noteq> p \<Longrightarrow> sd_table (signal_parent status cause p d) j = sd_table d j"
    and "sd_log (signal_parent status cause p d) = sd_log d @
      (if r_remaining (sd_table d p) - 1 = 0
       then dispatch_evs p (parent_state status (r_state (sd_table d p))) cause d else [])"
    by (simp_all add: Let_def dispatch_eq dispatch_evs_def)
qed

lemma signal_parent_invalid:
  assumes "\<not> valid d p"
  shows "signal_parent status cause p d = row_upd p (\<lambda>r. r\<lparr>r_remaining := r_remaining r - 1\<rparr>) d"
  using assms by (subst signal_parent_eq) simp

lemma signal_parent_inv:
  assumes inv: "sync_inv_with extra d" and st: "is_signaled_state status" and ex: "extra p = Suc n"
    and grp: "r_type (sd_table d p) = SYNC_TYPE_GROUP"
  shows "sync_inv_with (extra(p := n)) (signal_parent status cause p d)"
proof (cases "valid d p")
  case False
  define e where "e = row_upd p (\<lambda>r. r\<lparr>r_remaining := r_remaining r - 1\<rparr>) d"
  have val: "valid e j = valid d j" for j by (simp add: e_def)
  have "r_parents (sd_table e j) = r_parents (sd_table d j)" for j by (simp add: e_def)
  then have pend: "pend e = pend d" by (simp add: pend_def val fun_eq_iff)
  have same: "sd_table e i = sd_table d i" if "valid d i" for i
    using that False by (auto simp: e_def)
  have link: "link_ok e c q" if "valid d c" "q \<in> set (r_parents (sd_table d c))" for c q
    using inv_link [OF inv that] unfolding link_ok_def same [OF that(1)] by (auto simp: e_def)
  have row: "valid_ok e i \<and> distinct (r_parents (sd_table e i)) \<and> (\<forall>q\<in>set (r_parents (sd_table e i)). link_ok e i q)"
    if "valid e i" for i
  proof -
    have v: "valid d i" using that by (simp add: val)
    with inv_valid [OF inv v] inv_parents_distinct [OF inv v] link [OF v] show ?thesis
      by (simp add: valid_ok_def same [OF v]) (simp add: e_def)
  qed
  have grp_ok: "group_ok (extra(p := n)) e q" if "valid e q" "r_type (sd_table e q) = SYNC_TYPE_GROUP" for q
  proof -
    have v: "valid d q" using that by (simp add: val)
    then have "q \<noteq> p" using False by auto
    with that inv_group [OF inv v] show ?thesis by (simp add: group_ok_def pend same [OF v])
  qed
  have ch: "distinct (r_children (sd_table e i))" for i using inv_children [OF inv] by (simp add: e_def)
  have "sd_bitmap e 0" using inv by (simp add: sync_inv_with_def e_def)
  then have "sync_inv_with (extra(p := n)) e"
    using row grp_ok ch by (simp add: sync_inv_with_def)
  then show ?thesis by (simp add: signal_parent_invalid [OF False] e_def)
next
  case True
  define e where "e = signal_parent status cause p d"
  have range: "r_state (sd_table d p) = CAM_SYNC_STATE_ACTIVE \<or> is_signaled_state (r_state (sd_table d p))"
    using inv_valid [OF inv True] by (simp add: valid_ok_def)
  note ps = parent_state_ok [OF st range]
  note row = signal_parent_valid [where cause = cause, OF True range st]
  have g: "card (pend d p) + Suc n \<le> unat (r_remaining (sd_table d p))"
    using inv_group [OF inv True grp] ex by (simp add: group_ok_def)
  then have nz: "r_remaining (sd_table d p) \<noteq> 0" by (metis Suc_neq_Zero add_is_0 le_zero_eq unat_0)
  then have dec: "unat (r_remaining (sd_table d p) - 1) = unat (r_remaining (sd_table d p)) - 1"
    by (rule unat_dec)
  have not_sig: "\<not> r_signaled (sd_table d p)" using inv_valid [OF inv True] grp nz by (simp add: valid_ok_def)
  have psv: "parent_state status (r_state (sd_table d p)) \<noteq> CAM_SYNC_STATE_INVALID"
    using ps by (auto simp: is_signaled_state_def)
  have ep: "r_type (sd_table e p) = SYNC_TYPE_GROUP" "r_parents (sd_table e p) = r_parents (sd_table d p)"
    "r_children (sd_table e p) = r_children (sd_table d p)"
    "r_remaining (sd_table e p) = r_remaining (sd_table d p) - 1"
    "r_state (sd_table e p) = parent_state status (r_state (sd_table d p))"
    "r_signaled (sd_table e p) \<longleftrightarrow> r_remaining (sd_table d p) - 1 = 0"
    using not_sig by (simp_all add: e_def row(1) grp)
  have eo: "sd_table e j = sd_table d j" if "j \<noteq> p" for j using that row(2) by (simp add: e_def)
  have bm: "sd_bitmap e = sd_bitmap d" by (simp add: e_def)
  have val: "valid e j = valid d j" for j using True psv ep(5) eo by (cases "j = p") auto
  have pend: "pend e = pend d"
  proof (intro ext set_eqI)
    fix q c
    show "c \<in> pend e q \<longleftrightarrow> c \<in> pend d q"
      unfolding pend_iff val by (cases "c = p") (simp_all add: ep eo)
  qed
  have nolink: "p \<notin> set (r_parents (sd_table d c)) \<or> c \<noteq> p" if "valid d c" for c
    using inv_link [OF inv that] grp by (auto simp: link_ok_def)
  have par_p: "r_parents (sd_table d p) = []"
    using inv_link [OF inv True] grp by (cases "r_parents (sd_table d p)") (auto simp: link_ok_def)
  have link: "link_ok e c q" if "valid d c" "q \<in> set (r_parents (sd_table d c))" for c q
  proof -
    have "c \<noteq> p" using that par_p by auto
    with inv_link [OF inv that] show ?thesis by (cases "q = p") (simp_all add: link_ok_def eo ep bm)
  qed
  have vok: "valid_ok e i" if "valid d i" for i
    using inv_valid [OF inv that] ps by (cases "i = p") (simp_all add: valid_ok_def eo ep bm)
  have dpar: "distinct (r_parents (sd_table e i))" if "valid d i" for i
    using inv_parents_distinct [OF inv that] by (cases "i = p") (simp_all add: eo ep)
  have pars: "r_parents (sd_table e i) = r_parents (sd_table d i)" for i by (cases "i = p") (simp_all add: eo ep)
  have ch: "distinct (r_children (sd_table e i))" for i
    using inv_children [OF inv, of i] by (cases "i = p") (simp_all add: eo ep)
  have grp_ok: "group_ok (extra(p := n)) e q" if "valid d q" "r_type (sd_table e q) = SYNC_TYPE_GROUP" for q
  proof (cases "q = p")
    case True
    with g dec ps show ?thesis by (simp add: group_ok_def pend ep)
  next
    case False
    with that inv_group [OF inv that(1)] show ?thesis by (simp add: group_ok_def pend eo)
  qed
  have "sync_inv_with (extra(p := n)) e"
    using inv vok dpar link ch grp_ok by (simp add: sync_inv_with_def val pars bm)
  then show ?thesis by (simp add: e_def)
qed

lemma signal_parents_inv:
  "sync_inv_with (\<lambda>p. count_list ps p) d \<Longrightarrow> is_signaled_state status \<Longrightarrow>
     (\<forall>p \<in> set ps. r_type (sd_table d p) = SYNC_TYPE_GROUP) \<Longrightarrow>
     sync_inv (fold (signal_parent status cause) ps d)"
proof (induction ps arbitrary: d)
  case Nil
  then show ?case by simp
next
  case (Cons p ps)
  let ?e = "signal_parent status cause p d"
  have "sync_inv_with ((\<lambda>q. count_list (p # ps) q)(p := count_list ps p)) ?e"
    using Cons.prems by (intro signal_parent_inv) simp_all
  moreover have "(\<lambda>q. count_list (p # ps) q)(p := count_list ps p) = (\<lambda>q. count_list ps q)" by auto
  moreover have "r_type (sd_table ?e q) = r_type (sd_table d q)" for q
    by (auto simp: signal_parent_def cam_sync_util_update_parent_state_def dispatch_eq Let_def)
  ultimately show ?case using Cons by simp
qed

text \<open>The whole of \<open>cam_sync_signal\<close> on its accepting path.\<close>

definition signalled :: "nat \<Rightarrow> u32 \<Rightarrow> u32 \<Rightarrow> sync_device \<Rightarrow> sync_device" where
  "signalled obj status cause d =
     emit (dispatch_evs obj status cause d)
       (row_upd obj (\<lambda>r. (dispatched (sd_eventq d)
                            (r\<lparr>r_ref_cnt := r_ref_cnt r - 1, r_state := status\<rparr>))\<lparr>r_parents := []\<rparr>) d)"

lemma cam_sync_signal_eq:
  assumes "0 < obj" "obj < 2048"
  shows "cam_sync_signal (int obj) status cause d =
     (let row = sd_table d obj in
      if \<not> valid d obj \<or> r_type row = SYNC_TYPE_GROUP then (- EINVAL, d)
      else if r_state row \<noteq> CAM_SYNC_STATE_ACTIVE then (- EALREADY, d)
      else if \<not> is_signaled_state status then (- EINVAL, d)
      else if r_ref_cnt row \<noteq> 1
      then (0, row_upd obj (\<lambda>r. r\<lparr>r_ref_cnt := r_ref_cnt r - 1\<rparr>) d)
      else (0, fold (signal_parent status cause) (r_parents row) (signalled obj status cause d)))"
proof -
  have one: "x - 1 = 0 \<longleftrightarrow> x = (1 :: u32)" for x by simp
  have upd: "row_upd obj (\<lambda>r. r\<lparr>r_parents := []\<rparr>)
      (cam_sync_util_dispatch_signaled_cb obj status cause
        (row_upd obj (\<lambda>r. r\<lparr>r_state := status\<rparr>) (row_upd obj (\<lambda>r. r\<lparr>r_ref_cnt := r_ref_cnt r - 1\<rparr>) d)))
      = signalled obj status cause d" if "is_signaled_state status"
    using that by (auto simp: dispatch_eq signalled_def is_signaled_state_def row_upd_emit row_upd_twice
        dispatch_evs_def comp_def)
  have par: "r_parents (sd_table (cam_sync_util_dispatch_signaled_cb obj st cause e) obj) = r_parents (sd_table e obj)"
    for st e by (simp add: dispatch_eq)
  have sig: "status \<noteq> CAM_SYNC_STATE_SIGNALED_SUCCESS \<and> status \<noteq> CAM_SYNC_STATE_SIGNALED_ERROR \<and>
      status \<noteq> CAM_SYNC_STATE_SIGNALED_CANCEL \<longleftrightarrow> \<not> is_signaled_state status"
    by (simp add: is_signaled_state_def)
  show ?thesis
    using assms unfolding cam_sync_signal_def sig
    by (simp add: Let_def par upd del: not_group)
qed

lemma signal_inv:
  assumes inv: "sync_inv d"
  shows "sync_inv (snd (cam_sync_signal obj status cause d))"
proof (cases "out_of_range obj")
  case True
  with inv show ?thesis by (auto simp: cam_sync_signal_def)
next
  case False
  define o' where "o' = nat obj"
  have o: "obj = int o'" "0 < o'" "o' < 2048" using False by (auto simp: o'_def)
  let ?row = "sd_table d o'"
  show ?thesis
  proof (cases "valid d o' \<and> r_type ?row = SYNC_TYPE_INDV \<and> r_state ?row = CAM_SYNC_STATE_ACTIVE \<and>
      is_signaled_state status \<and> r_ref_cnt ?row = 1")
    case no: False
    have "sync_inv (row_upd o' (\<lambda>r. r\<lparr>r_ref_cnt := r_ref_cnt r - 1\<rparr>) d)"
      using inv sync_inv_cong [OF core_eq_upd, of "\<lambda>r. r\<lparr>r_ref_cnt := r_ref_cnt r - 1\<rparr>" _ d o'] by simp
    with no inv o show ?thesis
      unfolding o(1) cam_sync_signal_eq [OF o(2,3)] by (auto simp: Let_def)
  next
    case yes: True
    let ?e = "signalled o' status cause d"
    have v: "valid d o'" using yes by simp
    have res: "snd (cam_sync_signal obj status cause d) = fold (signal_parent status cause) (r_parents ?row) ?e"
      using yes by (simp add: o(1) cam_sync_signal_eq [OF o(2,3)] Let_def)
    have eo: "sd_table ?e j = sd_table d j" if "j \<noteq> o'" for j using that by (simp add: signalled_def)
    have ep: "r_type (sd_table ?e o') = SYNC_TYPE_INDV" "r_state (sd_table ?e o') = status"
      "r_parents (sd_table ?e o') = []" "r_children (sd_table ?e o') = r_children ?row" "r_signaled (sd_table ?e o')"
      using yes by (simp_all add: signalled_def)
    have bm: "sd_bitmap ?e = sd_bitmap d" by (simp add: signalled_def)
    have sv: "status \<noteq> CAM_SYNC_STATE_INVALID" "status \<noteq> CAM_SYNC_STATE_ACTIVE"
      using yes by (auto simp: is_signaled_state_def)
    have val: "valid ?e j = valid d j" for j using v sv(1) ep(2) eo by (cases "j = o'") auto
    have typ_e: "r_type (sd_table ?e q) = r_type (sd_table d q)" "r_children (sd_table ?e q) = r_children (sd_table d q)"
      for q using ep yes eo by (cases "q = o'"; simp)+
    have link_o: "link_ok d o' p" if "p \<in> set (r_parents ?row)" for p using inv_link [OF inv v that] .
    have dpar: "distinct (r_parents ?row)" using inv_parents_distinct [OF inv v] .
    have pend: "pend ?e q = pend d q - {o'}" for q
    proof (rule set_eqI)
      fix c
      show "c \<in> pend ?e q \<longleftrightarrow> c \<in> pend d q - {o'}"
        unfolding pend_iff val Diff_iff by (cases "c = o'") (simp_all add: ep eo)
    qed
    have cnt: "card (pend ?e q) + count_list (r_parents ?row) q = card (pend d q)" for q
    proof (cases "q \<in> set (r_parents ?row)")
      case True
      then have mem: "o' \<in> pend d q" using v by (simp add: pend_iff)
      have "count_list (r_parents ?row) q = 1" using True dpar by (rule count_list_distinct)
      with mem pend_finite [OF inv, of q] show ?thesis
        by (simp add: pend card_Diff_singleton) (metis Suc_pred card_gt_0_iff empty_iff)
    next
      case False
      then have "o' \<notin> pend d q" by (simp add: pend_iff)
      with False show ?thesis by (simp add: pend)
    qed
    have link: "link_ok ?e c q" if "valid d c" "q \<in> set (r_parents (sd_table ?e c))" for c q
    proof -
      have ne: "c \<noteq> o'" using that(2) ep(3) by auto
      with that have "link_ok d c q" using inv_link [OF inv] eo by auto
      with ne show ?thesis by (simp add: link_ok_def eo bm typ_e)
    qed
    have vok: "valid_ok ?e i" if "valid d i" for i
      using inv_valid [OF inv that] ep sv yes by (cases "i = o'") (simp_all add: valid_ok_def eo bm)
    have dp: "distinct (r_parents (sd_table ?e i))" if "valid d i" for i
      using inv_parents_distinct [OF inv that] by (cases "i = o'") (simp_all add: eo ep)
    have grp: "group_ok (\<lambda>q. count_list (r_parents ?row) q) ?e q"
      if "valid d q" "r_type (sd_table d q) = SYNC_TYPE_GROUP" for q
    proof -
      have "q \<noteq> o'" using that(2) yes by auto
      with inv_group [OF inv that] cnt [of q] show ?thesis by (simp add: group_ok_def eo)
    qed
    have "sync_inv_with (\<lambda>q. count_list (r_parents ?row) q) ?e"
      using inv vok dp link grp by (simp add: sync_inv_with_def val typ_e bm)
    then show ?thesis unfolding res
      by (rule signal_parents_inv) (use yes link_o in \<open>auto simp: typ_e link_ok_def\<close>)
  qed
qed

section \<open>Destroying\<close>

lemma deinit_inv:
  assumes inv: "sync_inv d" and idx: "0 < idx" "idx < 2048" "\<not> valid d idx"
  shows "sync_inv (snd (cam_sync_deinit_object idx d))"
proof -
  define e where "e = snd (cam_sync_deinit_object idx d)"
  have st: "r_state (sd_table d idx) = CAM_SYNC_STATE_INVALID" using idx(3) by simp
  note c = deinit_closed [OF idx(1,2) inv_children [OF inv] st]
  have bm: "sd_bitmap e = (sd_bitmap d)(idx := False)" and zero: "sd_table e idx = zero_row"
    using c(2,3) by (simp_all add: e_def)
  define par where "par j = (if j \<in> set (r_children (sd_table d idx)) \<and> 0 < j \<and> valid d j
      then remove1 idx (r_parents (sd_table d j)) else r_parents (sd_table d j))" for j
  have ex: "\<exists>xs. sd_table e j = (sd_table d j)\<lparr>r_children := xs, r_parents := par j\<rparr> \<and>
      set (r_children (sd_table d j)) - {idx} \<subseteq> set xs \<and> set xs \<subseteq> set (r_children (sd_table d j)) \<and>
      (distinct (r_children (sd_table d j)) \<longrightarrow> distinct xs)" if "j \<noteq> idx" for j
    using c(4) [OF that] unfolding e_def par_def .
  have row: "r_type (sd_table e j) = r_type (sd_table d j)" "r_state (sd_table e j) = r_state (sd_table d j)"
    "r_remaining (sd_table e j) = r_remaining (sd_table d j)" "r_signaled (sd_table e j) = r_signaled (sd_table d j)"
    "r_parents (sd_table e j) = par j" "distinct (r_children (sd_table e j))"
    "set (r_children (sd_table d j)) - {idx} \<subseteq> set (r_children (sd_table e j))" if "j \<noteq> idx" for j
    using ex [OF that] inv_children [OF inv, of j] by auto
  have val: "valid e j = valid d j" for j
    using row(2) st by (cases "j = idx") (simp_all add: zero zero_row_def)
  have ne: "j \<noteq> idx" if "valid d j" for j using that idx(3) by auto
  have par_set: "set (par j) = set (r_parents (sd_table d j)) - {idx}" if v: "valid d j" for j
  proof (cases "idx \<in> set (r_parents (sd_table d j))")
    case True
    then have "j \<in> set (r_children (sd_table d idx))" using inv_link [OF inv v] by (simp add: link_ok_def)
    with v inv_valid [OF inv v] inv_parents_distinct [OF inv v] show ?thesis
      by (simp add: par_def valid_ok_def)
  next
    case False
    then show ?thesis by (simp add: par_def remove1_idem)
  qed
  have pend: "pend e q = pend d q" if "q \<noteq> idx" for q
  proof (rule set_eqI)
    fix x
    show "x \<in> pend e q \<longleftrightarrow> x \<in> pend d q"
    proof (cases "valid d x")
      case True
      with that show ?thesis by (simp add: pend_iff [of _ e] pend_iff [of _ d] val row(5) [OF ne] par_set)
    qed (simp add: pend_iff val)
  qed
  have link: "link_ok e x q" if v: "valid d x" and q: "q \<in> set (par x)" for x q
  proof -
    have q': "q \<noteq> idx" "q \<in> set (r_parents (sd_table d x))" using q par_set [OF v] by auto
    then have "link_ok d x q" using inv_link [OF inv v] by simp
    then show ?thesis using row(1,7) [OF q'(1)] q'(1) ne [OF v]
      by (auto simp: link_ok_def bm row(1,2) [OF ne [OF v]])
  qed
  have vok: "valid_ok e i" if "valid d i" for i
    using inv_valid [OF inv that] ne [OF that] by (simp add: valid_ok_def bm row [OF ne [OF that]])
  have dp: "distinct (par i)" if "valid d i" for i
    using inv_parents_distinct [OF inv that] by (simp add: par_def)
  have grp: "group_ok (\<lambda>_. 0) e q" if "valid d q" "r_type (sd_table e q) = SYNC_TYPE_GROUP" for q
    using that inv_group [OF inv that(1)] by (simp add: group_ok_def pend [OF ne] row [OF ne])
  have ch: "distinct (r_children (sd_table e i))" for i
    using row(6) by (cases "i = idx") (simp_all add: zero zero_row_def)
  have "sd_bitmap e 0" using inv idx(1) by (simp add: sync_inv_with_def bm)
  then have "sync_inv e"
    using vok dp link grp ch ne by (simp add: sync_inv_with_def val row(5))
  then show ?thesis by (simp add: e_def)
qed

lemma invalidate_inv:
  assumes inv: "sync_inv d"
  shows "sync_inv (row_upd i (\<lambda>r. r\<lparr>r_state := CAM_SYNC_STATE_INVALID, r_signaled := True\<rparr>) d)"
proof -
  define e where "e = row_upd i (\<lambda>r. r\<lparr>r_state := CAM_SYNC_STATE_INVALID, r_signaled := True\<rparr>) d"
  have val: "valid e j \<longleftrightarrow> j \<noteq> i \<and> valid d j" for j by (simp add: e_def)
  have eo: "sd_table e j = sd_table d j" if "j \<noteq> i" for j using that by (simp add: e_def)
  have fix_e: "r_type (sd_table e q) = r_type (sd_table d q)" "r_children (sd_table e q) = r_children (sd_table d q)"
    "r_parents (sd_table e q) = r_parents (sd_table d q)" "sd_bitmap e = sd_bitmap d" for q
    by (simp_all add: e_def)
  have "pend e q \<subseteq> pend d q" for q by (auto simp: pend_iff val fix_e)
  then have cnt: "card (pend e q) \<le> card (pend d q)" for q by (rule card_mono [OF pend_finite [OF inv]])
  have link: "link_ok e c q" if "c \<noteq> i" "valid d c" "q \<in> set (r_parents (sd_table d c))" for c q
    using inv_link [OF inv that(2,3)] that(1) by (simp add: link_ok_def fix_e eo)
  have vok: "valid_ok e j" if "j \<noteq> i" "valid d j" for j
    using inv_valid [OF inv that(2)] that(1) by (simp add: valid_ok_def eo fix_e)
  have grp: "group_ok (\<lambda>_. 0) e q" if "q \<noteq> i" "valid d q" "r_type (sd_table d q) = SYNC_TYPE_GROUP" for q
    using inv_group [OF inv that(2,3)] cnt [of q] that(1) by (simp add: group_ok_def eo)
  show ?thesis unfolding e_def [symmetric]
    using inv link vok grp by (simp add: sync_inv_with_def val fix_e)
qed

end
