(* ===== verification/Cam_Sync_System.thy ===== *)
theory Cam_Sync_System imports Cam_Sync_Invariant begin

text \<open>
  The fence driver as a system: any sequence of its operations, with callers asleep in
  \<open>cam_sync_wait\<close> in between. A wait is two steps: the caller takes its reference and sleeps;
  later it wakes, reads the state and drops the reference, which may be the last one of a
  fence destroyed meanwhile. The invariant ties the reference count of every row to its state
  and to the callers asleep on it.
\<close>

section \<open>Steps\<close>

datatype sync_act =
    A_Create string
  | A_Merge "nat \<Rightarrow> bool \<times> bool" "int list option" bool
  | A_Signal int u32 u32
  | A_Get_Ref int
  | A_Put_Ref int
  | A_Register bool "nat option" ptr int
  | A_Deregister "nat option" ptr int
  | A_Reg_Payload bool "(u32 \<times> payload) option" cam_private_ioctl_arg
  | A_Dereg_Payload "(u32 \<times> payload) option" cam_private_ioctl_arg
  | A_Destroy int
  | A_Wait_Begin int
  | A_Wait_End nat
  | A_Run_Callback sync_callback_info
  | A_Subscribe int u32

text \<open>The kernel bounds the number of threads, hence of callers asleep, by \<open>PID_MAX_LIMIT\<close>.\<close>

abbreviation MAX_WAITERS :: nat where "MAX_WAITERS \<equiv> 4194304"

type_synonym sync_sys = "sync_device \<times> nat list"

fun act :: "sync_act \<Rightarrow> sync_sys \<Rightarrow> sync_sys" where
  "act (A_Create nm) (d, ws) = (snd (snd (cam_sync_create [] nm d)), ws)"
| "act (A_Merge mem objs mp) (d, ws) = (snd (snd (cam_sync_merge [] mem objs mp d)), ws)"
| "act (A_Signal obj st cause) (d, ws) = (snd (cam_sync_signal obj st cause d), ws)"
| "act (A_Get_Ref obj) (d, ws) = (snd (cam_sync_get_obj_ref obj d), ws)"
| "act (A_Put_Ref obj) (d, ws) = (snd (cam_sync_put_obj_ref obj d), ws)"
| "act (A_Register mem f u obj) (d, ws) = (snd (cam_sync_register_callback mem f u obj d), ws)"
| "act (A_Deregister f u obj) (d, ws) = (snd (cam_sync_deregister_callback f u obj d), ws)"
| "act (A_Reg_Payload mem user k) (d, ws) = (snd (cam_sync_handle_register_user_payload mem user k d), ws)"
| "act (A_Dereg_Payload user k) (d, ws) = (snd (cam_sync_handle_deregister_user_payload user k d), ws)"
| "act (A_Destroy obj) (d, ws) = (snd (cam_sync_destroy obj d), ws)"
| "act (A_Wait_Begin obj) (d, ws) =
     (if out_of_range obj \<or> length ws \<ge> MAX_WAITERS then (d, ws)
      else (let (rc, d1) = cam_sync_get_wait_ref (nat obj) d in
            (d1, if rc = 0 then nat obj # ws else ws)))"
| "act (A_Wait_End i) (d, ws) =
     (if i \<in> set ws then (snd (cam_sync_put_wait_ref i d), remove1 i ws) else (d, ws))"
| "act (A_Run_Callback cb) (d, ws) = (cam_sync_util_cb_dispatch cb d, ws)"
| "act (A_Subscribe rc ty) (d, ws) = (snd (cam_sync_subscribe_event rc ty d), ws)"

definition run :: "sync_act list \<Rightarrow> sync_sys \<Rightarrow> sync_sys" where
  "run acts s = fold act acts s"

section \<open>References and waiters\<close>

text \<open>
  A row in use holds one reference for the fence itself while it is valid and one per sleeping
  caller; a destroyed fence keeps its row only for the callers still asleep on it.
\<close>

definition wait_ok :: "nat list \<Rightarrow> sync_device \<Rightarrow> nat \<Rightarrow> bool" where
  "wait_ok ws d i \<longleftrightarrow> r_wait_ref_cnt (sd_table d i) = (if valid d i then 1 else 0) + int (count_list ws i) \<and>
     (valid d i \<or> i \<in> set ws)"

definition wait_inv :: "nat list \<Rightarrow> sync_device \<Rightarrow> bool" where
  "wait_inv ws d \<longleftrightarrow> (\<forall>i. 0 < i \<and> sd_bitmap d i \<longrightarrow> wait_ok ws d i) \<and>
     (\<forall>i \<in> set ws. 0 < i \<and> i < CAM_SYNC_MAX_OBJS \<and> sd_bitmap d i) \<and> length ws \<le> MAX_WAITERS"

definition wait_eq :: "sync_device \<Rightarrow> sync_device \<Rightarrow> bool" where
  "wait_eq d d' \<longleftrightarrow> sd_bitmap d' = sd_bitmap d \<and>
     (\<forall>i. valid d' i = valid d i \<and> r_wait_ref_cnt (sd_table d' i) = r_wait_ref_cnt (sd_table d i))"

lemma wait_inv_cong: "wait_eq d d' \<Longrightarrow> wait_inv ws d' = wait_inv ws d"
  by (simp add: wait_eq_def wait_inv_def wait_ok_def)

lemma wait_eq_refl [simp]: "wait_eq d d"
  by (simp add: wait_eq_def)

lemma wait_eq_trans: "wait_eq d d1 \<Longrightarrow> wait_eq d1 d2 \<Longrightarrow> wait_eq d d2"
  by (simp add: wait_eq_def)

lemma wait_eq_emit [simp]: "wait_eq d (emit es d') = wait_eq d d'"
  by (simp add: wait_eq_def)

lemma wait_eq_upd:
  "(\<And>r. (r_state (f r) = CAM_SYNC_STATE_INVALID) = (r_state r = CAM_SYNC_STATE_INVALID) \<and>
        r_wait_ref_cnt (f r) = r_wait_ref_cnt r) \<Longrightarrow> wait_eq d (row_upd i f d)"
  by (simp add: wait_eq_def)

lemma wait_eq_row:
  "(r_state (f (sd_table d i)) = CAM_SYNC_STATE_INVALID) = (r_state (sd_table d i) = CAM_SYNC_STATE_INVALID) \<Longrightarrow>
   r_wait_ref_cnt (f (sd_table d i)) = r_wait_ref_cnt (sd_table d i) \<Longrightarrow> wait_eq d (row_upd i f d)"
  by (simp add: wait_eq_def)

text \<open>Operations that touch neither the invariant's fields nor the references.\<close>

definition neutral :: "sync_device \<Rightarrow> sync_device \<Rightarrow> bool" where
  "neutral d d' \<longleftrightarrow> core_eq d d' \<and> wait_eq d d'"

lemma neutral_upd:
  "(\<And>r. r_type (f r) = r_type r \<and> r_state (f r) = r_state r \<and> r_parents (f r) = r_parents r \<and>
       r_children (f r) = r_children r \<and> r_remaining (f r) = r_remaining r \<and>
       r_signaled (f r) = r_signaled r \<and> r_wait_ref_cnt (f r) = r_wait_ref_cnt r) \<Longrightarrow>
   neutral d (row_upd i f d)"
  by (simp add: neutral_def core_eq_def wait_eq_def)

lemma neutral_refl [simp]: "neutral d d" "neutral d (emit es d)"
  by (simp_all add: neutral_def)

lemma neutral_inv: "neutral d d' \<Longrightarrow> sync_inv d \<and> wait_inv ws d \<Longrightarrow> sync_inv d' \<and> wait_inv ws d'"
  using sync_inv_cong wait_inv_cong by (auto simp: neutral_def)

lemma neutral_ops:
  "neutral d (snd (cam_sync_get_obj_ref obj d))"
  "neutral d (snd (cam_sync_put_obj_ref obj d))"
  "neutral d (snd (cam_sync_register_callback mem f u obj d))"
  "neutral d (snd (cam_sync_deregister_callback f u obj d))"
  "neutral d (snd (cam_sync_handle_register_user_payload mem user k d))"
  "neutral d (snd (cam_sync_handle_deregister_user_payload user k d))"
  "neutral d (cam_sync_util_cb_dispatch cb d)"
  "neutral d (snd (cam_sync_subscribe_event rc ty d))"
  by (auto simp: cam_sync_get_obj_ref_def cam_sync_put_obj_ref_def cam_sync_register_callback_def
      cam_sync_deregister_callback_def cam_sync_handle_register_user_payload_def
      cam_sync_handle_deregister_user_payload_def cam_sync_util_cb_dispatch_def cam_sync_subscribe_event_def
      Let_def send_v4l2_emit split: option.splits sum.splits prod.splits intro!: neutral_upd)
    (auto simp: neutral_def core_eq_def wait_eq_def)

lemma signal_wait_eq:
  assumes inv: "sync_inv d"
  shows "wait_eq d (snd (cam_sync_signal obj status cause d))"
proof -
  have par: "wait_eq e (signal_parent status cause p e)" if "is_signaled_state status" for p e
    using that by (auto simp: signal_parent_def cam_sync_util_update_parent_state_def dispatch_eq Let_def
        wait_eq_def is_signaled_state_def)
  have pars: "wait_eq e (fold (signal_parent status cause) ps e)" if "is_signaled_state status" for ps e
    using that by (induction ps arbitrary: e) (auto intro: wait_eq_trans par)
  show ?thesis
  proof (cases "out_of_range obj")
    case True
    then show ?thesis by (auto simp: cam_sync_signal_def)
  next
    case False
    define o' where "o' = nat obj"
    have o: "obj = int o'" "0 < o'" "o' < 2048" using False by (auto simp: o'_def)
    have sig: "wait_eq d (signalled o' status cause d)"
      if "is_signaled_state status" "r_state (sd_table d o') = CAM_SYNC_STATE_ACTIVE"
    proof -
      have "status \<noteq> CAM_SYNC_STATE_INVALID" using that(1) by (auto simp: is_signaled_state_def)
      with that(2) show ?thesis unfolding signalled_def wait_eq_emit
        by (intro wait_eq_row) (simp_all add: dispatched_def)
    qed
    let ?row = "sd_table d o'"
    let ?acc = "r_state ?row = CAM_SYNC_STATE_ACTIVE \<and> r_type ?row = SYNC_TYPE_INDV \<and> is_signaled_state status \<and>
      r_ref_cnt ?row = 1"
    show ?thesis
    proof (cases ?acc)
      case True
      then have "snd (cam_sync_signal obj status cause d) =
          fold (signal_parent status cause) (r_parents ?row) (signalled o' status cause d)"
        unfolding o(1) cam_sync_signal_eq [OF o(2,3)] by (simp add: Let_def is_signaled_state_def)
      with wait_eq_trans [OF sig pars] True show ?thesis by metis
    next
      case False
      then have "snd (cam_sync_signal obj status cause d) = d \<or>
          snd (cam_sync_signal obj status cause d) = row_upd o' (\<lambda>r. r\<lparr>r_ref_cnt := r_ref_cnt r - 1\<rparr>) d"
        unfolding o(1) cam_sync_signal_eq [OF o(2,3)] Let_def
        by (simp split: if_split)
      moreover have "wait_eq d (row_upd o' (\<lambda>r. r\<lparr>r_ref_cnt := r_ref_cnt r - 1\<rparr>) d)"
        by (rule wait_eq_row) simp_all
      ultimately show ?thesis by (elim disjE) simp_all
    qed
  qed
qed

lemma count_list_zero: "i \<notin> set ws \<Longrightarrow> count_list ws i = 0"
  by (simp add: count_list_0_iff)

lemma not_waiting: "wait_inv ws d \<Longrightarrow> \<not> sd_bitmap d idx \<Longrightarrow> idx \<notin> set ws"
  by (auto simp: wait_inv_def)

text \<open>A row that comes into use with one reference.\<close>

lemma install_wait:
  assumes "wait_inv ws d" "\<not> sd_bitmap d idx" "sd_bitmap d' = (sd_bitmap d)(idx := True)"
    and "valid d' idx" "r_wait_ref_cnt (sd_table d' idx) = 1"
    and "\<And>j. j \<noteq> idx \<Longrightarrow> valid d' j = valid d j \<and> r_wait_ref_cnt (sd_table d' j) = r_wait_ref_cnt (sd_table d j)"
  shows "wait_inv ws d'"
  unfolding wait_inv_def
proof (intro conjI allI impI)
  fix i
  assume i: "0 < i \<and> sd_bitmap d' i"
  show "wait_ok ws d' i"
  proof (cases "i = idx")
    case True
    with assms(4,5) count_list_zero [OF not_waiting [OF assms(1,2)]] show ?thesis by (simp add: wait_ok_def)
  next
    case False
    with assms(3) i have "sd_bitmap d i" by simp
    with assms(1) i have "wait_ok ws d i" by (simp add: wait_inv_def)
    moreover have "wait_ok ws d' i = wait_ok ws d i"
      by (simp only: wait_ok_def conjunct1 [OF assms(6) [OF False]] conjunct2 [OF assms(6) [OF False]])
    ultimately show ?thesis by simp
  qed
qed (use assms(1,3) in \<open>auto simp: wait_inv_def\<close>)

lemma create_wait:
  assumes "sync_inv d" "wait_inv ws d"
  shows "wait_inv ws (snd (snd (cam_sync_create [] nm d)))"
  using assms(1)
proof (cases rule: cam_sync_create_cases [of d nm])
  case (ok idx)
  then show ?thesis unfolding ok(5) snd_conv
    by (intro install_wait [OF assms(2), of idx]) simp_all
qed (use assms in simp)

lemma merge_wait:
  assumes "sync_inv d" "wait_inv ws d"
  shows "wait_inv ws (snd (snd (cam_sync_merge [] mem objs mp d)))"
  using assms(1)
proof (cases rule: cam_sync_merge_cases [of d mem objs mp])
  case (reject rc)
  with assms show ?thesis by simp
next
  case (undone idx d')
  have "wait_ok ws d' i = wait_ok ws d i" if "sd_bitmap d i" for i
    using that undone(4,6) by (cases "i = idx") (auto simp: wait_ok_def)
  with assms(2) undone(1,5) show ?thesis by (simp add: wait_inv_def same_rest_def)
next
  case (ok os idx cs d')
  have "valid d' idx" using ok(13) merged_row_state(1) [of idx cs d] by (auto simp: is_signaled_state_def)
  then have "wait_inv ws d'"
    using ok(13) by (intro install_wait [OF assms(2) ok(8,12)]) simp_all
  with ok(10) show ?thesis by simp
qed

section \<open>Dropping a reference\<close>

lemma put_ref_inv:
  assumes inv: "sync_inv d" and idx: "0 < i" "i < 2048"
    and bal: "\<And>j. 0 < j \<Longrightarrow> sd_bitmap d j \<Longrightarrow> j \<noteq> i \<Longrightarrow> wait_ok ws d j"
    and cnt: "r_wait_ref_cnt (sd_table d i) = 1 + (if valid d i then 1 else 0) + int (count_list ws i)"
    and ws: "\<forall>j \<in> set ws. 0 < j \<and> j < CAM_SYNC_MAX_OBJS \<and> sd_bitmap d j" "length ws \<le> MAX_WAITERS"
  shows "sync_inv (snd (cam_sync_put_wait_ref i d)) \<and> wait_inv ws (snd (cam_sync_put_wait_ref i d))"
proof (cases "\<not> valid d i \<and> i \<notin> set ws")
  case last: True
  define e where "e = row_upd i (\<lambda>r. r\<lparr>r_wait_ref_cnt := 0\<rparr>) d"
  have put: "snd (cam_sync_put_wait_ref i d) = snd (cam_sync_deinit_object i e)"
    using last cnt by (simp add: cam_sync_put_wait_ref_def refcount_dec_and_test_def count_list_zero e_def)
  have "core_eq d e" unfolding e_def by (rule core_eq_upd) simp
  with inv have inve: "sync_inv e" using sync_inv_cong by blast
  have nv: "\<not> valid e i" using last by (simp add: e_def)
  have st: "r_state (sd_table e i) = CAM_SYNC_STATE_INVALID" using nv by simp
  note c = deinit_closed [OF idx inv_children [OF inve] st]
  define f where "f = snd (cam_sync_deinit_object i e)"
  have bm: "sd_bitmap f = (sd_bitmap d)(i := False)" using c(2) by (simp add: f_def e_def)
  have oth: "valid f j = valid d j" "r_wait_ref_cnt (sd_table f j) = r_wait_ref_cnt (sd_table d j)"
    if "j \<noteq> i" for j using c(4) [OF that] that by (auto simp: f_def [symmetric]) (auto simp: e_def)
  have "wait_inv ws f"
    unfolding wait_inv_def
  proof (intro conjI allI impI)
    fix j
    assume j: "0 < j \<and> sd_bitmap f j"
    then have "j \<noteq> i" "sd_bitmap d j" by (auto simp: bm split: if_splits)
    with bal [of j] j oth show "wait_ok ws f j" by (simp add: wait_ok_def)
  qed (use ws last bm in auto)
  with deinit_inv [OF inve idx nv] show ?thesis by (simp add: put f_def)
next
  case more: False
  then have big: "r_wait_ref_cnt (sd_table d i) > 1"
    using cnt count_list_0_iff [of ws i] by (cases "valid d i") auto
  define e where "e = row_upd i (\<lambda>r. r\<lparr>r_wait_ref_cnt := r_wait_ref_cnt (sd_table d i) - 1\<rparr>) d"
  have put: "snd (cam_sync_put_wait_ref i d) = e"
    using big by (simp add: cam_sync_put_wait_ref_def refcount_dec_and_test_def e_def)
  have "core_eq d e" unfolding e_def by (rule core_eq_upd) simp
  with inv have inve: "sync_inv e" using sync_inv_cong by blast
  have "wait_ok ws e j" if "0 < j" "sd_bitmap e j" for j
    using that bal [of j] cnt more by (cases "j = i") (auto simp: e_def wait_ok_def)
  with ws inve show ?thesis by (simp add: put wait_inv_def e_def)
qed

lemma destroy_inv:
  assumes inv: "sync_inv d" "wait_inv ws d"
  shows "sync_inv (snd (cam_sync_destroy obj d)) \<and> wait_inv ws (snd (cam_sync_destroy obj d))"
proof (cases "out_of_range obj \<or> \<not> valid d (nat obj)")
  case True
  with inv show ?thesis by (auto simp: cam_sync_destroy_def)
next
  case False
  let ?i = "nat obj"
  let ?e = "row_upd ?i (\<lambda>r. r\<lparr>r_state := CAM_SYNC_STATE_INVALID, r_signaled := True\<rparr>) d"
  have i: "0 < ?i" "?i < 2048" "valid d ?i" using False by auto
  have "sd_bitmap d ?i" using inv_valid [OF inv(1) i(3)] by (simp add: valid_ok_def)
  with inv(2) i have "wait_ok ws d ?i" by (simp add: wait_inv_def)
  then have cnt: "r_wait_ref_cnt (sd_table ?e ?i) = 1 + (if valid ?e ?i then 1 else 0) + int (count_list ws ?i)"
    using i(3) by (simp add: wait_ok_def)
  have "wait_ok ws ?e j" if "0 < j" "sd_bitmap ?e j" "j \<noteq> ?i" for j
    using that inv(2) by (simp add: wait_inv_def wait_ok_def)
  moreover have "\<forall>j \<in> set ws. 0 < j \<and> j < CAM_SYNC_MAX_OBJS \<and> sd_bitmap ?e j" "length ws \<le> MAX_WAITERS"
    using inv(2) by (simp_all add: wait_inv_def)
  ultimately have "sync_inv (snd (cam_sync_put_wait_ref ?i ?e)) \<and> wait_inv ws (snd (cam_sync_put_wait_ref ?i ?e))"
    by (intro put_ref_inv [OF invalidate_inv [OF inv(1)] i(1,2) _ cnt]) auto
  with False show ?thesis by (simp add: cam_sync_destroy_def Let_def)
qed

lemma wait_begin_inv:
  assumes inv: "sync_inv d" "wait_inv ws d" and ok: "\<not> out_of_range obj" "length ws < MAX_WAITERS"
    and g: "cam_sync_get_wait_ref (nat obj) d = (rc, d1)"
  shows "sync_inv d1 \<and> wait_inv (if rc = 0 then nat obj # ws else ws) d1"
proof (cases "valid d (nat obj)")
  case False
  with g inv show ?thesis by (auto simp: cam_sync_get_wait_ref_def)
next
  case True
  let ?i = "nat obj"
  have i: "0 < ?i" "?i < 2048" using ok(1) by auto
  have bm: "sd_bitmap d ?i" using inv_valid [OF inv(1) True] by (simp add: valid_ok_def)
  with inv(2) i True have cnt: "r_wait_ref_cnt (sd_table d ?i) = 1 + int (count_list ws ?i)"
    by (simp add: wait_inv_def wait_ok_def)
  have "count_list ws ?i \<le> length ws" by (rule count_le_length)
  with cnt ok(2) have "refcount_inc_not_zero (r_wait_ref_cnt (sd_table d ?i)) = (True, 2 + int (count_list ws ?i))"
    by (simp add: refcount_inc_not_zero_def REFCOUNT_MAX_def)
  then have d1: "rc = 0" "d1 = row_upd ?i (\<lambda>r. r\<lparr>r_wait_ref_cnt := 2 + int (count_list ws ?i)\<rparr>) d"
    using g True by (auto simp: cam_sync_get_wait_ref_def)
  have "core_eq d d1" unfolding d1(2) by (rule core_eq_upd) simp
  with inv(1) have "sync_inv d1" using sync_inv_cong by blast
  moreover have "wait_ok (?i # ws) d1 j" if "0 < j" "sd_bitmap d1 j" for j
    using that inv(2) True by (auto simp: d1(2) wait_inv_def wait_ok_def)
  moreover have "\<forall>j\<in>set (?i # ws). 0 < j \<and> j < CAM_SYNC_MAX_OBJS \<and> sd_bitmap d1 j" "length (?i # ws) \<le> MAX_WAITERS"
    using inv(2) i bm ok(2) by (auto simp: wait_inv_def d1(2))
  ultimately show ?thesis using d1(1) by (simp add: wait_inv_def)
qed

lemma wait_end_inv:
  assumes inv: "sync_inv d" "wait_inv ws d" and w: "i \<in> set ws"
  shows "sync_inv (snd (cam_sync_put_wait_ref i d)) \<and> wait_inv (remove1 i ws) (snd (cam_sync_put_wait_ref i d))"
proof -
  have i: "0 < i" "i < 2048" "sd_bitmap d i" using inv(2) w by (auto simp: wait_inv_def)
  have c: "count_list ws i \<noteq> 0" using w by (simp add: count_list_0_iff)
  have bal: "wait_ok (remove1 i ws) d j" if "0 < j" "sd_bitmap d j" "j \<noteq> i" for j
    using that inv(2) by (simp add: wait_inv_def wait_ok_def count_list_remove1 in_set_remove1)
  have "wait_ok ws d i" using i inv(2) by (simp add: wait_inv_def)
  then have cnt: "r_wait_ref_cnt (sd_table d i) = 1 + (if valid d i then 1 else 0) + int (count_list (remove1 i ws) i)"
    using c by (simp add: wait_ok_def count_list_remove1)
  have ws: "\<forall>j \<in> set (remove1 i ws). 0 < j \<and> j < CAM_SYNC_MAX_OBJS \<and> sd_bitmap d j"
    "length (remove1 i ws) \<le> MAX_WAITERS"
    using inv(2) set_remove1_subset [of i ws] length_remove1 [of i ws] by (auto simp: wait_inv_def)
  from put_ref_inv [OF inv(1) i(1,2) bal cnt ws] show ?thesis .
qed

section \<open>The system keeps both invariants\<close>

definition sys_ok :: "sync_sys \<Rightarrow> bool" where
  "sys_ok s \<longleftrightarrow> sync_inv (fst s) \<and> wait_inv (snd s) (fst s)"

lemma act_ok:
  assumes "sys_ok s"
  shows "sys_ok (act a s)"
proof -
  obtain d ws where s: "s = (d, ws)" by fastforce
  with assms have inv: "sync_inv d" "wait_inv ws d" by (simp_all add: sys_ok_def)
  have neutral: "sync_inv d' \<and> wait_inv ws d'" if "neutral d d'" for d'
    using neutral_inv [OF that] inv by blast
  show ?thesis
  proof (cases a)
    case (A_Signal obj st cause)
    with inv signal_inv [OF inv(1), of obj st cause] wait_inv_cong [OF signal_wait_eq [OF inv(1)], of ws obj st cause]
    show ?thesis by (simp add: s sys_ok_def)
  next
    case (A_Wait_Begin obj)
    show ?thesis
    proof (cases "out_of_range obj \<or> length ws \<ge> MAX_WAITERS")
      case True
      then show ?thesis using inv by (simp add: A_Wait_Begin s sys_ok_def)
    next
      case False
      obtain rc d1 where g: "cam_sync_get_wait_ref (nat obj) d = (rc, d1)" by fastforce
      with False wait_begin_inv [OF inv _ _ g] show ?thesis
        by (auto simp: A_Wait_Begin s sys_ok_def)
    qed
  qed (use inv create_inv create_wait merge_inv merge_wait destroy_inv [OF inv] wait_end_inv [OF inv]
      neutral [OF neutral_ops(1)] neutral [OF neutral_ops(2)] neutral [OF neutral_ops(3)]
      neutral [OF neutral_ops(4)] neutral [OF neutral_ops(5)] neutral [OF neutral_ops(6)]
      neutral [OF neutral_ops(7)] neutral [OF neutral_ops(8)] in \<open>simp_all add: s sys_ok_def\<close>)
qed

lemma bound_ok: "sys_ok (bound_device, [])"
  by (simp add: sys_ok_def sync_inv_with_def wait_inv_def bound_device_def zero_row_def set_bit_map_def
      bitmap_zero_def)

lemma run_ok: "sys_ok s \<Longrightarrow> sys_ok (run acts s)"
  by (induction acts arbitrary: s) (simp_all add: run_def act_ok)

end
