(* ===== verification/Cam_Sync_Props.thy ===== *)
theory Cam_Sync_Props imports Cam_Sync_System begin

text \<open>
  What the fence driver promises: the soundness of the fence graph and of the reference counts in
  every reachable state, the effect of a signal on the fence and on the merged fences it belongs
  to, the outcome of a merged fence, creation under interference, callbacks, waiting and the last
  close.
\<close>

section \<open>The effect of a signal\<close>

definition parent_row :: "u32 \<Rightarrow> bool \<Rightarrow> sync_table_row \<Rightarrow> sync_table_row" where
  "parent_row status evq r =
     (if r_state r = CAM_SYNC_STATE_INVALID then r\<lparr>r_remaining := r_remaining r - 1\<rparr>
      else if r_remaining r = 1 then dispatched evq (told status r) else told status r)"

definition parent_evs :: "u32 \<Rightarrow> u32 \<Rightarrow> sync_device \<Rightarrow> nat \<Rightarrow> sync_ev list" where
  "parent_evs status cause d p =
     (if valid d p \<and> r_remaining (sd_table d p) = 1
      then dispatch_evs p (parent_state status (r_state (sd_table d p))) cause d else [])"

lemma minus_one_zero: "x - 1 = 0 \<longleftrightarrow> x = (1 :: u32)"
  by simp

lemma signal_parent_closed:
  assumes "valid d p \<Longrightarrow> r_state (sd_table d p) = CAM_SYNC_STATE_ACTIVE \<or> is_signaled_state (r_state (sd_table d p))"
    and "is_signaled_state status"
  shows "sd_table (signal_parent status cause p d) =
      (sd_table d)(p := parent_row status (sd_eventq d) (sd_table d p))"
    and "sd_log (signal_parent status cause p d) = sd_log d @ parent_evs status cause d p"
proof -
  have "sd_table (signal_parent status cause p d) j =
      ((sd_table d)(p := parent_row status (sd_eventq d) (sd_table d p))) j" for j
  proof (cases "valid d p")
    case True
    then show ?thesis using signal_parent_valid [OF True assms(1) [OF True] assms(2)]
      by (cases "j = p") (simp_all add: parent_row_def)
  qed (simp add: signal_parent_invalid parent_row_def)
  then show "sd_table (signal_parent status cause p d) =
      (sd_table d)(p := parent_row status (sd_eventq d) (sd_table d p))" by blast
  show "sd_log (signal_parent status cause p d) = sd_log d @ parent_evs status cause d p"
  proof (cases "valid d p")
    case True
    then show ?thesis using signal_parent_valid(3) [OF True assms(1) [OF True] assms(2)]
      by (simp add: parent_evs_def)
  qed (simp add: signal_parent_invalid parent_evs_def)
qed

lemma parent_evs_cong:
  "sd_table d p = sd_table d' p \<Longrightarrow> sd_eventq d = sd_eventq d' \<Longrightarrow> sd_version d = sd_version d' \<Longrightarrow>
   parent_evs status cause d p = parent_evs status cause d' p"
  by (simp add: parent_evs_def dispatch_evs_def)

lemma signal_parents_closed:
  assumes "distinct ps" "is_signaled_state status"
    and "\<And>p. p \<in> set ps \<Longrightarrow> valid d p \<Longrightarrow>
      r_state (sd_table d p) = CAM_SYNC_STATE_ACTIVE \<or> is_signaled_state (r_state (sd_table d p))"
  shows "sd_table (fold (signal_parent status cause) ps d) j =
      (if j \<in> set ps then parent_row status (sd_eventq d) (sd_table d j) else sd_table d j)"
    and "sd_log (fold (signal_parent status cause) ps d) =
      sd_log d @ concat (map (parent_evs status cause d) ps)"
    and "sd_bitmap (fold (signal_parent status cause) ps d) = sd_bitmap d"
    and "sd_eventq (fold (signal_parent status cause) ps d) = sd_eventq d"
    and "sd_version (fold (signal_parent status cause) ps d) = sd_version d"
proof -
  have "(\<forall>j. sd_table (fold (signal_parent status cause) ps d) j =
      (if j \<in> set ps then parent_row status (sd_eventq d) (sd_table d j) else sd_table d j)) \<and>
    sd_log (fold (signal_parent status cause) ps d) =
      sd_log d @ concat (map (parent_evs status cause d) ps) \<and>
    sd_bitmap (fold (signal_parent status cause) ps d) = sd_bitmap d \<and>
    sd_eventq (fold (signal_parent status cause) ps d) = sd_eventq d \<and>
    sd_version (fold (signal_parent status cause) ps d) = sd_version d"
    using assms(1,3)
  proof (induction ps arbitrary: d)
    case (Cons p ps)
    define e where "e = signal_parent status cause p d"
    have ok: "valid d p \<Longrightarrow> r_state (sd_table d p) = CAM_SYNC_STATE_ACTIVE \<or> is_signaled_state (r_state (sd_table d p))"
      using Cons.prems(2) [of p] by auto
    note e = signal_parent_closed [OF ok assms(2), of cause, folded e_def]
    have same: "sd_table e q = sd_table d q" if "q \<in> set ps" for q using that Cons.prems(1) e(1) by auto
    have rest: "sd_bitmap e = sd_bitmap d" "sd_eventq e = sd_eventq d" "sd_version e = sd_version d"
      by (simp_all add: e_def)
    have evs: "map (parent_evs status cause e) ps = map (parent_evs status cause d) ps"
      by (intro map_cong parent_evs_cong refl) (simp_all add: same rest)
    have "q \<in> set ps \<Longrightarrow> valid e q \<Longrightarrow>
        r_state (sd_table e q) = CAM_SYNC_STATE_ACTIVE \<or> is_signaled_state (r_state (sd_table e q))" for q
      using Cons.prems(2) [of q] same [of q] by auto
    from Cons.IH [OF _ this] Cons.prems(1)
    show ?case by (simp add: e_def [symmetric] e rest evs)
  qed simp
  then show "sd_table (fold (signal_parent status cause) ps d) j =
      (if j \<in> set ps then parent_row status (sd_eventq d) (sd_table d j) else sd_table d j)"
    and "sd_log (fold (signal_parent status cause) ps d) =
      sd_log d @ concat (map (parent_evs status cause d) ps)"
    and "sd_bitmap (fold (signal_parent status cause) ps d) = sd_bitmap d"
    and "sd_eventq (fold (signal_parent status cause) ps d) = sd_eventq d"
    and "sd_version (fold (signal_parent status cause) ps d) = sd_version d"
    by blast+
qed

text \<open>The row of the fence that is signalled.\<close>

definition signalled_row :: "u32 \<Rightarrow> bool \<Rightarrow> sync_table_row \<Rightarrow> sync_table_row" where
  "signalled_row status evq r =
     (dispatched evq (r\<lparr>r_ref_cnt := r_ref_cnt r - 1, r_state := status\<rparr>))\<lparr>r_parents := []\<rparr>"

lemma signal_accepted:
  assumes inv: "sync_inv d" and st: "is_signaled_state status"
    and c: "r_state (sd_table d c) = CAM_SYNC_STATE_ACTIVE" "r_type (sd_table d c) = SYNC_TYPE_INDV"
      "r_ref_cnt (sd_table d c) = 1"
    and res: "cam_sync_signal (int c) status cause d = (rc, d')"
  shows "rc = 0"
    and "sd_table d' j =
      (if j = c then signalled_row status (sd_eventq d) (sd_table d c)
       else if j \<in> set (r_parents (sd_table d c)) then parent_row status (sd_eventq d) (sd_table d j)
       else sd_table d j)"
    and "sd_log d' = sd_log d @ dispatch_evs c status cause d @
      concat (map (parent_evs status cause d) (r_parents (sd_table d c)))"
    and "sd_bitmap d' = sd_bitmap d" and "sync_inv d'"
proof -
  let ?ps = "r_parents (sd_table d c)"
  define e where "e = signalled c status cause d"
  have v: "valid d c" using c(1) by simp
  have i: "0 < c" "c < 2048" using inv_valid [OF inv v] by (simp_all add: valid_ok_def)
  have d': "rc = 0" "d' = fold (signal_parent status cause) ?ps e"
    using res c st v cam_sync_signal_eq [OF i, of status cause d] by (simp_all add: Let_def e_def)
  have nc: "c \<notin> set ?ps" using inv_link [OF inv v, of c] c(2) by (auto simp: link_ok_def)
  have same: "sd_table e q = sd_table d q" if "q \<noteq> c" for q using that by (simp add: e_def signalled_def)
  have rest: "sd_bitmap e = sd_bitmap d" "sd_eventq e = sd_eventq d" "sd_version e = sd_version d"
    by (simp_all add: e_def signalled_def)
  have "r_state (sd_table e q) = CAM_SYNC_STATE_ACTIVE \<or> is_signaled_state (r_state (sd_table e q))"
    if q: "q \<in> set ?ps" "valid e q" for q
  proof -
    from q(1) have "sd_table e q = sd_table d q" using nc same [of q] by blast
    with inv_valid [OF inv, of q] q(2) show ?thesis by (simp add: valid_ok_def)
  qed
  note f = signal_parents_closed [OF inv_parents_distinct [OF inv v] st this, of cause, folded d'(2)]
  have evs: "map (parent_evs status cause e) ?ps = map (parent_evs status cause d) ?ps"
  proof (intro map_cong parent_evs_cong refl rest)
    fix x
    assume "x \<in> set ?ps"
    with nc have "x \<noteq> c" by blast
    then show "sd_table e x = sd_table d x" by (rule same)
  qed
  show "rc = 0" by (rule d'(1))
  show "sd_table d' j =
      (if j = c then signalled_row status (sd_eventq d) (sd_table d c)
       else if j \<in> set ?ps then parent_row status (sd_eventq d) (sd_table d j) else sd_table d j)"
    using f(1) [of j] nc same [of j] rest(2) by (auto simp: e_def signalled_def signalled_row_def)
  show "sd_log d' = sd_log d @ dispatch_evs c status cause d @ concat (map (parent_evs status cause d) ?ps)"
    using f(2) by (simp add: evs) (simp add: e_def signalled_def)
  show "sd_bitmap d' = sd_bitmap d" using f(3) rest(1) by simp
  show "sync_inv d'" using signal_inv [OF inv, of "int c" status cause] res by simp
qed

section \<open>A merged fence from merge to its last member\<close>

fun first_bad :: "u32 list \<Rightarrow> u32" where
  "first_bad [] = CAM_SYNC_STATE_SIGNALED_SUCCESS"
| "first_bad (s # ss) = (if s = CAM_SYNC_STATE_SIGNALED_SUCCESS then first_bad ss else s)"

text \<open>What user space does to signal a fence.\<close>

abbreviation user_signal :: "cam_private_ioctl_arg \<Rightarrow> int \<times> u32 \<Rightarrow> sync_device \<Rightarrow> sync_device" where
  "user_signal k s d \<equiv> snd (cam_sync_handle_signal (Some s) k d)"

definition signal_arg :: "cam_private_ioctl_arg \<Rightarrow> bool" where
  "signal_arg k \<longleftrightarrow> k_size k = 8 \<and> k_ioctl_ptr k \<noteq> 0"

text \<open>Group \<open>p\<close> waits for exactly the members \<open>cs\<close>, none of which has a signal under way.\<close>

definition waits_for :: "sync_device \<Rightarrow> nat \<Rightarrow> nat list \<Rightarrow> bool" where
  "waits_for d p cs \<longleftrightarrow> sync_inv d \<and> valid d p \<and> r_type (sd_table d p) = SYNC_TYPE_GROUP \<and>
     r_remaining (sd_table d p) = of_nat (length cs) \<and> distinct cs \<and> length cs < CAM_SYNC_MAX_OBJS \<and>
     (\<forall>c \<in> set cs. r_state (sd_table d c) = CAM_SYNC_STATE_ACTIVE \<and> r_type (sd_table d c) = SYNC_TYPE_INDV \<and>
        r_ref_cnt (sd_table d c) = 0 \<and> p \<in> set (r_parents (sd_table d c)))"

lemma get_ref_active:
  "sync_inv d \<Longrightarrow> r_state (sd_table d c) = CAM_SYNC_STATE_ACTIVE \<Longrightarrow>
   cam_sync_get_obj_ref (int c) d = (0, row_upd c (\<lambda>r. r\<lparr>r_ref_cnt := r_ref_cnt r + 1\<rparr>) d)"
  using inv_valid [of "\<lambda>_. 0" d c] by (simp add: cam_sync_get_obj_ref_def valid_ok_def)

lemma user_signal_active:
  assumes "sync_inv d" "r_state (sd_table d c) = CAM_SYNC_STATE_ACTIVE" "signal_arg k"
  shows "cam_sync_handle_signal (Some (int c, status)) k d =
     cam_sync_signal (int c) status CAM_SYNC_COMMON_SYNC_SIGNAL_EVENT
       (row_upd c (\<lambda>r. r\<lparr>r_ref_cnt := r_ref_cnt r + 1\<rparr>) d)"
  using assms by (simp add: cam_sync_handle_signal_def user_arg_def signal_arg_def get_ref_active)

lemma user_signal_first:
  assumes inv: "sync_inv d" and k: "signal_arg k" and st: "is_signaled_state status"
    and c: "r_state (sd_table d c) = CAM_SYNC_STATE_ACTIVE" "r_type (sd_table d c) = SYNC_TYPE_INDV"
      "r_ref_cnt (sd_table d c) = 0"
  shows "sync_inv (user_signal k (int c, status) d)"
    and "j \<noteq> c \<Longrightarrow> sd_table (user_signal k (int c, status) d) j =
      (if j \<in> set (r_parents (sd_table d c)) then parent_row status (sd_eventq d) (sd_table d j) else sd_table d j)"
proof -
  define e where "e = row_upd c (\<lambda>r. r\<lparr>r_ref_cnt := r_ref_cnt r + 1\<rparr>) d"
  have "neutral d (snd (cam_sync_get_obj_ref (int c) d))" by (rule neutral_ops)
  then have inve: "sync_inv e" using inv sync_inv_cong by (auto simp: neutral_def get_ref_active [OF inv c(1)] e_def)
  have ce: "r_state (sd_table e c) = CAM_SYNC_STATE_ACTIVE" "r_type (sd_table e c) = SYNC_TYPE_INDV"
    "r_ref_cnt (sd_table e c) = 1" using c by (simp_all add: e_def)
  obtain rc d' where r: "cam_sync_signal (int c) status CAM_SYNC_COMMON_SYNC_SIGNAL_EVENT e = (rc, d')"
    by fastforce
  note s = signal_accepted [OF inve st ce r]
  have d': "user_signal k (int c, status) d = d'"
    using r by (simp add: user_signal_active [OF inv c(1) k] e_def)
  show "sync_inv (user_signal k (int c, status) d)" using s(5) by (simp add: d')
  show "sd_table (user_signal k (int c, status) d) j =
      (if j \<in> set (r_parents (sd_table d c)) then parent_row status (sd_eventq d) (sd_table d j) else sd_table d j)"
    if "j \<noteq> c" using that s(2) [of j] by (simp add: d') (simp add: e_def)
qed

lemma waits_for_step:
  assumes w: "waits_for d p (c # cs)" and k: "signal_arg k" and st: "is_signaled_state status"
  shows "waits_for (user_signal k (int c, status) d) p cs"
    and "r_state (sd_table (user_signal k (int c, status) d) p) = parent_state status (r_state (sd_table d p))"
proof -
  define e where "e = user_signal k (int c, status) d"
  have inv: "sync_inv d" and c: "r_state (sd_table d c) = CAM_SYNC_STATE_ACTIVE"
    "r_type (sd_table d c) = SYNC_TYPE_INDV" "r_ref_cnt (sd_table d c) = 0" "p \<in> set (r_parents (sd_table d c))"
    and p: "valid d p" "r_type (sd_table d p) = SYNC_TYPE_GROUP"
    and rem: "r_remaining (sd_table d p) = 1 + of_nat (length cs)"
    using w by (simp_all add: waits_for_def)
  note s = user_signal_first [OF inv k st c(1-3), folded e_def]
  have pc: "p \<noteq> c" using c p by auto
  have row: "sd_table e p = parent_row status (sd_eventq d) (sd_table d p)" using s(2) [OF pc] c(4) by simp
  have ps: "parent_row status b (sd_table d p) = dispatched b (told status (sd_table d p)) \<or>
      parent_row status b (sd_table d p) = told status (sd_table d p)" for b
    using p by (simp add: parent_row_def)
  have st_p: "r_state (sd_table d p) = CAM_SYNC_STATE_ACTIVE \<or> is_signaled_state (r_state (sd_table d p))"
    using inv_valid [OF inv p(1)] by (simp add: valid_ok_def)
  have val: "parent_state status (r_state (sd_table d p)) \<noteq> CAM_SYNC_STATE_INVALID"
    using parent_state_ok [OF st st_p] by (auto simp: is_signaled_state_def)
  have e_p: "r_type (sd_table e p) = SYNC_TYPE_GROUP" "r_remaining (sd_table e p) = of_nat (length cs)"
    and e_st: "r_state (sd_table e p) = parent_state status (r_state (sd_table d p))"
    using ps [of "sd_eventq d"] p(2) rem by (auto simp: row)
  have mem: "r_state (sd_table e x) = CAM_SYNC_STATE_ACTIVE \<and> r_type (sd_table e x) = SYNC_TYPE_INDV \<and>
      r_ref_cnt (sd_table e x) = 0 \<and> p \<in> set (r_parents (sd_table e x))" if x: "x \<in> set cs" for x
  proof -
    have xw: "r_state (sd_table d x) = CAM_SYNC_STATE_ACTIVE" "r_type (sd_table d x) = SYNC_TYPE_INDV"
      "r_ref_cnt (sd_table d x) = 0" "p \<in> set (r_parents (sd_table d x))" "x \<noteq> c"
      using w x by (auto simp: waits_for_def)
    have "x \<notin> set (r_parents (sd_table d c))"
      using inv_link [OF inv, of c x] c(1) xw(2) by (auto simp: link_ok_def)
    with s(2) [OF xw(5)] xw show ?thesis by simp
  qed
  show "waits_for e p cs"
    using w s(1) e_p e_st val mem by (simp add: waits_for_def)
  show "r_state (sd_table e p) = parent_state status (r_state (sd_table d p))" by (rule e_st)
qed

lemma waits_for_signaled:
  assumes "waits_for d p cs"
  shows "r_signaled (sd_table d p) \<longleftrightarrow> cs = []"
proof -
  have "length cs < 2048" using assms by (simp add: waits_for_def)
  then have "(of_nat (length cs) :: u32) = 0 \<longleftrightarrow> length cs = 0"
    using unat_of_nat_u32 [of "length cs"] by (auto simp: unat_eq_0 [symmetric])
  then show ?thesis using assms inv_valid [of "\<lambda>_. 0" d p] by (auto simp: waits_for_def valid_ok_def)
qed

lemma signal_members:
  assumes "waits_for d p (map (nat \<circ> fst) sigs @ rest)" "signal_arg k"
    and "\<And>s. s \<in> set sigs \<Longrightarrow> 0 \<le> fst s \<and> is_signaled_state (snd s)"
  shows "waits_for (fold (user_signal k) sigs d) p rest \<and>
    r_state (sd_table (fold (user_signal k) sigs d) p) = fold parent_state (map snd sigs) (r_state (sd_table d p))"
  using assms
proof (induction sigs arbitrary: d)
  case (Cons s sigs)
  obtain o' st where s: "s = (int o', st)" using Cons.prems(3) [of s] by (metis fst_conv list.set_intros(1) nat_0_le surj_pair)
  have "waits_for d p (o' # map (nat \<circ> fst) sigs @ rest)" "is_signaled_state st"
    using Cons.prems(1) Cons.prems(3) [of s] by (simp_all add: s comp_def)
  note w = waits_for_step [OF this(1) Cons.prems(2) this(2)]
  from Cons.IH [OF w(1) Cons.prems(2)] Cons.prems(3) w(2) show ?case by (simp add: s comp_def)
qed simp

lemma waits_for_perm:
  "waits_for d p cs \<Longrightarrow> distinct cs' \<Longrightarrow> set cs' = set cs \<Longrightarrow> waits_for d p cs'"
  using distinct_card [of cs] distinct_card [of cs'] by (simp add: waits_for_def)

text \<open>What a merge over active fences leaves.\<close>

lemma merge_waits_for:
  assumes inv: "sync_inv d" and m: "cam_sync_merge [] mem (Some os) mp d = (0, Some p, d1)"
    and idle: "\<And>c. c \<in> set os \<Longrightarrow> r_state (sd_table d (nat c)) = CAM_SYNC_STATE_ACTIVE \<and>
      r_ref_cnt (sd_table d (nat c)) = 0"
  obtains cs where "os = map int cs" "waits_for d1 p cs" "r_state (sd_table d1 p) = CAM_SYNC_STATE_ACTIVE" "cs \<noteq> []"
proof -
  have inv1: "sync_inv d1" using merge_inv [OF inv, of mem "Some os" mp] m by simp
  from inv obtain cs where cs: "cs = map nat os" "distinct cs" "2 \<le> length cs"
    "\<forall>c \<in> set cs. 0 < c \<and> c < 2048 \<and> valid d c \<and> r_type (sd_table d c) = SYNC_TYPE_INDV" "\<not> sd_bitmap d p"
    "\<forall>j. sd_table d1 j = (if j = p then merged_row p cs d else linked p (filter (is_active d) cs) d j)"
    by (cases rule: cam_sync_merge_cases [of d mem "Some os" mp]) (use m in auto)
  have all: "is_active d c" if "c \<in> set cs" for c using idle that by (auto simp: cs(1) is_active_def)
  then have act: "filter (is_active d) cs = cs" by simp
  have "0 \<le> x" if "x \<in> set os" for x using that cs(4) by (force simp: cs(1))
  then have os: "os = map int cs" by (simp add: cs(1) map_idI comp_def)
  have sub: "set cs \<subseteq> {1..<2048}" using cs(4) by force
  have len: "length cs < 2048" using card_mono [OF _ sub] distinct_card [OF cs(2)] by simp
  have pn: "p \<notin> set cs" using cs(4,5) inv_valid [OF inv, of p] by (auto simp: valid_ok_def)
  have vp: "valid d1 p" using cs(6) merged_row_state(1) [of p cs d] by (auto simp: is_signaled_state_def)
  have "r_state (sd_table d1 c) = CAM_SYNC_STATE_ACTIVE \<and> r_type (sd_table d1 c) = SYNC_TYPE_INDV \<and>
      r_ref_cnt (sd_table d1 c) = 0 \<and> p \<in> set (r_parents (sd_table d1 c))" if c: "c \<in> set cs" for c
    using pn c idle [of "int c"] all [OF c] cs(4,6) unfolding act by (auto simp: os linked_def)
  with inv1 vp cs(2,6) len have w: "waits_for d1 p cs" by (simp add: waits_for_def act)
  have "group_state d xs st = st" if "\<forall>c \<in> set xs. is_active d c" for xs st
    using that by (induction xs arbitrary: st) (simp_all add: group_state_def is_active_def)
  then have "r_state (sd_table d1 p) = CAM_SYNC_STATE_ACTIVE"
    using cs(3,6) all by (auto simp: merged_row_def Let_def zero_row_def act)
  moreover have "cs \<noteq> []" using cs(3) by auto
  ultimately show thesis by (rule that [OF os w])
qed

lemma fold_parent_state_bad:
  "st \<noteq> CAM_SYNC_STATE_ACTIVE \<Longrightarrow> st \<noteq> CAM_SYNC_STATE_SIGNALED_SUCCESS \<Longrightarrow> fold parent_state ss st = st"
  by (induction ss) (simp_all add: parent_state_def)

lemma fold_parent_state:
  "\<forall>s \<in> set ss. is_signaled_state s \<Longrightarrow> st = CAM_SYNC_STATE_SIGNALED_SUCCESS \<or> st = CAM_SYNC_STATE_ACTIVE \<and> ss \<noteq> [] \<Longrightarrow>
   fold parent_state ss st = first_bad ss"
proof (induction ss arbitrary: st)
  case (Cons s ss)
  have "parent_state s st = s" using Cons.prems(2) by (auto simp: parent_state_def)
  moreover have "is_signaled_state s" using Cons.prems(1) by simp
  ultimately show ?case
    using Cons.IH Cons.prems(1) by (auto simp: fold_parent_state_bad is_signaled_state_def)
qed auto

section \<open>Reachable states\<close>

lemma reachable_ok: "sys_ok (run acts (bound_device, []))"
  by (rule run_ok [OF bound_ok])

lemma reachable_inv: "sync_inv (fst (run acts (bound_device, [])))"
  using reachable_ok [of acts] by (simp add: sys_ok_def)

text \<open>Two fences merged into fence 3; fence 1 has a signal under way.\<close>

definition demo_acts :: "sync_act list" where
  "demo_acts = [A_Create ''a'', A_Create ''b'', A_Merge (\<lambda>_. (True, True)) (Some [1, 2]) True, A_Get_Ref 1]"

definition demo_dev :: sync_device where
  "demo_dev = fst (run demo_acts (bound_device, []))"

lemma demo_inv: "sync_inv demo_dev"
  unfolding demo_dev_def by (rule reachable_inv)

text \<open>C22: in every state the driver can reach, the graph of fences is sound. A fence in use has
  its own row and a state of the state machine; the groups it names as parents are groups that list it as
  a member (a group goes on listing a member that no longer names it, after a signal), and while such
  a group lives it still waits; a group waits for at least as many members as still name it; the
  completion of a fence is done exactly when it waits for nothing, and a group that waits for nothing has
  a final state.\<close>

theorem fence_graph_sound:
  assumes "run acts (bound_device, []) = (d, ws)" and "valid d i"
  shows "0 < i \<and> i < CAM_SYNC_MAX_OBJS \<and> sd_bitmap d i \<and>
    (r_state (sd_table d i) = CAM_SYNC_STATE_ACTIVE \<or> is_signaled_state (r_state (sd_table d i))) \<and>
    (\<forall>p \<in> set (r_parents (sd_table d i)).
       r_type (sd_table d i) = SYNC_TYPE_INDV \<and> r_state (sd_table d i) = CAM_SYNC_STATE_ACTIVE \<and>
       r_type (sd_table d p) = SYNC_TYPE_GROUP \<and> i \<in> set (r_children (sd_table d p)) \<and>
       (valid d p \<longrightarrow> 0 < r_remaining (sd_table d p))) \<and>
    (r_type (sd_table d i) = SYNC_TYPE_GROUP \<longrightarrow>
       card {c. valid d c \<and> i \<in> set (r_parents (sd_table d c))} \<le> unat (r_remaining (sd_table d i)) \<and>
       (r_signaled (sd_table d i) \<longleftrightarrow> r_remaining (sd_table d i) = 0) \<and>
       (r_remaining (sd_table d i) = 0 \<longrightarrow> is_signaled_state (r_state (sd_table d i)))) \<and>
    (r_type (sd_table d i) = SYNC_TYPE_INDV \<longrightarrow>
       (r_signaled (sd_table d i) \<longleftrightarrow> is_signaled_state (r_state (sd_table d i))))"
proof -
  have inv: "sync_inv d" using reachable_inv [of acts] assms(1) by simp
  have "0 < r_remaining (sd_table d p)" if "p \<in> set (r_parents (sd_table d i))" "valid d p" for p
  proof -
    have "i \<in> pend d p" using that assms(2) by (simp add: pend_def)
    then have "0 < card (pend d p)" using pend_finite [OF inv] by (auto simp: card_gt_0_iff)
    moreover have "r_type (sd_table d p) = SYNC_TYPE_GROUP"
      using inv_link [OF inv assms(2) that(1)] by (simp add: link_ok_def)
    ultimately show ?thesis using inv_group [OF inv that(2)] by (auto simp: group_ok_def word_neq_0_conv [symmetric])
  qed
  then show ?thesis
    using inv_valid [OF inv assms(2)] inv_link [OF inv assms(2)] inv_group [OF inv assms(2)]
    by (auto simp: valid_ok_def link_ok_def group_ok_def pend_def is_signaled_state_def)
qed

theorem fence_graph_sound_witness:
  "0 < r_remaining (sd_table demo_dev 3) \<and> r_parents (sd_table demo_dev 1) = [3]"
proof -
  have v: "valid demo_dev 1" and p: "r_parents (sd_table demo_dev 1) = [3]" and v3: "valid demo_dev 3" by code_simp+
  have "run demo_acts (bound_device, []) = (demo_dev, snd (run demo_acts (bound_device, [])))"
    by (simp add: demo_dev_def)
  from fence_graph_sound [OF this v] p v3 show ?thesis by simp
qed

text \<open>C23: in every reachable state the reference count of a row in use is one for the fence while
  it is valid plus one for every caller asleep on it; a row is therefore never handed out again
  under a sleeping caller, and a destroyed fence keeps its row only for sleeping callers.\<close>

theorem wait_references_balance:
  assumes "run acts (bound_device, []) = (d, ws)" and "0 < i"
  shows "(sd_bitmap d i \<longrightarrow> r_wait_ref_cnt (sd_table d i) = (if valid d i then 1 else 0) + int (count_list ws i)) \<and>
    (i \<in> set ws \<longrightarrow> sd_bitmap d i \<and> cam_sync_create [] nm d \<noteq> (0, Some i, d')) \<and>
    (sd_bitmap d i \<and> \<not> valid d i \<longrightarrow> i \<in> set ws)"
proof -
  have ok: "wait_inv ws d" and inv: "sync_inv d"
    using reachable_ok [of acts] assms(1) by (simp_all add: sys_ok_def)
  have "cam_sync_create [] nm d \<noteq> (0, Some i, d')" if "sd_bitmap d i"
    using inv that by (cases rule: cam_sync_create_cases [of d nm]) auto
  moreover have "sd_bitmap d i \<Longrightarrow> wait_ok ws d i" "i \<in> set ws \<Longrightarrow> sd_bitmap d i"
    using ok assms(2) by (simp_all add: wait_inv_def)
  ultimately show ?thesis unfolding wait_ok_def by blast
qed

theorem wait_references_balance_witness:
  "\<exists>d. run [A_Create ''a'', A_Wait_Begin 1, A_Destroy 1] (bound_device, []) = (d, [1]) \<and>
     sd_bitmap d 1 \<and> \<not> valid d 1 \<and> r_wait_ref_cnt (sd_table d 1) = 1"
proof -
  let ?s = "run [A_Create ''a'', A_Wait_Begin 1, A_Destroy 1] (bound_device, [])"
  define d1 where "d1 = snd (snd (cam_sync_create [] ''a'' bound_device))"
  have d1: "r_state (sd_table d1 1) = CAM_SYNC_STATE_ACTIVE" "r_wait_ref_cnt (sd_table d1 1) = 1"
    unfolding d1_def by code_simp+
  have s: "?s = act (A_Destroy 1) (act (A_Wait_Begin 1) (d1, []))"
    by (simp add: run_def d1_def del: act.simps(10,11))
  have w: "act (A_Wait_Begin 1) (d1, []) = (row_upd 1 (\<lambda>r. r\<lparr>r_wait_ref_cnt := 2\<rparr>) d1, [1])"
    using d1 by (simp add: cam_sync_get_wait_ref_def refcount_inc_not_zero_def REFCOUNT_MAX_def)
  have ws: "snd ?s = [1]" unfolding s w by simp
  have nv: "\<not> valid (fst ?s) 1" unfolding s w
    by (simp add: cam_sync_destroy_def cam_sync_put_wait_ref_def refcount_dec_and_test_def)
  have r: "?s = (fst ?s, [1])" using ws by (metis surjective_pairing)
  note b = wait_references_balance [OF r zero_less_one]
  have "sd_bitmap (fst ?s) 1" "r_wait_ref_cnt (sd_table (fst ?s) 1) = 1"
    using b nv by simp_all
  with nv r show ?thesis by blast
qed

text \<open>C24: the whole effect of an accepted signal. The fence takes the status and its callbacks
  and payloads go out; each live group that has it as a member counts it down, takes the status
  unless it has failed before, and is dispatched exactly when this was its last member; no other
  fence changes, and nothing else is sent.\<close>

theorem signal_effect:
  assumes "run acts (bound_device, []) = (d, ws)" and "is_signaled_state status"
    and "r_state (sd_table d c) = CAM_SYNC_STATE_ACTIVE" "r_type (sd_table d c) = SYNC_TYPE_INDV"
    and "r_ref_cnt (sd_table d c) = 1"
    and "cam_sync_signal (int c) status cause d = (rc, d')"
  shows "rc = 0 \<and> r_state (sd_table d' c) = status \<and> r_signaled (sd_table d' c) \<and> r_parents (sd_table d' c) = [] \<and>
    r_callbacks (sd_table d' c) = [] \<and>
    (\<forall>p \<in> set (r_parents (sd_table d c)). valid d p \<longrightarrow>
       r_remaining (sd_table d' p) = r_remaining (sd_table d p) - 1 \<and>
       r_state (sd_table d' p) = (if r_state (sd_table d p) = CAM_SYNC_STATE_SIGNALED_ERROR \<or>
         r_state (sd_table d p) = CAM_SYNC_STATE_SIGNALED_CANCEL then r_state (sd_table d p) else status) \<and>
       (r_signaled (sd_table d' p) \<longleftrightarrow> r_remaining (sd_table d p) = 1)) \<and>
    (\<forall>j. j \<noteq> c \<and> j \<notin> set (r_parents (sd_table d c)) \<longrightarrow> sd_table d' j = sd_table d j) \<and>
    sd_log d' = sd_log d @ dispatch_evs c status cause d @
      concat (map (\<lambda>p. dispatch_evs p (r_state (sd_table d' p)) cause d)
        (filter (\<lambda>p. valid d p \<and> r_remaining (sd_table d p) = 1) (r_parents (sd_table d c))))"
proof -
  have inv: "sync_inv d" using reachable_inv [of acts] assms(1) by simp
  note s = signal_accepted [OF inv assms(2-6)]
  have v: "valid d c" using assms(3) by simp
  have nc: "c \<notin> set (r_parents (sd_table d c))" using inv_link [OF inv v, of c] assms(4) by (auto simp: link_ok_def)
  have p: "r_remaining (sd_table d' p) = r_remaining (sd_table d p) - 1 \<and>
       r_state (sd_table d' p) = parent_state status (r_state (sd_table d p)) \<and>
       (r_signaled (sd_table d' p) \<longleftrightarrow> r_remaining (sd_table d p) = 1)"
    "parent_state status (r_state (sd_table d p)) = (if r_state (sd_table d p) = CAM_SYNC_STATE_SIGNALED_ERROR \<or>
         r_state (sd_table d p) = CAM_SYNC_STATE_SIGNALED_CANCEL then r_state (sd_table d p) else status)"
    if "p \<in> set (r_parents (sd_table d c))" "valid d p" for p
  proof -
    have g: "r_type (sd_table d p) = SYNC_TYPE_GROUP" using inv_link [OF inv v that(1)] by (simp add: link_ok_def)
    have "c \<in> pend d p" using that(1) v by (simp add: pend_def)
    then have "0 < card (pend d p)" using pend_finite [OF inv] by (auto simp: card_gt_0_iff)
    then have "r_remaining (sd_table d p) \<noteq> 0" using inv_group [OF inv that(2) g] by (auto simp: group_ok_def)
    then have "\<not> r_signaled (sd_table d p)" using inv_valid [OF inv that(2)] g by (simp add: valid_ok_def)
    moreover have "p \<noteq> c" using nc that(1) by blast
    ultimately show "r_remaining (sd_table d' p) = r_remaining (sd_table d p) - 1 \<and>
       r_state (sd_table d' p) = parent_state status (r_state (sd_table d p)) \<and>
       (r_signaled (sd_table d' p) \<longleftrightarrow> r_remaining (sd_table d p) = 1)"
      using s(2) [of p] that by (simp add: parent_row_def)
    show "parent_state status (r_state (sd_table d p)) = (if r_state (sd_table d p) = CAM_SYNC_STATE_SIGNALED_ERROR \<or>
         r_state (sd_table d p) = CAM_SYNC_STATE_SIGNALED_CANCEL then r_state (sd_table d p) else status)"
      using inv_valid [OF inv that(2)] by (auto simp: valid_ok_def parent_state_def is_signaled_state_def)
  qed
  have evs: "concat (map (parent_evs status cause d) ps) =
      concat (map (\<lambda>p. dispatch_evs p (r_state (sd_table d' p)) cause d)
        (filter (\<lambda>p. valid d p \<and> r_remaining (sd_table d p) = 1) ps))" if "set ps \<subseteq> set (r_parents (sd_table d c))" for ps
    using that by (induction ps) (simp_all add: parent_evs_def p(1))
  have row: "sd_table d' c = signalled_row status (sd_eventq d) (sd_table d c)" using s(2) [of c] by simp
  have other: "sd_table d' j = sd_table d j" if "j \<noteq> c" "j \<notin> set (r_parents (sd_table d c))" for j
    using s(2) [of j] that by simp
  have log: "sd_log d' = sd_log d @ dispatch_evs c status cause d @
      concat (map (\<lambda>p. dispatch_evs p (r_state (sd_table d' p)) cause d)
        (filter (\<lambda>p. valid d p \<and> r_remaining (sd_table d p) = 1) (r_parents (sd_table d c))))"
    by (simp only: s(3) evs [OF order_refl])
  show ?thesis
  proof (intro conjI ballI allI impI)
    fix q
    assume q: "q \<in> set (r_parents (sd_table d c))" "valid d q"
    note pq = p [OF q]
    show "r_remaining (sd_table d' q) = r_remaining (sd_table d q) - 1" using pq(1) by blast
    show "r_state (sd_table d' q) = (if r_state (sd_table d q) = CAM_SYNC_STATE_SIGNALED_ERROR \<or>
         r_state (sd_table d q) = CAM_SYNC_STATE_SIGNALED_CANCEL then r_state (sd_table d q) else status)"
      using pq(1) unfolding pq(2) by blast
    show "r_signaled (sd_table d' q) \<longleftrightarrow> r_remaining (sd_table d q) = 1" using pq(1) by blast
  qed (use other in \<open>simp_all add: s(1) row log signalled_row_def\<close>)
qed

theorem signal_effect_witness:
  "let d' = snd (cam_sync_signal 1 CAM_SYNC_STATE_SIGNALED_ERROR 6 demo_dev)
   in r_signaled (sd_table d' 1) \<and> r_remaining (sd_table d' 3) = 1 \<and> \<not> r_signaled (sd_table d' 3) \<and>
      r_state (sd_table d' 3) = CAM_SYNC_STATE_SIGNALED_ERROR"
proof -
  obtain ws where r: "run demo_acts (bound_device, []) = (demo_dev, ws)" by (metis demo_dev_def surjective_pairing)
  obtain rc d' where s: "cam_sync_signal (int 1) CAM_SYNC_STATE_SIGNALED_ERROR 6 demo_dev = (rc, d')" by fastforce
  have c: "r_state (sd_table demo_dev 1) = CAM_SYNC_STATE_ACTIVE" "r_type (sd_table demo_dev 1) = SYNC_TYPE_INDV"
    "r_ref_cnt (sd_table demo_dev 1) = 1" "r_parents (sd_table demo_dev 1) = [3]"
    "r_remaining (sd_table demo_dev 3) = 2" "r_state (sd_table demo_dev 3) = CAM_SYNC_STATE_ACTIVE"
    by code_simp+
  have st: "is_signaled_state CAM_SYNC_STATE_SIGNALED_ERROR" and v: "valid demo_dev 3" by code_simp+
  note e = signal_effect [OF r st c(1-3) s]
  have all: "\<forall>p \<in> set (r_parents (sd_table demo_dev 1)). valid demo_dev p \<longrightarrow>
       r_remaining (sd_table d' p) = r_remaining (sd_table demo_dev p) - 1 \<and>
       r_state (sd_table d' p) = (if r_state (sd_table demo_dev p) = CAM_SYNC_STATE_SIGNALED_ERROR \<or>
         r_state (sd_table demo_dev p) = CAM_SYNC_STATE_SIGNALED_CANCEL then r_state (sd_table demo_dev p)
         else CAM_SYNC_STATE_SIGNALED_ERROR) \<and>
       (r_signaled (sd_table d' p) \<longleftrightarrow> r_remaining (sd_table demo_dev p) = 1)"
    and one: "r_signaled (sd_table d' 1)" using e by blast+
  have "3 \<in> set (r_parents (sd_table demo_dev 1))" unfolding c(4) by simp
  from all [rule_format, OF this v] one s show ?thesis by (simp add: c(5,6))
qed

text \<open>C25: a merged fence over active fences completes exactly with the last of its members, in
  whatever order user space signals them, and its final state is the first status of that order
  that is not success, or success.\<close>

theorem merged_fence_outcome:
  assumes "sync_inv d" and "cam_sync_merge [] mem (Some os) mp d = (0, Some p, d1)"
    and "\<And>c. c \<in> set os \<Longrightarrow> r_state (sd_table d (nat c)) = CAM_SYNC_STATE_ACTIVE \<and> r_ref_cnt (sd_table d (nat c)) = 0"
    and "distinct (map fst sigs)" "set (map fst sigs) = set os"
    and "\<And>s. s \<in> set sigs \<Longrightarrow> is_signaled_state (snd s)"
    and "signal_arg k"
  shows "(\<forall>n < length sigs. \<not> r_signaled (sd_table (fold (user_signal k) (take n sigs) d1) p)) \<and>
    r_signaled (sd_table (fold (user_signal k) sigs d1) p) \<and>
    r_state (sd_table (fold (user_signal k) sigs d1) p) = first_bad (map snd sigs)"
proof -
  from assms(1-3) obtain cs where os: "os = map int cs" and w: "waits_for d1 p cs"
    and st: "r_state (sd_table d1 p) = CAM_SYNC_STATE_ACTIVE" and ne: "cs \<noteq> []"
    by (rule merge_waits_for) blast+
  let ?m = "map (nat \<circ> fst) sigs"
  have ss: "0 \<le> fst s \<and> is_signaled_state (snd s)" if "s \<in> set sigs" for s
    using that assms(5) assms(6) [OF that] by (force simp: os)
  have sm: "set ?m = set cs"
  proof -
    have "set ?m = nat ` set os" unfolding assms(5) [symmetric] by (simp add: image_image)
    then show ?thesis by (simp add: os image_image)
  qed
  have "inj_on nat (set (map fst sigs))" unfolding assms(5) by (rule inj_onI) (auto simp: os)
  then have "distinct (map nat (map fst sigs))" using assms(4) distinct_map by blast
  then have dm: "distinct ?m" by (simp add: comp_def)
  note wm = waits_for_perm [OF w dm sm]
  have part: "waits_for (fold (user_signal k) (take n sigs) d1) p (map (nat \<circ> fst) (drop n sigs))" for n
  proof -
    have "waits_for d1 p (map (nat \<circ> fst) (take n sigs) @ map (nat \<circ> fst) (drop n sigs))"
      using wm by (metis append_take_drop_id map_append)
    from conjunct1 [OF signal_members [OF this assms(7)]] show ?thesis by (meson in_set_takeD ss)
  qed
  have ns: "map snd sigs \<noteq> []" using sm ne by auto
  have "r_state (sd_table (fold (user_signal k) sigs d1) p) = first_bad (map snd sigs)"
    using signal_members [of d1 p sigs "[]"] wm assms(7) ss st ns fold_parent_state [of "map snd sigs"] by auto
  then show ?thesis
    using waits_for_signaled [OF part] part [of "length sigs"] waits_for_signaled [of _ p "[]"] by auto
qed

text \<open>The demonstration device before the reference is taken on fence 1.\<close>

definition demo_two :: sync_device where
  "demo_two = fst (run [A_Create ''a'', A_Create ''b''] (bound_device, []))"

theorem merged_fence_outcome_witness:
  "let k = \<lparr>k_id = 2, k_size = 8, k_result = 0, k_ioctl_ptr = 4096\<rparr>;
       d1 = snd (snd (cam_sync_merge [] (\<lambda>_. (True, True)) (Some [1, 2]) True demo_two));
       d2 = user_signal k (1, CAM_SYNC_STATE_SIGNALED_CANCEL) (user_signal k (2, CAM_SYNC_STATE_SIGNALED_SUCCESS) d1)
   in r_signaled (sd_table d2 3) \<and> r_state (sd_table d2 3) = CAM_SYNC_STATE_SIGNALED_CANCEL"
proof -
  let ?k = "\<lparr>k_id = 2, k_size = 8, k_result = 0, k_ioctl_ptr = 4096\<rparr> :: cam_private_ioctl_arg"
  let ?sigs = "[(2, CAM_SYNC_STATE_SIGNALED_SUCCESS), (1, CAM_SYNC_STATE_SIGNALED_CANCEL)] :: (int \<times> u32) list"
  let ?d1 = "snd (snd (cam_sync_merge [] (\<lambda>_. (True, True)) (Some [1, 2]) True demo_two))"
  have inv: "sync_inv demo_two" unfolding demo_two_def by (rule reachable_inv)
  have m: "cam_sync_merge [] (\<lambda>_. (True, True)) (Some [1, 2]) True demo_two = (0, Some 3, ?d1)"
  proof -
    have "fst (cam_sync_merge [] (\<lambda>_. (True, True)) (Some [1, 2]) True demo_two) = 0"
      "fst (snd (cam_sync_merge [] (\<lambda>_. (True, True)) (Some [1, 2]) True demo_two)) = Some 3" by code_simp+
    then show ?thesis by (metis surjective_pairing)
  qed
  have idle: "r_state (sd_table demo_two (nat c)) = CAM_SYNC_STATE_ACTIVE \<and> r_ref_cnt (sd_table demo_two (nat c)) = 0"
    if "c \<in> set [1, 2]" for c
  proof -
    have "r_state (sd_table demo_two 1) = CAM_SYNC_STATE_ACTIVE \<and> r_ref_cnt (sd_table demo_two 1) = 0"
      "r_state (sd_table demo_two 2) = CAM_SYNC_STATE_ACTIVE \<and> r_ref_cnt (sd_table demo_two 2) = 0" by code_simp+
    with that show ?thesis by auto
  qed
  have "r_signaled (sd_table (fold (user_signal ?k) ?sigs ?d1) 3) \<and>
      r_state (sd_table (fold (user_signal ?k) ?sigs ?d1) 3) = first_bad (map snd ?sigs)"
    by (rule conjunct2 [OF merged_fence_outcome [OF inv m idle]])
      (auto simp: signal_arg_def is_signaled_state_def)
  then show ?thesis by simp
qed

section \<open>Rows\<close>

text \<open>Rows of the table as an allocator, through \<open>cam_sync_create\<close> and the freeing of a row.\<close>

definition row_alloc :: "string \<Rightarrow> sync_device \<Rightarrow> (nat \<times> sync_device) option" where
  "row_alloc nm d = (case cam_sync_create [] nm d of (rc, Some i, d') \<Rightarrow> Some (i - 1, d') | _ \<Rightarrow> None)"

definition row_free :: "nat \<Rightarrow> sync_device \<Rightarrow> sync_device" where
  "row_free i d = snd (cam_sync_deinit_object (Suc i)
     (row_upd (Suc i) (\<lambda>r. r\<lparr>r_state := CAM_SYNC_STATE_INVALID, r_signaled := True\<rparr>) d))"

lemma row_free_facts:
  assumes "sync_inv d" "i < 2047"
  shows "sync_inv (row_free i d)" "sd_bitmap (row_free i d) = (sd_bitmap d)(Suc i := False)"
proof -
  let ?e = "row_upd (Suc i) (\<lambda>r. r\<lparr>r_state := CAM_SYNC_STATE_INVALID, r_signaled := True\<rparr>) d"
  have inv: "sync_inv ?e" by (rule invalidate_inv [OF assms(1)])
  show "sync_inv (row_free i d)" unfolding row_free_def using assms(2) by (intro deinit_inv [OF inv]) simp_all
  show "sd_bitmap (row_free i d) = (sd_bitmap d)(Suc i := False)"
    unfolding row_free_def using assms(2) by (subst deinit_closed(2) [OF _ _ inv_children [OF inv]]) simp_all
qed

interpretation fences: id_allocator "row_alloc nm" row_free "\<lambda>d i. sd_bitmap d (Suc i)" 2047 sync_inv
  for nm
proof
  fix s s' i
  assume inv: "sync_inv s"
  show "sync_inv s' \<and> i < 2047 \<and> \<not> sd_bitmap s (Suc i) \<and>
      (\<lambda>j. sd_bitmap s' (Suc j)) = (\<lambda>j. sd_bitmap s (Suc j))(i := True)" if "row_alloc nm s = Some (i, s')"
    using inv
  proof (cases rule: cam_sync_create_cases [of s nm])
    case (ok idx)
    with that create_inv [OF inv, of nm] show ?thesis by (cases idx) (auto simp: row_alloc_def fun_eq_iff)
  qed (use that in \<open>simp add: row_alloc_def\<close>)
  show "sd_bitmap s (Suc i)" if "row_alloc nm s = None" "i < 2047"
    using inv by (cases rule: cam_sync_create_cases [of s nm]) (use that in \<open>simp_all add: row_alloc_def\<close>)
  show "sync_inv (row_free i s) \<and>
      (\<lambda>j. sd_bitmap (row_free i s) (Suc j)) = (\<lambda>j. sd_bitmap s (Suc j))(i := False)" if "i < 2047"
    using row_free_facts [OF inv that] by (auto simp: fun_eq_iff)
qed

text \<open>Creation on a reachable device takes the least free row and leaves every other row, the
  event log and the rest of the bit map alone; it fails exactly when no row is free. The new
  fence is active, individual, waited for by nobody and not part of any group.\<close>

theorem create_takes_least_row:
  assumes "sync_inv d" and "cam_sync_create [] nm d = (rc, r, d')"
  shows "(rc = - ENOMEM \<and> r = None \<and> d' = d \<and> (\<forall>i < CAM_SYNC_MAX_OBJS. sd_bitmap d i)) \<or>
    (rc = 0 \<and> (\<exists>idx. r = Some idx \<and> 0 < idx \<and> idx < CAM_SYNC_MAX_OBJS \<and> \<not> sd_bitmap d idx \<and>
       (\<forall>j < idx. sd_bitmap d j) \<and> sd_bitmap d' = (sd_bitmap d)(idx := True) \<and>
       (\<forall>j. j \<noteq> idx \<longrightarrow> sd_table d' j = sd_table d j) \<and> sd_log d' = sd_log d \<and>
       r_state (sd_table d' idx) = CAM_SYNC_STATE_ACTIVE \<and> r_type (sd_table d' idx) = SYNC_TYPE_INDV \<and>
       r_parents (sd_table d' idx) = [] \<and> r_callbacks (sd_table d' idx) = [] \<and>
       \<not> r_signaled (sd_table d' idx) \<and> r_ref_cnt (sd_table d' idx) = 0 \<and>
       r_name (sd_table d' idx) = take 62 nm))"
  using assms(1)
proof (cases rule: cam_sync_create_cases [of d nm])
  case full
  with assms(2) show ?thesis by simp
next
  case (ok idx)
  with assms(2) show ?thesis by (intro disjI2) (auto simp: zero_row_def intro!: exI [of _ idx])
qed

theorem create_takes_least_row_witness:
  "\<exists>d'. cam_sync_create [] ''c'' demo_two = (0, Some 3, d') \<and> sd_table d' 1 = sd_table demo_two 1"
proof -
  have inv: "sync_inv demo_two" unfolding demo_two_def by (rule reachable_inv)
  obtain d' where c: "cam_sync_create [] ''c'' demo_two = (0, Some 3, d')"
  proof -
    have "fst (cam_sync_create [] ''c'' demo_two) = 0" "fst (snd (cam_sync_create [] ''c'' demo_two)) = Some 3"
      by code_simp+
    then show thesis using that by (metis surjective_pairing)
  qed
  from create_takes_least_row [OF inv c] c show ?thesis by auto
qed

text \<open>The lock-free reservation is exclusive. Whatever other CPUs do to the bit map between the
  search and the atomic test-and-set, in any number of rounds, the row handed out was free at the
  very moment it was marked, after all their changes so far, and its bit is the only change the
  reservation makes; it fails only on a full map.\<close>

theorem reserved_row_exclusive:
  assumes "reserve_row others bm = (r, bm')"
  shows "\<exists>n \<le> length others. let m = fold (\<lambda>f. f) (take n others) bm in
    case r of None \<Rightarrow> bm' = m \<and> (\<forall>i < CAM_SYNC_MAX_OBJS. m i)
            | Some idx \<Rightarrow> idx < CAM_SYNC_MAX_OBJS \<and> \<not> m idx \<and> bm' = m(idx := True)"
  using assms
proof (induction others arbitrary: bm)
  case Nil
  then show ?case
    using reserve_none [of bm bm'] reserve_some [of bm _ bm'] by (cases r) auto
next
  case (Cons f others)
  let ?i = "find_first_zero_bit bm CAM_SYNC_MAX_OBJS"
  consider (full) "2048 \<le> ?i" | (lost) "?i < 2048" "f bm ?i" | (won) "?i < 2048" "\<not> f bm ?i" by linarith
  then show ?case
  proof cases
    case full
    with Cons.prems show ?thesis by (intro exI [of _ 0]) (auto simp: Let_def find_first_zero_bit_ge)
  next
    case lost
    have "test_and_set_bit ?i (f bm) = (True, f bm)"
      using lost(2) by (auto simp: test_and_set_bit_def fun_eq_iff)
    with Cons.prems lost(1) have "reserve_row others (f bm) = (r, bm')" by (simp add: Let_def)
    from Cons.IH [OF this] obtain n where "n \<le> length others" "let m = fold (\<lambda>f. f) (take n others) (f bm) in
      case r of None \<Rightarrow> bm' = m \<and> (\<forall>i < CAM_SYNC_MAX_OBJS. m i)
              | Some idx \<Rightarrow> idx < CAM_SYNC_MAX_OBJS \<and> \<not> m idx \<and> bm' = m(idx := True)" by blast
    then show ?thesis by (intro exI [of _ "Suc n"]) simp
  next
    case won
    with Cons.prems show ?thesis by (intro exI [of _ 1]) (auto simp: Let_def test_and_set_bit_def)
  qed
qed

theorem reserved_row_exclusive_witness:
  "\<exists>bm'. reserve_row [\<lambda>bm. bm(1 := True)] (\<lambda>i. i = 0) = (Some 2, bm') \<and> bm' 1 \<and> bm' 2"
proof -
  let ?r = "reserve_row [\<lambda>bm. bm(1 := True)] (\<lambda>i. i = 0)"
  have s: "fst ?r = Some 2" by code_simp
  then have r: "?r = (Some 2, snd ?r)" by (metis surjective_pairing)
  obtain n where "n \<le> 1" "let m = fold (\<lambda>f. f) (take n [\<lambda>bm. bm(1 := True)]) (\<lambda>i :: nat. i = 0) in
      2 < CAM_SYNC_MAX_OBJS \<and> \<not> m 2 \<and> snd ?r = m(2 := True)"
    using reserved_row_exclusive [OF r] by auto
  moreover have "snd ?r 1" by code_simp
  ultimately have "snd ?r 1 \<and> snd ?r 2" by (simp add: Let_def)
  with r show ?thesis by blast
qed

section \<open>References, callbacks, waiting\<close>

text \<open>C26: a fence on which n signals were announced (each by taking a reference) becomes signalled
  with the n-th of them; the n - 1 before only count down and send nothing.\<close>

theorem last_reference_signals:
  assumes "sync_inv d" and "is_signaled_state status" and "n < 2 ^ 32"
    and "r_state (sd_table d c) = CAM_SYNC_STATE_ACTIVE" "r_type (sd_table d c) = SYNC_TYPE_INDV"
    and "r_ref_cnt (sd_table d c) = of_nat n" and "m \<le> n" "0 < n"
  shows "let d' = ((\<lambda>e. snd (cam_sync_signal (int c) status cause e)) ^^ m) d in
    r_state (sd_table d' c) = (if m = n then status else CAM_SYNC_STATE_ACTIVE) \<and>
    (m < n \<longrightarrow> sd_log d' = sd_log d \<and> (\<forall>j. j \<noteq> c \<longrightarrow> sd_table d' j = sd_table d j) \<and>
       r_ref_cnt (sd_table d' c) = of_nat (n - m))"
proof -
  let ?s = "\<lambda>e. snd (cam_sync_signal (int c) status cause e)"
  have "sync_inv ((?s ^^ k) d) \<and> sd_log ((?s ^^ k) d) = sd_log d \<and>
      (\<forall>j. j \<noteq> c \<longrightarrow> sd_table ((?s ^^ k) d) j = sd_table d j) \<and>
      r_state (sd_table ((?s ^^ k) d) c) = CAM_SYNC_STATE_ACTIVE \<and>
      r_type (sd_table ((?s ^^ k) d) c) = SYNC_TYPE_INDV \<and>
      r_ref_cnt (sd_table ((?s ^^ k) d) c) = of_nat (n - k)" if "k < n" for k
    using that
  proof (induction k)
    case (Suc k)
    define e where "e = (?s ^^ k) d"
    have e: "sync_inv e" "sd_log e = sd_log d" "\<forall>j. j \<noteq> c \<longrightarrow> sd_table e j = sd_table d j"
      "r_state (sd_table e c) = CAM_SYNC_STATE_ACTIVE" "r_type (sd_table e c) = SYNC_TYPE_INDV"
      "r_ref_cnt (sd_table e c) = of_nat (n - k)" using Suc by (simp_all add: e_def)
    have v: "valid e c" using e(4) by simp
    have i: "0 < c" "c < 2048" using inv_valid [OF e(1) v] by (simp_all add: valid_ok_def)
    have many: "of_nat (n - k) \<noteq> (1 :: u32)"
    proof
      assume "of_nat (n - k) = (1 :: u32)"
      then have "unat (of_nat (n - k) :: u32) = 1" by simp
      with unat_of_nat_u32 [of "n - k"] Suc.prems assms(3) show False by simp
    qed
    have "?s e = row_upd c (\<lambda>r. r\<lparr>r_ref_cnt := r_ref_cnt r - 1\<rparr>) e"
      using e(4-6) many assms(2) by (simp add: cam_sync_signal_eq [OF i] Let_def)
    moreover have "of_nat (n - k) - 1 = (of_nat (n - Suc k) :: u32)"
      using Suc.prems by (simp add: of_nat_diff)
    ultimately show ?case
      using e signal_inv [OF e(1), of "int c" status cause] by (simp add: e_def [symmetric])
  qed (use assms in simp)
  note before = this
  show ?thesis
  proof (cases "m = n")
    case False
    with assms(7) before [of m] show ?thesis by (simp add: Let_def)
  next
    case True
    obtain k where k: "n = Suc k" using assms(8) by (cases n) auto
    obtain rc d' where r: "cam_sync_signal (int c) status cause ((?s ^^ k) d) = (rc, d')" by fastforce
    have b: "sync_inv ((?s ^^ k) d)" "r_state (sd_table ((?s ^^ k) d) c) = CAM_SYNC_STATE_ACTIVE"
      "r_type (sd_table ((?s ^^ k) d) c) = SYNC_TYPE_INDV" "r_ref_cnt (sd_table ((?s ^^ k) d) c) = 1"
      using before [of k] by (simp_all add: k)
    from signal_accepted(2) [OF b(1) assms(2) b(2-4) r, of c] r show ?thesis
      by (simp add: True k Let_def signalled_row_def)
  qed
qed

theorem last_reference_signals_witness:
  "r_state (sd_table (((\<lambda>e. snd (cam_sync_signal (int 1) CAM_SYNC_STATE_SIGNALED_SUCCESS 6 e)) ^^ 1) demo_dev) 1)
     = CAM_SYNC_STATE_SIGNALED_SUCCESS"
proof -
  have c: "r_state (sd_table demo_dev 1) = CAM_SYNC_STATE_ACTIVE" "r_type (sd_table demo_dev 1) = SYNC_TYPE_INDV"
    "r_ref_cnt (sd_table demo_dev 1) = of_nat 1" by code_simp+
  have "is_signaled_state CAM_SYNC_STATE_SIGNALED_SUCCESS" by (simp add: is_signaled_state_def)
  from last_reference_signals [OF demo_inv this _ c, of 1 6] show ?thesis by (simp add: Let_def)
qed

text \<open>C27: a callback registered on an active fence is queued exactly once, with the final status
  and after the callbacks registered before it, when the last signal arrives; nothing is left to
  be queued again. One registered on a signalled fence is queued at once.\<close>

theorem callback_queued_once:
  assumes "sync_inv d" and "is_signaled_state status"
    and "r_state (sd_table d c) = CAM_SYNC_STATE_ACTIVE" "r_type (sd_table d c) = SYNC_TYPE_INDV"
    and "r_ref_cnt (sd_table d c) = 1" "r_remaining (sd_table d c) = 0"
    and "cam_sync_register_callback True (Some f) u (int c) d = (rc1, d1)"
    and "cam_sync_signal (int c) status cause d1 = (rc2, d2)"
    and "cam_sync_register_callback True (Some f) u (int c) d2 = (rc3, d3)"
  shows "let new = Ev_Work \<lparr>cb_func = f, cb_data = u, cb_status = status, cb_sync_obj = c\<rparr> in
    rc1 = 0 \<and> rc2 = 0 \<and> rc3 = 0 \<and> sd_log d1 = sd_log d \<and>
    sd_log d2 = sd_log d @ map (\<lambda>cb. Ev_Work (cb\<lparr>cb_status := status\<rparr>)) (r_callbacks (sd_table d c)) @ [new] @
      (if sd_eventq d then map (v4l2_ev (sd_version d) c status cause) (r_payloads (sd_table d c)) else []) @
      concat (map (parent_evs status cause d) (r_parents (sd_table d c))) \<and>
    r_callbacks (sd_table d2 c) = [] \<and>
    d3 = (if sd_direct d2 then emit [Ev_Call f c status u] d2 else emit [new] d2)"
proof -
  have v: "valid d c" using assms(3) by simp
  have i: "0 < c" "c < 2048" using inv_valid [OF assms(1) v] by (simp_all add: valid_ok_def)
  have d1: "rc1 = 0" "d1 = row_upd c (\<lambda>r. r\<lparr>r_callbacks := r_callbacks r @
      [\<lparr>cb_func = f, cb_data = u, cb_status = 0, cb_sync_obj = c\<rparr>]\<rparr>) d"
    using assms(3,7) i by (auto simp: cam_sync_register_callback_def is_signaled_state_def)
  have "neutral d d1" using neutral_ops(3) [of d True "Some f" u "int c"] assms(7) by simp
  then have inv1: "sync_inv d1" using assms(1) sync_inv_cong by (auto simp: neutral_def)
  have c1: "r_state (sd_table d1 c) = CAM_SYNC_STATE_ACTIVE" "r_type (sd_table d1 c) = SYNC_TYPE_INDV"
    "r_ref_cnt (sd_table d1 c) = 1" using assms(3-5) by (simp_all add: d1)
  note s = signal_accepted [OF inv1 assms(2) c1 assms(8)]
  have nc: "p \<noteq> c" if "p \<in> set (r_parents (sd_table d c))" for p
    using inv_link [OF assms(1) v that] assms(4) by (auto simp: link_ok_def)
  have evs: "map (parent_evs status cause d1) (r_parents (sd_table d c)) =
      map (parent_evs status cause d) (r_parents (sd_table d c))"
    by (intro map_cong parent_evs_cong refl) (use nc in \<open>auto simp: d1\<close>)
  have row: "sd_table d2 c = signalled_row status (sd_eventq d1) (sd_table d1 c)" using s(2) [of c] by simp
  have st: "r_state (sd_table d2 c) = status" "r_callbacks (sd_table d2 c) = []" "r_remaining (sd_table d2 c) = 0"
    using assms(6) by (simp_all add: row signalled_row_def d1)
  have d3: "rc3 = 0" "d3 = (if sd_direct d2 then emit [Ev_Call f c status u] d2
      else emit [Ev_Work \<lparr>cb_func = f, cb_data = u, cb_status = status, cb_sync_obj = c\<rparr>] d2)"
    using assms(2,9) i st by (auto simp: cam_sync_register_callback_def Let_def is_signaled_state_def split: if_splits)
  have "r_parents (sd_table d1 c) = r_parents (sd_table d c)" by (simp add: d1)
  with s(1,3) evs d3 st d1(1) show ?thesis
    by (simp add: Let_def dispatch_evs_def) (simp add: d1)
qed

theorem callback_queued_once_witness:
  "\<exists>d1 d2. cam_sync_register_callback True (Some 5) (Some 9) 1 demo_dev = (0, d1) \<and>
     cam_sync_signal 1 CAM_SYNC_STATE_SIGNALED_SUCCESS 6 d1 = (0, d2) \<and>
     sd_log d2 = [Ev_Work \<lparr>cb_func = 5, cb_data = Some 9, cb_status = CAM_SYNC_STATE_SIGNALED_SUCCESS, cb_sync_obj = 1\<rparr>]"
proof -
  have c: "r_state (sd_table demo_dev 1) = CAM_SYNC_STATE_ACTIVE" "r_type (sd_table demo_dev 1) = SYNC_TYPE_INDV"
    "r_ref_cnt (sd_table demo_dev 1) = 1" "r_remaining (sd_table demo_dev 1) = 0"
    "sd_log demo_dev = []" "r_callbacks (sd_table demo_dev 1) = []" "r_payloads (sd_table demo_dev 1) = []"
    "concat (map (parent_evs CAM_SYNC_STATE_SIGNALED_SUCCESS 6 demo_dev) (r_parents (sd_table demo_dev 1))) = []"
    by code_simp+
  have st: "is_signaled_state CAM_SYNC_STATE_SIGNALED_SUCCESS" by (simp add: is_signaled_state_def)
  obtain rc1 d1 where r1: "cam_sync_register_callback True (Some 5) (Some 9) (int 1) demo_dev = (rc1, d1)" by fastforce
  obtain rc2 d2 where r2: "cam_sync_signal (int 1) CAM_SYNC_STATE_SIGNALED_SUCCESS 6 d1 = (rc2, d2)" by fastforce
  obtain rc3 d3 where r3: "cam_sync_register_callback True (Some 5) (Some 9) (int 1) d2 = (rc3, d3)" by fastforce
  have "rc1 = 0" "rc2 = 0"
    "sd_log d2 = [Ev_Work \<lparr>cb_func = 5, cb_data = Some 9, cb_status = CAM_SYNC_STATE_SIGNALED_SUCCESS, cb_sync_obj = 1\<rparr>]"
    using callback_queued_once [OF demo_inv st c(1-4) r1 r2 r3] unfolding Let_def c(5-8) by simp_all
  with r1 r2 show ?thesis by auto
qed

text \<open>C28: a wait on a valid fence, whatever the rest of the driver does meanwhile. The row stays the
  caller's while it sleeps and is given back afterwards; the result is 0 only for a fence found
  signalled with success, the time-out error exactly when its completion is not done, and
  \<open>EINVAL\<close> for a fence that failed or was destroyed under the caller.\<close>

theorem wait_outcome:
  assumes "sys_ok (d, ws)" "length ws < MAX_WAITERS" and "\<not> out_of_range obj" "valid d (nat obj)"
    and "act (A_Wait_Begin obj) (d, ws) = (d1, ws1)"
    and "run acts (d1, ws1) = (d2, ws2)" "nat obj \<in> set ws2"
    and "\<And>done j. wait done j = 0 \<longleftrightarrow> \<not> done"
    and "cam_sync_wait wait to_jiffies (\<lambda>_. d2) mult obj timeout d = (rc, d3)"
  shows "sd_bitmap d2 (nat obj) \<and> sys_ok (d3, remove1 (nat obj) ws2) \<and>
    (rc = 0 \<longleftrightarrow> r_state (sd_table d2 (nat obj)) = CAM_SYNC_STATE_SIGNALED_SUCCESS \<and> r_signaled (sd_table d2 (nat obj))) \<and>
    (rc = - ETIMEDOUT \<longleftrightarrow> \<not> r_signaled (sd_table d2 (nat obj))) \<and>
    (rc = 0 \<or> rc = - ETIMEDOUT \<or> rc = - EINVAL)"
proof -
  obtain rc0 e where g: "cam_sync_get_wait_ref (nat obj) d = (rc0, e)" by fastforce
  have inv: "sync_inv d" "wait_inv ws d" using assms(1) by (simp_all add: sys_ok_def)
  have i: "0 < nat obj" "nat obj < 2048" using assms(3) by auto
  have "wait_ok ws d (nat obj)"
    using inv inv_valid [OF inv(1) assms(4)] by (simp add: wait_inv_def valid_ok_def)
  then have "r_wait_ref_cnt (sd_table d (nat obj)) = 1 + int (count_list ws (nat obj))"
    using assms(4) by (simp add: wait_ok_def)
  moreover have "count_list ws (nat obj) \<le> length ws" by (rule count_le_length)
  ultimately have "rc0 = 0" using g assms(2,4)
    by (auto simp: cam_sync_get_wait_ref_def refcount_inc_not_zero_def REFCOUNT_MAX_def Let_def split: if_splits)
  then have d1: "d1 = e" "ws1 = nat obj # ws" using assms(2,3,5) g by (auto split: if_splits)
  have ok1: "sys_ok (d1, ws1)" using act_ok [OF assms(1), of "A_Wait_Begin obj"] assms(5) by simp
  have ok2: "sys_ok (d2, ws2)" using run_ok [OF ok1, of acts] assms(6) by simp
  then have inv2: "sync_inv d2" "wait_inv ws2 d2" by (simp_all add: sys_ok_def)
  have d3: "d3 = snd (cam_sync_put_wait_ref (nat obj) d2)"
    and rc: "rc = (if \<not> r_signaled (sd_table d2 (nat obj)) then - ETIMEDOUT
      else if r_state (sd_table d2 (nat obj)) = CAM_SYNC_STATE_SIGNALED_SUCCESS then 0 else - EINVAL)"
    using assms(3,8,9) g \<open>rc0 = 0\<close>
    by (auto simp: cam_sync_wait_def Let_def cam_common_wait_for_completion_timeout_def)
  have "sys_ok (d3, remove1 (nat obj) ws2)"
    using wait_end_inv [OF inv2 assms(7)] by (simp add: sys_ok_def d3)
  moreover have "sd_bitmap d2 (nat obj)" using inv2(2) assms(7) by (simp add: wait_inv_def)
  ultimately show ?thesis by (simp add: rc)
qed

lemma demo_sys: "sys_ok (demo_dev, [])"
proof -
  have "snd (run demo_acts (bound_device, [])) = []" by code_simp
  then show ?thesis using reachable_ok [of demo_acts] by (metis demo_dev_def surjective_pairing)
qed

theorem wait_outcome_witness:
  "fst (cam_sync_wait (\<lambda>done j. if done then 1 else 0) (\<lambda>ms. ms)
     (\<lambda>_. fst (run [A_Signal 1 CAM_SYNC_STATE_SIGNALED_SUCCESS 6] (act (A_Wait_Begin 1) (demo_dev, []))))
     1 1 100 demo_dev) = 0"
proof -
  have c: "r_state (sd_table demo_dev 1) = CAM_SYNC_STATE_ACTIVE" "r_type (sd_table demo_dev 1) = SYNC_TYPE_INDV"
    "r_ref_cnt (sd_table demo_dev 1) = 1" "r_wait_ref_cnt (sd_table demo_dev 1) = 1" by code_simp+
  define e where "e = row_upd 1 (\<lambda>r. r\<lparr>r_wait_ref_cnt := 2\<rparr>) demo_dev"
  have g: "act (A_Wait_Begin 1) (demo_dev, []) = (e, [1])"
    using c by (simp add: cam_sync_get_wait_ref_def refcount_inc_not_zero_def REFCOUNT_MAX_def e_def)
  have "sys_ok (e, [1])" using act_ok [OF demo_sys, of "A_Wait_Begin 1"] g by simp
  then have inv: "sync_inv e" by (simp add: sys_ok_def)
  obtain rc d2 where s: "cam_sync_signal (int 1) CAM_SYNC_STATE_SIGNALED_SUCCESS 6 e = (rc, d2)" by fastforce
  have r: "run [A_Signal 1 CAM_SYNC_STATE_SIGNALED_SUCCESS 6] (e, [1]) = (d2, [1])"
    using s by (simp add: run_def)
  have row: "sd_table d2 1 = signalled_row CAM_SYNC_STATE_SIGNALED_SUCCESS (sd_eventq e) (sd_table e 1)"
    using signal_accepted(2) [OF inv _ _ _ _ s, of 1] c by (simp add: e_def is_signaled_state_def)
  have "\<not> out_of_range 1" "valid demo_dev (nat 1)" "nat 1 \<in> set [1]" using c(1) by simp_all
  moreover obtain rc3 d3 where w: "cam_sync_wait (\<lambda>done j. if done then 1 else 0) (\<lambda>ms. ms) (\<lambda>_. d2) 1 1 100 demo_dev = (rc3, d3)"
    by fastforce
  ultimately have "rc3 = 0"
    using wait_outcome [OF demo_sys _ _ _ g r _ _ w] row by (simp add: signalled_row_def)
  then show ?thesis unfolding g r using w by simp
qed

section \<open>Error paths\<close>

text \<open>C29: a merge that fails leaves no trace. The bit map, the event log and every row in use are as
  before and no fence comes into being, also when an allocation fails after some members were
  linked; members already linked are unlinked again.\<close>

theorem failed_merge_restores:
  assumes "sync_inv d" and "cam_sync_merge [] mem objs mp d = (rc, r, d')" and "rc \<noteq> 0"
  shows "rc < 0 \<and> r = None \<and> sd_bitmap d' = sd_bitmap d \<and> sd_log d' = sd_log d \<and>
    (\<forall>j. sd_bitmap d j \<longrightarrow> sd_table d' j = sd_table d j) \<and> (\<forall>j. valid d' j \<longleftrightarrow> valid d j) \<and> sync_inv d'"
  using assms(1)
proof (cases rule: cam_sync_merge_cases [of d mem objs mp])
  case (reject rc')
  with assms(1,2) show ?thesis by simp
next
  case (undone idx e)
  have "\<not> valid d idx" using fresh_row(1) [OF assms(1) undone(4)] .
  then have "valid d' j \<longleftrightarrow> valid d j" for j
    using undone(1,6,7) assms(2) by (cases "j = idx") auto
  moreover have "sd_table d' j = sd_table d j" if "sd_bitmap d j" for j
    using undone(1,4,6) assms(2) that by (cases "j = idx") auto
  moreover have "same_rest d d'" using undone(1,5) assms(2) by simp
  ultimately show ?thesis
    using undone(1) assms merge_inv [OF assms(1), of mem objs mp] by (simp add: same_rest_def)
qed (use assms(2,3) in simp)

theorem failed_merge_restores_witness:
  "let (rc, r, d') = cam_sync_merge [] (\<lambda>i. (True, i < 1)) (Some [1, 2]) True demo_two
   in rc = - EINVAL \<and> r_parents (sd_table d' 1) = []"
proof -
  have inv: "sync_inv demo_two" unfolding demo_two_def by (rule reachable_inv)
  obtain rc r d' where m: "cam_sync_merge [] (\<lambda>i. (True, i < 1)) (Some [1, 2]) True demo_two = (rc, r, d')"
    using prod_cases3 by blast
  have "fst (cam_sync_merge [] (\<lambda>i. (True, i < 1)) (Some [1, 2]) True demo_two) = - EINVAL" by code_simp
  then have rc: "rc = - EINVAL" "rc \<noteq> 0" using m by simp_all
  have "sd_bitmap demo_two 1" "r_parents (sd_table demo_two 1) = []" by code_simp+
  with failed_merge_restores [OF inv m rc(2)] m rc(1) show ?thesis by simp
qed

text \<open>C30: a signal from user space with an undefined status is refused but keeps the reference
  it took, so the next signal, with a proper status, is accepted and yet does not signal the
  fence.\<close>

theorem refused_signal_keeps_reference:
  assumes "sync_inv d" and "signal_arg k" and "\<not> is_signaled_state bad" "is_signaled_state status"
    and "r_state (sd_table d c) = CAM_SYNC_STATE_ACTIVE" "r_type (sd_table d c) = SYNC_TYPE_INDV"
    and "r_ref_cnt (sd_table d c) = 0"
    and "cam_sync_handle_signal (Some (int c, bad)) k d = (rc1, d1)"
    and "cam_sync_handle_signal (Some (int c, status)) k d1 = (rc2, d2)"
  shows "rc1 = - EINVAL \<and> r_ref_cnt (sd_table d1 c) = 1 \<and> rc2 = 0 \<and>
    r_state (sd_table d2 c) = CAM_SYNC_STATE_ACTIVE \<and> \<not> r_signaled (sd_table d2 c) \<and> sd_log d2 = sd_log d"
proof -
  have v: "valid d c" using assms(5) by simp
  have i: "0 < c" "c < 2048" and sg: "\<not> r_signaled (sd_table d c)"
    using inv_valid [OF assms(1) v] assms(5,6) by (simp_all add: valid_ok_def)
  have d1: "rc1 = - EINVAL" "d1 = row_upd c (\<lambda>r. r\<lparr>r_ref_cnt := r_ref_cnt r + 1\<rparr>) d"
    using assms(3,5,6,8) by (auto simp: user_signal_active [OF assms(1,5,2)] cam_sync_signal_eq [OF i] Let_def)
  have "neutral d d1" unfolding d1(2) by (rule neutral_upd) simp
  then have inv1: "sync_inv d1" using assms(1) sync_inv_cong by (auto simp: neutral_def)
  have a1: "r_state (sd_table d1 c) = CAM_SYNC_STATE_ACTIVE" using assms(5) by (simp add: d1)
  have "rc2 = 0 \<and> d2 = row_upd c (\<lambda>r. r\<lparr>r_ref_cnt := r_ref_cnt r - 1\<rparr>)
      (row_upd c (\<lambda>r. r\<lparr>r_ref_cnt := r_ref_cnt r + 1\<rparr>) d1)"
    using assms(4-7,9) by (simp add: user_signal_active [OF inv1 a1 assms(2)] cam_sync_signal_eq [OF i] Let_def)
      (auto simp: d1)
  then show ?thesis using d1 assms(5,7) sg by simp
qed

theorem refused_signal_keeps_reference_witness:
  "let k = \<lparr>k_id = 2, k_size = 8, k_result = 0, k_ioctl_ptr = 4096\<rparr>;
       d1 = snd (cam_sync_handle_signal (Some (int 1, 7)) k demo_two);
       (rc, d2) = cam_sync_handle_signal (Some (int 1, CAM_SYNC_STATE_SIGNALED_SUCCESS)) k d1
   in rc = 0 \<and> r_state (sd_table d2 1) = CAM_SYNC_STATE_ACTIVE"
proof -
  let ?k = "\<lparr>k_id = 2, k_size = 8, k_result = 0, k_ioctl_ptr = 4096\<rparr> :: cam_private_ioctl_arg"
  have inv: "sync_inv demo_two" unfolding demo_two_def by (rule reachable_inv)
  have c: "r_state (sd_table demo_two 1) = CAM_SYNC_STATE_ACTIVE" "r_type (sd_table demo_two 1) = SYNC_TYPE_INDV"
    "r_ref_cnt (sd_table demo_two 1) = 0" by code_simp+
  obtain rc1 d1 where r1: "cam_sync_handle_signal (Some (int 1, 7)) ?k demo_two = (rc1, d1)" by fastforce
  obtain rc2 d2 where r2: "cam_sync_handle_signal (Some (int 1, CAM_SYNC_STATE_SIGNALED_SUCCESS)) ?k d1 = (rc2, d2)"
    by fastforce
  have "rc2 = 0 \<and> r_state (sd_table d2 1) = CAM_SYNC_STATE_ACTIVE"
    using refused_signal_keeps_reference [OF inv _ _ _ c r1 r2] by (simp add: signal_arg_def is_signaled_state_def)
  then show ?thesis using r1 r2 unfolding Let_def by simp
qed

text \<open>On a merged fence that has seen a failed member but still waits for others, a kernel
  callback is kept for the completion, while a user payload is sent off at once, as if the fence
  had completed, and is not kept.\<close>

theorem payload_does_not_wait:
  assumes "valid d obj" "0 < obj" "obj < CAM_SYNC_MAX_OBJS"
    and "r_state (sd_table d obj) = CAM_SYNC_STATE_SIGNALED_ERROR" "r_remaining (sd_table d obj) \<noteq> 0"
    and "k_size k = 24" "k_ioctl_ptr k \<noteq> 0"
    and "cam_sync_register_callback True (Some f) u (int obj) d = (rc1, d1)"
    and "cam_sync_handle_register_user_payload True (Some (of_nat obj, p)) k d = (rc2, d2)"
  shows "rc1 = 0 \<and> sd_log d1 = sd_log d \<and>
    r_callbacks (sd_table d1 obj) = r_callbacks (sd_table d obj) @
      [\<lparr>cb_func = f, cb_data = u, cb_status = 0, cb_sync_obj = obj\<rparr>] \<and>
    rc2 = 0 \<and> sd_table d2 = sd_table d \<and>
    sd_log d2 = sd_log d @ [v4l2_ev (sd_version d) obj CAM_SYNC_STATE_SIGNALED_ERROR CAM_SYNC_COMMON_REG_PAYLOAD_EVENT p]"
proof -
  have u: "unat (of_nat obj :: u32) = obj" using assms(3) by (intro unat_of_nat_u32) simp
  have nz: "(of_nat obj :: u32) \<noteq> 0"
  proof
    assume "(of_nat obj :: u32) = 0"
    with u assms(2) show False by simp
  qed
  have c: "rc1 = 0" "d1 = row_upd obj (\<lambda>r. r\<lparr>r_callbacks := r_callbacks r @
      [\<lparr>cb_func = f, cb_data = u, cb_status = 0, cb_sync_obj = obj\<rparr>]\<rparr>) d"
    using assms(2-5,8) by (simp_all add: cam_sync_register_callback_def)
  have "rc2 = 0" "d2 = emit [v4l2_ev (sd_version d) obj CAM_SYNC_STATE_SIGNALED_ERROR CAM_SYNC_COMMON_REG_PAYLOAD_EVENT p] d"
    using assms(3,4,6,7,9) u nz
    by (simp_all add: cam_sync_handle_register_user_payload_def user_arg_def Let_def is_signaled_state_def send_v4l2_emit)
  with c show ?thesis by simp
qed

theorem payload_does_not_wait_witness:
  "\<exists>d. sync_inv d \<and> r_remaining (sd_table d 3) = 1 \<and> \<not> r_signaled (sd_table d 3) \<and>
     sd_log (snd (cam_sync_handle_register_user_payload True (Some (3, (8, 9)))
       \<lparr>k_id = 4, k_size = 24, k_result = 0, k_ioctl_ptr = 4096\<rparr> d)) =
     sd_log d @ [v4l2_ev (sd_version d) 3 CAM_SYNC_STATE_SIGNALED_ERROR CAM_SYNC_COMMON_REG_PAYLOAD_EVENT (8, 9)]"
proof -
  define d where "d = fst (run (demo_acts @ [A_Signal 1 CAM_SYNC_STATE_SIGNALED_ERROR 6]) (bound_device, []))"
  let ?k = "\<lparr>k_id = 4, k_size = 24, k_result = 0, k_ioctl_ptr = 4096\<rparr> :: cam_private_ioctl_arg"
  have inv: "sync_inv d" unfolding d_def by (rule reachable_inv)
  have c: "r_state (sd_table d 3) = CAM_SYNC_STATE_SIGNALED_ERROR" "r_remaining (sd_table d 3) = 1"
    "\<not> r_signaled (sd_table d 3)" unfolding d_def by code_simp+
  obtain rc1 d1 where r1: "cam_sync_register_callback True (Some 5) None (int 3) d = (rc1, d1)" by fastforce
  obtain rc2 d2 where r2: "cam_sync_handle_register_user_payload True (Some (of_nat 3, (8, 9))) ?k d = (rc2, d2)" by fastforce
  from payload_does_not_wait [OF _ _ _ c(1) _ _ _ r1 r2] c have
    "sd_log d2 = sd_log d @ [v4l2_ev (sd_version d) 3 CAM_SYNC_STATE_SIGNALED_ERROR CAM_SYNC_COMMON_REG_PAYLOAD_EVENT (8, 9)]"
    by simp
  with inv c r2 show ?thesis by (intro exI [of _ d]) simp
qed

section \<open>The last close\<close>

text \<open>Destroying a fence leaves the states of the others, whoever sleeps on it.\<close>

lemma destroy_states:
  assumes "sys_ok (d, ws)" "valid d i"
  shows "sys_ok (snd (cam_sync_destroy (int i) d), ws)"
    and "r_state (sd_table (snd (cam_sync_destroy (int i) d)) j) =
      (if j = i then CAM_SYNC_STATE_INVALID else r_state (sd_table d j))"
    and "sd_open_cnt (snd (cam_sync_destroy (int i) d)) = sd_open_cnt d"
proof -
  have inv: "sync_inv d" "wait_inv ws d" using assms(1) by (simp_all add: sys_ok_def)
  have i: "0 < i" "i < 2048" "sd_bitmap d i" using inv_valid [OF inv(1) assms(2)] by (simp_all add: valid_ok_def)
  have "wait_ok ws d i" using inv(2) i unfolding wait_inv_def by blast
  then have cnt: "r_wait_ref_cnt (sd_table d i) = 1 + int (count_list ws i)" using assms(2) by (simp add: wait_ok_def)
  show "sys_ok (snd (cam_sync_destroy (int i) d), ws)"
    using destroy_inv [OF inv, of "int i"] by (simp add: sys_ok_def)
  define n where "n = int (count_list ws i)"
  define e where "e = row_upd i ((\<lambda>r. r\<lparr>r_wait_ref_cnt := n\<rparr>) \<circ> (\<lambda>r. r\<lparr>r_state := CAM_SYNC_STATE_INVALID, r_signaled := True\<rparr>)) d"
  have ec: "sd_open_cnt e = sd_open_cnt d" "r_state (sd_table e k) = (if k = i then CAM_SYNC_STATE_INVALID else r_state (sd_table d k))" for k
    by (simp_all add: e_def)
  have rc: "refcount_dec_and_test (1 + n) = (n = 0, n)" using n_def by (simp add: refcount_dec_and_test_def)
  have d': "snd (cam_sync_destroy (int i) d) = (if n = 0 then snd (cam_sync_deinit_object i e) else e)"
    using assms(2) i cnt [folded n_def] by (simp add: cam_sync_destroy_def cam_sync_put_wait_ref_def rc row_upd_twice e_def)
  have ch: "distinct (r_children (sd_table e i))" using inv_children [OF inv(1), of i] by (simp add: e_def)
  have st: "r_state (sd_table e i) = CAM_SYNC_STATE_INVALID" by (simp add: ec)
  note c = deinit_closed [OF i(1,2) ch st]
  have same: "r_state (sd_table (snd (cam_sync_deinit_object i e)) j) = r_state (sd_table e j)"
  proof (cases "j = i")
    case True
    then show ?thesis by (simp add: c(3) zero_row_def ec)
  next
    case False
    from c(4) [OF False] show ?thesis by auto
  qed
  have "r_state (sd_table (snd (cam_sync_destroy (int i) d)) j) = r_state (sd_table e j)"
    unfolding d' using same by (cases "n = 0") simp_all
  then show "r_state (sd_table (snd (cam_sync_destroy (int i) d)) j) =
      (if j = i then CAM_SYNC_STATE_INVALID else r_state (sd_table d j))" unfolding ec .
  have send: "sd_open_cnt (fold (\<lambda>p. cam_sync_util_send_v4l2_event CAM_SYNC_V4L_EVENT_ID_CB_TRIG obj s p x) ps f) = sd_open_cnt f"
    for obj s x ps f by (simp add: fold_send)
  have oc: "sd_open_cnt (fold (unlink_child i) xs f) = sd_open_cnt f" "sd_open_cnt (fold (unlink_parent i) xs f) = sd_open_cnt f"
    for xs f by (induction xs arbitrary: f) (simp_all add: unlink_child_def unlink_parent_def)
  have "sd_open_cnt (snd (cam_sync_deinit_object i e)) = sd_open_cnt e"
    using i by (simp add: cam_sync_deinit_object_def Let_def send oc)
  then show "sd_open_cnt (snd (cam_sync_destroy (int i) d)) = sd_open_cnt d" by (simp add: d' ec)
qed

lemma close_destroy_all:
  assumes "sys_ok (d, ws)"
  shows "sys_ok (snd (fold close_destroy is (rc, d)), ws) \<and>
    (\<forall>j. valid (snd (fold close_destroy is (rc, d))) j \<longleftrightarrow> valid d j \<and> j \<notin> set is) \<and>
    sd_open_cnt (snd (fold close_destroy is (rc, d))) = sd_open_cnt d"
  using assms
proof (induction "is" arbitrary: rc d)
  case (Cons i "is")
  obtain rc' e where e: "close_destroy i (rc, d) = (rc', e)" by fastforce
  have "sys_ok (e, ws) \<and> (\<forall>j. valid e j \<longleftrightarrow> valid d j \<and> j \<noteq> i) \<and> sd_open_cnt e = sd_open_cnt d"
  proof (cases "valid d i")
    case True
    then have "e = snd (cam_sync_destroy (int i) d)" using e by (simp add: close_destroy_def)
    with destroy_states [OF Cons.prems True] show ?thesis by simp
  next
    case False
    then have "e = d" using e by (simp add: close_destroy_def)
    with Cons.prems False show ?thesis by auto
  qed
  with Cons.IH [of e rc'] show ?case by (simp add: e)
qed simp

lemma signal_open_cnt [simp]: "sd_open_cnt (snd (cam_sync_signal obj st cause d)) = sd_open_cnt d"
proof -
  have disp: "sd_open_cnt (cam_sync_util_dispatch_signaled_cb q s c e) = sd_open_cnt e" for q s c e
    by (simp add: dispatch_eq)
  have p: "sd_open_cnt (signal_parent s c q e) = sd_open_cnt e" for s c q e
    by (simp add: signal_parent_def Let_def disp split: prod.splits)
  have f: "sd_open_cnt (fold (signal_parent s c) ps e) = sd_open_cnt e" for s c ps e
    by (induction ps arbitrary: e) (simp_all add: p)
  show ?thesis unfolding cam_sync_signal_def Let_def by (simp add: f disp)
qed

lemma close_signal_all:
  assumes "sys_ok (d, ws)"
  shows "sys_ok (snd (fold close_signal is (rc, d)), ws) \<and>
    sd_open_cnt (snd (fold close_signal is (rc, d))) = sd_open_cnt d"
  using assms
proof (induction "is" arbitrary: rc d)
  case (Cons i "is")
  obtain rc' e where e: "close_signal i (rc, d) = (rc', e)" by fastforce
  then have "e = d \<or> e = snd (cam_sync_signal (int i) CAM_SYNC_STATE_SIGNALED_ERROR CAM_SYNC_COMMON_RELEASE_EVENT d)"
    by (auto simp: close_signal_def split: if_splits)
  moreover have "sys_ok (snd (cam_sync_signal (int i) CAM_SYNC_STATE_SIGNALED_ERROR CAM_SYNC_COMMON_RELEASE_EVENT d), ws)"
    using act_ok [OF Cons.prems, of "A_Signal (int i) CAM_SYNC_STATE_SIGNALED_ERROR CAM_SYNC_COMMON_RELEASE_EVENT"] by simp
  ultimately have "sys_ok (e, ws)" "sd_open_cnt e = sd_open_cnt d" using Cons.prems by auto
  with Cons.IH [of e rc'] show ?case by (simp add: e)
qed simp

lemma sys_ok_cong: "neutral d d' \<Longrightarrow> sys_ok (d, ws) \<Longrightarrow> sys_ok (d', ws)"
  using neutral_inv [of d d' ws] by (simp add: sys_ok_def)

lemma neutral_header [simp]:
  "neutral d (d\<lparr>sd_open_cnt := n\<rparr>)" "neutral d (d\<lparr>sd_eventq := b\<rparr>)"
  by (simp_all add: neutral_def core_eq_def wait_eq_def)

text \<open>The flush of the work queue runs the callbacks still queued.\<close>

lemma flush_neutral:
  "sys_ok (d, ws) \<Longrightarrow> sys_ok (fold cam_sync_util_cb_dispatch cbs d, ws) \<and>
     sd_open_cnt (fold cam_sync_util_cb_dispatch cbs d) = sd_open_cnt d"
proof (induction cbs arbitrary: d)
  case (Cons cb cbs)
  have "sys_ok (cam_sync_util_cb_dispatch cb d, ws)" by (rule sys_ok_cong [OF neutral_ops(7) Cons.prems])
  from Cons.IH [OF this] show ?case by (simp add: cam_sync_util_cb_dispatch_def)
qed simp

text \<open>C31: the last close leaves no fence behind, of whatever kind, state and reference counts, and the
  driver can be opened anew. The rows still in use are the reserved one and those of fences a caller in the
  kernel sleeps on, each until the last of its callers wakes; with nobody asleep, every row is free again.\<close>

theorem last_close_frees_all:
  assumes "sys_ok (d, ws)" and "sd_open_cnt d = 1"
    and "cam_sync_close (\<lambda>e. fold cam_sync_util_cb_dispatch (queued e) e) (Some d) = (rc, Some d')"
  shows "(\<forall>i. \<not> valid d' i) \<and> (\<forall>i. 0 < i \<longrightarrow> (sd_bitmap d' i \<longleftrightarrow> i \<in> set ws)) \<and>
    (\<forall>i. 0 < i \<and> sd_bitmap d' i \<longrightarrow> r_wait_ref_cnt (sd_table d' i) = int (count_list ws i)) \<and>
    fst (cam_sync_open 0 (Some d')) = 0 \<and> sys_ok (d', ws)"
proof -
  define d1 where "d1 = d\<lparr>sd_open_cnt := 0\<rparr>"
  obtain rc1 da where a: "fold close_signal [1..<CAM_SYNC_MAX_OBJS] (0, d1) = (rc1, da)" by fastforce
  define db where "db = fold cam_sync_util_cb_dispatch (queued da) da"
  define dc where "dc = snd (fold close_destroy [1..<CAM_SYNC_MAX_OBJS] (rc1, db))"
  have d': "d' = dc\<lparr>sd_eventq := False\<rparr>"
  proof -
    have "cam_sync_close (\<lambda>e. fold cam_sync_util_cb_dispatch (queued e) e) (Some d) =
        (let (rc, d2) = fold close_destroy [1..<CAM_SYNC_MAX_OBJS] (rc1, db) in (rc, Some (d2\<lparr>sd_eventq := False\<rparr>)))"
      using assms(2) a unfolding d1_def db_def by (simp add: cam_sync_close_def Let_def del: upt_Suc One_nat_def)
    with assms(3) show ?thesis by (simp add: dc_def split_beta del: upt_Suc One_nat_def)
  qed
  have ok1: "sys_ok (d1, ws)" unfolding d1_def by (rule sys_ok_cong [OF _ assms(1)]) simp
  have oka: "sys_ok (da, ws) \<and> sd_open_cnt da = 0"
    using close_signal_all [OF ok1, of "[1..<CAM_SYNC_MAX_OBJS]" 0] a by (simp add: d1_def)
  then have okb: "sys_ok (db, ws)" "sd_open_cnt db = 0" using flush_neutral [of da ws "queued da"] by (simp_all add: db_def)
  note c = close_destroy_all [OF okb(1), of "[1..<CAM_SYNC_MAX_OBJS]" rc1, folded dc_def]
  have range: "j \<in> set [1..<CAM_SYNC_MAX_OBJS]" if "valid db j" for j
    using okb(1) inv_valid [of "\<lambda>_. 0" db j] that by (simp add: sys_ok_def valid_ok_def)
  have none: "\<not> valid dc j" for j using c range [of j] by blast
  have okc: "sys_ok (dc, ws)" "sd_open_cnt dc = 0" using c okb(2) by simp_all
  have w: "wait_inv ws dc" using okc(1) by (simp add: sys_ok_def)
  have used: "wait_ok ws dc i" if "0 < i \<and> sd_bitmap dc i" for i using w that unfolding wait_inv_def by blast
  have "sd_bitmap dc i" if "i \<in> set ws" for i using w that unfolding wait_inv_def by blast
  then have "sd_bitmap dc i \<longleftrightarrow> i \<in> set ws" if "0 < i" for i
    using used [of i] none [of i] that unfolding wait_ok_def by blast
  moreover have "r_wait_ref_cnt (sd_table dc i) = int (count_list ws i)" if "0 < i \<and> sd_bitmap dc i" for i
    using used [OF that] none [of i] by (simp add: wait_ok_def)
  moreover have "sys_ok (d', ws)" unfolding d' by (rule sys_ok_cong [OF _ okc(1)]) simp
  ultimately show ?thesis using none okc(2) by (simp add: d' cam_sync_open_def)
qed

theorem last_close_frees_all_witness:
  "\<exists>rc d'. cam_sync_close (\<lambda>e. fold cam_sync_util_cb_dispatch [] e) (Some (demo_dev\<lparr>sd_open_cnt := 1\<rparr>)) = (rc, Some d') \<and>
     \<not> sd_bitmap d' 3 \<and> valid (demo_dev\<lparr>sd_open_cnt := 1\<rparr>) 3"
proof -
  let ?d = "demo_dev\<lparr>sd_open_cnt := 1\<rparr>"
  have ok: "sys_ok (?d, [])" by (rule sys_ok_cong [OF _ demo_sys]) simp
  have v: "valid demo_dev 3" by code_simp
  obtain rc d' where c: "cam_sync_close (\<lambda>e. fold cam_sync_util_cb_dispatch [] e) (Some ?d) = (rc, Some d')"
    by (cases "cam_sync_close (\<lambda>e. fold cam_sync_util_cb_dispatch [] e) (Some ?d)")
      (auto simp: cam_sync_close_def Let_def split_beta simp del: upt_Suc)
  from last_close_frees_all [OF ok _ c] v c show ?thesis by auto
qed

end
