(* ===== verification/Mmrm_Fixedpoint.thy ===== *)
theory Mmrm_Fixedpoint imports Kernel_Prelude begin

text \<open>
  Fixed-point numbers of the clock resource manager, \<open>mmrm-driver/driver/src/mmrm_fixedpoint.h\<close>
  and the two macros of \<open>mmrm_clk_rsrc_mgr_sw.c\<close> that read the Q16 numbers of the device tree.
  A number is a 64-bit \<open>size_t\<close> whose low 16 bits are the fraction; every operation wraps at 64
  bits, the macro arguments at 32. A division by zero, undefined in C, is never relied on: the
  theorems exclude it.
\<close>

type_synonym fp_t = "64 word"

abbreviation FP_FRACTIONAL_BITS :: nat where "FP_FRACTIONAL_BITS \<equiv> 16"

definition Q16_INT :: "u32 \<Rightarrow> u32" where
  "Q16_INT q = drop_bit 16 q"

definition Q16_FRAC :: "u32 \<Rightarrow> u32" where
  "Q16_FRAC q = drop_bit 16 ((q AND 0xFFFF) * 100)"

definition FP :: "u32 \<Rightarrow> u32 \<Rightarrow> u32 \<Rightarrow> fp_t" where
  "FP i f_n f_d = push_bit FP_FRACTIONAL_BITS (ucast i) + ucast (push_bit FP_FRACTIONAL_BITS f_n div f_d)"

definition fp_frac_base :: fp_t where
  "fp_frac_base = 0xFFFF"

definition fp_frac :: "fp_t \<Rightarrow> fp_t" where
  "fp_frac a = a AND 0xFFFF"

definition fp_int :: "fp_t \<Rightarrow> fp_t" where
  "fp_int a = drop_bit FP_FRACTIONAL_BITS a"

definition fp_round :: "fp_t \<Rightarrow> fp_t" where
  "fp_round a = (let round_up = fp_frac a \<ge> fp_frac_base div 2 in fp_int a + of_bool round_up)"

definition fp_mult :: "fp_t \<Rightarrow> fp_t \<Rightarrow> fp_t" where
  "fp_mult a b = drop_bit FP_FRACTIONAL_BITS (a * b)"

definition fp_div :: "fp_t \<Rightarrow> fp_t \<Rightarrow> fp_t" where
  "fp_div a b = push_bit FP_FRACTIONAL_BITS a div b"

section \<open>Arithmetic meaning\<close>

lemma unat_ucast_up: "unat (ucast (x :: u32) :: fp_t) = unat x"
proof -
  have "unat x < 2 ^ 32" using unsigned_less [of x] by simp
  then show ?thesis by (simp add: unsigned_ucast_eq take_bit_nat_eq_self)
qed

lemma unat_drop_16: "unat (drop_bit 16 (a :: 'a :: len word)) = unat a div 2 ^ 16"
  by (rule trans [OF unat_drop_bit_eq drop_bit_eq_div])

lemma unat_fp_int: "unat (fp_int a) = unat a div 2 ^ 16"
  by (simp only: fp_int_def unat_drop_16)

lemma unat_and_FFFF: "unat ((a :: 'a :: len word) AND 0xFFFF) = unat a mod 2 ^ 16"
proof -
  have "(0xFFFF :: 'a word) = mask 16" by (simp add: mask_eq_exp_minus_1)
  then have "unat (a AND 0xFFFF) = unat (take_bit 16 a)" by (simp only: take_bit_eq_mask)
  also have "\<dots> = take_bit 16 (unat a)" by (rule unsigned_take_bit_eq)
  finally show ?thesis by (simp only: take_bit_eq_mod)
qed

lemma unat_fp_frac: "unat (fp_frac a) = unat a mod 2 ^ 16"
  by (simp only: fp_frac_def unat_and_FFFF)

lemma unat_fp_mult: "unat a * unat b < 2 ^ 64 \<Longrightarrow> unat (fp_mult a b) = unat a * unat b div 2 ^ 16"
  by (simp only: fp_mult_def unat_drop_16 unat_word_ariths) simp

lemma unat_push_16: "unat a < 2 ^ (LENGTH('a) - 16) \<Longrightarrow> 16 \<le> LENGTH('a) \<Longrightarrow>
    unat (push_bit 16 (a :: 'a :: len word)) = unat a * 2 ^ 16"
proof -
  assume a: "unat a < 2 ^ (LENGTH('a) - 16)" "16 \<le> LENGTH('a)"
  have "(2 :: nat) ^ LENGTH('a) = 2 ^ (LENGTH('a) - 16) * 2 ^ 16"
    using a(2) by (simp only: power_add [symmetric]) simp
  with a(1) have "unat a * 2 ^ 16 < 2 ^ LENGTH('a)" by simp
  then have "take_bit LENGTH('a) (unat a * 2 ^ 16) = unat a * 2 ^ 16" by (rule take_bit_nat_eq_self)
  moreover have "unat (push_bit 16 a) = take_bit LENGTH('a) (push_bit 16 (unat a))" by (rule unsigned_push_bit_eq)
  ultimately show ?thesis by (simp only: push_bit_eq_mult)
qed

lemma unat_fp_div: "unat a < 2 ^ 48 \<Longrightarrow> unat (fp_div a b) = unat a * 2 ^ 16 div unat b"
  by (simp only: fp_div_def unat_div unat_push_16) (simp add: unat_push_16)

lemma unat_FP:
  assumes "unat n < 2 ^ 16"
  shows "unat (FP i n d) = unat i * 2 ^ 16 + unat n * 2 ^ 16 div unat d"
proof -
  let ?f = "push_bit 16 n div d"
  have "unat i < 2 ^ LENGTH(32)" by (rule unsigned_less)
  then have iu: "unat i < 2 ^ 32" by simp
  have n: "unat (push_bit 16 n) = unat n * 2 ^ 16" using assms by (intro unat_push_16) simp_all
  have f: "unat (ucast ?f :: fp_t) = unat n * 2 ^ 16 div unat d"
    by (simp only: unat_ucast_up unat_div n)
  have i: "unat (push_bit 16 (ucast i :: fp_t)) = unat i * 2 ^ 16"
    using iu by (subst unat_push_16) (simp_all add: unat_ucast_up)
  have "unat i * 2 ^ 16 + unat n * 2 ^ 16 div unat d < 2 ^ 32 * 2 ^ 16 + 2 ^ 16 * 2 ^ 16"
  proof (rule add_less_le_mono)
    show "unat i * 2 ^ 16 < 2 ^ 32 * 2 ^ 16" using iu by (intro mult_strict_right_mono) simp_all
    have "unat n * 2 ^ 16 \<le> 2 ^ 16 * 2 ^ 16" using assms by (intro mult_right_mono) simp_all
    then show "unat n * 2 ^ 16 div unat d \<le> 2 ^ 16 * 2 ^ 16" by (rule le_trans [OF div_le_dividend])
  qed
  then have "unat i * 2 ^ 16 + unat n * 2 ^ 16 div unat d < 2 ^ 64" by simp
  then show ?thesis by (simp only: FP_def unat_word_ariths i f) simp
qed

section \<open>Properties\<close>

lemma unat_Q16_INT: "unat (Q16_INT q) = unat q div 2 ^ 16"
  by (simp only: Q16_INT_def unat_drop_16)

lemma unat_Q16_FRAC: "unat (Q16_FRAC q) = unat q mod 2 ^ 16 * 100 div 2 ^ 16"
proof -
  have "unat ((q AND 0xFFFF) * 100) = unat q mod 2 ^ 16 * 100"
    by (simp only: unat_word_ariths unat_and_FFFF) simp
  then show ?thesis by (simp only: Q16_FRAC_def unat_drop_16)
qed

lemma q16_loss:
  fixes f :: nat
  assumes "f < 2 ^ 16"
  shows "f * 100 div 2 ^ 16 * 2 ^ 16 div 100 \<le> f" "f \<le> f * 100 div 2 ^ 16 * 2 ^ 16 div 100 + 656"
proof -
  define F where "F = f * 100 div 65536"
  have F: "F * 65536 \<le> f * 100" "f * 100 < F * 65536 + 65536"
    using div_mult_mod_eq [of "f * 100" 65536] mod_less_divisor [of 65536 "f * 100"] by (simp_all add: F_def)
  define G where "G = F * 65536 div 100"
  have G: "G * 100 \<le> F * 65536" "F * 65536 < G * 100 + 100"
    using div_mult_mod_eq [of "F * 65536" 100] mod_less_divisor [of 100 "F * 65536"] by (simp_all add: G_def)
  from F G have "G \<le> f" "f \<le> G + 656" by linarith+
  then show "f * 100 div 2 ^ 16 * 2 ^ 16 div 100 \<le> f" "f \<le> f * 100 div 2 ^ 16 * 2 ^ 16 div 100 + 656"
    by (simp_all add: F_def G_def)
qed

text \<open>C32: reading a Q16 number of the device tree into the fixed-point format, through hundredths,
  never exceeds the number and loses at most 656 of its 65536ths; no step wraps.\<close>

theorem q16_to_fp_close:
  "unat (FP (Q16_INT q) (Q16_FRAC q) 100) \<le> unat q \<and> unat q \<le> unat (FP (Q16_INT q) (Q16_FRAC q) 100) + 656"
proof -
  let ?f = "unat q mod 2 ^ 16"
  have f: "?f < 2 ^ 16" by simp
  have "?f * 100 div 2 ^ 16 < 2 ^ 16" using f by (simp add: less_mult_imp_div_less)
  then have "unat (Q16_FRAC q) < 2 ^ 16" by (simp only: unat_Q16_FRAC)
  then have "unat (FP (Q16_INT q) (Q16_FRAC q) 100) = unat q div 2 ^ 16 * 2 ^ 16 + ?f * 100 div 2 ^ 16 * 2 ^ 16 div 100"
    by (simp only: unat_FP unat_Q16_INT unat_Q16_FRAC) simp
  moreover have "unat q = unat q div 2 ^ 16 * 2 ^ 16 + ?f" by simp
  ultimately show ?thesis using q16_loss [OF f] by linarith
qed

lemma nearest:
  fixes n :: nat
  shows "n div 65536 + of_bool (32767 \<le> n mod 65536) = (n + 32769) div 65536"
proof -
  define q r where "q = n div 65536" and "r = n mod 65536"
  have n: "n = 65536 * q + r" "r < 65536" by (simp_all add: q_def r_def)
  show ?thesis
  proof (cases "32767 \<le> r")
    case True
    then have "(n + 32769) div 65536 = q + 1" using n by (intro div_nat_eqI) simp_all
    with True show ?thesis by (simp add: q_def [symmetric] r_def [symmetric])
  next
    case False
    then have "(n + 32769) div 65536 = q" using n by (intro div_nat_eqI) simp_all
    with False show ?thesis by (simp add: q_def [symmetric] r_def [symmetric])
  qed
qed

text \<open>Rounding is to the nearest integer, a fraction of 32767 / 65536 counting as a half;
  multiplication and division are exact up to truncation while the intermediate result fits.\<close>

lemma fp_operations_exact:
  "unat (fp_round a) = (unat a + 32769) div 2 ^ 16 \<and>
   (unat a * unat b < 2 ^ 64 \<longrightarrow> unat (fp_mult a b) = unat a * unat b div 2 ^ 16) \<and>
   (unat a < 2 ^ 48 \<longrightarrow> unat (fp_div a b) = unat a * 2 ^ 16 div unat b)"
proof -
  have "(0xFFFF :: fp_t) div 2 = 0x7FFF" by simp
  then have up: "fp_frac a \<ge> fp_frac_base div 2 \<longleftrightarrow> 32767 \<le> unat a mod 2 ^ 16"
    by (simp only: fp_frac_base_def word_le_nat_alt unat_fp_frac) simp
  have "unat a < 2 ^ LENGTH(64)" by (rule unsigned_less)
  then have b: "unat a div 2 ^ 16 < 2 ^ 48" by (simp add: less_mult_imp_div_less)
  have "unat (fp_round a) = unat a div 2 ^ 16 + of_bool (32767 \<le> unat a mod 2 ^ 16)"
    unfolding fp_round_def Let_def up using b
    by (cases "32767 \<le> unat a mod 2 ^ 16") (simp_all only: unat_word_ariths unat_fp_int, simp_all)
  also have "\<dots> = (unat a + 32769) div 2 ^ 16" using nearest [of "unat a"] by simp
  finally show ?thesis using unat_fp_mult unat_fp_div by blast
qed

end
