(* ===== verification/Mmrm_Clk.thy ===== *)
theory Mmrm_Clk imports Mmrm_Fixedpoint begin

text \<open>
  The software clock manager of the multimedia resource manager,
  \<open>mmrm-driver/driver/src/mmrm_clk_rsrc_mgr_sw.c\<close> with the data of \<open>mmrm_clk_rsrc_mgr.h\<close> and
  \<open>mmrm_resources.h\<close>: admission control on the peak current of all clock clients, the throttling
  of low-priority clients and their reinstatement. The lock of the manager is held over each
  operation's critical section; an operation is one step here.

  The clock framework, the notifier callbacks of the clients, allocations, and the constants of
  headers outside the repository (regulator levels, priorities, flags) are the parameter
  \<open>mmrm_env\<close>. Calls that leave the driver are recorded in \<open>mm_log\<close>. Fixed-size arrays over the
  voltage levels are functions, the table of clients is a list of \<open>tot_clk_clients\<close> entries, a
  pointer into it is an index.
\<close>

section \<open>Data\<close>

abbreviation MMRM_VDD_LEVEL_LOW_SVS :: nat where "MMRM_VDD_LEVEL_LOW_SVS \<equiv> 0"
abbreviation MMRM_VDD_LEVEL_NOM :: nat where "MMRM_VDD_LEVEL_NOM \<equiv> 3"
abbreviation MMRM_VDD_LEVEL_TURBO :: nat where "MMRM_VDD_LEVEL_TURBO \<equiv> 4"
abbreviation MMRM_VDD_LEVEL_MAX :: nat where "MMRM_VDD_LEVEL_MAX \<equiv> 5"
abbreviation MMRM_MAX_THROTTLE_CLIENTS :: nat where "MMRM_MAX_THROTTLE_CLIENTS \<equiv> 5"
abbreviation CLK_RATE_STEP :: int where "CLK_RATE_STEP \<equiv> 1000000"

text \<open>A \<open>struct clk *\<close>: NULL, an error pointer, or a clock.\<close>

datatype clk_ptr = Clk_Null | Clk_Err | Clk nat

definition is_err_or_null :: "clk_ptr \<Rightarrow> bool" where
  "is_err_or_null p \<longleftrightarrow> p = Clk_Null \<or> p = Clk_Err"

record mmrm_client =
  cl_type :: u32
  cl_uid :: nat

record mmrm_client_data =
  cd_num_hw_blocks :: u32
  cd_flags :: u32

record mmrm_clk_client_desc =
  de_client_domain :: u32
  de_client_id :: u32
  de_name :: string
  de_clk :: clk_ptr

record mmrm_sw_clk_client_tbl_entry =
  ce_name :: string
  ce_clk :: clk_ptr
  ce_pri :: u32
  ce_pvt_data :: ptr
  ce_notifier_cb_fn :: "nat option"
  ce_clk_src_id :: u32
  ce_max_num_hw_blocks :: u32
  ce_freq :: "nat \<Rightarrow> u64"
  ce_dyn_pwr :: "nat \<Rightarrow> u32"
  ce_leak_pwr :: "nat \<Rightarrow> u32"
  ce_current_ma :: "nat \<Rightarrow> nat \<Rightarrow> u32"
  ce_client :: "mmrm_client option"
  ce_clk_rate :: u64
  ce_vdd_level :: nat
  ce_reserve :: bool
  ce_ref_count :: u32
  ce_num_hw_blocks :: u32

record mmrm_sw_throttled_clients_data =
  tc_table_id :: nat
  tc_delta_cu_ma :: u32
  tc_prev_vdd_level :: nat

record mmrm_throttle_info =
  ti_csid_throttle_client :: u32
  ti_tbl_entry_id :: nat

record mmrm_sw_peak_current_data =
  pk_threshold :: u32
  pk_aggreg_val :: u32
  pk_aggreg_level :: nat

datatype mmrm_ev =
    Ev_Notify nat u64 u64 ptr
  | Ev_Set_Rate clk_ptr u64

record mmrm_sw_clk_mgr_info =
  mm_clk_client_tbl :: "mmrm_sw_clk_client_tbl_entry list"
  mm_enabled_clk_clients :: nat
  mm_throttle_clients_info :: "mmrm_throttle_info list"
  mm_throttle_clients_data_length :: nat
  mm_peak_cur_data :: mmrm_sw_peak_current_data
  mm_throttled_clients :: "mmrm_sw_throttled_clients_data list"
  mm_log :: "mmrm_ev list"

record corner_info =
  co_volt_factor :: u32
  co_scaling_factor_dyn :: u32
  co_scaling_factor_leak :: u32

record nom_clk_src_info =
  no_domain :: u32
  no_clk_src_id :: u32
  no_nom_dyn_pwr :: u32
  no_nom_leak_pwr :: u32
  no_num_hw_block :: u32

record mmrm_clk_platform_resources =
  cr_threshold :: u32
  cr_scheme :: u32
  cr_clsid_threshold_clients :: "u32 list"
  cr_throttle_clients_data_length :: nat
  cr_corner_tbl :: "corner_info list"
  cr_clk_src_tbl :: "nom_clk_src_info list"

text \<open>
  The environment: \<open>en_vdd_corner\<close> is the table \<open>mmrm_sw_vdd_corner\<close> over the regulator levels
  of the kernel headers; \<open>en_round_rate\<close>, \<open>en_get_voltage\<close>, \<open>en_set_rate\<close> are \<open>clk_round_rate\<close>,
  \<open>qcom_clk_get_voltage\<close> and \<open>clk_set_rate\<close>; \<open>en_notify\<close> is the result of a callback;
  \<open>en_mem\<close> and \<open>en_tc_mem\<close> say whether the allocations of a client and of a bookkeeping entry
  succeed; \<open>en_throttle\<close> and \<open>en_multiple\<close> are the two module parameters.
\<close>

record mmrm_env =
  en_vdd_corner :: "nat \<Rightarrow> int"
  en_clock :: u32
  en_prior_high :: u32
  en_reserve_only :: u32
  en_name_size :: nat
  en_round_rate :: "clk_ptr \<Rightarrow> u64 \<Rightarrow> int"
  en_get_voltage :: "clk_ptr \<Rightarrow> u64 \<Rightarrow> int"
  en_set_rate :: "clk_ptr \<Rightarrow> u64 \<Rightarrow> int"
  en_notify :: "nat \<Rightarrow> u64 \<Rightarrow> u64 \<Rightarrow> ptr \<Rightarrow> int"
  en_mem :: bool
  en_tc_mem :: bool
  en_throttle :: u8
  en_multiple :: u8

definition mm_emit :: "mmrm_ev list \<Rightarrow> mmrm_sw_clk_mgr_info \<Rightarrow> mmrm_sw_clk_mgr_info" where
  "mm_emit es s = s\<lparr>mm_log := mm_log s @ es\<rparr>"

definition entry_upd ::
  "nat \<Rightarrow> (mmrm_sw_clk_client_tbl_entry \<Rightarrow> mmrm_sw_clk_client_tbl_entry) \<Rightarrow> mmrm_sw_clk_mgr_info \<Rightarrow> mmrm_sw_clk_mgr_info" where
  "entry_upd i f s = s\<lparr>mm_clk_client_tbl := (mm_clk_client_tbl s)[i := f (mm_clk_client_tbl s ! i)]\<rparr>"

section \<open>Frequencies and currents of a client\<close>

text \<open>The first level below \<open>MMRM_VDD_LEVEL_MAX\<close> with the given corner, or \<open>MMRM_VDD_LEVEL_MAX\<close>.\<close>

fun match_level_from :: "(nat \<Rightarrow> int) \<Rightarrow> int \<Rightarrow> nat list \<Rightarrow> nat" where
  "match_level_from corner v [] = MMRM_VDD_LEVEL_MAX"
| "match_level_from corner v (l # ls) = (if v = corner l then l else match_level_from corner v ls)"

definition match_level :: "(nat \<Rightarrow> int) \<Rightarrow> int \<Rightarrow> nat" where
  "match_level corner v = match_level_from corner v [0..<MMRM_VDD_LEVEL_MAX]"

text \<open>
  The loop of \<open>mmrm_sw_update_freq\<close> over the rates. The C variables are \<open>long\<close>; rates are below
  \<open>2 ^ 63 - CLK_RATE_STEP\<close>, so the addition does not overflow and the integers are exact.
\<close>

function freq_loop :: "mmrm_env \<Rightarrow> clk_ptr \<Rightarrow> int \<Rightarrow> int \<Rightarrow> int \<Rightarrow> (nat \<Rightarrow> u64) \<Rightarrow> nat \<Rightarrow> u64" where
  "freq_loop env clk clk_val clk_val_max clk_val_min freq =
     (if \<not> clk_val < clk_val_max then freq
      else
        let clk_val_round = en_round_rate env clk (word_of_int clk_val) in
        if clk_val_round > clk_val_min then
          let voltage_corner = en_get_voltage env clk (word_of_int clk_val_round) in
          if voltage_corner < 0 \<or> voltage_corner > en_vdd_corner env MMRM_VDD_LEVEL_TURBO then freq
          else
            let v = (if voltage_corner < en_vdd_corner env MMRM_VDD_LEVEL_LOW_SVS
                     then en_vdd_corner env MMRM_VDD_LEVEL_LOW_SVS else voltage_corner);
                i = match_level (en_vdd_corner env) v
            in freq_loop env clk (clk_val + CLK_RATE_STEP) clk_val_max clk_val_round
                 (\<lambda>l. if i \<le> l \<and> l < MMRM_VDD_LEVEL_MAX then word_of_int clk_val_round else freq l)
        else freq_loop env clk (clk_val + CLK_RATE_STEP) clk_val_max clk_val_min freq)"
  by pat_completeness auto
termination
  by (relation "measure (\<lambda>(env, clk, clk_val, clk_val_max, clk_val_min, freq). nat (clk_val_max - clk_val))") auto

declare freq_loop.simps [simp del]

definition mmrm_sw_update_freq ::
  "mmrm_env \<Rightarrow> mmrm_sw_clk_client_tbl_entry \<Rightarrow> int \<times> mmrm_sw_clk_client_tbl_entry" where
  "mmrm_sw_update_freq env e =
     (let clk_val_min = en_round_rate env (ce_clk e) 1;
          clk_val_max = en_round_rate env (ce_clk e) (- 1);
          freq0 = (\<lambda>l. if l < MMRM_VDD_LEVEL_MAX then word_of_int clk_val_min else ce_freq e l)
      in (0, e\<lparr>ce_freq := freq_loop env (ce_clk e) clk_val_min clk_val_max clk_val_min freq0\<rparr>))"

definition level_power ::
  "fp_t \<Rightarrow> fp_t \<Rightarrow> fp_t \<Rightarrow> corner_info \<Rightarrow> u64 \<Rightarrow> fp_t \<times> fp_t" where
  "level_power nom_dyn_pwr nom_leak_pwr nom_freq co freq =
     (let dyn_sc = FP (Q16_INT (co_scaling_factor_dyn co)) (Q16_FRAC (co_scaling_factor_dyn co)) 100;
          leak_sc = FP (Q16_INT (co_scaling_factor_leak co)) (Q16_FRAC (co_scaling_factor_leak co)) 100;
          pwr_mw = fp_mult nom_dyn_pwr freq;
          pwr_mw = fp_div pwr_mw nom_freq
      in (fp_mult pwr_mw dyn_sc, fp_mult nom_leak_pwr leak_sc))"

fun find_src_id :: "u32 \<Rightarrow> mmrm_sw_clk_client_tbl_entry list \<Rightarrow> nat" where
  "find_src_id csid [] = 0"
| "find_src_id csid (e # es) = (if csid = ce_clk_src_id e then 0 else Suc (find_src_id csid es))"

definition mmrm_sw_update_curr ::
  "mmrm_clk_platform_resources \<Rightarrow> mmrm_sw_clk_mgr_info \<Rightarrow> mmrm_sw_clk_client_tbl_entry \<Rightarrow>
     int \<times> mmrm_sw_clk_client_tbl_entry" where
  "mmrm_sw_update_curr cres sinfo e =
     (let c = find_src_id (ce_clk_src_id e) (mm_clk_client_tbl sinfo) in
      if c = length (mm_clk_client_tbl sinfo) then (- EINVAL, e)
      else
        let nom = cr_clk_src_tbl cres ! c;
            nom_dyn_pwr = FP (Q16_INT (no_nom_dyn_pwr nom)) (Q16_FRAC (no_nom_dyn_pwr nom)) 100;
            nom_leak_pwr = FP (Q16_INT (no_nom_leak_pwr nom)) (Q16_FRAC (no_nom_leak_pwr nom)) 100;
            nom_freq = ce_freq e MMRM_VDD_LEVEL_NOM;
            pwr = (\<lambda>i. level_power nom_dyn_pwr nom_leak_pwr nom_freq (cr_corner_tbl cres ! i) (ce_freq e i));
            volt = (\<lambda>j. FP (Q16_INT (co_volt_factor (cr_corner_tbl cres ! j)))
                           (Q16_FRAC (co_volt_factor (cr_corner_tbl cres ! j))) 100)
        in (0, e\<lparr>ce_dyn_pwr := (\<lambda>i. if i < MMRM_VDD_LEVEL_MAX then ucast (fp_round (fst (pwr i))) else ce_dyn_pwr e i),
                 ce_leak_pwr := (\<lambda>i. if i < MMRM_VDD_LEVEL_MAX then ucast (fp_round (snd (pwr i))) else ce_leak_pwr e i),
                 ce_current_ma := (\<lambda>i j. if i < MMRM_VDD_LEVEL_MAX \<and> j < MMRM_VDD_LEVEL_MAX
                    then ucast (fp_round (fp_div (fst (pwr i) + snd (pwr i)) (volt j)))
                    else ce_current_ma e i j)\<rparr>))"

section \<open>Registration\<close>

definition mmrm_sw_clk_client_register ::
  "mmrm_env \<Rightarrow> mmrm_clk_platform_resources \<Rightarrow> mmrm_clk_client_desc \<Rightarrow> u32 \<Rightarrow> ptr \<Rightarrow> nat option \<Rightarrow>
     mmrm_sw_clk_mgr_info \<Rightarrow> mmrm_client option \<times> mmrm_sw_clk_mgr_info" where
  "mmrm_sw_clk_client_register env cres clk_desc priority pvt_data not_fn_cb s =
     (if length (mm_clk_client_tbl s) = mm_enabled_clk_clients s then (None, s)
      else
        let clk_client_src_id = (push_bit 16 (de_client_domain clk_desc) OR de_client_id clk_desc);
            c = find_src_id clk_client_src_id (mm_clk_client_tbl s)
        in
        if c = length (mm_clk_client_tbl s) then (None, s)
        else
          let e = mm_clk_client_tbl s ! c in
          case ce_client e of
            Some cl \<Rightarrow>
              if en_multiple env \<noteq> 0
              then (Some cl, entry_upd c (\<lambda>e. e\<lparr>ce_ref_count := ce_ref_count e + 1\<rparr>) s)
              else (None, s)
          | None \<Rightarrow>
              let cleared = (\<lambda>e. e\<lparr>ce_client := None, ce_clk := Clk_Null, ce_pri := 0, ce_pvt_data := None,
                                    ce_notifier_cb_fn := None\<rparr>) in
              if \<not> en_mem env then (None, entry_upd c cleared s)
              else
                let cl = \<lparr>cl_type = en_clock env, cl_uid = c\<rparr>;
                    e1 = e\<lparr>ce_ref_count := 1, ce_client := Some cl,
                           ce_name := take (en_name_size env - 1) (de_name clk_desc), ce_clk := de_clk clk_desc,
                           ce_pri := priority, ce_pvt_data := pvt_data, ce_notifier_cb_fn := not_fn_cb\<rparr>;
                    (rc, e2) = mmrm_sw_update_freq env e1
                in
                if rc \<noteq> 0 then (None, entry_upd c (\<lambda>_. cleared e2) s)
                else
                  let (rc, e3) = mmrm_sw_update_curr cres s e2 in
                  if rc \<noteq> 0 then (None, entry_upd c (\<lambda>_. cleared e3) s)
                  else (Some cl, entry_upd c (\<lambda>_. e3) s))"

definition mmrm_sw_clk_client_deregister ::
  "mmrm_client option \<Rightarrow> mmrm_sw_clk_mgr_info \<Rightarrow> int \<times> mmrm_sw_clk_mgr_info" where
  "mmrm_sw_clk_client_deregister client s =
     (case client of
        None \<Rightarrow> (- EINVAL, s)
      | Some cl \<Rightarrow>
          if cl_uid cl \<ge> length (mm_clk_client_tbl s) then (- EINVAL, s)
          else
            let s1 = entry_upd (cl_uid cl) (\<lambda>e. if ce_ref_count e > 0 then e\<lparr>ce_ref_count := ce_ref_count e - 1\<rparr> else e) s
            in (0, if ce_ref_count (mm_clk_client_tbl s1 ! cl_uid cl) = 0
                   then entry_upd (cl_uid cl) (\<lambda>e. e\<lparr>ce_vdd_level := 0, ce_clk_rate := 0, ce_client := None,
                          ce_clk := Clk_Null, ce_pri := 0, ce_pvt_data := None, ce_notifier_cb_fn := None\<rparr>) s1
                   else s1))"

section \<open>Admission\<close>

text \<open>\<open>*req_level\<close> is the second component; it is written on success only.\<close>

definition mmrm_sw_get_req_level ::
  "mmrm_env \<Rightarrow> mmrm_sw_clk_client_tbl_entry \<Rightarrow> u64 \<Rightarrow> int \<times> nat option" where
  "mmrm_sw_get_req_level env e clk_val =
     (let voltage_corner = en_get_voltage env (ce_clk e) clk_val in
      if voltage_corner < 0 \<or> voltage_corner > en_vdd_corner env MMRM_VDD_LEVEL_TURBO then (voltage_corner, None)
      else if voltage_corner < en_vdd_corner env MMRM_VDD_LEVEL_LOW_SVS then (0, Some MMRM_VDD_LEVEL_LOW_SVS)
      else
        let level = match_level (en_vdd_corner env) voltage_corner in
        if level = MMRM_VDD_LEVEL_MAX then (- EINVAL, None) else (0, Some level))"

text \<open>
  The loop of \<open>mmrm_sw_check_req_level\<close>: whether it broke off at a client at the aggregated
  level, and the level of \<open>next_max_entry\<close>.
\<close>

fun check_loop :: "u32 \<Rightarrow> nat \<Rightarrow> nat \<Rightarrow> nat option \<Rightarrow> mmrm_sw_clk_client_tbl_entry list \<Rightarrow> bool \<times> nat option" where
  "check_loop csid req aggreg nxt [] = (False, nxt)"
| "check_loop csid req aggreg nxt (e # es) =
     (if is_err_or_null (ce_clk e) \<or> ce_clk_rate e = 0 \<or> ce_clk_src_id e = csid
      then check_loop csid req aggreg nxt es
      else if ce_vdd_level e = aggreg then (True, nxt)
      else check_loop csid req aggreg
             (if ce_vdd_level e < aggreg \<and> ce_vdd_level e > req then Some (ce_vdd_level e) else nxt) es)"

definition mmrm_sw_check_req_level :: "mmrm_sw_clk_mgr_info \<Rightarrow> u32 \<Rightarrow> nat \<Rightarrow> int \<times> nat" where
  "mmrm_sw_check_req_level s csid req_level =
     (if req_level \<ge> MMRM_VDD_LEVEL_MAX then (- EINVAL, req_level)
      else
        let aggreg_level = pk_aggreg_level (mm_peak_cur_data s) in
        if req_level < aggreg_level
        then
          (let (found, nxt) = check_loop csid req_level aggreg_level None (mm_clk_client_tbl s) in
           (0, if found then aggreg_level
               else (case nxt of Some l \<Rightarrow> if l > req_level then l else req_level | None \<Rightarrow> req_level)))
        else (0, req_level))"

text \<open>The sum leaves out entry \<open>skip\<close>; \<open>c\<close> is the index of the head of the list.\<close>

fun total_loop :: "nat \<Rightarrow> nat \<Rightarrow> nat \<Rightarrow> mmrm_sw_clk_client_tbl_entry list \<Rightarrow> u32 \<Rightarrow> u32" where
  "total_loop req skip c [] sum_cur = sum_cur"
| "total_loop req skip c (e # es) sum_cur =
     total_loop req skip (Suc c) es
       (if is_err_or_null (ce_clk e) \<or> ce_clk_rate e = 0 \<or> c = skip then sum_cur
        else sum_cur + ce_current_ma e (ce_vdd_level e) req * ce_num_hw_blocks e)"

definition mmrm_sw_calculate_total_current :: "mmrm_sw_clk_mgr_info \<Rightarrow> nat \<Rightarrow> nat \<Rightarrow> int \<times> u32 option" where
  "mmrm_sw_calculate_total_current s req_level skip =
     (if req_level \<ge> MMRM_VDD_LEVEL_MAX then (- EINVAL, None)
      else (0, Some (total_loop req_level skip 0 (mm_clk_client_tbl s) 0)))"

section \<open>Throttling\<close>

text \<open>
  The entry of the throttle table at index \<open>i\<close>, as an index into the table of clients. The
  current differences are unsigned, and comparing them with the \<open>int\<close> \<open>*delta_cur\<close> converts the
  latter to unsigned too.
\<close>

definition throttle_entry :: "mmrm_sw_clk_mgr_info \<Rightarrow> nat \<Rightarrow> nat" where
  "throttle_entry s i = ti_tbl_entry_id (mm_throttle_clients_info s ! i)"

definition now_cur_ma :: "mmrm_sw_clk_mgr_info \<Rightarrow> nat \<Rightarrow> u32" where
  "now_cur_ma s i = (let e = mm_clk_client_tbl s ! throttle_entry s i in
     ce_current_ma e (ce_vdd_level e) (pk_aggreg_level (mm_peak_cur_data s)))"

definition min_cur_ma :: "mmrm_sw_clk_mgr_info \<Rightarrow> nat \<Rightarrow> u32" where
  "min_cur_ma s i = (let e = mm_clk_client_tbl s ! throttle_entry s i in
     ce_current_ma e MMRM_VDD_LEVEL_LOW_SVS (pk_aggreg_level (mm_peak_cur_data s)))"

fun throttle_scan :: "mmrm_sw_clk_mgr_info \<Rightarrow> u32 \<Rightarrow> nat list \<Rightarrow> nat option" where
  "throttle_scan s delta_cur [] = None"
| "throttle_scan s delta_cur (i # is) =
     (if now_cur_ma s i > min_cur_ma s i \<and> now_cur_ma s i - min_cur_ma s i > delta_cur
      then Some i else throttle_scan s delta_cur is)"

text \<open>The result is the return code, \<open>*delta_cur\<close> and the state.\<close>

definition mmrm_sw_throttle_low_priority_client ::
  "mmrm_env \<Rightarrow> u32 \<Rightarrow> mmrm_sw_clk_mgr_info \<Rightarrow> int \<times> u32 \<times> mmrm_sw_clk_mgr_info" where
  "mmrm_sw_throttle_low_priority_client env delta_cur s =
     (case throttle_scan s delta_cur [0..<mm_throttle_clients_data_length s] of
        None \<Rightarrow> (0, delta_cur, s)
      | Some i \<Rightarrow>
          let e = mm_clk_client_tbl s ! throttle_entry s i;
              old_val = ce_freq e (ce_vdd_level e);
              new_val = ce_freq e MMRM_VDD_LEVEL_LOW_SVS;
              (rc, s1) = (case ce_notifier_cb_fn e of
                  Some f \<Rightarrow> (en_notify env f old_val new_val (ce_pvt_data e), mm_emit [Ev_Notify f old_val new_val (ce_pvt_data e)] s)
                | None \<Rightarrow> (0, s))
          in
          if rc \<noteq> 0 then (- EINVAL, delta_cur, s1)
          else
            let (rc, s2) = (if \<not> ce_reserve e
                  then (en_set_rate env (ce_clk e) new_val, mm_emit [Ev_Set_Rate (ce_clk e) new_val] s1)
                  else (0, s1)) in
            if rc \<noteq> 0 then (- EINVAL, delta_cur, s2)
            else
              let delta = now_cur_ma s i - min_cur_ma s i in
              if \<not> en_tc_mem env then (- ENOMEM, delta_cur - delta, s2)
              else
                (0, delta_cur - delta,
                 entry_upd (throttle_entry s i)
                   (\<lambda>e. e\<lparr>ce_clk_rate := new_val, ce_vdd_level := MMRM_VDD_LEVEL_LOW_SVS, ce_reserve := False\<rparr>)
                   (s2\<lparr>mm_throttled_clients := mm_throttled_clients s2 @
                        [\<lparr>tc_table_id = i, tc_delta_cu_ma = delta, tc_prev_vdd_level = ce_vdd_level e\<rparr>]\<rparr>)))"

definition reinstated :: "mmrm_sw_peak_current_data \<Rightarrow> mmrm_sw_throttled_clients_data \<Rightarrow> bool" where
  "reinstated pk tc \<longleftrightarrow> pk_aggreg_val pk + tc_delta_cu_ma tc \<le> pk_threshold pk"

definition reinstate_evs :: "mmrm_sw_clk_mgr_info \<Rightarrow> mmrm_sw_throttled_clients_data \<Rightarrow> mmrm_ev list" where
  "reinstate_evs s tc =
     (let e = mm_clk_client_tbl s ! throttle_entry s (tc_table_id tc) in
      case ce_notifier_cb_fn e of
        Some f \<Rightarrow> [Ev_Notify f (ce_freq e MMRM_VDD_LEVEL_LOW_SVS) (ce_freq e (tc_prev_vdd_level tc)) (ce_pvt_data e)]
      | None \<Rightarrow> [])"

definition mmrm_reinstate_throttled_client :: "mmrm_sw_clk_mgr_info \<Rightarrow> int \<times> mmrm_sw_clk_mgr_info" where
  "mmrm_reinstate_throttled_client s =
     (let pk = mm_peak_cur_data s in
      (0, mm_emit (concat (map (reinstate_evs s) (filter (reinstated pk) (mm_throttled_clients s))))
            (s\<lparr>mm_throttled_clients := filter (\<lambda>tc. \<not> reinstated pk tc) (mm_throttled_clients s)\<rparr>)))"

section \<open>The peak current check\<close>

text \<open>The signed additions of the code wrap, as the kernel is compiled.\<close>

definition set_peak :: "u32 \<Rightarrow> nat \<Rightarrow> mmrm_sw_clk_mgr_info \<Rightarrow> mmrm_sw_clk_mgr_info" where
  "set_peak v level s = s\<lparr>mm_peak_cur_data := (mm_peak_cur_data s)\<lparr>pk_aggreg_val := v, pk_aggreg_level := level\<rparr>\<rparr>"

definition mmrm_sw_check_peak_current ::
  "mmrm_env \<Rightarrow> nat \<Rightarrow> nat \<Rightarrow> u32 \<Rightarrow> u32 \<Rightarrow> mmrm_sw_clk_mgr_info \<Rightarrow> int \<times> mmrm_sw_clk_mgr_info" where
  "mmrm_sw_check_peak_current env idx req_level clk_val num_hw_blocks s =
     (let e = mm_clk_client_tbl s ! idx;
          aggreg_level = pk_aggreg_level (mm_peak_cur_data s);
          (rc, adj_level) = mmrm_sw_check_req_level s (ce_clk_src_id e) req_level
      in
      if rc \<noteq> 0 then (rc, s)
      else
        let new_cur = (if clk_val \<noteq> 0 then ce_current_ma e req_level adj_level * num_hw_blocks else 0);
            old_cur = (if ce_clk_rate e \<noteq> 0
                       then ce_current_ma e (ce_vdd_level e) aggreg_level * ce_num_hw_blocks e else 0);
            total = mmrm_sw_calculate_total_current s adj_level idx
        in
        if adj_level \<noteq> aggreg_level \<and> fst total \<noteq> 0 then (fst total, s)
        else
          let (peak_cur, delta_cur) =
                (if adj_level \<noteq> aggreg_level then (the (snd total) + new_cur, 0)
                 else (pk_aggreg_val (mm_peak_cur_data s), new_cur - old_cur))
          in
          if sint (peak_cur + delta_cur) \<le> 0 then (0, set_peak 0 adj_level s)
          else if peak_cur + delta_cur \<ge> pk_threshold (mm_peak_cur_data s) then
            (if ce_pri e = en_prior_high env \<and> en_throttle env > 0 then
               (let (rc, delta_cur, s1) = mmrm_sw_throttle_low_priority_client env delta_cur s in
                if rc \<noteq> 0 then (rc, s1)
                else (0, snd (mmrm_reinstate_throttled_client (set_peak (peak_cur + delta_cur) adj_level s1))))
             else (- EINVAL, s))
          else (0, snd (mmrm_reinstate_throttled_client (set_peak (peak_cur + delta_cur) adj_level s))))"

section \<open>Setting and reading a rate\<close>

definition set_clk_rate :: "mmrm_env \<Rightarrow> nat \<Rightarrow> u64 \<Rightarrow> mmrm_sw_clk_mgr_info \<Rightarrow> int \<times> mmrm_sw_clk_mgr_info" where
  "set_clk_rate env idx clk_val s =
     (let clk = ce_clk (mm_clk_client_tbl s ! idx) in
      (if en_set_rate env clk clk_val \<noteq> 0 then - EINVAL else 0, mm_emit [Ev_Set_Rate clk clk_val] s))"

definition mmrm_sw_clk_client_setval ::
  "mmrm_env \<Rightarrow> mmrm_client option \<Rightarrow> mmrm_client_data option \<Rightarrow> u64 \<Rightarrow> mmrm_sw_clk_mgr_info \<Rightarrow>
     int \<times> mmrm_sw_clk_mgr_info" where
  "mmrm_sw_clk_client_setval env client client_data clk_val s =
     (case client of
        None \<Rightarrow> (- EINVAL, s)
      | Some cl \<Rightarrow>
          if cl_uid cl \<ge> length (mm_clk_client_tbl s) then (- EINVAL, s)
          else
            (case client_data of
               None \<Rightarrow> (- EINVAL, s)
             | Some cd \<Rightarrow>
                 let idx = cl_uid cl; e = mm_clk_client_tbl s ! idx;
                     req_reserve = (cd_flags cd AND en_reserve_only env \<noteq> 0)
                 in
                 if is_err_or_null (ce_clk e) then (- EINVAL, s)
                 else if ce_clk_rate e = clk_val \<and> ce_num_hw_blocks e = cd_num_hw_blocks cd then
                   (if ce_reserve e = req_reserve then (0, s)
                    else
                      let s1 = entry_upd idx (\<lambda>e. e\<lparr>ce_reserve := req_reserve\<rparr>) s in
                      if req_reserve then (0, s1) else set_clk_rate env idx clk_val s1)
                 else
                   let (rc, level) = (if clk_val \<noteq> 0 then mmrm_sw_get_req_level env e clk_val else (0, Some 0)) in
                   if rc \<noteq> 0 then (- EINVAL, s)
                   else if clk_val \<noteq> 0 \<and>
                     \<not> (cd_num_hw_blocks cd \<ge> 1 \<and> cd_num_hw_blocks cd \<le> ce_max_num_hw_blocks e)
                   then (- EINVAL, s)
                   else
                     let req_level = the level;
                         (rc, s1) = mmrm_sw_check_peak_current env idx req_level (ucast clk_val) (cd_num_hw_blocks cd) s
                     in
                     if rc \<noteq> 0 then (rc, s1)
                     else
                       let s2 = entry_upd idx (\<lambda>e. e\<lparr>ce_clk_rate := clk_val, ce_vdd_level := req_level,
                                  ce_reserve := req_reserve, ce_num_hw_blocks := cd_num_hw_blocks cd\<rparr>) s1
                       in if req_reserve then (0, s2) else set_clk_rate env idx clk_val s2))"

text \<open>A \<open>mmrm_client_res_value\<close> is the triple of its minimum, current and maximum.\<close>

definition mmrm_sw_clk_client_setval_inrange ::
  "mmrm_env \<Rightarrow> mmrm_client option \<Rightarrow> mmrm_client_data option \<Rightarrow> u64 \<times> u64 \<times> u64 \<Rightarrow> mmrm_sw_clk_mgr_info \<Rightarrow>
     int \<times> mmrm_sw_clk_mgr_info" where
  "mmrm_sw_clk_client_setval_inrange env client client_data val s =
     mmrm_sw_clk_client_setval env client client_data (fst (snd val)) s"

definition mmrm_sw_clk_client_getval ::
  "mmrm_client option \<Rightarrow> mmrm_sw_clk_mgr_info \<Rightarrow> int \<times> (u64 \<times> u64 \<times> u64) option" where
  "mmrm_sw_clk_client_getval client s =
     (case client of
        None \<Rightarrow> (- EINVAL, None)
      | Some cl \<Rightarrow>
          if cl_uid cl \<ge> length (mm_clk_client_tbl s) then (- EINVAL, None)
          else
            let e = mm_clk_client_tbl s ! cl_uid cl in
            if ce_clk e = Clk_Null then (- EINVAL, None)
            else (0, Some (ce_clk_rate e, ce_clk_rate e, ce_clk_rate e)))"

section \<open>Construction and destruction\<close>

definition zero_entry :: mmrm_sw_clk_client_tbl_entry where
  "zero_entry = \<lparr>ce_name = [], ce_clk = Clk_Null, ce_pri = 0, ce_pvt_data = None, ce_notifier_cb_fn = None,
     ce_clk_src_id = 0, ce_max_num_hw_blocks = 0, ce_freq = (\<lambda>_. 0), ce_dyn_pwr = (\<lambda>_. 0), ce_leak_pwr = (\<lambda>_. 0),
     ce_current_ma = (\<lambda>_ _. 0), ce_client = None, ce_clk_rate = 0, ce_vdd_level = 0, ce_reserve = False,
     ce_ref_count = 0, ce_num_hw_blocks = 0\<rparr>"

definition prepare_entry :: "nom_clk_src_info \<Rightarrow> mmrm_sw_clk_client_tbl_entry \<Rightarrow> mmrm_sw_clk_client_tbl_entry" where
  "prepare_entry nom e = e\<lparr>ce_clk_src_id := (push_bit 16 (no_domain nom) OR no_clk_src_id nom),
     ce_dyn_pwr := (ce_dyn_pwr e)(MMRM_VDD_LEVEL_NOM := no_nom_dyn_pwr nom),
     ce_leak_pwr := (ce_leak_pwr e)(MMRM_VDD_LEVEL_NOM := no_nom_leak_pwr nom),
     ce_max_num_hw_blocks := no_num_hw_block nom\<rparr>"

definition mmrm_sw_prepare_table ::
  "mmrm_clk_platform_resources \<Rightarrow> mmrm_sw_clk_mgr_info \<Rightarrow> int \<times> mmrm_sw_clk_mgr_info" where
  "mmrm_sw_prepare_table cres s =
     (0, s\<lparr>mm_clk_client_tbl := map (\<lambda>(nom, e). prepare_entry nom e) (zip (cr_clk_src_tbl cres) (mm_clk_client_tbl s))\<rparr>)"

text \<open>The outer loop of \<open>mmrm_init_sw_clk_mgr\<close> over the clients that may be throttled; \<open>tbl_entry_id\<close> is a \<open>u16\<close>.\<close>

definition throttle_info ::
  "mmrm_sw_clk_client_tbl_entry list \<Rightarrow> u32 list \<Rightarrow> nat list \<Rightarrow> mmrm_throttle_info list \<Rightarrow> mmrm_throttle_info list" where
  "throttle_info tbl csids =
     fold (\<lambda>i info.
       let j = find_src_id (csids ! i) tbl in
       if j < length tbl then info[i := \<lparr>ti_csid_throttle_client = csids ! i, ti_tbl_entry_id = j mod 2 ^ 16\<rparr>] else info)"

definition mmrm_init_sw_clk_mgr ::
  "bool \<Rightarrow> bool \<Rightarrow> mmrm_clk_platform_resources \<Rightarrow> int \<times> mmrm_sw_clk_mgr_info option" where
  "mmrm_init_sw_clk_mgr mgr_mem tbl_mem cres =
     (if \<not> mgr_mem then (- ENOMEM, None)
      else if \<not> tbl_mem then (- ENOMEM, None)
      else
        let s0 = \<lparr>mm_clk_client_tbl = replicate (length (cr_clk_src_tbl cres)) zero_entry,
                  mm_enabled_clk_clients = 0,
                  mm_throttle_clients_info =
                    replicate MMRM_MAX_THROTTLE_CLIENTS \<lparr>ti_csid_throttle_client = 0, ti_tbl_entry_id = 0\<rparr>,
                  mm_throttle_clients_data_length = 0,
                  mm_peak_cur_data = \<lparr>pk_threshold = 0, pk_aggreg_val = 0, pk_aggreg_level = 0\<rparr>,
                  mm_throttled_clients = [], mm_log = []\<rparr>;
            (rc, s1) = mmrm_sw_prepare_table cres s0
        in
        if rc \<noteq> 0 then (- ENOMEM, None)
        else
          (0, Some (s1\<lparr>mm_peak_cur_data := \<lparr>pk_threshold = cr_threshold cres, pk_aggreg_val = 0, pk_aggreg_level = 0\<rparr>,
                       mm_throttle_clients_data_length := cr_throttle_clients_data_length cres,
                       mm_throttle_clients_info := throttle_info (mm_clk_client_tbl s1) (cr_clsid_threshold_clients cres)
                         [0..<cr_throttle_clients_data_length cres] (mm_throttle_clients_info s1)\<rparr>)))"

text \<open>
  \<open>mmrm_destroy_sw_clk_mgr\<close> walks the list of the manager before it tests the pointer: on NULL
  the walk faults, which is the result \<open>None\<close>.
\<close>

definition mmrm_destroy_sw_clk_mgr :: "mmrm_sw_clk_mgr_info option \<Rightarrow> int option" where
  "mmrm_destroy_sw_clk_mgr mgr = (case mgr of None \<Rightarrow> None | Some s \<Rightarrow> Some 0)"

end
