(* ===== verification/Mmrm_Props.thy ===== *)
theory Mmrm_Props imports Mmrm_Clk begin

text \<open>
  What the clock manager promises: indices stay in range, the aggregated current is the sum over
  the active clients and stays below the threshold, a rejected request changes nothing, an
  accepted rate is the one read back; and where throttling departs from that.
\<close>

section \<open>Small facts\<close>

lemma entry_upd_other [simp]:
  "mm_enabled_clk_clients (entry_upd i f s) = mm_enabled_clk_clients s"
  "mm_throttle_clients_info (entry_upd i f s) = mm_throttle_clients_info s"
  "mm_throttle_clients_data_length (entry_upd i f s) = mm_throttle_clients_data_length s"
  "mm_peak_cur_data (entry_upd i f s) = mm_peak_cur_data s"
  "mm_throttled_clients (entry_upd i f s) = mm_throttled_clients s"
  "mm_log (entry_upd i f s) = mm_log s"
  "mm_clk_client_tbl (entry_upd i f s) = (mm_clk_client_tbl s)[i := f (mm_clk_client_tbl s ! i)]"
  by (simp_all add: entry_upd_def)

lemma mm_emit_other [simp]:
  "mm_enabled_clk_clients (mm_emit es s) = mm_enabled_clk_clients s"
  "mm_throttle_clients_info (mm_emit es s) = mm_throttle_clients_info s"
  "mm_throttle_clients_data_length (mm_emit es s) = mm_throttle_clients_data_length s"
  "mm_peak_cur_data (mm_emit es s) = mm_peak_cur_data s"
  "mm_throttled_clients (mm_emit es s) = mm_throttled_clients s"
  "mm_clk_client_tbl (mm_emit es s) = mm_clk_client_tbl s"
  "mm_log (mm_emit es s) = mm_log s @ es"
  by (simp_all add: mm_emit_def)

lemma set_peak_other [simp]:
  "mm_throttle_clients_info (set_peak v l s) = mm_throttle_clients_info s"
  "mm_throttle_clients_data_length (set_peak v l s) = mm_throttle_clients_data_length s"
  "mm_throttled_clients (set_peak v l s) = mm_throttled_clients s"
  "mm_clk_client_tbl (set_peak v l s) = mm_clk_client_tbl s" "mm_log (set_peak v l s) = mm_log s"
  "mm_enabled_clk_clients (set_peak v l s) = mm_enabled_clk_clients s"
  "mm_peak_cur_data (set_peak v l s) = (mm_peak_cur_data s)\<lparr>pk_aggreg_val := v, pk_aggreg_level := l\<rparr>"
  by (simp_all add: set_peak_def)

lemma reinstate_other [simp]:
  "mm_clk_client_tbl (snd (mmrm_reinstate_throttled_client s)) = mm_clk_client_tbl s"
  "mm_peak_cur_data (snd (mmrm_reinstate_throttled_client s)) = mm_peak_cur_data s"
  "mm_throttle_clients_info (snd (mmrm_reinstate_throttled_client s)) = mm_throttle_clients_info s"
  "mm_throttle_clients_data_length (snd (mmrm_reinstate_throttled_client s)) = mm_throttle_clients_data_length s"
  "mm_enabled_clk_clients (snd (mmrm_reinstate_throttled_client s)) = mm_enabled_clk_clients s"
  by (simp_all add: mmrm_reinstate_throttled_client_def Let_def)

lemma set_clk_rate_other [simp]:
  "mm_clk_client_tbl (snd (set_clk_rate env i v s)) = mm_clk_client_tbl s"
  "mm_peak_cur_data (snd (set_clk_rate env i v s)) = mm_peak_cur_data s"
  "mm_throttled_clients (snd (set_clk_rate env i v s)) = mm_throttled_clients s"
  "mm_throttle_clients_info (snd (set_clk_rate env i v s)) = mm_throttle_clients_info s"
  "mm_throttle_clients_data_length (snd (set_clk_rate env i v s)) = mm_throttle_clients_data_length s"
  "mm_enabled_clk_clients (snd (set_clk_rate env i v s)) = mm_enabled_clk_clients s"
  by (simp_all add: set_clk_rate_def Let_def)

abbreviation aggreg_val :: "mmrm_sw_clk_mgr_info \<Rightarrow> u32" where
  "aggreg_val s \<equiv> pk_aggreg_val (mm_peak_cur_data s)"
abbreviation aggreg_level :: "mmrm_sw_clk_mgr_info \<Rightarrow> nat" where
  "aggreg_level s \<equiv> pk_aggreg_level (mm_peak_cur_data s)"
abbreviation threshold :: "mmrm_sw_clk_mgr_info \<Rightarrow> u32" where
  "threshold s \<equiv> pk_threshold (mm_peak_cur_data s)"

section \<open>Levels\<close>

lemma match_level_le: "match_level corner v \<le> 5"
  by (simp add: match_level_def upt_rec)

lemma get_req_level_range:
  "mmrm_sw_get_req_level env e v = (0, l) \<Longrightarrow> 0 \<le> en_vdd_corner env MMRM_VDD_LEVEL_TURBO \<Longrightarrow> \<exists>n<5. l = Some n"
  using match_level_le [of "en_vdd_corner env"]
  by (auto simp: mmrm_sw_get_req_level_def Let_def split: if_splits) (metis le_neq_implies_less)

lemma check_loop_range:
  "check_loop csid req agg nxt es = (b, Some l) \<Longrightarrow> (\<And>m. nxt = Some m \<Longrightarrow> req < m \<and> m < agg) \<Longrightarrow> req < l \<and> l < agg"
  by (induction es arbitrary: nxt) (auto split: if_splits)

lemma check_req_level_range:
  assumes "mmrm_sw_check_req_level s csid req = (0, adj)" "aggreg_level s < 5"
  shows "req \<le> adj \<and> adj < 5 \<and> (adj = req \<or> adj \<le> aggreg_level s)"
proof (cases "req < aggreg_level s")
  case True
  obtain b nxt where c: "check_loop csid req (aggreg_level s) None (mm_clk_client_tbl s) = (b, nxt)" by fastforce
  have "nxt = Some l \<Longrightarrow> req < l \<and> l < aggreg_level s" for l
    using check_loop_range [of csid req _ None] c by auto
  with assms True c show ?thesis
    by (auto simp: mmrm_sw_check_req_level_def Let_def split: if_splits option.splits)
next
  case False
  with assms show ?thesis by (auto simp: mmrm_sw_check_req_level_def Let_def split: if_splits)
qed

section \<open>The sum of the currents\<close>

definition contrib :: "nat \<Rightarrow> mmrm_sw_clk_client_tbl_entry \<Rightarrow> u32" where
  "contrib lvl e = (if is_err_or_null (ce_clk e) \<or> ce_clk_rate e = 0 then 0
     else ce_current_ma e (ce_vdd_level e) lvl * ce_num_hw_blocks e)"

definition total :: "nat \<Rightarrow> mmrm_sw_clk_client_tbl_entry list \<Rightarrow> u32" where
  "total lvl tbl = sum_list (map (contrib lvl) tbl)"

lemma total_loop_acc: "total_loop lvl skip c es acc = acc + total_loop lvl skip c es 0"
proof (induction es arbitrary: c acc)
  case (Cons e es)
  show ?case
    using Cons.IH [of "Suc c" acc] Cons.IH [of "Suc c" "acc + ce_current_ma e (ce_vdd_level e) lvl * ce_num_hw_blocks e"]
      Cons.IH [of "Suc c" "ce_current_ma e (ce_vdd_level e) lvl * ce_num_hw_blocks e"] by simp
qed simp

lemma total_loop_none: "skip < c \<Longrightarrow> total_loop lvl skip c es 0 = total lvl es"
proof (induction es arbitrary: c)
  case (Cons e es)
  have "total_loop lvl skip (Suc c) es 0 = total lvl es" using Cons.IH [of "Suc c"] Cons.prems by simp
  with Cons.prems show ?case
    by (subst total_loop.simps, subst total_loop_acc) (simp add: contrib_def total_def)
qed (simp add: total_def)

lemma total_loop_upd:
  "idx < length tbl \<Longrightarrow> total lvl (tbl[idx := e']) = total_loop lvl (c + idx) c tbl 0 + contrib lvl e'"
proof (induction tbl arbitrary: idx c)
  case (Cons e es)
  show ?case
  proof (cases idx)
    case 0
    then show ?thesis using total_loop_none [of "c + 0" "Suc c" lvl es] by (simp add: total_def)
  next
    case (Suc i)
    have "total lvl (es[i := e']) = total_loop lvl (Suc c + i) (Suc c) es 0 + contrib lvl e'"
      using Cons.IH [of i "Suc c"] Cons.prems Suc by simp
    with Suc show ?thesis
      by (subst total_loop.simps, subst total_loop_acc) (simp add: contrib_def total_def)
  qed
qed simp

lemma total_upd: "idx < length tbl \<Longrightarrow> total lvl (tbl[idx := e']) = total_loop lvl idx 0 tbl 0 + contrib lvl e'"
  using total_loop_upd [of idx tbl lvl e' 0] by simp

lemma total_split: "idx < length tbl \<Longrightarrow> total lvl tbl = total_loop lvl idx 0 tbl 0 + contrib lvl (tbl ! idx)"
  using total_upd [of idx tbl lvl "tbl ! idx"] by simp

text \<open>
  \<open>cap B s\<close>: no client exceeds \<open>B\<close> mA at any pair of levels with its largest number of hardware
  blocks, and the clients together stay below the range of a signed 32-bit sum.
\<close>

definition cap :: "nat \<Rightarrow> mmrm_sw_clk_mgr_info \<Rightarrow> bool" where
  "cap B s \<longleftrightarrow> length (mm_clk_client_tbl s) * B < 2 ^ 31 \<and>
     (\<forall>e \<in> set (mm_clk_client_tbl s). \<forall>i < 5. \<forall>j < 5.
        unat (ce_current_ma e i j) * unat (ce_max_num_hw_blocks e) \<le> B)"

definition entry_ok :: "mmrm_sw_clk_client_tbl_entry \<Rightarrow> bool" where
  "entry_ok e \<longleftrightarrow> ce_vdd_level e < 5 \<and> (ce_clk_rate e \<noteq> 0 \<longrightarrow> ce_num_hw_blocks e \<le> ce_max_num_hw_blocks e)"

definition ncontrib :: "nat \<Rightarrow> mmrm_sw_clk_client_tbl_entry \<Rightarrow> nat" where
  "ncontrib lvl e = (if is_err_or_null (ce_clk e) \<or> ce_clk_rate e = 0 then 0
     else unat (ce_current_ma e (ce_vdd_level e) lvl) * unat (ce_num_hw_blocks e))"

lemma contrib_small:
  assumes "entry_ok e" "\<forall>i<5. unat (ce_current_ma e i lvl) * unat (ce_max_num_hw_blocks e) \<le> B" "B < 2 ^ 31"
  shows "unat (contrib lvl e) = ncontrib lvl e \<and> ncontrib lvl e \<le> B"
proof (cases "is_err_or_null (ce_clk e) \<or> ce_clk_rate e = 0")
  case False
  let ?c = "unat (ce_current_ma e (ce_vdd_level e) lvl)"
  have "unat (ce_num_hw_blocks e) \<le> unat (ce_max_num_hw_blocks e)" "ce_vdd_level e < 5"
    using assms(1) False by (simp_all add: entry_ok_def word_le_nat_alt)
  then have b: "?c * unat (ce_num_hw_blocks e) \<le> B"
    using assms(2) mult_le_mono2 le_trans by blast
  then have "unat (ce_current_ma e (ce_vdd_level e) lvl * ce_num_hw_blocks e) = ?c * unat (ce_num_hw_blocks e)"
    using assms(3) by (simp add: unat_word_ariths)
  with False b show ?thesis by (simp add: contrib_def ncontrib_def)
qed (auto simp: contrib_def ncontrib_def)

lemma total_small:
  assumes "\<forall>e \<in> set tbl. entry_ok e" "\<forall>e \<in> set tbl. \<forall>i<5. unat (ce_current_ma e i lvl) * unat (ce_max_num_hw_blocks e) \<le> B"
    and "length tbl * B < 2 ^ 31"
  shows "unat (total lvl tbl) = sum_list (map (ncontrib lvl) tbl) \<and> unat (total lvl tbl) \<le> length tbl * B"
  using assms
proof (induction tbl)
  case (Cons e es)
  have ih: "unat (total lvl es) = sum_list (map (ncontrib lvl) es)" "unat (total lvl es) \<le> length es * B"
    using Cons by simp_all
  have "B < 2 ^ 31" using Cons.prems(3) by simp
  then have c: "unat (contrib lvl e) = ncontrib lvl e" "ncontrib lvl e \<le> B" using contrib_small [of e lvl B] Cons.prems by simp_all
  have "unat (contrib lvl e) + unat (total lvl es) < 2 ^ 32" using ih(2) c Cons.prems(3) by simp
  then have "unat (contrib lvl e + total lvl es) = unat (contrib lvl e) + unat (total lvl es)"
    by (simp add: unat_word_ariths)
  with ih c show ?case by (simp add: total_def)
qed (simp add: total_def)

section \<open>Admission\<close>

text \<open>The account is exact: the aggregated value is the sum over the active clients.\<close>

definition account :: "mmrm_sw_clk_mgr_info \<Rightarrow> bool" where
  "account s \<longleftrightarrow> aggreg_val s = total (aggreg_level s) (mm_clk_client_tbl s) \<and> aggreg_level s < 5 \<and>
     (\<forall>e \<in> set (mm_clk_client_tbl s). entry_ok e)"

lemma sint_small: "unat (w :: u32) < 2 ^ 31 \<Longrightarrow> sint w = int (unat w)"
proof -
  assume "unat w < 2 ^ 31"
  then have "int (unat w) < int (2 ^ 31)" by (simp only: of_nat_less_iff)
  then have b: "uint w < 2 ^ 31" by simp
  have "0 \<le> uint w" by simp
  with b have "signed_take_bit 31 (uint w) = uint w" by (intro signed_take_bit_int_eq_self) linarith+
  moreover have "sint w = signed_take_bit 31 (uint w)" by (simp add: sint_uint)
  ultimately show ?thesis by simp
qed

text \<open>
  The row of a client once a request is admitted, and what the request adds to the account when the
  aggregated level stays (the code's \<open>delta_cur\<close>; 0 when the sum is taken anew at another level).
\<close>

definition requested :: "mmrm_sw_clk_client_tbl_entry \<Rightarrow> nat \<Rightarrow> u64 \<Rightarrow> u32 \<Rightarrow> bool \<Rightarrow> mmrm_sw_clk_client_tbl_entry" where
  "requested e req w nb r = e\<lparr>ce_clk_rate := w, ce_vdd_level := req, ce_reserve := r, ce_num_hw_blocks := nb\<rparr>"

definition level_after :: "mmrm_sw_clk_mgr_info \<Rightarrow> nat \<Rightarrow> nat \<Rightarrow> nat" where
  "level_after s idx req = snd (mmrm_sw_check_req_level s (ce_clk_src_id (mm_clk_client_tbl s ! idx)) req)"

definition delta_after :: "mmrm_sw_clk_mgr_info \<Rightarrow> nat \<Rightarrow> nat \<Rightarrow> u32 \<Rightarrow> u32 \<Rightarrow> u32" where
  "delta_after s idx req v nb =
     (let e = mm_clk_client_tbl s ! idx; l = aggreg_level s in
      if level_after s idx req = l
      then (if v \<noteq> 0 then ce_current_ma e req l * nb else 0) -
           (if ce_clk_rate e \<noteq> 0 then ce_current_ma e (ce_vdd_level e) l * ce_num_hw_blocks e else 0)
      else 0)"

text \<open>The figure the check compares with the threshold is the sum after the change.\<close>

lemma check_peak_figure:
  assumes idx: "idx < length (mm_clk_client_tbl s)" and clk: "\<not> is_err_or_null (ce_clk (mm_clk_client_tbl s ! idx))"
    and acc: "account s" and cap: "cap B s" and req: "req < 5"
    and w: "w = 0 \<longleftrightarrow> v = 0" and nb: "w \<noteq> 0 \<Longrightarrow> nb \<le> ce_max_num_hw_blocks (mm_clk_client_tbl s ! idx)"
    and tbl: "tbl = (mm_clk_client_tbl s)[idx := requested (mm_clk_client_tbl s ! idx) req w nb r]"
    and adj: "adj = level_after s idx req"
  shows "mmrm_sw_check_peak_current env idx req v nb s =
      (if total adj tbl = 0 then (0, set_peak 0 adj s)
       else if total adj tbl \<ge> threshold s
       then if ce_pri (mm_clk_client_tbl s ! idx) = en_prior_high env \<and> en_throttle env > 0
         then let (rc, d, s1) = mmrm_sw_throttle_low_priority_client env (delta_after s idx req v nb) s in
              if rc \<noteq> 0 then (rc, s1)
              else (0, snd (mmrm_reinstate_throttled_client
                (set_peak (total adj tbl - delta_after s idx req v nb + d) adj s1)))
         else (- EINVAL, s)
       else (0, snd (mmrm_reinstate_throttled_client (set_peak (total adj tbl) adj s))))" (is ?peak)
    and "adj < 5" and "\<forall>e \<in> set tbl. entry_ok e"
    and "unat (total adj tbl) = sum_list (map (ncontrib adj) tbl)"
proof -
  let ?t = "mm_clk_client_tbl s"
  let ?e = "?t ! idx"
  obtain rc0 where c: "mmrm_sw_check_req_level s (ce_clk_src_id ?e) req = (rc0, adj)"
    using adj by (metis level_after_def prod.collapse)
  have rc0: "rc0 = 0" using c req by (auto simp: mmrm_sw_check_req_level_def Let_def split: if_splits prod.splits)
  have lvl: "aggreg_level s < 5" using acc by (simp add: account_def)
  show adj5: "adj < 5" using check_req_level_range [OF c [unfolded rc0] lvl] by simp
  let ?new = "if v \<noteq> 0 then ce_current_ma ?e req adj * nb else 0"
  let ?old = "if ce_clk_rate ?e \<noteq> 0 then ce_current_ma ?e (ce_vdd_level ?e) (aggreg_level s) * ce_num_hw_blocks ?e else 0"
  have new: "contrib adj (requested ?e req w nb r) = ?new" using clk w by (simp add: contrib_def requested_def)
  have old: "contrib (aggreg_level s) ?e = ?old" using clk by (simp add: contrib_def)
  define pd where "pd = (if adj \<noteq> aggreg_level s then (total_loop adj idx 0 ?t 0 + ?new, 0) else (aggreg_val s, ?new - ?old))"
  have pd: "fst pd + snd pd = total adj tbl"
    using total_upd [OF idx, of adj] total_split [OF idx, of "aggreg_level s"] acc
    by (simp add: pd_def new old account_def tbl)
  have delta: "snd pd = delta_after s idx req v nb"
    unfolding pd_def delta_after_def Let_def adj by simp
  show ok: "\<forall>e \<in> set tbl. entry_ok e"
    using acc req nb w by (auto simp: account_def entry_ok_def requested_def tbl dest!: set_update_subset_insert [THEN subsetD])
  have curs: "\<forall>e \<in> set tbl. \<forall>i<5. unat (ce_current_ma e i adj) * unat (ce_max_num_hw_blocks e) \<le> B"
    using cap adj5 idx by (auto simp: cap_def requested_def tbl dest!: set_update_subset_insert [THEN subsetD])
  have len: "length tbl * B < 2 ^ 31" using cap by (simp add: cap_def tbl)
  show "unat (total adj tbl) = sum_list (map (ncontrib adj) tbl)" using total_small [OF ok curs len] by simp
  from total_small [OF ok curs len] len have "unat (total adj tbl) < 2 ^ 31" by linarith
  then have pos: "sint (total adj tbl) \<le> 0 \<longleftrightarrow> total adj tbl = 0" by (simp add: sint_small unsigned_eq_0_iff)
  have tot: "mmrm_sw_calculate_total_current s adj idx = (0, Some (total_loop adj idx 0 ?t 0))"
    using adj5 by (simp add: mmrm_sw_calculate_total_current_def)
  have peak: "fst pd = total adj tbl - snd pd" using pd by (metis add_diff_cancel_right')
  have "mmrm_sw_check_peak_current env idx req v nb s =
       (let (peak_cur, delta_cur) = pd in
          if sint (peak_cur + delta_cur) \<le> 0 then (0, set_peak 0 adj s)
          else if peak_cur + delta_cur \<ge> threshold s then
            (if ce_pri ?e = en_prior_high env \<and> en_throttle env > 0
             then let (rc, d, s1) = mmrm_sw_throttle_low_priority_client env delta_cur s in
                  if rc \<noteq> 0 then (rc, s1)
                  else (0, snd (mmrm_reinstate_throttled_client (set_peak (peak_cur + d) adj s1)))
             else (- EINVAL, s))
          else (0, snd (mmrm_reinstate_throttled_client (set_peak (peak_cur + delta_cur) adj s))))"
    by (simp add: mmrm_sw_check_peak_current_def Let_def c rc0 tot pd_def)
  then show ?peak using pd peak by (simp add: delta [symmetric] case_prod_beta pos)
qed

lemma check_peak_off:
  assumes off: "en_throttle env = 0" and chk: "mmrm_sw_check_peak_current env idx req v nb s = (rc, s1)"
    and idx: "idx < length (mm_clk_client_tbl s)" and clk: "\<not> is_err_or_null (ce_clk (mm_clk_client_tbl s ! idx))"
    and acc: "account s" and cap: "cap B s" and req: "req < 5"
    and e': "e' = (mm_clk_client_tbl s ! idx)\<lparr>ce_clk_rate := w, ce_vdd_level := req, ce_reserve := r, ce_num_hw_blocks := nb\<rparr>"
    and w: "w = 0 \<longleftrightarrow> v = 0" and nb: "w \<noteq> 0 \<Longrightarrow> nb \<le> ce_max_num_hw_blocks (mm_clk_client_tbl s ! idx)"
  shows "rc \<noteq> 0 \<and> s1 = s \<or>
    rc = 0 \<and> mm_clk_client_tbl s1 = mm_clk_client_tbl s \<and> threshold s1 = threshold s \<and>
      account (entry_upd idx (\<lambda>_. e') s1) \<and> (aggreg_val s1 = 0 \<or> aggreg_val s1 < threshold s1)"
proof -
  let ?tbl = "(mm_clk_client_tbl s)[idx := e']"
  let ?adj = "level_after s idx req"
  have tbl: "?tbl = (mm_clk_client_tbl s)[idx := requested (mm_clk_client_tbl s ! idx) req w nb r]"
    by (simp add: e' requested_def)
  note fig = check_peak_figure [OF idx clk acc cap req w nb tbl refl]
  have "mmrm_sw_check_peak_current env idx req v nb s = (if total ?adj ?tbl = 0 then (0, set_peak 0 ?adj s)
      else if total ?adj ?tbl \<ge> threshold s then (- EINVAL, s)
      else (0, snd (mmrm_reinstate_throttled_client (set_peak (total ?adj ?tbl) ?adj s))))"
    by (simp only: fig(1) off less_irrefl simp_thms if_False)
  with chk have "rc = 0 \<and> s1 = set_peak 0 ?adj s \<and> total ?adj ?tbl = 0 \<or> rc = - EINVAL \<and> s1 = s \<or>
      rc = 0 \<and> s1 = snd (mmrm_reinstate_throttled_client (set_peak (total ?adj ?tbl) ?adj s)) \<and>
        total ?adj ?tbl < threshold s"
    by (simp split: if_splits)
  then show ?thesis
    using fig(2,3) by (elim disjE conjE) (simp_all add: account_def)
qed

text \<open>What a request that sets a rate changes.\<close>

lemma clk_fixed [simp]:
  "ce_clk (e\<lparr>ce_reserve := r\<rparr>) = ce_clk e" "contrib lvl (e\<lparr>ce_reserve := r\<rparr>) = contrib lvl e"
  "entry_ok (e\<lparr>ce_reserve := r\<rparr>) = entry_ok e"
  by (simp_all add: contrib_def entry_ok_def)

lemma reserve_account:
  assumes "account s" "idx < length (mm_clk_client_tbl s)"
  shows "account (entry_upd idx (\<lambda>e. e\<lparr>ce_reserve := r\<rparr>) s)"
proof -
  let ?t = "mm_clk_client_tbl s"
  have "total lvl (?t[idx := (?t ! idx)\<lparr>ce_reserve := r\<rparr>]) = total lvl ?t" for lvl
    using total_upd [OF assms(2)] total_split [OF assms(2)] by simp
  moreover have "\<forall>e \<in> set (?t[idx := (?t ! idx)\<lparr>ce_reserve := r\<rparr>]). entry_ok e"
    using assms by (auto simp: account_def dest!: set_update_subset_insert [THEN subsetD])
  ultimately show ?thesis using assms(1) by (simp add: account_def)
qed

lemma account_cong:
  "mm_clk_client_tbl s' = mm_clk_client_tbl s \<Longrightarrow> mm_peak_cur_data s' = mm_peak_cur_data s \<Longrightarrow> account s' = account s"
  by (simp add: account_def)

text \<open>Fields of an entry no rate request changes.\<close>

definition same_client :: "mmrm_sw_clk_client_tbl_entry \<Rightarrow> mmrm_sw_clk_client_tbl_entry \<Rightarrow> bool" where
  "same_client e e' \<longleftrightarrow> ce_current_ma e' = ce_current_ma e \<and> ce_max_num_hw_blocks e' = ce_max_num_hw_blocks e \<and>
     ce_clk e' = ce_clk e \<and> ce_clk_src_id e' = ce_clk_src_id e \<and> ce_client e' = ce_client e \<and>
     ce_freq e' = ce_freq e \<and> ce_pri e' = ce_pri e"

definition same_clients :: "mmrm_sw_clk_mgr_info \<Rightarrow> mmrm_sw_clk_mgr_info \<Rightarrow> bool" where
  "same_clients s s' \<longleftrightarrow> list_all2 same_client (mm_clk_client_tbl s) (mm_clk_client_tbl s') \<and> threshold s' = threshold s"

lemma same_client_refl [simp]: "same_client e e"
  by (simp add: same_client_def)

lemma same_clients_refl [simp]: "same_clients s s"
  by (simp add: same_clients_def list_all2_refl)

lemma same_clients_trans: "same_clients s s1 \<Longrightarrow> same_clients s1 s2 \<Longrightarrow> same_clients s s2"
  by (auto simp: same_clients_def list_all2_conv_all_nth same_client_def)

lemma same_clients_upd:
  "idx < length (mm_clk_client_tbl s) \<Longrightarrow> same_client (mm_clk_client_tbl s ! idx) (f (mm_clk_client_tbl s ! idx)) \<Longrightarrow>
   same_clients s (entry_upd idx f s)"
  by (auto simp: same_clients_def list_all2_conv_all_nth nth_list_update)

lemma cap_cong: "same_clients s s' \<Longrightarrow> cap B s \<Longrightarrow> cap B s'"
  by (fastforce simp: cap_def same_clients_def list_all2_conv_all_nth in_set_conv_nth same_client_def)

lemma same_clients_cong:
  "mm_clk_client_tbl s1 = mm_clk_client_tbl s2 \<Longrightarrow> threshold s1 = threshold s2 \<Longrightarrow> same_clients s s1 = same_clients s s2"
  by (simp add: same_clients_def)

definition below_threshold :: "mmrm_sw_clk_mgr_info \<Rightarrow> bool" where
  "below_threshold s \<longleftrightarrow> aggreg_val s = 0 \<or> aggreg_val s < threshold s"

text \<open>The environment relates the levels to regulator corners as the headers do.\<close>

definition corners_ok :: "mmrm_env \<Rightarrow> bool" where
  "corners_ok env \<longleftrightarrow> 0 \<le> en_vdd_corner env MMRM_VDD_LEVEL_TURBO"

text \<open>The outcomes of a rate request, with the checks passed on each.\<close>

lemma setval_cases:
  assumes corners: "corners_ok env" and set: "mmrm_sw_clk_client_setval env client cd clk_val s = (rc, s')"
  obtains (refused) "rc = - EINVAL" "s' = s"
  | (kept) cl where "client = Some cl" "cl_uid cl < length (mm_clk_client_tbl s)"
      "ce_clk_rate (mm_clk_client_tbl s ! cl_uid cl) = clk_val"
      "\<not> is_err_or_null (ce_clk (mm_clk_client_tbl s ! cl_uid cl))" "rc = 0" "s' = s"
  | (reserved) cl r where "client = Some cl" "cl_uid cl < length (mm_clk_client_tbl s)"
      "ce_clk_rate (mm_clk_client_tbl s ! cl_uid cl) = clk_val"
      "\<not> is_err_or_null (ce_clk (mm_clk_client_tbl s ! cl_uid cl))"
      "(rc, s') = (let s1 = entry_upd (cl_uid cl) (\<lambda>e. e\<lparr>ce_reserve := r\<rparr>) s
                   in if r then (0, s1) else set_clk_rate env (cl_uid cl) clk_val s1)"
  | (overshoot) cl l nb where "client = Some cl" "rc \<noteq> 0"
      "mmrm_sw_check_peak_current env (cl_uid cl) l (ucast clk_val) nb s = (rc, s')"
      "cl_uid cl < length (mm_clk_client_tbl s)" "l < 5"
      "\<not> is_err_or_null (ce_clk (mm_clk_client_tbl s ! cl_uid cl))"
      "clk_val \<noteq> 0 \<Longrightarrow> nb \<le> ce_max_num_hw_blocks (mm_clk_client_tbl s ! cl_uid cl)"
  | (admitted) cl l nb r s1 where "client = Some cl" "cl_uid cl < length (mm_clk_client_tbl s)" "l < 5"
      "\<not> is_err_or_null (ce_clk (mm_clk_client_tbl s ! cl_uid cl))"
      "clk_val \<noteq> 0 \<Longrightarrow> nb \<le> ce_max_num_hw_blocks (mm_clk_client_tbl s ! cl_uid cl)"
      "mmrm_sw_check_peak_current env (cl_uid cl) l (ucast clk_val) nb s = (0, s1)"
      "(rc, s') = (let s2 = entry_upd (cl_uid cl) (\<lambda>e. e\<lparr>ce_clk_rate := clk_val, ce_vdd_level := l,
                                   ce_reserve := r, ce_num_hw_blocks := nb\<rparr>) s1
                   in if r then (0, s2) else set_clk_rate env (cl_uid cl) clk_val s2)"
proof (cases "\<exists>cl d. client = Some cl \<and> cd = Some d \<and> cl_uid cl < length (mm_clk_client_tbl s) \<and>
    \<not> is_err_or_null (ce_clk (mm_clk_client_tbl s ! cl_uid cl))")
  case False
  with set have "rc = - EINVAL" "s' = s"
    by (auto simp: mmrm_sw_clk_client_setval_def Let_def split: option.splits if_splits)
  then show thesis by (rule refused)
next
  case True
  then obtain cl d where cl: "client = Some cl" "cd = Some d" and idx: "cl_uid cl < length (mm_clk_client_tbl s)"
    and clk: "\<not> is_err_or_null (ce_clk (mm_clk_client_tbl s ! cl_uid cl))" by blast
  let ?i = "cl_uid cl"
  let ?e = "mm_clk_client_tbl s ! ?i"
  let ?nb = "cd_num_hw_blocks d"
  let ?r = "cd_flags d AND en_reserve_only env \<noteq> 0"
  define level where "level = (if clk_val \<noteq> 0 then mmrm_sw_get_req_level env ?e clk_val else (0, Some 0))"
  show thesis
  proof (cases "ce_clk_rate ?e = clk_val \<and> ce_num_hw_blocks ?e = ?nb")
    case True
    with set clk idx cl have "(rc, s') = (if ce_reserve ?e = ?r then (0, s)
        else let s1 = entry_upd ?i (\<lambda>e. e\<lparr>ce_reserve := ?r\<rparr>) s in if ?r then (0, s1) else set_clk_rate env ?i clk_val s1)"
      by (simp add: mmrm_sw_clk_client_setval_def Let_def)
    with True show thesis using kept [OF cl(1) idx _ clk] reserved [OF cl(1) idx _ clk, of ?r] by (simp split: if_splits)
  next
    case new: False
    show thesis
    proof (cases "fst level = 0 \<and> (clk_val \<noteq> 0 \<longrightarrow> ?nb \<ge> 1 \<and> ?nb \<le> ce_max_num_hw_blocks ?e)")
      case False
      with set new clk idx cl show thesis
        by (intro refused) (auto simp: mmrm_sw_clk_client_setval_def Let_def level_def split: if_splits prod.splits)
    next
      case ok: True
      obtain l where l: "level = (0, Some l)" "l < 5"
      proof (cases "clk_val = 0")
        case False
        with ok have "fst (mmrm_sw_get_req_level env ?e clk_val) = 0" by (simp add: level_def)
        with get_req_level_range [of env ?e clk_val "snd (mmrm_sw_get_req_level env ?e clk_val)"] corners False
        show thesis using that by (auto simp: level_def corners_ok_def) (metis prod.collapse)
      qed (use that in \<open>simp add: level_def\<close>)
      have nb: "clk_val \<noteq> 0 \<Longrightarrow> ?nb \<le> ce_max_num_hw_blocks ?e" using ok by simp
      obtain rc1 s1 where chk: "mmrm_sw_check_peak_current env ?i l (ucast clk_val) ?nb s = (rc1, s1)" by fastforce
      have fin: "(rc, s') = (if rc1 \<noteq> 0 then (rc1, s1)
          else let s2 = entry_upd ?i (\<lambda>e. e\<lparr>ce_clk_rate := clk_val, ce_vdd_level := l, ce_reserve := ?r,
                           ce_num_hw_blocks := ?nb\<rparr>) s1
               in if ?r then (0, s2) else set_clk_rate env ?i clk_val s2)"
      proof -
        have "\<not> (clk_val \<noteq> 0 \<and> \<not> (?nb \<ge> 1 \<and> ?nb \<le> ce_max_num_hw_blocks ?e))" using ok by blast
        then show ?thesis
          using set new clk idx unfolding cl mmrm_sw_clk_client_setval_def Let_def option.case
            level_def [symmetric] l(1) prod.case option.sel chk
          by (simp only: if_False simp_thms not_le if_cancel if_not_P split: if_split)
      qed
      show thesis
      proof (cases "rc1 = 0")
        case False
        with fin chk show thesis by (intro overshoot [OF cl(1) _ _ idx l(2) clk nb]) auto
      next
        case True
        with fin chk show thesis by (intro admitted [OF cl(1) idx l(2) clk nb]) auto
      qed
    qed
  qed
qed

lemma set_or_not:
  assumes "(rc, s') = (if r then (0, t) else set_clk_rate env i v t)"
  shows "mm_clk_client_tbl s' = mm_clk_client_tbl t" "mm_peak_cur_data s' = mm_peak_cur_data t"
    "mm_throttled_clients s' = mm_throttled_clients t" "mm_throttle_clients_info s' = mm_throttle_clients_info t"
    "mm_throttle_clients_data_length s' = mm_throttle_clients_data_length t"
proof -
  have "s' = t \<or> s' = snd (set_clk_rate env i v t)" using assms by (cases r) (auto, metis snd_conv)
  then show "mm_clk_client_tbl s' = mm_clk_client_tbl t" "mm_peak_cur_data s' = mm_peak_cur_data t"
    "mm_throttled_clients s' = mm_throttled_clients t" "mm_throttle_clients_info s' = mm_throttle_clients_info t"
    "mm_throttle_clients_data_length s' = mm_throttle_clients_data_length t" by auto
qed

lemma ucast_zero_iff: "unat (v :: u64) < 2 ^ 32 \<Longrightarrow> v = 0 \<longleftrightarrow> (ucast v :: u32) = 0"
proof -
  assume "unat v < 2 ^ 32"
  then have "unat (ucast v :: u32) = unat v" by (simp add: unsigned_ucast_eq take_bit_nat_eq_self)
  then show ?thesis by (metis unsigned_0 unsigned_eq_0_iff)
qed

lemma setval_account:
  assumes off: "en_throttle env = 0" and corners: "corners_ok env" and v: "unat clk_val < 2 ^ 32"
    and acc: "account s" and cap: "cap B s" and below: "below_threshold s"
    and set: "mmrm_sw_clk_client_setval env client cd clk_val s = (rc, s')"
  shows "account s' \<and> same_clients s s' \<and> below_threshold s'"
  using corners set
proof (cases rule: setval_cases)
  case (reserved cl r)
  let ?s1 = "entry_upd (cl_uid cl) (\<lambda>e. e\<lparr>ce_reserve := r\<rparr>) s"
  note same = set_or_not [OF reserved(5) [unfolded Let_def]]
  have "same_clients s ?s1" by (rule same_clients_upd [OF reserved(2)]) (simp add: same_client_def)
  with same reserve_account [OF acc reserved(2), of r] below account_cong [OF same(1,2)] show ?thesis
    by (simp add: same_clients_def below_threshold_def)
next
  case (overshoot cl l nb)
  with check_peak_off [OF off overshoot(3,4,6) acc cap overshoot(5) refl ucast_zero_iff [OF v]] acc below
  show ?thesis by auto
next
  case (admitted cl l nb r s1)
  let ?f = "\<lambda>e. e\<lparr>ce_clk_rate := clk_val, ce_vdd_level := l, ce_reserve := r, ce_num_hw_blocks := nb\<rparr>"
  note same = set_or_not [OF admitted(7) [unfolded Let_def]]
  have c: "mm_clk_client_tbl s1 = mm_clk_client_tbl s" "threshold s1 = threshold s"
    "account (entry_upd (cl_uid cl) (\<lambda>_. ?f (mm_clk_client_tbl s ! cl_uid cl)) s1)"
    "aggreg_val s1 = 0 \<or> aggreg_val s1 < threshold s"
    using check_peak_off [OF off admitted(6,2,4) acc cap admitted(3) refl ucast_zero_iff [OF v], of r] admitted(5)
    by auto
  have "same_clients s (entry_upd (cl_uid cl) ?f s1)"
    using c(1,2) admitted(2) by (auto simp: same_clients_def list_all2_conv_all_nth nth_list_update same_client_def)
  with c same show ?thesis
    by (simp add: account_def same_clients_def below_threshold_def entry_upd_def)
qed (use acc below in simp_all)

section \<open>Properties: admission\<close>

type_synonym rate_request = "mmrm_client option \<times> mmrm_client_data option \<times> u64"

definition set_all :: "mmrm_env \<Rightarrow> rate_request list \<Rightarrow> mmrm_sw_clk_mgr_info \<Rightarrow> mmrm_sw_clk_mgr_info" where
  "set_all env reqs s = fold (\<lambda>(client, cd, v) s. snd (mmrm_sw_clk_client_setval env client cd v s)) reqs s"

lemma set_all_account:
  assumes "en_throttle env = 0" "corners_ok env" "account s" "cap B s" "below_threshold s"
    and "\<forall>r \<in> set reqs. unat (snd (snd r)) < 2 ^ 32"
  shows "account (set_all env reqs s) \<and> same_clients s (set_all env reqs s) \<and> below_threshold (set_all env reqs s)"
  using assms(3-6)
proof (induction reqs arbitrary: s)
  case (Cons r reqs)
  obtain c d v where r: "r = (c, d, v)" using prod_cases3 by blast
  obtain rc s1 where s1: "mmrm_sw_clk_client_setval env c d v s = (rc, s1)" by fastforce
  have "unat v < 2 ^ 32" using Cons.prems(4) by (simp add: r)
  from setval_account [OF assms(1,2) this Cons.prems(1-3) s1]
  have k: "account s1" "same_clients s s1" "below_threshold s1" by simp_all
  from Cons.IH [OF k(1) cap_cong [OF k(2) Cons.prems(2)] k(3)] Cons.prems(4) same_clients_trans [OF k(2)]
  show ?case by (simp add: set_all_def r s1)
qed (simp add: set_all_def)

text \<open>A small platform: two registered clients that take 50 mA, and 100 mA from the nominal level on.\<close>

definition demo_env :: mmrm_env where
  "demo_env = \<lparr>en_vdd_corner = (\<lambda>l. 64 * int (Suc l)), en_clock = 1, en_prior_high = 1, en_reserve_only = 1, en_name_size = 16,
     en_round_rate = (\<lambda>_ r. if r = - 1 then 3000000 else if r \<le> 1000000 then 1000000 else uint r),
     en_get_voltage = (\<lambda>_ r. if r \<le> 1000000 then 64 else 256), en_set_rate = (\<lambda>_ _. 0),
     en_notify = (\<lambda>_ _ _ _. 0), en_mem = True, en_tc_mem = True, en_throttle = 0, en_multiple = 0\<rparr>"

definition demo_entry :: "u32 \<Rightarrow> mmrm_sw_clk_client_tbl_entry" where
  "demo_entry csid = zero_entry\<lparr>ce_clk := Clk 3, ce_clk_src_id := csid, ce_max_num_hw_blocks := 2, ce_pri := 1,
     ce_freq := (\<lambda>l. if l < 3 then 1000000 else 2000000), ce_current_ma := (\<lambda>i j. if i < 3 then 50 else 100)\<rparr>"

definition demo_mgr :: mmrm_sw_clk_mgr_info where
  "demo_mgr = \<lparr>mm_clk_client_tbl = [demo_entry 0x10007, demo_entry 0x10008], mm_enabled_clk_clients = 0,
     mm_throttle_clients_info = replicate 5 \<lparr>ti_csid_throttle_client = 0, ti_tbl_entry_id = 0\<rparr>,
     mm_throttle_clients_data_length = 0,
     mm_peak_cur_data = \<lparr>pk_threshold = 150, pk_aggreg_val = 0, pk_aggreg_level = 0\<rparr>,
     mm_throttled_clients = [], mm_log = []\<rparr>"

definition demo_set :: "nat \<Rightarrow> u64 \<Rightarrow> rate_request" where
  "demo_set uid v = (Some \<lparr>cl_type = 1, cl_uid = uid\<rparr>, Some \<lparr>cd_num_hw_blocks = 1, cd_flags = 0\<rparr>, v)"

lemma demo_ok: "account demo_mgr" "below_threshold demo_mgr" "cap 200 demo_mgr"
  by (simp_all add: account_def below_threshold_def cap_def demo_mgr_def demo_entry_def zero_entry_def total_def
      contrib_def entry_ok_def)

text \<open>C33: with throttling switched off, a manager whose account is exact and below the threshold keeps
  it so through any rate requests of any clients, accepted or not: the aggregated value is the sum of
  the currents of the active clients at the aggregated level, and it is 0 or below the threshold
  of the platform. The requests ask for rates below \<open>2 ^ 32\<close> (the check takes the rate as a \<open>u32\<close>, so
  a multiple of \<open>2 ^ 32\<close> is checked as 0), no client can draw more than \<open>B\<close> mA, the clients together draw
  less than \<open>2 ^ 31\<close> mA (\<open>cap\<close>), and the highest corner of the regulator is not negative.\<close>

theorem admission_control:
  assumes "en_throttle env = 0" "corners_ok env" and "account s" "cap B s" "below_threshold s"
    and "\<forall>r \<in> set reqs. unat (snd (snd r)) < 2 ^ 32"
  shows "let s' = set_all env reqs s in
    unat (aggreg_val s') = sum_list (map (ncontrib (aggreg_level s')) (mm_clk_client_tbl s')) \<and>
    aggreg_level s' < MMRM_VDD_LEVEL_MAX \<and> (aggreg_val s' = 0 \<or> aggreg_val s' < threshold s)"
proof -
  let ?s = "set_all env reqs s"
  have k: "account ?s" "same_clients s ?s" "below_threshold ?s" using set_all_account [OF assms] by simp_all
  then have c: "cap B ?s" using cap_cong assms(4) by blast
  have l: "aggreg_level ?s < 5" using k(1) by (simp add: account_def)
  have "unat (total (aggreg_level ?s) (mm_clk_client_tbl ?s)) = sum_list (map (ncontrib (aggreg_level ?s)) (mm_clk_client_tbl ?s))"
    using total_small [of "mm_clk_client_tbl ?s" "aggreg_level ?s" B] k(1) c l by (simp add: account_def cap_def)
  with k l show ?thesis by (simp add: Let_def account_def below_threshold_def same_clients_def)
qed

theorem admission_control_witness:
  "let s = set_all demo_env [demo_set 0 2000000, demo_set 1 2000000] demo_mgr in
   aggreg_val s = 100 \<and> unat (aggreg_val s) = sum_list (map (ncontrib (aggreg_level s)) (mm_clk_client_tbl s))"
proof -
  let ?r = "[demo_set 0 2000000, demo_set 1 2000000]"
  have "en_throttle demo_env = 0" "corners_ok demo_env" by (simp_all add: demo_env_def corners_ok_def)
  moreover note demo_ok
  moreover have "\<forall>r \<in> set ?r. unat (snd (snd r)) < 2 ^ 32" by (simp add: demo_set_def)
  moreover have "aggreg_val (set_all demo_env ?r demo_mgr) = 100" by code_simp
  ultimately show ?thesis using admission_control [of demo_env demo_mgr 200 ?r] by (simp add: Let_def)
qed

section \<open>Properties: rejection, reading back\<close>

lemma throttle_cases:
  assumes "mmrm_sw_throttle_low_priority_client env d s = (rc, d', s1)"
  obtains (failed) "rc \<noteq> 0" "mm_clk_client_tbl s1 = mm_clk_client_tbl s" "mm_peak_cur_data s1 = mm_peak_cur_data s"
      "mm_throttled_clients s1 = mm_throttled_clients s" "mm_throttle_clients_info s1 = mm_throttle_clients_info s"
      "mm_throttle_clients_data_length s1 = mm_throttle_clients_data_length s"
  | (nobody) "rc = 0" "throttle_scan s d [0..<mm_throttle_clients_data_length s] = None" "d' = d" "s1 = s"
  | (victim) i where "rc = 0" "throttle_scan s d [0..<mm_throttle_clients_data_length s] = Some i"
      "d' = d - (now_cur_ma s i - min_cur_ma s i)"
      "mm_clk_client_tbl s1 = (let j = throttle_entry s i; e = mm_clk_client_tbl s ! j in (mm_clk_client_tbl s)[j :=
         e\<lparr>ce_clk_rate := ce_freq e 0, ce_vdd_level := 0, ce_reserve := False\<rparr>])"
      "mm_peak_cur_data s1 = mm_peak_cur_data s" "mm_throttle_clients_info s1 = mm_throttle_clients_info s"
      "mm_throttle_clients_data_length s1 = mm_throttle_clients_data_length s"
      "mm_throttled_clients s1 = mm_throttled_clients s @ [\<lparr>tc_table_id = i,
         tc_delta_cu_ma = now_cur_ma s i - min_cur_ma s i,
         tc_prev_vdd_level = ce_vdd_level (mm_clk_client_tbl s ! throttle_entry s i)\<rparr>]"
proof (cases "throttle_scan s d [0..<mm_throttle_clients_data_length s]")
  case None
  with assms show thesis by (intro nobody) (simp_all add: mmrm_sw_throttle_low_priority_client_def)
next
  case (Some i)
  let ?e = "mm_clk_client_tbl s ! throttle_entry s i"
  obtain rc1 t where n: "(case ce_notifier_cb_fn ?e of
      Some f \<Rightarrow> (en_notify env f (ce_freq ?e (ce_vdd_level ?e)) (ce_freq ?e 0) (ce_pvt_data ?e),
        mm_emit [Ev_Notify f (ce_freq ?e (ce_vdd_level ?e)) (ce_freq ?e 0) (ce_pvt_data ?e)] s)
    | None \<Rightarrow> (0, s)) = (rc1, t)" by fastforce
  have t: "mm_clk_client_tbl t = mm_clk_client_tbl s" "mm_peak_cur_data t = mm_peak_cur_data s"
    "mm_throttled_clients t = mm_throttled_clients s" "mm_throttle_clients_info t = mm_throttle_clients_info s"
    "mm_throttle_clients_data_length t = mm_throttle_clients_data_length s"
    using n by (auto split: option.splits)
  obtain rc2 u where m: "(if \<not> ce_reserve ?e then (en_set_rate env (ce_clk ?e) (ce_freq ?e 0),
      mm_emit [Ev_Set_Rate (ce_clk ?e) (ce_freq ?e 0)] t) else (0, t)) = (rc2, u)" by fastforce
  have u: "mm_clk_client_tbl u = mm_clk_client_tbl s" "mm_peak_cur_data u = mm_peak_cur_data s"
    "mm_throttled_clients u = mm_throttled_clients s" "mm_throttle_clients_info u = mm_throttle_clients_info s"
    "mm_throttle_clients_data_length u = mm_throttle_clients_data_length s"
    using m t by (auto split: if_splits)
  have all: "(rc, d', s1) = (if rc1 \<noteq> 0 then (- EINVAL, d, t) else if rc2 \<noteq> 0 then (- EINVAL, d, u)
      else let delta = now_cur_ma s i - min_cur_ma s i in
        if \<not> en_tc_mem env then (- ENOMEM, d - delta, u)
        else (0, d - delta, entry_upd (throttle_entry s i)
          (\<lambda>e. e\<lparr>ce_clk_rate := ce_freq ?e 0, ce_vdd_level := 0, ce_reserve := False\<rparr>)
          (u\<lparr>mm_throttled_clients := mm_throttled_clients u @
             [\<lparr>tc_table_id = i, tc_delta_cu_ma = delta, tc_prev_vdd_level = ce_vdd_level ?e\<rparr>]\<rparr>)))"
    using assms unfolding mmrm_sw_throttle_low_priority_client_def Some option.case Let_def n prod.case m by simp
  show thesis
  proof (cases "rc1 = 0 \<and> rc2 = 0 \<and> en_tc_mem env")
    case True
    with all Some u show thesis by (intro victim [of i]) (simp_all add: Let_def)
  next
    case False
    with all t u show thesis by (intro failed) (auto simp: Let_def split: if_splits)
  qed
qed

lemma check_peak_fail:
  assumes "mmrm_sw_check_peak_current env idx l v nb s = (rc, s1)" "rc \<noteq> 0"
  shows "mm_clk_client_tbl s1 = mm_clk_client_tbl s \<and> mm_peak_cur_data s1 = mm_peak_cur_data s \<and>
    mm_throttled_clients s1 = mm_throttled_clients s \<and> mm_throttle_clients_info s1 = mm_throttle_clients_info s \<and>
    mm_throttle_clients_data_length s1 = mm_throttle_clients_data_length s"
proof -
  have "s1 = s \<or> (\<exists>d d'. mmrm_sw_throttle_low_priority_client env d s = (rc, d', s1))"
    using assms by (auto simp: mmrm_sw_check_peak_current_def Let_def split: prod.splits if_splits)
  then show ?thesis
  proof (elim disjE exE)
    fix d d'
    assume "mmrm_sw_throttle_low_priority_client env d s = (rc, d', s1)"
    then show ?thesis using assms(2) by (cases rule: throttle_cases) auto
  qed simp
qed

text \<open>C34: a request that fails leaves the table of clients, the account and the list of throttled
  clients as they were, unless it failed in the last step, when the clock framework refused the
  rate that had been admitted. This holds with throttling, too.\<close>

theorem rejected_request_changes_nothing:
  assumes "corners_ok env" and "mmrm_sw_clk_client_setval env client cd clk_val s = (rc, s')" and "rc \<noteq> 0"
  shows "mm_clk_client_tbl s' = mm_clk_client_tbl s \<and> mm_peak_cur_data s' = mm_peak_cur_data s \<and>
      mm_throttled_clients s' = mm_throttled_clients s \<or>
    (\<exists>clk log. en_set_rate env clk clk_val \<noteq> 0 \<and> mm_log s' = log @ [Ev_Set_Rate clk clk_val])"
proof -
  have rate: "\<exists>clk log. en_set_rate env clk clk_val \<noteq> 0 \<and> mm_log s' = log @ [Ev_Set_Rate clk clk_val]"
    if "(rc, s') = (if r then (0, t) else set_clk_rate env i clk_val t)" for r t i
    using that assms(3) by (auto simp: set_clk_rate_def Let_def split: if_splits)
  from assms(1,2) show ?thesis
  proof (cases rule: setval_cases)
    case (overshoot cl l nb)
    with check_peak_fail [OF overshoot(3,2)] show ?thesis by simp
  qed (use assms(3) rate in \<open>simp_all add: Let_def\<close>)
qed

theorem rejected_request_changes_nothing_witness:
  "let s = set_all demo_env [demo_set 0 2000000] demo_mgr;
       (rc, s') = mmrm_sw_clk_client_setval demo_env (Some \<lparr>cl_type = 1, cl_uid = 1\<rparr>)
                    (Some \<lparr>cd_num_hw_blocks = 1, cd_flags = 0\<rparr>) 2000000 s
   in rc = - EINVAL \<and> mm_clk_client_tbl s' = mm_clk_client_tbl s \<and> aggreg_val s' = 100"
proof -
  let ?s = "set_all demo_env [demo_set 0 2000000] demo_mgr"
  let ?r = "mmrm_sw_clk_client_setval demo_env (Some \<lparr>cl_type = 1, cl_uid = 1\<rparr>)
                    (Some \<lparr>cd_num_hw_blocks = 1, cd_flags = 0\<rparr>) 2000000 ?s"
  have rc: "fst ?r = - EINVAL" by code_simp
  obtain s' where r: "?r = (- EINVAL, s')" using rc by (metis prod.collapse)
  have c: "corners_ok demo_env" by (simp add: demo_env_def corners_ok_def)
  have no: "en_set_rate demo_env clk v = 0" for clk v by (simp add: demo_env_def)
  have "aggreg_val ?s = 100" by code_simp
  with rejected_request_changes_nothing [OF c r] no r show ?thesis by simp
qed

text \<open>
  The contract of a store of rates: what was accepted is read back. The second locale adds that
  requests of one client leave the others alone.
\<close>

locale rate_store =
  fixes set_rate :: "'c \<Rightarrow> 'r \<Rightarrow> 's \<Rightarrow> 's option"
    and get_rate :: "'c \<Rightarrow> 's \<Rightarrow> 'v option"
    and rate_of :: "'r \<Rightarrow> 'v"
  assumes set_get: "set_rate c r s = Some s' \<Longrightarrow> get_rate c s' = Some (rate_of r)"

locale isolated_rate_store = rate_store set_rate get_rate rate_of
  for set_rate :: "'c \<Rightarrow> 'r \<Rightarrow> 's \<Rightarrow> 's option"
    and get_rate :: "'c \<Rightarrow> 's \<Rightarrow> 'v option"
    and rate_of :: "'r \<Rightarrow> 'v" +
  assumes get_other: "set_rate c r s = Some s' \<Longrightarrow> c' \<noteq> c \<Longrightarrow> get_rate c' s' = get_rate c' s"
begin

fun requests :: "('c \<times> 'r) list \<Rightarrow> 's \<Rightarrow> 's option" where
  "requests [] s = Some s"
| "requests ((c, r) # rs) s = (case set_rate c r s of None \<Rightarrow> None | Some s' \<Rightarrow> requests rs s')"

lemma reads_last:
  "requests rs s = Some s' \<Longrightarrow>
   get_rate c s' = (case map_of (rev rs) c of Some r \<Rightarrow> Some (rate_of r) | None \<Rightarrow> get_rate c s)"
proof (induction rs s arbitrary: s' rule: requests.induct)
  case (2 c1 r rs s)
  then obtain s1 where s1: "set_rate c1 r s = Some s1" "requests rs s1 = Some s'" by (auto split: option.splits)
  have "get_rate c s1 = (if c = c1 then Some (rate_of r) else get_rate c s)"
    using set_get [OF s1(1)] get_other [OF s1(1)] by auto
  with "2.IH" [OF s1] show ?case by (auto simp: map_add_def split: option.splits)
qed simp

end

definition sw_set :: "mmrm_env \<Rightarrow> nat \<Rightarrow> mmrm_client_data \<times> u64 \<Rightarrow> mmrm_sw_clk_mgr_info \<Rightarrow> mmrm_sw_clk_mgr_info option" where
  "sw_set env uid req s =
     (if \<not> corners_ok env then None
      else case mmrm_sw_clk_client_setval env (Some \<lparr>cl_type = en_clock env, cl_uid = uid\<rparr>) (Some (fst req)) (snd req) s of
        (rc, s') \<Rightarrow> if rc = 0 then Some s' else None)"

definition sw_set_off :: "mmrm_env \<Rightarrow> nat \<Rightarrow> mmrm_client_data \<times> u64 \<Rightarrow> mmrm_sw_clk_mgr_info \<Rightarrow> mmrm_sw_clk_mgr_info option" where
  "sw_set_off env uid req s = (if en_throttle env = 0 then sw_set env uid req s else None)"

definition sw_get :: "nat \<Rightarrow> mmrm_sw_clk_mgr_info \<Rightarrow> u64 option" where
  "sw_get uid s = (case mmrm_sw_clk_client_getval (Some \<lparr>cl_type = 0, cl_uid = uid\<rparr>) s of
     (rc, Some (_, cur, _)) \<Rightarrow> Some cur | _ \<Rightarrow> None)"

lemma sw_get_eq:
  "sw_get uid s = (if uid < length (mm_clk_client_tbl s) \<and> ce_clk (mm_clk_client_tbl s ! uid) \<noteq> Clk_Null
     then Some (ce_clk_rate (mm_clk_client_tbl s ! uid)) else None)"
  by (simp add: sw_get_def mmrm_sw_clk_client_getval_def Let_def)

lemma check_peak_ok:
  assumes "mmrm_sw_check_peak_current env idx l v nb s = (0, s1)"
  obtains t adj where "t = s \<or> en_throttle env > 0 \<and> (\<exists>d d'. mmrm_sw_throttle_low_priority_client env d s = (0, d', t))"
    "mmrm_sw_check_req_level s (ce_clk_src_id (mm_clk_client_tbl s ! idx)) l = (0, adj)"
    "mm_clk_client_tbl s1 = mm_clk_client_tbl t" "mm_throttle_clients_info s1 = mm_throttle_clients_info t"
    "mm_throttle_clients_data_length s1 = mm_throttle_clients_data_length t"
    "set (mm_throttled_clients s1) \<subseteq> set (mm_throttled_clients t)" "aggreg_level s1 = adj"
proof -
  let ?e = "mm_clk_client_tbl s ! idx"
  obtain rc adj where c: "mmrm_sw_check_req_level s (ce_clk_src_id ?e) l = (rc, adj)" by fastforce
  have rc: "rc = 0" using assms c by (auto simp: mmrm_sw_check_peak_current_def Let_def split: if_splits)
  have sub: "set (mm_throttled_clients (snd (mmrm_reinstate_throttled_client t))) \<subseteq> set (mm_throttled_clients t)" for t
    by (auto simp: mmrm_reinstate_throttled_client_def Let_def)
  have "\<exists>t v. (s1 = set_peak v adj t \<or> s1 = snd (mmrm_reinstate_throttled_client (set_peak v adj t))) \<and>
      (t = s \<or> en_throttle env > 0 \<and> (\<exists>d d'. mmrm_sw_throttle_low_priority_client env d s = (0, d', t)))"
    using assms unfolding mmrm_sw_check_peak_current_def Let_def c prod.case rc
    by (auto split: if_splits prod.splits)
  then obtain t v where t: "t = s \<or> en_throttle env > 0 \<and> (\<exists>d d'. mmrm_sw_throttle_low_priority_client env d s = (0, d', t))"
    and s1: "s1 = set_peak v adj t \<or> s1 = snd (mmrm_reinstate_throttled_client (set_peak v adj t))" by blast
  from c rc have c': "mmrm_sw_check_req_level s (ce_clk_src_id ?e) l = (0, adj)" by simp
  from s1 sub [of "set_peak v adj t"] show thesis by (intro that [OF t c']) auto
qed

lemma check_peak_clks:
  assumes "mmrm_sw_check_peak_current env idx l v nb s = (0, s1)"
  shows "length (mm_clk_client_tbl s1) = length (mm_clk_client_tbl s)"
    and "ce_clk (mm_clk_client_tbl s1 ! i) = ce_clk (mm_clk_client_tbl s ! i)"
    and "en_throttle env = 0 \<Longrightarrow> mm_clk_client_tbl s1 = mm_clk_client_tbl s"
proof -
  obtain t where t: "t = s \<or> en_throttle env > 0 \<and> (\<exists>d d'. mmrm_sw_throttle_low_priority_client env d s = (0, d', t))"
    and s1: "mm_clk_client_tbl s1 = mm_clk_client_tbl t" by (rule check_peak_ok [OF assms])
  have "length (mm_clk_client_tbl t) = length (mm_clk_client_tbl s) \<and>
      ce_clk (mm_clk_client_tbl t ! i) = ce_clk (mm_clk_client_tbl s ! i)"
    if "mmrm_sw_throttle_low_priority_client env d s = (0, d', t)" for d d'
    using that
  proof (cases rule: throttle_cases)
    case (victim k)
    then show ?thesis
      by (cases "throttle_entry s k < length (mm_clk_client_tbl s)") (auto simp: Let_def nth_list_update list_update_beyond)
  qed auto
  with t s1 show "length (mm_clk_client_tbl s1) = length (mm_clk_client_tbl s)"
    and "ce_clk (mm_clk_client_tbl s1 ! i) = ce_clk (mm_clk_client_tbl s ! i)" by metis+
  show "en_throttle env = 0 \<Longrightarrow> mm_clk_client_tbl s1 = mm_clk_client_tbl s" using t s1 by auto
qed

lemma sw_set_read:
  assumes "sw_set env uid req s = Some s'"
  shows "sw_get uid s' = Some (snd req)"
    and "en_throttle env = 0 \<Longrightarrow> uid' \<noteq> uid \<Longrightarrow> sw_get uid' s' = sw_get uid' s"
proof -
  let ?cl = "\<lparr>cl_type = en_clock env, cl_uid = uid\<rparr> :: mmrm_client"
  have c: "corners_ok env" and s: "mmrm_sw_clk_client_setval env (Some ?cl) (Some (fst req)) (snd req) s = (0, s')"
    using assms by (auto simp: sw_set_def split: if_splits prod.splits)
  have "sw_get uid s' = Some (snd req) \<and> (en_throttle env = 0 \<longrightarrow> uid' \<noteq> uid \<longrightarrow> sw_get uid' s' = sw_get uid' s)"
    using c s
  proof (cases rule: setval_cases)
    case (kept cl)
    then show ?thesis by (auto simp: sw_get_eq is_err_or_null_def)
  next
    case (reserved cl r)
    note same = set_or_not(1) [OF reserved(5) [unfolded Let_def]]
    from reserved(1-4) show ?thesis by (auto simp: sw_get_eq same is_err_or_null_def nth_list_update)
  next
    case (admitted cl l nb r s1)
    note same = set_or_not(1) [OF admitted(7) [unfolded Let_def]]
    note k = check_peak_clks [OF admitted(6)]
    from admitted(1,2,4) k show ?thesis by (auto simp: sw_get_eq same is_err_or_null_def nth_list_update)
  qed auto
  then show "sw_get uid s' = Some (snd req)"
    and "en_throttle env = 0 \<Longrightarrow> uid' \<noteq> uid \<Longrightarrow> sw_get uid' s' = sw_get uid' s" by blast+
qed

interpretation sw_rates: rate_store "sw_set env" sw_get snd
  for env
  by unfold_locales (rule sw_set_read(1))

interpretation sw_rates_off: isolated_rate_store "sw_set_off env" sw_get snd
  for env
  by unfold_locales (auto simp: sw_set_off_def sw_set_read split: if_splits)

text \<open>C35: reads follow writes. The rate read back right after an accepted request is the requested
  one, whoever is throttled; and with throttling off, after any sequence of accepted requests each
  client reads the last rate it set, or its old one if it set none.\<close>

theorem rates_read_back:
  "(sw_set env uid req s = Some s' \<longrightarrow> sw_get uid s' = Some (snd req)) \<and>
   (sw_rates_off.requests env reqs s = Some s'' \<longrightarrow>
     sw_get uid s'' = (case map_of (rev reqs) uid of Some r \<Rightarrow> Some (snd r) | None \<Rightarrow> sw_get uid s))"
  using sw_rates.set_get sw_rates_off.reads_last by blast

theorem rates_read_back_witness:
  "\<exists>s'. sw_rates_off.requests demo_env [(0, (\<lparr>cd_num_hw_blocks = 1, cd_flags = 0\<rparr>, 2000000)),
       (1, (\<lparr>cd_num_hw_blocks = 1, cd_flags = 0\<rparr>, 0)), (0, (\<lparr>cd_num_hw_blocks = 1, cd_flags = 0\<rparr>, 1000000))] demo_mgr = Some s' \<and>
     sw_get 0 s' = Some 1000000"
proof -
  let ?q = "[(0, (\<lparr>cd_num_hw_blocks = 1, cd_flags = 0\<rparr>, 2000000)),
       (1, (\<lparr>cd_num_hw_blocks = 1, cd_flags = 0\<rparr>, 0)), (0, (\<lparr>cd_num_hw_blocks = 1, cd_flags = 0\<rparr>, 1000000))]
     :: (nat \<times> (mmrm_client_data \<times> u64)) list"
  obtain s' where s: "sw_rates_off.requests demo_env ?q demo_mgr = Some s'"
  proof -
    have "sw_rates_off.requests demo_env ?q demo_mgr \<noteq> None"
      unfolding sw_rates_off.requests.simps by code_simp
    then show thesis using that by blast
  qed
  from rates_read_back [of demo_env 0 "snd (hd ?q)" demo_mgr s' ?q s'] s show ?thesis by auto
qed

section \<open>Properties: throttling and levels\<close>







text \<open>The levels of the other active clients strictly between the requested and the aggregated one.\<close>

definition others :: "u32 \<Rightarrow> mmrm_sw_clk_mgr_info \<Rightarrow> nat list" where
  "others csid s = map ce_vdd_level (filter (\<lambda>e. \<not> is_err_or_null (ce_clk e) \<and> ce_clk_rate e \<noteq> 0 \<and> ce_clk_src_id e \<noteq> csid)
     (mm_clk_client_tbl s))"

lemma check_loop_eq:
  "check_loop csid req agg nxt es =
     (let ls = map ce_vdd_level (filter (\<lambda>e. \<not> is_err_or_null (ce_clk e) \<and> ce_clk_rate e \<noteq> 0 \<and> ce_clk_src_id e \<noteq> csid) es);
          before = filter (\<lambda>l. req < l \<and> l < agg) (takeWhile (\<lambda>l. l \<noteq> agg) ls)
      in (agg \<in> set ls, if before = [] then nxt else Some (last before)))"
  by (induction es arbitrary: nxt) (auto simp: Let_def)

text \<open>C37: the level a request is admitted at. A request below the aggregated level is lifted to it
  when another active client is at it; otherwise it is lifted to the level of the last such client
  in table order that lies in between, which need not be the highest of them.\<close>

theorem adjusted_level:
  assumes "req < MMRM_VDD_LEVEL_MAX"
  shows "mmrm_sw_check_req_level s csid req = (0,
    if req < aggreg_level s
    then if aggreg_level s \<in> set (others csid s) then aggreg_level s
         else last (req # filter (\<lambda>l. req < l \<and> l < aggreg_level s) (others csid s))
    else req)"
proof -
  define ls where "ls = others csid s"
  define F where "F = filter (\<lambda>l. req < l \<and> l < aggreg_level s) ls"
  define T where "T = filter (\<lambda>l. req < l \<and> l < aggreg_level s) (takeWhile (\<lambda>l. l \<noteq> aggreg_level s) ls)"
  have F: "T = F" if "aggreg_level s \<notin> set ls"
  proof -
    have "takeWhile (\<lambda>l. l \<noteq> aggreg_level s) ls = ls" using that by (auto simp: takeWhile_eq_all_conv)
    then show ?thesis by (simp only: F_def T_def)
  qed
  have below: "req < last F" if "F \<noteq> []"
    using last_in_set [OF that] by (simp add: F_def)
  have cl: "check_loop csid req (aggreg_level s) None (mm_clk_client_tbl s)
      = (aggreg_level s \<in> set ls, if T = [] then None else Some (last T))"
    by (simp only: check_loop_eq ls_def T_def others_def Let_def)
  have r: "mmrm_sw_check_req_level s csid req = (0,
      if req < aggreg_level s
      then if aggreg_level s \<in> set ls then aggreg_level s
           else case if T = [] then None else Some (last T) of Some l \<Rightarrow> if l > req then l else req | None \<Rightarrow> req
      else req)"
    using assms unfolding mmrm_sw_check_req_level_def Let_def cl split_conv by simp
  have l: "(case if T = [] then None else Some (last T) of Some l \<Rightarrow> if l > req then l else req | None \<Rightarrow> req)
      = last (req # F)" if "aggreg_level s \<notin> set ls"
    using below by (simp only: F [OF that]) simp
  show ?thesis
    unfolding r ls_def [symmetric] F_def [symmetric] using l
    by (cases "aggreg_level s \<in> set ls") (simp_all only: if_True if_False simp_thms)
qed

theorem adjusted_level_witness:
  "let s = demo_mgr\<lparr>mm_clk_client_tbl := [(demo_entry 1)\<lparr>ce_clk_rate := 5, ce_vdd_level := 3\<rparr>,
             (demo_entry 2)\<lparr>ce_clk_rate := 5, ce_vdd_level := 1\<rparr>, (demo_entry 3)\<lparr>ce_clk_rate := 5, ce_vdd_level := 4\<rparr>],
             mm_peak_cur_data := \<lparr>pk_threshold = 120, pk_aggreg_val = 100, pk_aggreg_level = 4\<rparr>\<rparr>
   in mmrm_sw_check_req_level s 3 0 = (0, 1)"
  by (simp add: adjusted_level others_def demo_entry_def zero_entry_def is_err_or_null_def Let_def)

text \<open>The loop over the rates keeps the table ordered and bounded by the last rate it took.\<close>

lemma freq_loop_mono:
  assumes "\<And>r. 0 \<le> en_round_rate env clk r \<and> en_round_rate env clk r < 2 ^ 63"
    and "\<And>i j. i \<le> j \<Longrightarrow> j < 5 \<Longrightarrow> uint (freq i) \<le> uint (freq j)" "\<And>j. j < 5 \<Longrightarrow> uint (freq j) \<le> mn"
    and "0 \<le> mn" "i \<le> j" "j < 5"
  shows "uint (freq_loop env clk val mx mn freq i) \<le> uint (freq_loop env clk val mx mn freq j)"
  using assms(2-4)
proof (induction env\<equiv>env clk\<equiv>clk val mx mn freq rule: freq_loop.induct)
  case (1 val mx mn freq)
  let ?r = "en_round_rate env clk (word_of_int val)"
  let ?v = "en_get_voltage env clk (word_of_int ?r)"
  let ?w = "if ?v < en_vdd_corner env 0 then en_vdd_corner env 0 else ?v"
  let ?f = "\<lambda>l. if match_level (en_vdd_corner env) ?w \<le> l \<and> l < 5 then word_of_int ?r else freq l"
  have u: "uint (word_of_int ?r :: u64) = ?r"
    using assms(1) [of "word_of_int val"] by (simp add: uint_word_of_int_eq take_bit_int_eq_self)
  consider (stop) "\<not> val < mx \<or> (mn < ?r \<and> (?v < 0 \<or> en_vdd_corner env 4 < ?v))"
    | (skip) "val < mx" "\<not> mn < ?r" | (upd) "val < mx" "mn < ?r" "\<not> (?v < 0 \<or> en_vdd_corner env 4 < ?v)" by blast
  then show ?case
  proof cases
    case stop
    with 1(3) assms(5,6) show ?thesis by (subst (1 2) freq_loop.simps) (auto simp: Let_def)
  next
    case skip
    with 1(2) [OF _ refl] 1(3-5) show ?thesis by (subst (1 2) freq_loop.simps) (simp add: Let_def)
  next
    case upd
    have mono: "uint (?f a) \<le> uint (?f b)" if "a \<le> b" "b < 5" for a b
    proof -
      have "uint (freq a) \<le> ?r" using 1(4) [of a] upd(2) that by simp
      then show ?thesis using 1(3) [OF that] that by (auto simp: u)
    qed
    have le: "uint (?f b) \<le> ?r" if "b < 5" for b using 1(4) [OF that] upd(2) by (auto simp: u)
    have "uint (freq_loop env clk (val + CLK_RATE_STEP) mx ?r ?f i) \<le> uint (freq_loop env clk (val + CLK_RATE_STEP) mx ?r ?f j)"
      using upd by (intro 1(1) [OF _ refl _ refl _ refl refl mono le]) (use 1(5) in auto)
    then show ?thesis using upd by (subst (1 2) freq_loop.simps) (simp add: Let_def)
  qed
qed

text \<open>The frequency table of a registered clock never decreases with the voltage level, and starts
  at the lowest rate of the clock or above, for a clock framework that rounds to rates below \<open>2 ^ 63\<close>.\<close>

theorem freq_table_monotone:
  assumes "\<And>r. 0 \<le> en_round_rate env (ce_clk e) r \<and> en_round_rate env (ce_clk e) r < 2 ^ 63"
    and "i \<le> j" "j < MMRM_VDD_LEVEL_MAX"
  shows "ce_freq (snd (mmrm_sw_update_freq env e)) i \<le> ce_freq (snd (mmrm_sw_update_freq env e)) j"
proof -
  let ?mn = "en_round_rate env (ce_clk e) 1"
  have "uint (word_of_int ?mn :: u64) \<le> ?mn"
    using assms(1) [of 1] by (simp add: uint_word_of_int_eq take_bit_int_eq_self)
  then show ?thesis
    using freq_loop_mono [of env "ce_clk e" "\<lambda>l. if l < 5 then word_of_int ?mn else ce_freq e l" ?mn i j] assms
    by (simp add: mmrm_sw_update_freq_def Let_def word_le_def)
qed

theorem freq_table_monotone_witness:
  "ce_freq (snd (mmrm_sw_update_freq (demo_env\<lparr>en_round_rate := (\<lambda>_ r. if r = - 1 then 3000000 else 1000000)\<rparr>) (demo_entry 1))) 0
   \<le> ce_freq (snd (mmrm_sw_update_freq (demo_env\<lparr>en_round_rate := (\<lambda>_ r. if r = - 1 then 3000000 else 1000000)\<rparr>) (demo_entry 1))) 3"
  by (rule freq_table_monotone) simp_all

end
