(* ===== verification/Mmrm_Wf.thy ===== *)
theory Mmrm_Wf imports Mmrm_Props begin

text \<open>
  The indices the software clock manager stores and later uses unchecked to address its arrays:
  voltage levels, the table entries of throttle clients, the positions in the list of throttled
  clients and the table indices inside client handles. They stay in range over every sequence of
  registrations, rate requests (with throttling and reinstatement) and deregistrations.
\<close>

section \<open>Well-formed managers\<close>

definition mm_wf :: "mmrm_sw_clk_mgr_info \<Rightarrow> bool" where
  "mm_wf s \<longleftrightarrow>
     (\<forall>e \<in> set (mm_clk_client_tbl s). ce_vdd_level e < MMRM_VDD_LEVEL_MAX) \<and>
     (\<forall>i < length (mm_clk_client_tbl s). \<forall>cl. ce_client (mm_clk_client_tbl s ! i) = Some cl \<longrightarrow> cl_uid cl = i) \<and>
     aggreg_level s < MMRM_VDD_LEVEL_MAX \<and>
     length (mm_throttle_clients_info s) = MMRM_MAX_THROTTLE_CLIENTS \<and>
     mm_throttle_clients_data_length s \<le> MMRM_MAX_THROTTLE_CLIENTS \<and>
     (\<forall>i < MMRM_MAX_THROTTLE_CLIENTS. throttle_entry s i < length (mm_clk_client_tbl s)) \<and>
     (\<forall>tc \<in> set (mm_throttled_clients s). tc_table_id tc < mm_throttle_clients_data_length s \<and>
        tc_prev_vdd_level tc < MMRM_VDD_LEVEL_MAX)"

lemma mm_wf_emit [simp]: "mm_wf (mm_emit es s) = mm_wf s"
  by (simp add: mm_wf_def mm_emit_def throttle_entry_def)

lemma mm_wf_entry:
  assumes "mm_wf s" "ce_vdd_level (f (mm_clk_client_tbl s ! i)) < 5"
    and "\<And>cl. ce_client (f (mm_clk_client_tbl s ! i)) = Some cl \<Longrightarrow> cl_uid cl = i"
  shows "mm_wf (entry_upd i f s)"
proof -
  let ?t = "mm_clk_client_tbl s"
  have "ce_vdd_level e < 5" if "e \<in> set (?t[i := f (?t ! i)])" for e
    using assms(1,2) set_update_subset_insert [of ?t i "f (?t ! i)"] that by (auto simp: mm_wf_def)
  moreover have "ce_client (?t[i := f (?t ! i)] ! j) = Some cl \<longrightarrow> cl_uid cl = j" if "j < length ?t" for j cl
    using assms(1,3) that by (cases "i = j") (auto simp: mm_wf_def)
  ultimately show ?thesis using assms(1) by (simp add: mm_wf_def entry_upd_def throttle_entry_def)
qed

lemma mm_wf_nth: "mm_wf s \<Longrightarrow> i < length (mm_clk_client_tbl s) \<Longrightarrow> ce_vdd_level (mm_clk_client_tbl s ! i) < 5"
  by (simp add: mm_wf_def)

lemma mm_wf_uid: "mm_wf s \<Longrightarrow> i < length (mm_clk_client_tbl s) \<Longrightarrow> ce_client (mm_clk_client_tbl s ! i) = Some cl \<Longrightarrow> cl_uid cl = i"
  by (simp add: mm_wf_def)

lemma mm_wf_cong:
  "mm_clk_client_tbl s' = mm_clk_client_tbl s \<Longrightarrow> mm_peak_cur_data s' = mm_peak_cur_data s \<Longrightarrow>
   mm_throttled_clients s' = mm_throttled_clients s \<Longrightarrow> mm_throttle_clients_info s' = mm_throttle_clients_info s \<Longrightarrow>
   mm_throttle_clients_data_length s' = mm_throttle_clients_data_length s \<Longrightarrow> mm_wf s' = mm_wf s"
  by (simp add: mm_wf_def throttle_entry_def)

lemma mm_wf_peak: "mm_wf s \<Longrightarrow> l < 5 \<Longrightarrow> mm_wf (set_peak v l s)"
  by (simp add: mm_wf_def throttle_entry_def set_peak_def)

lemma mm_wf_reinstate: "mm_wf s \<Longrightarrow> mm_wf (snd (mmrm_reinstate_throttled_client s))"
  by (auto simp: mmrm_reinstate_throttled_client_def mm_wf_def throttle_entry_def mm_emit_def Let_def)

section \<open>Preservation\<close>

lemma throttle_scan_mem: "throttle_scan s d is = Some i \<Longrightarrow> i \<in> set is"
  by (induction "is") (auto split: if_splits)

lemma mm_wf_throttle:
  assumes "mm_wf s" "mmrm_sw_throttle_low_priority_client env d s = (rc, d', s1)"
  shows "mm_wf s1"
  using assms(2)
proof (cases rule: throttle_cases)
  case failed
  then show ?thesis using assms(1) mm_wf_cong [of s1 s] by simp
next
  case (victim i)
  from throttle_scan_mem [OF victim(2)] have i: "i < mm_throttle_clients_data_length s" by simp
  define j where "j = throttle_entry s i"
  have j: "j < length (mm_clk_client_tbl s)" using assms(1) i by (simp add: mm_wf_def j_def)
  let ?e = "mm_clk_client_tbl s ! j"
  let ?s = "entry_upd j (\<lambda>e. e\<lparr>ce_clk_rate := ce_freq ?e 0, ce_vdd_level := 0, ce_reserve := False\<rparr>) s"
  have w: "mm_wf ?s" using mm_wf_uid [OF assms(1) j] by (intro mm_wf_entry [OF assms(1)]) simp_all
  have "mm_wf (s1\<lparr>mm_throttled_clients := mm_throttled_clients s\<rparr>)"
    using w victim(4-7) mm_wf_cong [of "s1\<lparr>mm_throttled_clients := mm_throttled_clients s\<rparr>" ?s]
    by (simp add: Let_def j_def entry_upd_def)
  moreover have "ce_vdd_level ?e < 5" by (rule mm_wf_nth [OF assms(1) j])
  ultimately show ?thesis using victim(7,8) i by (auto simp: mm_wf_def throttle_entry_def j_def)
qed (use assms in simp)

lemma mm_wf_check_peak:
  assumes "mm_wf s" "l < 5" "mmrm_sw_check_peak_current env idx l v nb s = (rc, s1)"
  shows "mm_wf s1"
proof (cases "rc = 0")
  case False
  with check_peak_fail [OF assms(3)] assms(1) mm_wf_cong [of s1 s] show ?thesis by simp
next
  case True
  have "aggreg_level s < 5" using assms(1) by (simp add: mm_wf_def)
  note range = check_req_level_range [OF _ this]
  from assms(3) True have "mmrm_sw_check_peak_current env idx l v nb s = (0, s1)" by simp
  then show ?thesis
  proof (cases rule: check_peak_ok)
    case (1 t adj)
    have "mm_wf t" using 1(1) mm_wf_throttle assms(1) by blast
    with range [OF 1(2)] 1(3-7) show ?thesis by (auto simp: mm_wf_def throttle_entry_def)
  qed
qed

lemma mm_wf_set_clk_rate [simp]: "mm_wf (snd (set_clk_rate env i v s)) = mm_wf s"
  by (simp add: set_clk_rate_def Let_def)

lemma mm_wf_set_or_not:
  "(rc, s') = (if r then (0, s1) else set_clk_rate env i v s1) \<Longrightarrow> mm_wf s1 \<Longrightarrow> mm_wf s'"
  by (metis mm_wf_set_clk_rate snd_conv)

lemma mm_wf_setval:
  assumes "corners_ok env" "mm_wf s" "mmrm_sw_clk_client_setval env client cd v s = (rc, s')"
  shows "mm_wf s'"
  using assms(1,3)
proof (cases rule: setval_cases)
  case (reserved cl r)
  have "mm_wf (entry_upd (cl_uid cl) (\<lambda>e. e\<lparr>ce_reserve := r\<rparr>) s)"
    using mm_wf_nth [OF assms(2) reserved(2)] mm_wf_uid [OF assms(2) reserved(2)]
    by (intro mm_wf_entry [OF assms(2)]) simp_all
  with reserved(5) show ?thesis by (auto simp: Let_def intro: mm_wf_set_or_not)
next
  case (overshoot cl l nb)
  then show ?thesis using mm_wf_check_peak [OF assms(2)] by blast
next
  case (admitted cl l nb r s1)
  have w: "mm_wf s1" by (rule mm_wf_check_peak [OF assms(2) admitted(3,6)])
  have len: "cl_uid cl < length (mm_clk_client_tbl s1)" using admitted(2) check_peak_clks(1) [OF admitted(6)] by simp
  have "mm_wf (entry_upd (cl_uid cl) (\<lambda>e. e\<lparr>ce_clk_rate := v, ce_vdd_level := l, ce_reserve := r, ce_num_hw_blocks := nb\<rparr>) s1)"
    using mm_wf_uid [OF w len] admitted(3) by (intro mm_wf_entry [OF w]) simp_all
  with admitted(7) show ?thesis by (auto simp: Let_def intro: mm_wf_set_or_not)
qed (use assms in simp_all)

lemma update_freq_fields [simp]:
  "fst (mmrm_sw_update_freq env e) = 0"
  "ce_vdd_level (snd (mmrm_sw_update_freq env e)) = ce_vdd_level e"
  "ce_client (snd (mmrm_sw_update_freq env e)) = ce_client e"
  by (simp_all add: mmrm_sw_update_freq_def Let_def)

lemma update_curr_fields [simp]:
  "ce_vdd_level (snd (mmrm_sw_update_curr cres s e)) = ce_vdd_level e"
  "ce_client (snd (mmrm_sw_update_curr cres s e)) = ce_client e"
  by (simp_all add: mmrm_sw_update_curr_def Let_def)

lemma find_src_id_le: "find_src_id csid es \<le> length es"
  by (induction es) auto

lemma mm_wf_register:
  assumes "mm_wf s"
  shows "mm_wf (snd (mmrm_sw_clk_client_register env cres desc pri pvt cb s))"
proof -
  let ?c = "find_src_id (push_bit 16 (de_client_domain desc) OR de_client_id desc) (mm_clk_client_tbl s)"
  show ?thesis
  proof (cases "?c < length (mm_clk_client_tbl s)")
    case True
    note wf = mm_wf_nth [OF assms True] mm_wf_uid [OF assms True]
    show ?thesis
      using assms wf
      by (auto simp: mmrm_sw_clk_client_register_def Let_def case_prod_beta
          split: option.splits prod.splits intro!: mm_wf_entry)
  next
    case False
    with find_src_id_le [of _ "mm_clk_client_tbl s"] have "?c = length (mm_clk_client_tbl s)" by (metis le_neq_implies_less)
    with assms show ?thesis by (simp add: mmrm_sw_clk_client_register_def Let_def)
  qed
qed

lemma mm_wf_deregister:
  assumes "mm_wf s"
  shows "mm_wf (snd (mmrm_sw_clk_client_deregister client s))"
proof (cases "\<exists>cl. client = Some cl \<and> cl_uid cl < length (mm_clk_client_tbl s)")
  case True
  then obtain cl where cl: "client = Some cl" and i: "cl_uid cl < length (mm_clk_client_tbl s)" by blast
  let ?s1 = "entry_upd (cl_uid cl) (\<lambda>e. if ce_ref_count e > 0 then e\<lparr>ce_ref_count := ce_ref_count e - 1\<rparr> else e) s"
  have w: "mm_wf ?s1"
    using mm_wf_nth [OF assms i] mm_wf_uid [OF assms i] by (intro mm_wf_entry [OF assms]) (simp_all split: if_splits)
  have "mm_wf (entry_upd (cl_uid cl) (\<lambda>e. e\<lparr>ce_vdd_level := 0, ce_clk_rate := 0, ce_client := None,
      ce_clk := Clk_Null, ce_pri := 0, ce_pvt_data := None, ce_notifier_cb_fn := None\<rparr>) ?s1)"
    by (intro mm_wf_entry [OF w]) simp_all
  with w cl i show ?thesis by (simp add: mmrm_sw_clk_client_deregister_def Let_def)
next
  case False
  with assms show ?thesis by (auto simp: mmrm_sw_clk_client_deregister_def split: option.splits)
qed

lemma throttle_info_wf:
  assumes "\<forall>ti \<in> set info. ti_tbl_entry_id ti < length tbl"
  shows "length (throttle_info tbl csids is info) = length info \<and>
    (\<forall>ti \<in> set (throttle_info tbl csids is info). ti_tbl_entry_id ti < length tbl)"
  using assms unfolding throttle_info_def
proof (induction "is" arbitrary: info)
  case (Cons i "is")
  let ?j = "find_src_id (csids ! i) tbl"
  let ?info = "if ?j < length tbl then info[i := \<lparr>ti_csid_throttle_client = csids ! i, ti_tbl_entry_id = ?j mod 2 ^ 16\<rparr>] else info"
  have "?j mod 2 ^ 16 < length tbl" if "?j < length tbl" using that mod_less_eq_dividend le_less_trans by blast
  then have "\<forall>ti \<in> set ?info. ti_tbl_entry_id ti < length tbl"
    using Cons.prems by (auto dest!: set_update_subset_insert [THEN subsetD])
  from Cons.IH [OF this] show ?case by (simp add: Let_def)
qed simp

text \<open>The platform data the manager is built from: the table of clock sources is not empty, and at
  most \<open>MMRM_MAX_THROTTLE_CLIENTS\<close> clients can be throttled.\<close>

definition platform_ok :: "mmrm_clk_platform_resources \<Rightarrow> bool" where
  "platform_ok cres \<longleftrightarrow> cr_clk_src_tbl cres \<noteq> [] \<and> cr_throttle_clients_data_length cres \<le> MMRM_MAX_THROTTLE_CLIENTS"

lemma mm_wf_init:
  assumes "platform_ok cres" "mmrm_init_sw_clk_mgr True True cres = (rc, Some s)"
  shows "mm_wf s"
proof -
  let ?n = "length (cr_clk_src_tbl cres)"
  let ?tbl = "map (\<lambda>(nom, e). prepare_entry nom e) (zip (cr_clk_src_tbl cres) (replicate ?n zero_entry))"
  let ?info = "throttle_info ?tbl (cr_clsid_threshold_clients cres) [0..<cr_throttle_clients_data_length cres]
      (replicate 5 \<lparr>ti_csid_throttle_client = 0, ti_tbl_entry_id = 0\<rparr>)"
  have s: "mm_clk_client_tbl s = ?tbl" "aggreg_level s = 0" "mm_throttled_clients s = []"
    "mm_throttle_clients_info s = ?info" "mm_throttle_clients_data_length s = cr_throttle_clients_data_length cres"
    using assms(2) by (auto simp: mmrm_init_sw_clk_mgr_def mmrm_sw_prepare_table_def Let_def)
  have e: "ce_vdd_level e = 0 \<and> ce_client e = None" if "e \<in> set ?tbl" for e
    using that by (auto simp: prepare_entry_def zero_entry_def dest!: set_zip_rightD)
  have "length ?info = 5 \<and> (\<forall>ti \<in> set ?info. ti_tbl_entry_id ti < length ?tbl)"
    using throttle_info_wf [of "replicate 5 \<lparr>ti_csid_throttle_client = 0, ti_tbl_entry_id = 0\<rparr>" ?tbl] assms(1)
    by (simp add: platform_ok_def)
  then have "length ?info = 5 \<and> (\<forall>i < 5. ti_tbl_entry_id (?info ! i) < length ?tbl)" by simp
  moreover have "\<forall>i < length ?tbl. ce_client (?tbl ! i) = None" using e nth_mem by blast
  ultimately show ?thesis
    using assms(1) e unfolding mm_wf_def throttle_entry_def s platform_ok_def by simp
qed

section \<open>Reachable managers\<close>

text \<open>
  One operation of the manager; every step has its own environment, so the answers of the clock
  framework, of the allocator and of the callbacks may differ from step to step.
\<close>

inductive mm_step :: "mmrm_clk_platform_resources \<Rightarrow> mmrm_sw_clk_mgr_info \<Rightarrow> mmrm_sw_clk_mgr_info \<Rightarrow> bool"
  for cres where
  register: "mm_step cres s (snd (mmrm_sw_clk_client_register env cres desc pri pvt cb s))"
| deregister: "mm_step cres s (snd (mmrm_sw_clk_client_deregister client s))"
| setval: "corners_ok env \<Longrightarrow> mm_step cres s (snd (mmrm_sw_clk_client_setval env client cd v s))"
| setval_inrange: "corners_ok env \<Longrightarrow> mm_step cres s (snd (mmrm_sw_clk_client_setval_inrange env client cd val s))"

inductive mm_reach :: "mmrm_clk_platform_resources \<Rightarrow> mmrm_sw_clk_mgr_info \<Rightarrow> bool" for cres where
  init: "mmrm_init_sw_clk_mgr True True cres = (rc, Some s) \<Longrightarrow> mm_reach cres s"
| step: "mm_reach cres s \<Longrightarrow> mm_step cres s s' \<Longrightarrow> mm_reach cres s'"

lemma mm_wf_step: "mm_step cres s s' \<Longrightarrow> mm_wf s \<Longrightarrow> mm_wf s'"
  by (induction rule: mm_step.induct)
    (auto simp: mm_wf_register mm_wf_deregister mmrm_sw_clk_client_setval_inrange_def prod_eq_iff
      intro: mm_wf_setval [OF _ _ surjective_pairing])

text \<open>C38: in every state the manager can reach, all indices it stores are in range: the voltage
  levels of the entries, of the aggregation and of the throttled clients address the five-level
  arrays, the throttle entries address the table of clients, a throttled client addresses the
  throttle table, and a client handle stored in the table holds the index of its own entry.\<close>

theorem indices_in_range:
  assumes "platform_ok cres" "mm_reach cres s"
  shows "mm_wf s"
  using assms(2) by induction (use assms(1) in \<open>auto intro: mm_wf_init mm_wf_step simp: mmrm_init_sw_clk_mgr_def\<close>)

definition demo_cres :: mmrm_clk_platform_resources where
  "demo_cres = \<lparr>cr_threshold = 9000, cr_scheme = 0, cr_clsid_threshold_clients = [7, 8], cr_throttle_clients_data_length = 2,
     cr_corner_tbl = replicate 5 \<lparr>co_volt_factor = 65536, co_scaling_factor_dyn = 65536, co_scaling_factor_leak = 65536\<rparr>,
     cr_clk_src_tbl = [\<lparr>no_domain = 0, no_clk_src_id = 8, no_nom_dyn_pwr = 65536, no_nom_leak_pwr = 65536, no_num_hw_block = 1\<rparr>]\<rparr>"

theorem indices_in_range_witness:
  "mm_wf (snd (mmrm_sw_clk_client_deregister (Some \<lparr>cl_type = 1, cl_uid = 0\<rparr>)
     (the (snd (mmrm_init_sw_clk_mgr True True demo_cres)))))"
proof -
  have "mmrm_init_sw_clk_mgr True True demo_cres = (0, Some (the (snd (mmrm_init_sw_clk_mgr True True demo_cres))))"
    by (simp add: mmrm_init_sw_clk_mgr_def mmrm_sw_prepare_table_def Let_def)
  from mm_reach.step [OF mm_reach.init [OF this] mm_step.deregister]
  show ?thesis by (rule indices_in_range [rotated]) (simp add: demo_cres_def platform_ok_def)
qed

end
