(* ===== verification/Mmrm_Driver.thy ===== *)
theory Mmrm_Driver imports Mmrm_Wf begin

text \<open>
  The driver around the clock manager: the dispatch of \<open>mmrm_clk_rsrc_mgr.c\<close>, the platform tables
  and set-up of \<open>mmrm_internal.c\<close>, the parsing of the platform resources of \<open>mmrm_res_parse.c\<close> and
  the exported interface with probe and removal of \<open>msm_mmrm.c\<close>.

  The global \<open>drv_data\<close> is a pointer with three kinds of values: the marker \<open>-EPROBE_DEFER\<close>, NULL,
  and the data of a probed device. An operation that dereferences NULL, or the driver data of the
  device after it was freed, has no result (\<open>None\<close>). The device tree and the allocator are
  parameters; the files of debugfs and sysfs are left out.
\<close>

section \<open>Data\<close>

abbreviation CLK_MGR_SCHEME_SW :: u32 where "CLK_MGR_SCHEME_SW \<equiv> 0"
abbreviation CLK_MGR_SCHEME_CXIPEAK :: u32 where "CLK_MGR_SCHEME_CXIPEAK \<equiv> 1"

text \<open>The client domains of the kernel header that is not part of the repository.\<close>

record mmrm_domains =
  dom_display :: u32
  dom_video :: u32
  dom_camera :: u32
  dom_cvp :: u32

record mmrm_platform_data =
  pd_common_data :: "(string \<times> int) list"
  pd_throttle_clk_clients_data :: "(u32 \<times> u32) list"

definition waipio_common_data :: "(string \<times> int) list" where
  "waipio_common_data = [(''qcom,mmrm_clk_threshold'', 9000), (''qcom,mmrm_clk_mgr_scheme'', uint CLK_MGR_SCHEME_SW)]"

definition neo_common_data :: "(string \<times> int) list" where
  "neo_common_data = [(''qcom,mmrm_clk_threshold'', 4500), (''qcom,mmrm_clk_mgr_scheme'', uint CLK_MGR_SCHEME_SW)]"

definition waipio_throttle_clients_data :: "mmrm_domains \<Rightarrow> (u32 \<times> u32) list" where
  "waipio_throttle_clients_data d =
     [(dom_display d, 0x3d), (dom_video d, 0x03), (dom_camera d, 0x46), (dom_cvp d, 0x08), (dom_camera d, 0x02)]"

definition waipio_data :: "mmrm_domains \<Rightarrow> mmrm_platform_data" where
  "waipio_data d = \<lparr>pd_common_data = waipio_common_data, pd_throttle_clk_clients_data = waipio_throttle_clients_data d\<rparr>"

definition neo_data :: mmrm_platform_data where
  "neo_data = \<lparr>pd_common_data = neo_common_data, pd_throttle_clk_clients_data = []\<rparr>"

text \<open>
  The device-tree node of the device: its compatible strings, the number of strings of
  \<open>mm-rail-corners\<close> (negative when absent), the cells of the properties (absent cells leave the
  variable that is read as it is), and the size in bytes of \<open>mmrm-client-info\<close> (0 when absent).
\<close>

record dt_node =
  dt_compatible :: "string list"
  dt_corner_count :: int
  dt_volt :: "nat \<Rightarrow> u32 option"
  dt_dyn :: "nat \<Rightarrow> u32 option"
  dt_leak :: "nat \<Rightarrow> u32 option"
  dt_client_info_size :: nat
  dt_client_info :: "nat \<Rightarrow> u32 option"

text \<open>The outcome of each allocation made while a device is probed.\<close>

record probe_mem =
  al_drv :: bool
  al_corner :: bool
  al_clk_src :: bool
  al_mgr :: bool
  al_tbl :: bool

datatype mmrm_clk_mgr_ops = Sw_Clk_Mgr_Ops

record mmrm_driver_data =
  dd_platform_data :: "mmrm_platform_data option"
  dd_is_clk_scaling_supported :: bool
  dd_clk_res :: mmrm_clk_platform_resources
  dd_clk_mgr :: "mmrm_sw_clk_mgr_info option"
  dd_clk_mgr_ops :: "mmrm_clk_mgr_ops option"

datatype drv_ptr = Drv_Defer | Drv_Null | Drv mmrm_driver_data

text \<open>The driver data of the device: NULL, the object of \<open>drv_data\<close>, or an object since freed.\<close>

datatype dev_ptr = Dev_Null | Dev_Live | Dev_Freed

record mmrm_sys =
  sy_drv :: drv_ptr
  sy_dev :: dev_ptr

record mmrm_client_desc =
  dc_client_type :: u32
  dc_desc :: mmrm_clk_client_desc
  dc_priority :: u32
  dc_pvt_data :: ptr
  dc_notifier :: "nat option"

section \<open>Platform resources\<close>

fun mmrm_find_key_value :: "(string \<times> int) list \<Rightarrow> string \<Rightarrow> int" where
  "mmrm_find_key_value [] key = 0"
| "mmrm_find_key_value (kv # kvs) key = (if fst kv = key then snd kv else mmrm_find_key_value kvs key)"

text \<open>The array of class ids has \<open>MMRM_MAX_THROTTLE_CLIENTS\<close> elements; a longer table would be
  written past its end, which has no result.\<close>

definition mmrm_read_clk_pltfrm_rsrc_frm_drv_data ::
  "mmrm_platform_data \<Rightarrow> mmrm_clk_platform_resources \<Rightarrow> (int \<times> mmrm_clk_platform_resources) option" where
  "mmrm_read_clk_pltfrm_rsrc_frm_drv_data pdata cres =
     (let n = length (pd_throttle_clk_clients_data pdata) in
      if n > MMRM_MAX_THROTTLE_CLIENTS then None
      else Some (0, cres\<lparr>cr_threshold := word_of_int (mmrm_find_key_value (pd_common_data pdata) ''qcom,mmrm_clk_threshold''),
             cr_scheme := word_of_int (mmrm_find_key_value (pd_common_data pdata) ''qcom,mmrm_clk_mgr_scheme''),
             cr_throttle_clients_data_length := n,
             cr_clsid_threshold_clients :=
               map (\<lambda>(domain, cid). push_bit 16 domain OR cid) (pd_throttle_clk_clients_data pdata)
                 @ drop n (cr_clsid_threshold_clients cres)\<rparr>))"

definition cell :: "u32 option \<Rightarrow> u32" where
  "cell v = (case v of Some x \<Rightarrow> x | None \<Rightarrow> 0)"

definition mmrm_load_mm_rail_corner_table ::
  "probe_mem \<Rightarrow> dt_node \<Rightarrow> mmrm_clk_platform_resources \<Rightarrow> int \<times> mmrm_clk_platform_resources" where
  "mmrm_load_mm_rail_corner_table mem dt cres =
     (if dt_corner_count dt \<le> 0 then (0, cres\<lparr>cr_corner_tbl := []\<rparr>)
      else if \<not> al_corner mem then (- ENOMEM, cres)
      else (0, cres\<lparr>cr_corner_tbl := map (\<lambda>c. \<lparr>co_volt_factor = cell (dt_volt dt c),
              co_scaling_factor_dyn = cell (dt_dyn dt c), co_scaling_factor_leak = cell (dt_leak dt c)\<rparr>)
              [0..<nat (dt_corner_count dt)]\<rparr>))"

text \<open>\<open>sizeof(struct nom_clk_src_info)\<close> is five 32-bit cells.\<close>

definition mmrm_load_nom_clk_src_table ::
  "probe_mem \<Rightarrow> dt_node \<Rightarrow> mmrm_clk_platform_resources \<Rightarrow> int \<times> mmrm_clk_platform_resources" where
  "mmrm_load_nom_clk_src_table mem dt cres =
     (let size_clk_src = dt_client_info_size dt; entry_offset = 5 in
      if size_clk_src < 20 \<or> size_clk_src mod 20 \<noteq> 0 then (0, cres\<lparr>cr_clk_src_tbl := []\<rparr>)
      else if \<not> al_clk_src mem then (- ENOMEM, cres)
      else (0, cres\<lparr>cr_clk_src_tbl := map (\<lambda>c. \<lparr>no_domain = cell (dt_client_info dt (c * entry_offset)),
              no_clk_src_id = cell (dt_client_info dt (c * entry_offset + 1)),
              no_nom_dyn_pwr = cell (dt_client_info dt (c * entry_offset + 2)),
              no_nom_leak_pwr = cell (dt_client_info dt (c * entry_offset + 3)),
              no_num_hw_block = cell (dt_client_info dt (c * entry_offset + 4))\<rparr>)
              [0..<size_clk_src div 20]\<rparr>))"

definition mmrm_free_rail_corner_table :: "mmrm_clk_platform_resources \<Rightarrow> mmrm_clk_platform_resources" where
  "mmrm_free_rail_corner_table cres = cres\<lparr>cr_corner_tbl := []\<rparr>"

definition mmrm_free_nom_clk_src_table :: "mmrm_clk_platform_resources \<Rightarrow> mmrm_clk_platform_resources" where
  "mmrm_free_nom_clk_src_table cres = cres\<lparr>cr_clk_src_tbl := []\<rparr>"

definition mmrm_read_clk_pltfrm_rsrc_frm_dt ::
  "probe_mem \<Rightarrow> dt_node \<Rightarrow> mmrm_clk_platform_resources \<Rightarrow> int \<times> mmrm_clk_platform_resources" where
  "mmrm_read_clk_pltfrm_rsrc_frm_dt mem dt cres =
     (let (rc, cres1) = mmrm_load_mm_rail_corner_table mem dt cres in
      if rc \<noteq> 0 then (rc, mmrm_free_rail_corner_table cres1)
      else if cr_scheme cres1 = CLK_MGR_SCHEME_SW then
        (let (rc, cres2) = mmrm_load_nom_clk_src_table mem dt cres1 in
         if rc \<noteq> 0 then (rc, mmrm_free_rail_corner_table (mmrm_free_nom_clk_src_table cres2))
         else (rc, cres2))
      else if cr_scheme cres1 = CLK_MGR_SCHEME_CXIPEAK then (- EINVAL, mmrm_free_rail_corner_table cres1)
      else (rc, cres1))"

definition mmrm_count_clk_clients_frm_dt :: "dt_node \<Rightarrow> nat" where
  "mmrm_count_clk_clients_frm_dt dt = dt_client_info_size dt div 20"

text \<open>The node may be missing; the platform data is dereferenced before the tree is read.\<close>

definition mmrm_read_platform_resources ::
  "probe_mem \<Rightarrow> dt_node option \<Rightarrow> mmrm_driver_data \<Rightarrow> (int \<times> mmrm_driver_data) option" where
  "mmrm_read_platform_resources mem node d =
     (case node of
        None \<Rightarrow> Some (- EINVAL, d)
      | Some dt \<Rightarrow>
          (case dd_platform_data d of
             None \<Rightarrow> None
           | Some pdata \<Rightarrow>
               (case mmrm_read_clk_pltfrm_rsrc_frm_drv_data pdata (dd_clk_res d) of
                  None \<Rightarrow> None
                | Some (rc, cres) \<Rightarrow>
                    if rc \<noteq> 0 then Some (rc, d\<lparr>dd_clk_res := cres\<rparr>)
                    else let (rc, cres') = mmrm_read_clk_pltfrm_rsrc_frm_dt mem dt cres
                         in Some (rc, d\<lparr>dd_clk_res := cres'\<rparr>))))"

definition mmrm_free_platform_resources :: "mmrm_driver_data \<Rightarrow> int \<times> mmrm_driver_data" where
  "mmrm_free_platform_resources d =
     (0, d\<lparr>dd_clk_res := mmrm_free_rail_corner_table (mmrm_free_nom_clk_src_table (dd_clk_res d))\<rparr>)"

section \<open>Dispatch to the clock manager\<close>

text \<open>
  The manager that exists carries the table \<open>clk_client_swops\<close>, all of whose entries are set, so
  the three tests of the dispatch are one test for the manager.
\<close>

definition mmrm_clk_client_register ::
  "mmrm_env \<Rightarrow> mmrm_clk_platform_resources \<Rightarrow> mmrm_client_desc \<Rightarrow> mmrm_sw_clk_mgr_info option \<Rightarrow>
     mmrm_client option \<times> mmrm_sw_clk_mgr_info option" where
  "mmrm_clk_client_register env cres desc mgr =
     (case mgr of
        None \<Rightarrow> (None, None)
      | Some s \<Rightarrow> map_prod (\<lambda>x. x) Some (mmrm_sw_clk_client_register env cres (dc_desc desc) (dc_priority desc)
                    (dc_pvt_data desc) (dc_notifier desc) s))"

definition mmrm_clk_client_deregister ::
  "mmrm_client option \<Rightarrow> mmrm_sw_clk_mgr_info option \<Rightarrow> int \<times> mmrm_sw_clk_mgr_info option" where
  "mmrm_clk_client_deregister client mgr =
     (case mgr of None \<Rightarrow> (- EINVAL, None)
      | Some s \<Rightarrow> map_prod (\<lambda>x. x) Some (mmrm_sw_clk_client_deregister client s))"

definition mmrm_clk_client_setval ::
  "mmrm_env \<Rightarrow> mmrm_client option \<Rightarrow> mmrm_client_data option \<Rightarrow> u64 \<Rightarrow> mmrm_sw_clk_mgr_info option \<Rightarrow>
     int \<times> mmrm_sw_clk_mgr_info option" where
  "mmrm_clk_client_setval env client cd val mgr =
     (case mgr of None \<Rightarrow> (- EINVAL, None)
      | Some s \<Rightarrow> map_prod (\<lambda>x. x) Some (mmrm_sw_clk_client_setval env client cd val s))"

definition mmrm_clk_client_setval_inrange ::
  "mmrm_env \<Rightarrow> mmrm_client option \<Rightarrow> mmrm_client_data option \<Rightarrow> u64 \<times> u64 \<times> u64 \<Rightarrow> mmrm_sw_clk_mgr_info option \<Rightarrow>
     int \<times> mmrm_sw_clk_mgr_info option" where
  "mmrm_clk_client_setval_inrange env client cd val mgr =
     (case mgr of None \<Rightarrow> (- EINVAL, None)
      | Some s \<Rightarrow> map_prod (\<lambda>x. x) Some (mmrm_sw_clk_client_setval_inrange env client cd val s))"

definition mmrm_clk_client_getval ::
  "mmrm_client option \<Rightarrow> mmrm_sw_clk_mgr_info option \<Rightarrow> int \<times> (u64 \<times> u64 \<times> u64) option" where
  "mmrm_clk_client_getval client mgr =
     (case mgr of None \<Rightarrow> (- EINVAL, None) | Some s \<Rightarrow> mmrm_sw_clk_client_getval client s)"

section \<open>Set-up and tear-down\<close>

text \<open>An unsupported scheme leaves the table of operations unset and reports success.\<close>

definition mmrm_get_clk_mgr_ops :: "mmrm_driver_data \<Rightarrow> int \<times> mmrm_driver_data" where
  "mmrm_get_clk_mgr_ops d =
     (if cr_scheme (dd_clk_res d) = CLK_MGR_SCHEME_SW then (0, d\<lparr>dd_clk_mgr_ops := Some Sw_Clk_Mgr_Ops\<rparr>)
      else if cr_scheme (dd_clk_res d) = CLK_MGR_SCHEME_CXIPEAK then (- EINVAL, d)
      else (0, d))"

text \<open>\<open>of_match_node\<close> takes the entry of the most specific compatible string of the node.\<close>

fun match_compatible :: "(string \<times> mmrm_platform_data) list \<Rightarrow> string list \<Rightarrow> mmrm_platform_data option" where
  "match_compatible table [] = None"
| "match_compatible table (c # cs) = (case map_of table c of Some p \<Rightarrow> Some p | None \<Rightarrow> match_compatible table cs)"

definition mmrm_get_platform_data :: "mmrm_domains \<Rightarrow> dt_node option \<Rightarrow> mmrm_platform_data option" where
  "mmrm_get_platform_data doms node =
     (case node of None \<Rightarrow> None
      | Some dt \<Rightarrow> match_compatible [(''qcom,waipio-mmrm'', waipio_data doms), (''qcom,neo-mmrm'', neo_data)]
                    (dt_compatible dt))"

definition mmrm_init :: "probe_mem \<Rightarrow> mmrm_driver_data \<Rightarrow> (int \<times> mmrm_driver_data) option" where
  "mmrm_init mem d =
     (let (rc, d1) = mmrm_get_clk_mgr_ops d in
      if rc \<noteq> 0 then Some (rc, d1)
      else
        (case dd_clk_mgr_ops d1 of
           None \<Rightarrow> None
         | Some Sw_Clk_Mgr_Ops \<Rightarrow>
             let (rc, mgr) = mmrm_init_sw_clk_mgr (al_mgr mem) (al_tbl mem) (dd_clk_res d1)
             in Some (rc, d1\<lparr>dd_clk_mgr := mgr\<rparr>)))"

definition mmrm_deinit :: "mmrm_driver_data \<Rightarrow> (int \<times> mmrm_driver_data) option" where
  "mmrm_deinit d =
     (case dd_clk_mgr_ops d of
        None \<Rightarrow> Some (- EINVAL, d)
      | Some Sw_Clk_Mgr_Ops \<Rightarrow>
          (case mmrm_destroy_sw_clk_mgr (dd_clk_mgr d) of
             None \<Rightarrow> None
           | Some rc \<Rightarrow> Some (rc, if rc \<noteq> 0 then d\<lparr>dd_clk_mgr := None\<rparr> else d)))"

definition new_driver_data :: mmrm_driver_data where
  "new_driver_data = \<lparr>dd_platform_data = None, dd_is_clk_scaling_supported = False,
     dd_clk_res = \<lparr>cr_threshold = 0, cr_scheme = 0, cr_clsid_threshold_clients = replicate MMRM_MAX_THROTTLE_CLIENTS 0,
       cr_throttle_clients_data_length = 0, cr_corner_tbl = [], cr_clk_src_tbl = []\<rparr>,
     dd_clk_mgr = None, dd_clk_mgr_ops = None\<rparr>"

text \<open>\<open>RESET_DRV_DATA\<close>; a device that pointed to the object is left with a dangling pointer.\<close>

definition RESET_DRV_DATA :: "mmrm_sys \<Rightarrow> mmrm_sys" where
  "RESET_DRV_DATA s = \<lparr>sy_drv = Drv_Defer, sy_dev = (if sy_dev s = Dev_Live then Dev_Freed else sy_dev s)\<rparr>"

definition client_info_size :: "dt_node option \<Rightarrow> nat" where
  "client_info_size node = (case node of None \<Rightarrow> 0 | Some dt \<Rightarrow> mmrm_count_clk_clients_frm_dt dt)"

definition msm_mmrm_probe_init ::
  "mmrm_domains \<Rightarrow> probe_mem \<Rightarrow> dt_node option \<Rightarrow> mmrm_sys \<Rightarrow> (int \<times> mmrm_sys) option" where
  "msm_mmrm_probe_init doms mem node s =
     (if \<not> al_drv mem then Some (- ENOMEM, s\<lparr>sy_drv := Drv_Null\<rparr>)
      else if client_info_size node = 0 then Some (0, s\<lparr>sy_drv := Drv new_driver_data\<rparr>)
      else
        (case mmrm_get_platform_data doms node of
           None \<Rightarrow> Some (- EINVAL, RESET_DRV_DATA s)
         | Some pdata \<Rightarrow>
             let d = new_driver_data\<lparr>dd_is_clk_scaling_supported := True, dd_platform_data := Some pdata\<rparr>;
                 s1 = s\<lparr>sy_dev := Dev_Live\<rparr>
             in
             (case mmrm_read_platform_resources mem node d of
                None \<Rightarrow> None
              | Some (rc, d1) \<Rightarrow>
                  if rc \<noteq> 0 then Some (rc, RESET_DRV_DATA s1)
                  else
                    (case mmrm_init mem d1 of
                       None \<Rightarrow> None
                     | Some (rc, d2) \<Rightarrow>
                         if rc \<noteq> 0 then Some (rc, RESET_DRV_DATA s1)
                         else Some (rc, s1\<lparr>sy_drv := Drv d2\<rparr>)))))"

definition msm_mmrm_probe ::
  "mmrm_domains \<Rightarrow> probe_mem \<Rightarrow> dt_node option option \<Rightarrow> mmrm_sys \<Rightarrow> (int \<times> mmrm_sys) option" where
  "msm_mmrm_probe doms mem pdev s =
     (case pdev of
        None \<Rightarrow> Some (- EINVAL, s)
      | Some node \<Rightarrow>
          if (case node of None \<Rightarrow> False | Some dt \<Rightarrow> ''qcom,msm-mmrm'' \<in> set (dt_compatible dt))
          then msm_mmrm_probe_init doms mem node s else Some (- EINVAL, s))"

text \<open>
  \<open>dev_get_drvdata\<close> of a device that was probed without clock clients is NULL: the object
  \<open>drv_data\<close> pointed to is lost.
\<close>

definition msm_mmrm_remove :: "bool \<Rightarrow> mmrm_sys \<Rightarrow> (int \<times> mmrm_sys) option" where
  "msm_mmrm_remove pdev s =
     (if \<not> pdev then Some (- EINVAL, s)
      else
        (case sy_dev s of
           Dev_Null \<Rightarrow> Some (- EINVAL, s\<lparr>sy_drv := Drv_Null\<rparr>)
         | Dev_Freed \<Rightarrow> None
         | Dev_Live \<Rightarrow>
             (case sy_drv s of
                Drv d \<Rightarrow>
                  (if dd_is_clk_scaling_supported d then
                     (case mmrm_deinit d of
                        None \<Rightarrow> None
                      | Some _ \<Rightarrow> Some (0, RESET_DRV_DATA (s\<lparr>sy_dev := Dev_Null\<rparr>)))
                   else Some (0, RESET_DRV_DATA (s\<lparr>sy_dev := Dev_Null\<rparr>)))
              | _ \<Rightarrow> None)))"

section \<open>The exported interface\<close>

text \<open>
  \<open>CHECK_SKIP_MMRM_CLK_RSRC\<close> on the global pointer: a NULL pointer is dereferenced; without clock
  clients the rest is skipped; otherwise the operation runs on the data of the driver.
\<close>

definition CHECK_SKIP_MMRM_CLK_RSRC :: "mmrm_sys \<Rightarrow> 'a \<Rightarrow> (mmrm_driver_data \<Rightarrow> 'a) \<Rightarrow> 'a option" where
  "CHECK_SKIP_MMRM_CLK_RSRC s skip run =
     (case sy_drv s of
        Drv d \<Rightarrow> Some (if \<not> dd_is_clk_scaling_supported d then skip else run d)
      | _ \<Rightarrow> None)"

definition set_mgr :: "mmrm_driver_data \<Rightarrow> mmrm_sw_clk_mgr_info option \<Rightarrow> mmrm_sys \<Rightarrow> mmrm_sys" where
  "set_mgr d m s = s\<lparr>sy_drv := Drv (d\<lparr>dd_clk_mgr := m\<rparr>)\<rparr>"

definition mmrm_client_check_scaling_supported :: "mmrm_env \<Rightarrow> u32 \<Rightarrow> mmrm_sys \<Rightarrow> bool option" where
  "mmrm_client_check_scaling_supported env client_type s =
     (if sy_drv s = Drv_Defer then Some False
      else if client_type = en_clock env then CHECK_SKIP_MMRM_CLK_RSRC s False (\<lambda>_. True)
      else Some True)"

definition mmrm_client_register ::
  "mmrm_env \<Rightarrow> mmrm_client_desc option \<Rightarrow> mmrm_sys \<Rightarrow> (mmrm_client option \<times> mmrm_sys) option" where
  "mmrm_client_register env client_desc s =
     (case client_desc of
        None \<Rightarrow> Some (None, s)
      | Some desc \<Rightarrow>
          if sy_drv s = Drv_Defer then Some (None, s)
          else if dc_client_type desc = en_clock env then
            CHECK_SKIP_MMRM_CLK_RSRC s (None, s)
              (\<lambda>d. let (client, m) = mmrm_clk_client_register env (dd_clk_res d) desc (dd_clk_mgr d)
                    in (client, set_mgr d m s))
          else Some (None, s))"

definition mmrm_client_deregister :: "mmrm_env \<Rightarrow> mmrm_client option \<Rightarrow> mmrm_sys \<Rightarrow> (int \<times> mmrm_sys) option" where
  "mmrm_client_deregister env client s =
     (case client of
        None \<Rightarrow> Some (- EINVAL, s)
      | Some cl \<Rightarrow>
          if sy_drv s = Drv_Defer then Some (0, s)
          else if cl_type cl = en_clock env then
            CHECK_SKIP_MMRM_CLK_RSRC s (0, s)
              (\<lambda>d. let (rc, m) = mmrm_clk_client_deregister client (dd_clk_mgr d) in (rc, set_mgr d m s))
          else Some (0, s))"

definition mmrm_client_set_value ::
  "mmrm_env \<Rightarrow> mmrm_client option \<Rightarrow> mmrm_client_data option \<Rightarrow> u64 \<Rightarrow> mmrm_sys \<Rightarrow> (int \<times> mmrm_sys) option" where
  "mmrm_client_set_value env client client_data val s =
     (case client of
        None \<Rightarrow> Some (- EINVAL, s)
      | Some cl \<Rightarrow>
          if client_data = None then Some (- EINVAL, s)
          else if sy_drv s = Drv_Defer then Some (0, s)
          else if cl_type cl = en_clock env then
            CHECK_SKIP_MMRM_CLK_RSRC s (0, s)
              (\<lambda>d. let (rc, m) = mmrm_clk_client_setval env client client_data val (dd_clk_mgr d) in (rc, set_mgr d m s))
          else Some (0, s))"

definition mmrm_client_set_value_in_range ::
  "mmrm_env \<Rightarrow> mmrm_client option \<Rightarrow> mmrm_client_data option \<Rightarrow> (u64 \<times> u64 \<times> u64) option \<Rightarrow> mmrm_sys \<Rightarrow>
     (int \<times> mmrm_sys) option" where
  "mmrm_client_set_value_in_range env client client_data val s =
     (case client of
        None \<Rightarrow> Some (- EINVAL, s)
      | Some cl \<Rightarrow>
          if client_data = None \<or> val = None then Some (- EINVAL, s)
          else if sy_drv s = Drv_Defer then Some (0, s)
          else if cl_type cl = en_clock env then
            CHECK_SKIP_MMRM_CLK_RSRC s (0, s)
              (\<lambda>d. let (rc, m) = mmrm_clk_client_setval_inrange env client client_data (the val) (dd_clk_mgr d)
                    in (rc, set_mgr d m s))
          else Some (0, s))"

text \<open>The third component is what is written through \<open>val\<close>.\<close>

definition mmrm_client_get_value ::
  "mmrm_env \<Rightarrow> mmrm_client option \<Rightarrow> bool \<Rightarrow> mmrm_sys \<Rightarrow> (int \<times> (u64 \<times> u64 \<times> u64) option) option" where
  "mmrm_client_get_value env client val s =
     (case client of
        None \<Rightarrow> Some (- EINVAL, None)
      | Some cl \<Rightarrow>
          if \<not> val then Some (- EINVAL, None)
          else if sy_drv s = Drv_Defer then Some (0, None)
          else if cl_type cl = en_clock env then
            CHECK_SKIP_MMRM_CLK_RSRC s (0, None) (\<lambda>d. mmrm_clk_client_getval client (dd_clk_mgr d))
          else Some (0, None))"

section \<open>Systems\<close>

datatype mmrm_call =
    Call_Register "mmrm_client_desc option"
  | Call_Deregister "mmrm_client option"
  | Call_Set "mmrm_client option" "mmrm_client_data option" u64
  | Call_Set_Range "mmrm_client option" "mmrm_client_data option" "(u64 \<times> u64 \<times> u64) option"

fun mmrm_call_run :: "mmrm_env \<times> mmrm_call \<Rightarrow> mmrm_sys \<Rightarrow> mmrm_sys option" where
  "mmrm_call_run (env, Call_Register desc) s = map_option snd (mmrm_client_register env desc s)"
| "mmrm_call_run (env, Call_Deregister cl) s = map_option snd (mmrm_client_deregister env cl s)"
| "mmrm_call_run (env, Call_Set cl cd v) s = map_option snd (mmrm_client_set_value env cl cd v s)"
| "mmrm_call_run (env, Call_Set_Range cl cd v) s = map_option snd (mmrm_client_set_value_in_range env cl cd v s)"

fun mmrm_calls_run :: "(mmrm_env \<times> mmrm_call) list \<Rightarrow> mmrm_sys \<Rightarrow> mmrm_sys option" where
  "mmrm_calls_run [] s = Some s"
| "mmrm_calls_run (c # cs) s = Option.bind (mmrm_call_run c s) (mmrm_calls_run cs)"

text \<open>The driver before it is probed.\<close>

definition mmrm_boot :: mmrm_sys where
  "mmrm_boot = \<lparr>sy_drv = Drv_Defer, sy_dev = Dev_Null\<rparr>"

text \<open>
  The manager of a probed driver that manages clocks exists and is well-formed, or has no clients;
  and the tables registration reads are long enough for the indices it reads them with: five
  corners, and one nominal power per client.
\<close>

definition mgr_ok :: "mmrm_sw_clk_mgr_info \<Rightarrow> bool" where
  "mgr_ok m \<longleftrightarrow> mm_clk_client_tbl m = [] \<or> mm_wf m"

definition drv_ok :: "mmrm_sys \<Rightarrow> bool" where
  "drv_ok s \<longleftrightarrow>
     (case sy_drv s of
        Drv d \<Rightarrow> dd_is_clk_scaling_supported d \<longrightarrow>
          sy_dev s = Dev_Live \<and> dd_clk_mgr_ops d = Some Sw_Clk_Mgr_Ops \<and>
          MMRM_VDD_LEVEL_MAX \<le> length (cr_corner_tbl (dd_clk_res d)) \<and>
          (\<exists>m. dd_clk_mgr d = Some m \<and> mgr_ok m \<and>
               length (mm_clk_client_tbl m) = length (cr_clk_src_tbl (dd_clk_res d)))
      | Drv_Defer \<Rightarrow> True
      | Drv_Null \<Rightarrow> False)"

section \<open>Properties\<close>

lemma register_empty:
  "mm_clk_client_tbl m = [] \<Longrightarrow> mm_clk_client_tbl (snd (mmrm_sw_clk_client_register env cres desc pri pvt cb m)) = []"
  by (simp add: mmrm_sw_clk_client_register_def Let_def)

lemma deregister_empty:
  "mm_clk_client_tbl m = [] \<Longrightarrow> mm_clk_client_tbl (snd (mmrm_sw_clk_client_deregister cl m)) = []"
  by (simp add: mmrm_sw_clk_client_deregister_def split: option.split)

lemma setval_empty:
  "mm_clk_client_tbl m = [] \<Longrightarrow> mm_clk_client_tbl (snd (mmrm_sw_clk_client_setval env cl cd v m)) = []"
  by (simp add: mmrm_sw_clk_client_setval_def split: option.split)

lemma mgr_ok_step:
  assumes "mm_step cres m m'" "mgr_ok m"
  shows "mgr_ok m'"
  using assms(2) unfolding mgr_ok_def
proof
  assume "mm_clk_client_tbl m = []"
  with assms(1) show "mm_clk_client_tbl m' = [] \<or> mm_wf m'"
    by cases (auto simp: register_empty deregister_empty setval_empty mmrm_sw_clk_client_setval_inrange_def)
qed (use mm_wf_step [OF assms(1)] in blast)

lemma step_length:
  assumes "mm_step cres m m'"
  shows "length (mm_clk_client_tbl m') = length (mm_clk_client_tbl m)"
proof -
  have sv: "length (mm_clk_client_tbl (snd (mmrm_sw_clk_client_setval env cl cd v m))) = length (mm_clk_client_tbl m)"
    if c: "corners_ok env" for env cl cd v
  proof -
    obtain rc s' where r: "mmrm_sw_clk_client_setval env cl cd v m = (rc, s')" by fastforce
    from c r have "length (mm_clk_client_tbl s') = length (mm_clk_client_tbl m)"
    proof (cases rule: setval_cases)
      case (reserved x r)
      then show ?thesis by (auto simp: Let_def set_clk_rate_def split: if_splits)
    next
      case (overshoot x l nb)
      with check_peak_fail [OF overshoot(3,2)] show ?thesis by simp
    next
      case (admitted x l nb r s1)
      with check_peak_clks(1) [OF admitted(6)] show ?thesis by (auto simp: Let_def set_clk_rate_def split: if_splits)
    qed simp_all
    with r show ?thesis by simp
  qed
  show ?thesis
    using assms
    by cases (auto simp: sv mmrm_sw_clk_client_setval_inrange_def mmrm_sw_clk_client_register_def
        mmrm_sw_clk_client_deregister_def Let_def case_prod_beta split: option.splits)
qed

lemma drv_ok_set_mgr:
  assumes "drv_ok s" "sy_drv s = Drv d" "dd_is_clk_scaling_supported d" "mm_step cres m m'" "dd_clk_mgr d = Some m"
  shows "drv_ok (set_mgr d (Some m') s)"
  using assms mgr_ok_step step_length [OF assms(4)] by (auto simp: drv_ok_def set_mgr_def)

lemma drv_ok_check_skip:
  assumes "drv_ok s" "sy_drv s \<noteq> Drv_Defer"
    and "\<And>d m. sy_drv s = Drv d \<Longrightarrow> dd_is_clk_scaling_supported d \<Longrightarrow> dd_clk_mgr d = Some m \<Longrightarrow>
      \<exists>cres m'. snd (run d) = set_mgr d (Some m') s \<and> mm_step cres m m'"
  shows "\<exists>s'. map_option snd (CHECK_SKIP_MMRM_CLK_RSRC s (r, s) run) = Some s' \<and> drv_ok s'"
proof (cases "sy_drv s")
  case (Drv d)
  show ?thesis
  proof (cases "dd_is_clk_scaling_supported d")
    case True
    then obtain m where m: "dd_clk_mgr d = Some m" using assms(1) Drv by (auto simp: drv_ok_def)
    from assms(3) [OF Drv True m] obtain cres m' where r: "snd (run d) = set_mgr d (Some m') s" and st: "mm_step cres m m'"
      by blast
    show ?thesis
      using Drv True r drv_ok_set_mgr [OF assms(1) Drv True st m] by (simp add: CHECK_SKIP_MMRM_CLK_RSRC_def)
  qed (use assms(1) Drv in \<open>simp add: CHECK_SKIP_MMRM_CLK_RSRC_def\<close>)
qed (use assms in \<open>simp_all add: drv_ok_def\<close>)

lemma call_keeps_drv_ok:
  assumes "drv_ok s" "corners_ok env"
  shows "\<exists>s'. mmrm_call_run (env, c) s = Some s' \<and> drv_ok s'"
proof (cases "sy_drv s = Drv_Defer")
  case True
  then show ?thesis
    using assms(1)
    by (cases c) (auto simp: mmrm_client_register_def mmrm_client_deregister_def mmrm_client_set_value_def
        mmrm_client_set_value_in_range_def split: option.splits)
next
  case False
  note run = drv_ok_check_skip [OF assms(1) False]
  show ?thesis
  proof (cases c)
    case (Call_Register desc)
    then show ?thesis
      using assms False
      by (auto simp: mmrm_client_register_def mmrm_clk_client_register_def case_prod_beta Let_def split: option.splits
          simp del: map_option_eq_Some intro!: run)
        (intro exI conjI, rule refl, rule mm_step.register)
  next
    case (Call_Deregister cl)
    then show ?thesis
      using assms False
      by (auto simp: mmrm_client_deregister_def mmrm_clk_client_deregister_def case_prod_beta Let_def split: option.splits
          simp del: map_option_eq_Some intro!: run)
        (intro exI conjI, rule refl, rule mm_step.deregister)
  next
    case (Call_Set cl cd v)
    then show ?thesis
      using assms False
      by (auto simp: mmrm_client_set_value_def mmrm_clk_client_setval_def case_prod_beta Let_def split: option.splits
          simp del: map_option_eq_Some intro!: run)
        (intro exI conjI, rule refl, rule mm_step.setval, assumption)
  next
    case (Call_Set_Range cl cd v)
    then show ?thesis
      using assms False
      by (auto simp: mmrm_client_set_value_in_range_def mmrm_clk_client_setval_inrange_def case_prod_beta Let_def
          split: option.splits simp del: map_option_eq_Some intro!: run)
        (intro exI conjI, rule refl, rule mm_step.setval_inrange, assumption)
  qed
qed

lemma calls_keep_drv_ok:
  assumes "drv_ok s" "\<forall>c \<in> set cs. corners_ok (fst c)"
  shows "\<exists>s'. mmrm_calls_run cs s = Some s' \<and> drv_ok s'"
  using assms
proof (induction cs arbitrary: s)
  case (Cons c cs)
  from call_keeps_drv_ok [of s "fst c" "snd c"] Cons.prems
  obtain s1 where "mmrm_call_run c s = Some s1" "drv_ok s1" by auto
  with Cons.IH [of s1] Cons.prems(2) show ?case by simp
qed simp

text \<open>What the platform tables give.\<close>

lemma platform_data_cases:
  assumes "mmrm_get_platform_data doms node = Some p"
  obtains dt where "node = Some dt" "p = waipio_data doms \<or> p = neo_data"
proof -
  have "match_compatible [(''qcom,waipio-mmrm'', waipio_data doms), (''qcom,neo-mmrm'', neo_data)] cs = Some p \<Longrightarrow>
      p = waipio_data doms \<or> p = neo_data" for cs
    by (induction cs) (auto split: if_splits)
  with assms that show thesis by (auto simp: mmrm_get_platform_data_def split: option.splits)
qed

lemma read_drv_data:
  assumes "p = waipio_data doms \<or> p = neo_data"
  shows "\<exists>cres'. mmrm_read_clk_pltfrm_rsrc_frm_drv_data p cres = Some (0, cres') \<and> cr_scheme cres' = CLK_MGR_SCHEME_SW \<and>
    cr_throttle_clients_data_length cres' \<le> 5"
  using assms
  by (auto simp: mmrm_read_clk_pltfrm_rsrc_frm_drv_data_def waipio_data_def neo_data_def
      waipio_common_data_def neo_common_data_def waipio_throttle_clients_data_def)

lemma read_dt_fields:
  assumes "mmrm_read_clk_pltfrm_rsrc_frm_dt mem dt cres = (rc, cres')"
  shows "cr_scheme cres' = cr_scheme cres \<and> cr_throttle_clients_data_length cres' = cr_throttle_clients_data_length cres"
  using assms
  by (auto simp: mmrm_read_clk_pltfrm_rsrc_frm_dt_def mmrm_load_mm_rail_corner_table_def
      mmrm_load_nom_clk_src_table_def mmrm_free_rail_corner_table_def mmrm_free_nom_clk_src_table_def Let_def split: if_splits)

lemma read_dt_corners:
  assumes "mmrm_read_clk_pltfrm_rsrc_frm_dt mem dt cres = (rc, cres')" "rc = 0" "5 \<le> dt_corner_count dt"
  shows "5 \<le> length (cr_corner_tbl cres')"
  using assms
  by (auto simp: mmrm_read_clk_pltfrm_rsrc_frm_dt_def mmrm_load_mm_rail_corner_table_def
      mmrm_load_nom_clk_src_table_def mmrm_free_rail_corner_table_def mmrm_free_nom_clk_src_table_def Let_def split: if_splits)

lemma init_mgr_ok:
  assumes "mmrm_init_sw_clk_mgr b1 b2 cres = (0, Some m)" "cr_throttle_clients_data_length cres \<le> 5"
  shows "mgr_ok m \<and> length (mm_clk_client_tbl m) = length (cr_clk_src_tbl cres)"
proof (rule conjI)
  have b: "b1" "b2" using assms(1) by (auto simp: mmrm_init_sw_clk_mgr_def split: if_splits)
  show "length (mm_clk_client_tbl m) = length (cr_clk_src_tbl cres)"
    using assms(1) b by (auto simp: mmrm_init_sw_clk_mgr_def mmrm_sw_prepare_table_def Let_def)
  show "mgr_ok m"
  proof (cases "cr_clk_src_tbl cres = []")
    case True
    with assms(1) b show ?thesis
      by (auto simp: mgr_ok_def mmrm_init_sw_clk_mgr_def mmrm_sw_prepare_table_def Let_def)
  next
    case False
    with assms b mm_wf_init show ?thesis by (auto simp: mgr_ok_def platform_ok_def)
  qed
qed

lemma init_sw_result:
  "mmrm_init_sw_clk_mgr b1 b2 cres = (rc, m) \<Longrightarrow> rc = 0 \<and> m \<noteq> None \<or> rc \<noteq> 0"
  by (auto simp: mmrm_init_sw_clk_mgr_def mmrm_sw_prepare_table_def Let_def split: if_splits)

lemma init_result:
  assumes "cr_scheme (dd_clk_res d) = CLK_MGR_SCHEME_SW" "cr_throttle_clients_data_length (dd_clk_res d) \<le> 5"
  obtains rc d' where "mmrm_init mem d = Some (rc, d')" "dd_clk_res d' = dd_clk_res d" "dd_is_clk_scaling_supported d' = dd_is_clk_scaling_supported d"
    "dd_clk_mgr_ops d' = Some Sw_Clk_Mgr_Ops"
    "rc = 0 \<Longrightarrow> \<exists>m. dd_clk_mgr d' = Some m \<and> mgr_ok m \<and> length (mm_clk_client_tbl m) = length (cr_clk_src_tbl (dd_clk_res d))"
proof -
  obtain rc mgr where i: "mmrm_init_sw_clk_mgr (al_mgr mem) (al_tbl mem) (dd_clk_res d) = (rc, mgr)" by fastforce
  have "\<exists>m. mgr = Some m \<and> mgr_ok m \<and> length (mm_clk_client_tbl m) = length (cr_clk_src_tbl (dd_clk_res d))" if "rc = 0"
  proof -
    from init_sw_result [OF i] that obtain m where "mgr = Some m" by auto
    with init_mgr_ok [of "al_mgr mem" "al_tbl mem" "dd_clk_res d" m] i that assms(2) show ?thesis by simp
  qed
  with i assms(1) that [of rc "d\<lparr>dd_clk_mgr_ops := Some Sw_Clk_Mgr_Ops, dd_clk_mgr := mgr\<rparr>"] show thesis
    by (simp add: mmrm_init_def mmrm_get_clk_mgr_ops_def)
qed

lemma read_resources_result:
  assumes "dd_platform_data d = Some p" "p = waipio_data doms \<or> p = neo_data" "5 \<le> dt_corner_count dt"
  obtains rc cres where "mmrm_read_platform_resources mem (Some dt) d = Some (rc, d\<lparr>dd_clk_res := cres\<rparr>)"
    "cr_scheme cres = CLK_MGR_SCHEME_SW" "cr_throttle_clients_data_length cres \<le> 5"
    "rc \<noteq> 0 \<or> 5 \<le> length (cr_corner_tbl cres)"
proof -
  from read_drv_data [OF assms(2), of "dd_clk_res d"] obtain cres1
    where r: "mmrm_read_clk_pltfrm_rsrc_frm_drv_data p (dd_clk_res d) = Some (0, cres1)"
      "cr_scheme cres1 = CLK_MGR_SCHEME_SW" "cr_throttle_clients_data_length cres1 \<le> 5" by blast
  obtain rc cres where dt: "mmrm_read_clk_pltfrm_rsrc_frm_dt mem dt cres1 = (rc, cres)" by fastforce
  from read_dt_fields [OF dt] read_dt_corners [OF dt _ assms(3)] r assms(1) dt that [of rc cres] show thesis
    by (simp add: mmrm_read_platform_resources_def)
qed

lemma probe_result:
  assumes "al_drv mem" "\<And>dt. node = Some dt \<Longrightarrow> 5 \<le> dt_corner_count dt"
  obtains rc s where "msm_mmrm_probe_init doms mem node mmrm_boot = Some (rc, s)" "drv_ok s"
    "rc = 0 \<or> sy_drv s = Drv_Defer"
proof (cases "client_info_size node = 0 \<or> mmrm_get_platform_data doms node = None")
  case True
  then show thesis
  proof
    assume "client_info_size node = 0"
    with assms that [of 0 "mmrm_boot\<lparr>sy_drv := Drv new_driver_data\<rparr>"] show thesis
      by (simp add: msm_mmrm_probe_init_def drv_ok_def new_driver_data_def)
  next
    assume "mmrm_get_platform_data doms node = None"
    with assms that [of 0 "mmrm_boot\<lparr>sy_drv := Drv new_driver_data\<rparr>"] that [of "- EINVAL" "RESET_DRV_DATA mmrm_boot"]
    show thesis
      by (cases "client_info_size node = 0")
        (simp_all add: msm_mmrm_probe_init_def drv_ok_def new_driver_data_def RESET_DRV_DATA_def)
  qed
next
  case False
  then obtain p where p: "mmrm_get_platform_data doms node = Some p" and n: "client_info_size node \<noteq> 0" by blast
  from platform_data_cases [OF p] obtain dt where dt: "node = Some dt" and pd: "p = waipio_data doms \<or> p = neo_data" .
  define d where "d = new_driver_data\<lparr>dd_is_clk_scaling_supported := True, dd_platform_data := Some p\<rparr>"
  have d: "dd_platform_data d = Some p" by (simp add: d_def)
  obtain rc cres where read: "mmrm_read_platform_resources mem (Some dt) d = Some (rc, d\<lparr>dd_clk_res := cres\<rparr>)"
    and cres: "cr_scheme cres = CLK_MGR_SCHEME_SW" "cr_throttle_clients_data_length cres \<le> 5"
      "rc \<noteq> 0 \<or> 5 \<le> length (cr_corner_tbl cres)"
    by (rule read_resources_result [OF d pd assms(2) [OF dt], of mem])
  obtain rc1 d2 where init: "mmrm_init mem (d\<lparr>dd_clk_res := cres\<rparr>) = Some (rc1, d2)"
    and d2: "dd_clk_res d2 = cres" "dd_clk_mgr_ops d2 = Some Sw_Clk_Mgr_Ops"
      "rc1 = 0 \<Longrightarrow> \<exists>m. dd_clk_mgr d2 = Some m \<and> mgr_ok m \<and> length (mm_clk_client_tbl m) = length (cr_clk_src_tbl cres)"
    by (rule init_result [of "d\<lparr>dd_clk_res := cres\<rparr>" mem]) (use cres in simp_all)
  have run: "msm_mmrm_probe_init doms mem node mmrm_boot =
      (if rc \<noteq> 0 then Some (rc, RESET_DRV_DATA (mmrm_boot\<lparr>sy_dev := Dev_Live\<rparr>))
       else if rc1 \<noteq> 0 then Some (rc1, RESET_DRV_DATA (mmrm_boot\<lparr>sy_dev := Dev_Live\<rparr>))
       else Some (rc1, mmrm_boot\<lparr>sy_dev := Dev_Live, sy_drv := Drv d2\<rparr>))"
    using assms n p read init unfolding d_def dt by (simp add: msm_mmrm_probe_init_def Let_def)
  consider "rc \<noteq> 0" | "rc = 0" "rc1 \<noteq> 0" | "rc = 0" "rc1 = 0" by blast
  then show thesis
    by cases (use run d2 cres(3) that in \<open>auto simp: drv_ok_def RESET_DRV_DATA_def\<close>)
qed

text \<open>C39: once the driver object has been allocated, probing a node with the five voltage corners,
  whatever else the device tree holds and whichever later allocation fails, ends with a return
  code; when it fails the driver is deferred again; and no sequence of calls of the interface after
  it dereferences a missing pointer or leaves the manager with an index out of range or with a
  table that is too short. A device that manages clocks is then removed without a fault.\<close>

theorem probed_driver_never_faults:
  assumes "al_drv mem" "\<And>dt. node = Some dt \<Longrightarrow> int MMRM_VDD_LEVEL_MAX \<le> dt_corner_count dt"
    and "\<forall>c \<in> set cs. corners_ok (fst c)"
  shows "\<exists>rc s s'. msm_mmrm_probe_init doms mem node mmrm_boot = Some (rc, s) \<and> (rc = 0 \<or> sy_drv s = Drv_Defer) \<and>
    mmrm_calls_run cs s = Some s' \<and> drv_ok s' \<and>
    (case sy_drv s' of
       Drv d \<Rightarrow> \<not> dd_is_clk_scaling_supported d \<or>
         msm_mmrm_remove True s' = Some (0, \<lparr>sy_drv = Drv_Defer, sy_dev = Dev_Null\<rparr>)
     | _ \<Rightarrow> sy_drv s' = Drv_Defer)"
proof -
  obtain rc s where p: "msm_mmrm_probe_init doms mem node mmrm_boot = Some (rc, s)" "drv_ok s"
    "rc = 0 \<or> sy_drv s = Drv_Defer" by (rule probe_result [OF assms(1), of node doms]) (use assms(2) in simp)
  from calls_keep_drv_ok [OF p(2) assms(3)] obtain s' where s': "mmrm_calls_run cs s = Some s'" "drv_ok s'" by blast
  have "msm_mmrm_remove True s' = Some (0, \<lparr>sy_drv = Drv_Defer, sy_dev = Dev_Null\<rparr>)"
    if "sy_drv s' = Drv d" "dd_is_clk_scaling_supported d" for d
    using s'(2) that
    by (auto simp: drv_ok_def msm_mmrm_remove_def mmrm_deinit_def mmrm_destroy_sw_clk_mgr_def RESET_DRV_DATA_def)
  with p s' show ?thesis by (auto simp: drv_ok_def split: drv_ptr.splits)
qed

definition demo_node :: dt_node where
  "demo_node = \<lparr>dt_compatible = [''qcom,msm-mmrm'', ''qcom,waipio-mmrm''], dt_corner_count = 5, dt_volt = (\<lambda>_. Some 65536),
     dt_dyn = (\<lambda>_. Some 65536), dt_leak = (\<lambda>_. Some 65536), dt_client_info_size = 40,
     dt_client_info = (\<lambda>c. Some (of_nat c))\<rparr>"

definition demo_mem :: probe_mem where
  "demo_mem = \<lparr>al_drv = True, al_corner = True, al_clk_src = True, al_mgr = True, al_tbl = True\<rparr>"

definition demo_domains :: mmrm_domains where
  "demo_domains = \<lparr>dom_display = 3, dom_video = 4, dom_camera = 1, dom_cvp = 2\<rparr>"

theorem probed_driver_never_faults_witness:
  "\<exists>rc s s'. msm_mmrm_probe_init demo_domains demo_mem (Some demo_node) mmrm_boot = Some (rc, s) \<and>
     mmrm_calls_run [(demo_env, Call_Set (Some \<lparr>cl_type = 1, cl_uid = 1\<rparr>) (Some \<lparr>cd_num_hw_blocks = 1, cd_flags = 0\<rparr>) 5)] s = Some s' \<and>
     drv_ok s'"
proof -
  have "al_drv demo_mem" "corners_ok demo_env" "dt_corner_count demo_node = 5"
    by (simp_all add: demo_mem_def demo_env_def corners_ok_def demo_node_def)
  then show ?thesis
    using probed_driver_never_faults [of demo_mem "Some demo_node"
        "[(demo_env, Call_Set (Some \<lparr>cl_type = 1, cl_uid = 1\<rparr>) (Some \<lparr>cd_num_hw_blocks = 1, cd_flags = 0\<rparr>) 5)]"
        demo_domains]
    by fastforce
qed

text \<open>C40: a device without clock clients is probed successfully and its calls succeed and do
  nothing; but its removal reports an error and leaves the global pointer NULL, which is also
  what a failed allocation of the driver object leaves. The next call that names a clock client
  then dereferences NULL: rates cannot be set, read, or registered for.\<close>

theorem null_driver_data_faults:
  assumes "al_drv mem" "client_info_size node = 0"
    and "dc_client_type desc = en_clock env" "cl_type cl = en_clock env"
  shows "(\<exists>s. msm_mmrm_probe_init doms mem node mmrm_boot = Some (0, s) \<and>
      mmrm_client_set_value env (Some cl) (Some cd) v s = Some (0, s) \<and>
      mmrm_client_register env (Some desc) s = Some (None, s) \<and>
      msm_mmrm_remove True s = Some (- EINVAL, s\<lparr>sy_drv := Drv_Null\<rparr>)) \<and>
    msm_mmrm_probe_init doms (mem\<lparr>al_drv := False\<rparr>) node mmrm_boot = Some (- ENOMEM, mmrm_boot\<lparr>sy_drv := Drv_Null\<rparr>) \<and>
    mmrm_client_set_value env (Some cl) (Some cd) v (s\<lparr>sy_drv := Drv_Null\<rparr>) = None \<and>
    mmrm_client_register env (Some desc) (s\<lparr>sy_drv := Drv_Null\<rparr>) = None \<and>
    mmrm_client_get_value env (Some cl) True (s\<lparr>sy_drv := Drv_Null\<rparr>) = None \<and>
    mmrm_client_deregister env (Some cl) (s\<lparr>sy_drv := Drv_Null\<rparr>) = None"
  using assms
  by (simp_all add: msm_mmrm_probe_init_def mmrm_client_set_value_def mmrm_client_register_def mmrm_client_get_value_def
      mmrm_client_deregister_def CHECK_SKIP_MMRM_CLK_RSRC_def new_driver_data_def mmrm_boot_def msm_mmrm_remove_def)

theorem null_driver_data_faults_witness:
  "mmrm_client_set_value demo_env (Some \<lparr>cl_type = 1, cl_uid = 0\<rparr>) (Some \<lparr>cd_num_hw_blocks = 1, cd_flags = 0\<rparr>) 5
     (mmrm_boot\<lparr>sy_drv := Drv_Null\<rparr>) = None"
  using null_driver_data_faults [of demo_mem None "\<lparr>dc_client_type = 1, dc_desc = \<lparr>de_client_domain = 0, de_client_id = 0, de_name = [], de_clk = Clk_Null\<rparr>, dc_priority = 1,
      dc_pvt_data = None, dc_notifier = None\<rparr>" demo_env "\<lparr>cl_type = 1, cl_uid = 0\<rparr>" demo_domains
      "\<lparr>cd_num_hw_blocks = 1, cd_flags = 0\<rparr>" 5 mmrm_boot]
  by (simp add: demo_mem_def client_info_size_def demo_env_def)

end
