(* ===== verification/Crm_Core.thy ===== *)
theory Crm_Core imports Kernel_Prelude begin

text \<open>
  The core of the camera request manager, \<open>camera-kernel/drivers/cam_req_mgr/cam_req_mgr_core.c\<close>
  with the data of \<open>cam_req_mgr_core.h\<close> and the timer of \<open>cam_req_mgr_timer.c\<close>: the input queue of
  a link, its request tables, one per pipeline delay, and the operations on a single link. The
  synchronisation of links and the tasks of the work queue are in Crm_Task.

  A linked list of tables is a HOL list, the table of a device is named by its pipeline delay,
  which no two tables of a link share. Arrays are lists; indices and request ids are integers,
  as the code does arithmetic with them and uses \<open>-1\<close> for none. Calls into devices and to user
  space are recorded in \<open>lk_log\<close>; their results are the parameter \<open>crm_env\<close>. Log output is left out.
\<close>

abbreviation ENXIO :: int where "ENXIO \<equiv> 6"
abbreviation EBUSY :: int where "EBUSY \<equiv> 16"
abbreviation EBADSLT :: int where "EBADSLT \<equiv> 57"

abbreviation MAX_REQ_SLOTS :: nat where "MAX_REQ_SLOTS \<equiv> 48"
abbreviation CAM_PIPELINE_DELAY_MAX :: int where "CAM_PIPELINE_DELAY_MAX \<equiv> 3"
abbreviation CAM_TRIGGER_POINT_SOF :: u32 where "CAM_TRIGGER_POINT_SOF \<equiv> 1"
abbreviation CAM_TRIGGER_POINT_EOF :: u32 where "CAM_TRIGGER_POINT_EOF \<equiv> 2"
abbreviation MAXIMUM_LINKS_PER_SESSION :: nat where "MAXIMUM_LINKS_PER_SESSION \<equiv> 4"
abbreviation MAXIMUM_RETRY_ATTEMPTS :: u32 where "MAXIMUM_RETRY_ATTEMPTS \<equiv> 6"
abbreviation CAM_REQ_MGR_WATCHDOG_TIMEOUT :: int where "CAM_REQ_MGR_WATCHDOG_TIMEOUT \<equiv> 5000"
abbreviation CAM_REQ_MGR_WATCHDOG_TIMEOUT_MAX :: int where "CAM_REQ_MGR_WATCHDOG_TIMEOUT_MAX \<equiv> 50000"
abbreviation CAM_REQ_MGR_SYNC_MODE_NO_SYNC :: int where "CAM_REQ_MGR_SYNC_MODE_NO_SYNC \<equiv> 0"
abbreviation CAM_REQ_MGR_SYNC_MODE_SYNC :: int where "CAM_REQ_MGR_SYNC_MODE_SYNC \<equiv> 1"

section \<open>Data\<close>

datatype crm_req_state = CRM_REQ_STATE_EMPTY | CRM_REQ_STATE_PENDING | CRM_REQ_STATE_READY | CRM_REQ_STATE_INVALID

datatype crm_slot_status =
    CRM_SLOT_STATUS_NO_REQ | CRM_SLOT_STATUS_REQ_ADDED | CRM_SLOT_STATUS_REQ_PENDING
  | CRM_SLOT_STATUS_REQ_READY | CRM_SLOT_STATUS_REQ_APPLIED | CRM_SLOT_STATUS_INVALID

datatype cam_req_mgr_link_state =
    CAM_CRM_LINK_STATE_AVAILABLE | CAM_CRM_LINK_STATE_IDLE | CAM_CRM_LINK_STATE_READY
  | CAM_CRM_LINK_STATE_ERR | CAM_CRM_LINK_STATE_MAX

datatype crm_req_eof_trigger_type =
    CAM_REQ_EOF_TRIGGER_NONE | CAM_REQ_EOF_TRIGGER_NOT_APPLY | CAM_REQ_EOF_TRIGGER_APPLIED

datatype crm_device_error = CRM_KMD_ERR_BUBBLE | CRM_KMD_ERR_FATAL | CRM_KMD_ERR_OTHER nat

datatype crm_link_evt =
    CAM_REQ_MGR_LINK_EVT_ERR | CAM_REQ_MGR_LINK_EVT_PAUSE | CAM_REQ_MGR_LINK_EVT_RESUME
  | CAM_REQ_MGR_LINK_EVT_SOF_FREEZE | CAM_REQ_MGR_LINK_EVT_STALLED

datatype crm_message = Msg_Recovery int | Msg_Sof_Freeze

text \<open>What leaves the request manager: calls of devices, events to user space, timer restarts.\<close>

datatype crm_ev =
    Ev_Apply int int u32 int bool
  | Ev_Frame_Skip int int u32
  | Ev_Link_Evt int crm_link_evt int crm_device_error
  | Ev_Message crm_message
  | Ev_Timer int
  | Ev_Flush int int int
  | Ev_Link_Setup int int int
  | Ev_Unlink int

record cam_req_mgr_apply =
  ap_idx :: int
  ap_pd :: int
  ap_req_id :: int
  ap_skip_idx :: int

record crm_tbl_slot_special_ops =
  so_dev_hdl :: int
  so_apply_at_eof :: bool
  so_is_applied :: bool

record cam_req_mgr_tbl_slot =
  ts_req_ready_map :: u32
  ts_state :: crm_req_state
  ts_inject_delay_at_sof :: u32
  ts_inject_delay_at_eof :: u32
  ts_ops :: crm_tbl_slot_special_ops

record cam_req_mgr_req_tbl =
  tb_id :: int
  tb_pd :: int
  tb_dev_count :: nat
  tb_dev_mask :: u32
  tb_skip_traverse :: int
  tb_pd_delta :: int
  tb_num_slots :: int
  tb_slot :: "cam_req_mgr_tbl_slot list"

record cam_req_mgr_slot =
  sl_idx :: int
  sl_skip_idx :: int
  sl_status :: crm_slot_status
  sl_recover :: int
  sl_req_id :: int
  sl_sync_mode :: int
  sl_additional_timeout :: int

record cam_req_mgr_req_queue =
  iq_num_slots :: int
  iq_slot :: "cam_req_mgr_slot list"
  iq_rd_idx :: int
  iq_wr_idx :: int
  iq_last_applied_idx :: int

text \<open>Which of the callbacks of \<open>cam_req_mgr_kmd_ops\<close> a device implements.\<close>

record cam_req_mgr_kmd_ops =
  ko_get_dev_info :: bool
  ko_link_setup :: bool
  ko_apply_req :: bool
  ko_notify_frame_skip :: bool
  ko_flush_req :: bool
  ko_process_evt :: bool

record cam_req_mgr_device_info =
  di_dev_id :: nat
  di_p_delay :: int
  di_trigger :: u32
  di_trigger_on :: bool

record cam_req_mgr_connected_device =
  dv_dev_hdl :: int
  dv_dev_bit :: nat
  dv_dev_info :: cam_req_mgr_device_info
  dv_ops :: "cam_req_mgr_kmd_ops option"

record cam_req_mgr_timer =
  tm_expires :: int
  tm_pause_timer :: bool

record cam_req_mgr_core_link =
  lk_link_hdl :: int
  lk_num_devs :: nat
  lk_max_delay :: int
  lk_min_delay :: int
  lk_pd_mask :: u32
  lk_l_dev :: "cam_req_mgr_connected_device list"
  lk_in_q :: "cam_req_mgr_req_queue option"
  lk_l_tbl :: "cam_req_mgr_req_tbl list"
  lk_num_tbl :: int
  lk_apply_data :: "int \<Rightarrow> cam_req_mgr_apply"
  lk_prev_apply_data :: "int \<Rightarrow> cam_req_mgr_apply"
  lk_watchdog :: "cam_req_mgr_timer option"
  lk_state :: cam_req_mgr_link_state
  lk_parent :: "nat option"
  lk_sync_link :: "nat option list"
  lk_num_sync_links :: nat
  lk_sync_link_sof_skip :: bool
  lk_open_req_cnt :: u32
  lk_last_flush_id :: int
  lk_is_used :: bool
  lk_is_master :: bool
  lk_initial_skip :: bool
  lk_in_msync_mode :: bool
  lk_initial_sync_req :: int
  lk_retry_cnt :: u32
  lk_is_shutdown :: bool
  lk_sof_timestamp :: u64
  lk_prev_sof_timestamp :: u64
  lk_dual_trigger :: bool
  lk_trigger_cnt :: "nat \<Rightarrow> u32 \<Rightarrow> u32"
  lk_eof_event_cnt :: int
  lk_skip_init_frame :: bool
  lk_last_sof_trigger_jiffies :: u64
  lk_wq_congestion :: bool
  lk_log :: "crm_ev list"

text \<open>
  The world around one step: the result of a device's \<open>apply_req\<close> for a handle and request id;
  \<open>recovery_on_apply_fail\<close> of the core device; the clock in jiffies and its conversion to
  milliseconds; the result of sending a message to user space.
\<close>

record crm_env =
  ce_apply_req :: "int \<Rightarrow> int \<Rightarrow> int"
  ce_recovery_on_apply_fail :: bool
  ce_jiffies :: u64
  ce_jiffies_to_msecs :: "u64 \<Rightarrow> u32"
  ce_notify_message :: int

definition elem :: "'a list \<Rightarrow> int \<Rightarrow> 'a" where
  "elem xs i = xs ! nat i"

definition elem_upd :: "int \<Rightarrow> ('a \<Rightarrow> 'a) \<Rightarrow> 'a list \<Rightarrow> 'a list" where
  "elem_upd i f xs = xs[nat i := f (xs ! nat i)]"

definition crm_emit :: "crm_ev list \<Rightarrow> cam_req_mgr_core_link \<Rightarrow> cam_req_mgr_core_link" where
  "crm_emit es l = l\<lparr>lk_log := lk_log l @ es\<rparr>"

definition in_q :: "cam_req_mgr_core_link \<Rightarrow> cam_req_mgr_req_queue" where
  "in_q l = the (lk_in_q l)"

definition in_q_upd :: "(cam_req_mgr_req_queue \<Rightarrow> cam_req_mgr_req_queue) \<Rightarrow> cam_req_mgr_core_link \<Rightarrow> cam_req_mgr_core_link" where
  "in_q_upd f l = l\<lparr>lk_in_q := Some (f (in_q l))\<rparr>"

definition slot_upd :: "int \<Rightarrow> (cam_req_mgr_slot \<Rightarrow> cam_req_mgr_slot) \<Rightarrow> cam_req_mgr_req_queue \<Rightarrow> cam_req_mgr_req_queue" where
  "slot_upd i f q = q\<lparr>iq_slot := elem_upd i f (iq_slot q)\<rparr>"

section \<open>Indices, tables\<close>

text \<open>C's \<open>%\<close> truncates towards zero; the operands here are not negative.\<close>

definition cam_req_mgr_inc_idx :: "int \<Rightarrow> int \<Rightarrow> int \<Rightarrow> int" where
  "cam_req_mgr_inc_idx val step max_val = (val + step) mod max_val"

definition cam_req_mgr_dec_idx :: "int \<Rightarrow> int \<Rightarrow> int \<Rightarrow> int" where
  "cam_req_mgr_dec_idx val step max_val = (if val - step < 0 then max_val + (val - step) else val - step)"

fun cam_req_mgr_find_pd_tbl :: "cam_req_mgr_req_tbl list \<Rightarrow> int \<Rightarrow> cam_req_mgr_req_tbl option" where
  "cam_req_mgr_find_pd_tbl [] delay = None"
| "cam_req_mgr_find_pd_tbl (t # ts) delay = (if delay \<noteq> tb_pd t then cam_req_mgr_find_pd_tbl ts delay else Some t)"

text \<open>The slot of a device's table, and its update.\<close>

definition dev_slot :: "cam_req_mgr_req_tbl list \<Rightarrow> int \<Rightarrow> int \<Rightarrow> cam_req_mgr_tbl_slot" where
  "dev_slot ts pd idx = elem (tb_slot (the (cam_req_mgr_find_pd_tbl ts pd))) idx"

definition dev_slot_upd ::
  "int \<Rightarrow> int \<Rightarrow> (cam_req_mgr_tbl_slot \<Rightarrow> cam_req_mgr_tbl_slot) \<Rightarrow> cam_req_mgr_core_link \<Rightarrow> cam_req_mgr_core_link" where
  "dev_slot_upd pd idx f l =
     l\<lparr>lk_l_tbl := map (\<lambda>t. if tb_pd t = pd then t\<lparr>tb_slot := elem_upd idx f (tb_slot t)\<rparr> else t) (lk_l_tbl l)\<rparr>"

fun cam_req_mgr_inject_delay ::
  "cam_req_mgr_req_tbl list \<Rightarrow> int \<Rightarrow> u32 \<Rightarrow> int \<times> cam_req_mgr_req_tbl list" where
  "cam_req_mgr_inject_delay [] idx trigger = (0, [])"
| "cam_req_mgr_inject_delay (t # ts) idx trigger =
     (let s = elem (tb_slot t) idx;
          at_sof = (trigger = CAM_TRIGGER_POINT_SOF \<and> ts_inject_delay_at_sof s > 0);
          at_eof = (\<not> at_sof \<and> trigger = CAM_TRIGGER_POINT_EOF \<and> ts_inject_delay_at_eof s > 0);
          s' = (if at_sof then s\<lparr>ts_inject_delay_at_sof := ts_inject_delay_at_sof s - 1\<rparr>
                else if at_eof then s\<lparr>ts_inject_delay_at_eof := ts_inject_delay_at_eof s - 1\<rparr> else s);
          (rc, ts') = cam_req_mgr_inject_delay ts (cam_req_mgr_dec_idx idx (tb_pd_delta t) (tb_num_slots t)) trigger
      in (if at_sof \<or> at_eof then - EAGAIN else rc,
          t\<lparr>tb_slot := elem_upd idx (\<lambda>_. s') (tb_slot t)\<rparr> # ts'))"

section \<open>Notifications\<close>

definition has_op :: "(cam_req_mgr_kmd_ops \<Rightarrow> bool) \<Rightarrow> cam_req_mgr_connected_device \<Rightarrow> bool" where
  "has_op op d = (case dv_ops d of Some k \<Rightarrow> op k | None \<Rightarrow> False)"

definition devs :: "cam_req_mgr_core_link \<Rightarrow> cam_req_mgr_connected_device list" where
  "devs l = take (lk_num_devs l) (lk_l_dev l)"

text \<open>One device of the loop of \<open>__cam_req_mgr_notify_frame_skip\<close>.\<close>

definition frame_skip_dev :: "u32 \<Rightarrow> cam_req_mgr_connected_device \<Rightarrow> cam_req_mgr_core_link \<Rightarrow> cam_req_mgr_core_link" where
  "frame_skip_dev trigger d l =
     (let pd = di_p_delay (dv_dev_info d) in
      if pd \<ge> CAM_PIPELINE_DELAY_MAX then l
      else
        let a = lk_prev_apply_data l pd;
            ops = ts_ops (dev_slot (lk_l_tbl l) pd (ap_idx a))
        in
        if so_dev_hdl ops = dv_dev_hdl d \<and> so_is_applied ops
        then dev_slot_upd pd (ap_idx a) (\<lambda>s. s\<lparr>ts_ops := (ts_ops s)\<lparr>so_is_applied := False\<rparr>\<rparr>) l
        else if trigger = CAM_TRIGGER_POINT_SOF \<and> dv_dev_hdl d = so_dev_hdl ops \<and> so_apply_at_eof ops then l
        else if trigger = CAM_TRIGGER_POINT_EOF \<and> dv_dev_hdl d = so_dev_hdl ops \<and> \<not> so_apply_at_eof ops then l
        else if has_op ko_notify_frame_skip d
        then crm_emit [Ev_Frame_Skip (dv_dev_hdl d) (ap_req_id a) trigger] l
        else l)"

definition cam_req_mgr_notify_frame_skip :: "u32 \<Rightarrow> cam_req_mgr_core_link \<Rightarrow> cam_req_mgr_core_link" where
  "cam_req_mgr_notify_frame_skip trigger l = fold (frame_skip_dev trigger) (devs l) l"

definition cam_req_mgr_send_evt ::
  "int \<Rightarrow> crm_link_evt \<Rightarrow> crm_device_error \<Rightarrow> cam_req_mgr_core_link \<Rightarrow> cam_req_mgr_core_link" where
  "cam_req_mgr_send_evt req_id evt err l =
     crm_emit (map (\<lambda>d. Ev_Link_Evt (dv_dev_hdl d) evt req_id err) (filter (has_op ko_process_evt) (devs l))) l"

definition cam_req_mgr_notify_error_on_link ::
  "crm_env \<Rightarrow> cam_req_mgr_connected_device \<Rightarrow> cam_req_mgr_core_link \<Rightarrow> int \<times> cam_req_mgr_core_link" where
  "cam_req_mgr_notify_error_on_link env d l =
     (let pd = di_p_delay (dv_dev_info d) in
      if lk_parent l = None then (- EINVAL, l)
      else if pd \<ge> CAM_PIPELINE_DELAY_MAX then (- EINVAL, l)
      else (ce_notify_message env,
            crm_emit [Ev_Message (Msg_Recovery (ap_req_id (lk_apply_data l pd)))]
              (cam_req_mgr_send_evt 0 CAM_REQ_MGR_LINK_EVT_STALLED CRM_KMD_ERR_FATAL l)))"

section \<open>Watchdog timer\<close>

definition crm_timer_reset :: "cam_req_mgr_core_link \<Rightarrow> cam_req_mgr_core_link" where
  "crm_timer_reset l = (case lk_watchdog l of None \<Rightarrow> l | Some t \<Rightarrow> crm_emit [Ev_Timer (tm_expires t)] l)"

definition crm_timer_modify :: "int \<Rightarrow> cam_req_mgr_core_link \<Rightarrow> cam_req_mgr_core_link" where
  "crm_timer_modify expires l =
     (case lk_watchdog l of
        None \<Rightarrow> l
      | Some t \<Rightarrow> crm_timer_reset (l\<lparr>lk_watchdog := Some (t\<lparr>tm_expires := expires\<rparr>)\<rparr>))"

definition crm_timer_init :: "bool \<Rightarrow> int \<Rightarrow> cam_req_mgr_core_link \<Rightarrow> int \<times> cam_req_mgr_core_link" where
  "crm_timer_init mem expires l =
     (case lk_watchdog l of
        Some _ \<Rightarrow> (- EINVAL, l)
      | None \<Rightarrow> if \<not> mem then (- ENOMEM, l)
                else (0, crm_timer_reset (l\<lparr>lk_watchdog := Some \<lparr>tm_expires = expires, tm_pause_timer = False\<rparr>\<rparr>)))"

definition crm_timer_exit :: "cam_req_mgr_core_link \<Rightarrow> cam_req_mgr_core_link" where
  "crm_timer_exit l = l\<lparr>lk_watchdog := None\<rparr>"

definition cam_req_mgr_validate_crm_wd_timer :: "cam_req_mgr_core_link \<Rightarrow> cam_req_mgr_core_link" where
  "cam_req_mgr_validate_crm_wd_timer l =
     (if lk_skip_init_frame l then l\<lparr>lk_skip_init_frame := False\<rparr>
      else
        let q = in_q l;
            nxt = elem (iq_slot q) (cam_req_mgr_dec_idx (iq_rd_idx q) (lk_max_delay l - 1) (iq_num_slots q));
            cur = elem (iq_slot q) (cam_req_mgr_dec_idx (iq_rd_idx q) (lk_max_delay l) (iq_num_slots q));
            next_frame_timeout = sl_additional_timeout nxt;
            current_frame_timeout = sl_additional_timeout cur
        in
        if sl_req_id cur = - 1 \<and> sl_req_id nxt = - 1 then l
        else
          (case lk_watchdog l of
             None \<Rightarrow> l
           | Some t \<Rightarrow>
               if next_frame_timeout + CAM_REQ_MGR_WATCHDOG_TIMEOUT > tm_expires t
               then crm_timer_modify (next_frame_timeout + CAM_REQ_MGR_WATCHDOG_TIMEOUT) l
               else if current_frame_timeout \<noteq> 0
               then crm_timer_modify (current_frame_timeout + CAM_REQ_MGR_WATCHDOG_TIMEOUT) l
               else if next_frame_timeout = 0 \<and> tm_expires t > CAM_REQ_MGR_WATCHDOG_TIMEOUT
               then crm_timer_modify CAM_REQ_MGR_WATCHDOG_TIMEOUT l
               else l))"

section \<open>Traversal of the tables\<close>

text \<open>What \<open>__cam_req_mgr_traverse\<close> accumulates: the mask of the tables passed, and the request,
  delay and missing devices where it stopped.\<close>

record cam_req_mgr_traverse_data =
  tr_result :: u32
  tr_req_id :: int
  tr_pd :: int
  tr_masked_value :: u32

definition pd_bit :: "int \<Rightarrow> u32" where
  "pd_bit pd = push_bit (nat pd) 1"

fun cam_req_mgr_traverse ::
  "cam_req_mgr_req_queue \<Rightarrow> bool \<Rightarrow> int \<Rightarrow> cam_req_mgr_req_tbl list \<Rightarrow> (int \<Rightarrow> cam_req_mgr_apply) \<Rightarrow> cam_req_mgr_traverse_data \<Rightarrow>
     int \<times> cam_req_mgr_traverse_data \<times> cam_req_mgr_req_tbl list \<times> (int \<Rightarrow> cam_req_mgr_apply)" where
  "cam_req_mgr_traverse q validate_only idx [] ad tr = (- EINVAL, tr\<lparr>tr_result := 0\<rparr>, [], ad)"
| "cam_req_mgr_traverse q validate_only idx (t # ts) ad tr =
     (if ts_state (elem (tb_slot t) idx) = CRM_REQ_STATE_READY \<or> sl_skip_idx (elem (iq_slot q) idx) = 1 \<or>
         tb_skip_traverse t > 0
      then
        let (rc, tr1, ts1, ad1) =
              (if ts = [] then (0, tr, ts, ad)
               else cam_req_mgr_traverse q validate_only (cam_req_mgr_dec_idx idx (tb_pd_delta t) (tb_num_slots t)) ts ad tr)
        in
        if rc \<ge> 0 then
          (let tr2 = tr1\<lparr>tr_result := (tr_result tr1 OR pd_bit (tb_pd t))\<rparr> in
           if validate_only then (0, tr2, t # ts1, ad1)
           else
             (0, tr2,
              (if tb_skip_traverse t > 0 then t\<lparr>tb_skip_traverse := tb_skip_traverse t - 1\<rparr> else t) # ts1,
              ad1(tb_pd t := (ad1 (tb_pd t))\<lparr>ap_pd := tb_pd t, ap_idx := idx,
                ap_req_id := if tb_skip_traverse t > 0 then - 1 else sl_req_id (elem (iq_slot q) idx)\<rparr>)))
        else (rc, tr1, t # ts1, ad1)
      else
        (- EAGAIN,
         tr\<lparr>tr_req_id := sl_req_id (elem (iq_slot q) idx), tr_pd := tb_pd t,
           tr_masked_value := (tb_dev_mask t AND ts_req_ready_map (elem (tb_slot t) idx)),
           tr_result := (tr_result tr AND NOT (pd_bit (tb_pd t)))\<rparr>,
         t # ts, ad))"

definition zero_apply :: cam_req_mgr_apply where
  "zero_apply = \<lparr>ap_idx = 0, ap_pd = 0, ap_req_id = 0, ap_skip_idx = 0\<rparr>"

definition cam_req_mgr_check_link_is_ready ::
  "int \<Rightarrow> bool \<Rightarrow> cam_req_mgr_core_link \<Rightarrow> int \<times> cam_req_mgr_core_link" where
  "cam_req_mgr_check_link_is_ready idx validate_only l =
     (let ad = (if validate_only then lk_apply_data l else (\<lambda>_. zero_apply));
          (rc, tr, ts, ad') = cam_req_mgr_traverse (in_q l) validate_only idx (lk_l_tbl l) ad
             \<lparr>tr_result = 0, tr_req_id = 0, tr_pd = 0, tr_masked_value = 0\<rparr>
      in (if rc = 0 \<and> tr_result tr = lk_pd_mask l then rc else - EAGAIN,
          l\<lparr>lk_initial_skip := False, lk_l_tbl := ts, lk_apply_data := ad'\<rparr>))"

definition cam_req_mgr_in_q_skip_idx :: "int \<Rightarrow> cam_req_mgr_req_queue \<Rightarrow> cam_req_mgr_req_queue" where
  "cam_req_mgr_in_q_skip_idx idx = slot_upd idx (\<lambda>s. s\<lparr>sl_req_id := - 1, sl_skip_idx := 1\<rparr>)"

fun cam_req_mgr_tbl_set_id :: "cam_req_mgr_req_tbl list \<Rightarrow> int \<Rightarrow> cam_req_mgr_req_tbl list \<times> int" where
  "cam_req_mgr_tbl_set_id [] n = ([], n)"
| "cam_req_mgr_tbl_set_id (t # ts) n =
     (let (ts', n') = cam_req_mgr_tbl_set_id ts (n + 1) in (t\<lparr>tb_id := n\<rparr> # ts', n'))"

definition cam_req_mgr_tbl_set_all_skip_cnt :: "cam_req_mgr_req_tbl list \<Rightarrow> cam_req_mgr_req_tbl list" where
  "cam_req_mgr_tbl_set_all_skip_cnt ts =
     (case ts of [] \<Rightarrow> [] | t # _ \<Rightarrow> map (\<lambda>u. u\<lparr>tb_skip_traverse := tb_pd t - tb_pd u\<rparr>) ts)"

section \<open>Resetting slots\<close>

definition flush_tbl_slot :: "cam_req_mgr_tbl_slot \<Rightarrow> cam_req_mgr_tbl_slot" where
  "flush_tbl_slot s = s\<lparr>ts_req_ready_map := 0, ts_state := CRM_REQ_STATE_EMPTY,
     ts_ops := \<lparr>so_dev_hdl = - 1, so_apply_at_eof = False, so_is_applied = False\<rparr>\<rparr>"

definition flush_slot :: "cam_req_mgr_slot \<Rightarrow> cam_req_mgr_slot" where
  "flush_slot s = s\<lparr>sl_req_id := - 1, sl_skip_idx := 1, sl_recover := 0, sl_additional_timeout := 0,
     sl_sync_mode := CAM_REQ_MGR_SYNC_MODE_NO_SYNC, sl_status := CRM_SLOT_STATUS_NO_REQ\<rparr>"

text \<open>The first \<open>n\<close> elements of an array, all of them changed the same way.\<close>

definition map_first :: "int \<Rightarrow> ('a \<Rightarrow> 'a) \<Rightarrow> 'a list \<Rightarrow> 'a list" where
  "map_first n f xs = map f (take (nat n) xs) @ drop (nat n) xs"

definition zero_triggers :: "cam_req_mgr_core_link \<Rightarrow> cam_req_mgr_core_link" where
  "zero_triggers l = l\<lparr>lk_trigger_cnt := (\<lambda>i tp. if i < 2 \<and> (tp = CAM_TRIGGER_POINT_SOF \<or> tp = CAM_TRIGGER_POINT_EOF)
     then 0 else lk_trigger_cnt l i tp)\<rparr>"

definition cam_req_mgr_flush_req_slot :: "cam_req_mgr_core_link \<Rightarrow> cam_req_mgr_core_link" where
  "cam_req_mgr_flush_req_slot l =
     (let n = iq_num_slots (in_q l) in
      zero_triggers (in_q_upd (\<lambda>q. q\<lparr>iq_slot := map_first n flush_slot (iq_slot q), iq_wr_idx := 0, iq_rd_idx := 0\<rparr>)
        (l\<lparr>lk_l_tbl := map (\<lambda>t. t\<lparr>tb_slot := map_first n flush_tbl_slot (tb_slot t)\<rparr>) (lk_l_tbl l),
           lk_eof_event_cnt := 0\<rparr>)))"

definition reset_tbl_slot :: "cam_req_mgr_tbl_slot \<Rightarrow> cam_req_mgr_tbl_slot" where
  "reset_tbl_slot s = s\<lparr>ts_req_ready_map := 0, ts_state := CRM_REQ_STATE_EMPTY,
     ts_inject_delay_at_sof := 0, ts_inject_delay_at_eof := 0,
     ts_ops := \<lparr>so_dev_hdl = - 1, so_apply_at_eof = False, so_is_applied = False\<rparr>\<rparr>"

definition reset_slot :: "cam_req_mgr_slot \<Rightarrow> cam_req_mgr_slot" where
  "reset_slot s = s\<lparr>sl_req_id := - 1, sl_skip_idx := 0, sl_recover := 0, sl_additional_timeout := 0,
     sl_sync_mode := CAM_REQ_MGR_SYNC_MODE_NO_SYNC, sl_status := CRM_SLOT_STATUS_NO_REQ\<rparr>"

definition cam_req_mgr_reset_req_slot :: "int \<Rightarrow> cam_req_mgr_core_link \<Rightarrow> cam_req_mgr_core_link" where
  "cam_req_mgr_reset_req_slot idx l =
     (let q = in_q l in
      if idx < 0 then l
      else if sl_status (elem (iq_slot q) idx) = CRM_SLOT_STATUS_REQ_ADDED \<or> iq_last_applied_idx q = idx then l
      else in_q_upd (slot_upd idx reset_slot)
             (l\<lparr>lk_l_tbl := map (\<lambda>t. t\<lparr>tb_slot := elem_upd idx reset_tbl_slot (tb_slot t)\<rparr>) (lk_l_tbl l)\<rparr>))"

section \<open>Moving to the next request\<close>

definition cam_req_mgr_check_for_lower_pd_devices :: "cam_req_mgr_core_link \<Rightarrow> int" where
  "cam_req_mgr_check_for_lower_pd_devices l =
     (if \<exists>d \<in> set (devs l). di_p_delay (dv_dev_info d) < lk_max_delay l then 0 else - EAGAIN)"

definition cam_req_mgr_check_next_req_slot :: "cam_req_mgr_core_link \<Rightarrow> int \<times> cam_req_mgr_core_link" where
  "cam_req_mgr_check_next_req_slot l =
     (let idx = cam_req_mgr_inc_idx (iq_rd_idx (in_q l)) 1 (iq_num_slots (in_q l));
          l1 = (if sl_status (elem (iq_slot (in_q l)) idx) = CRM_SLOT_STATUS_REQ_APPLIED
                then cam_req_mgr_reset_req_slot idx
                       (if iq_last_applied_idx (in_q l) = idx then in_q_upd (\<lambda>q. q\<lparr>iq_last_applied_idx := - 1\<rparr>) l else l)
                else l)
      in
      if sl_status (elem (iq_slot (in_q l1)) idx) = CRM_SLOT_STATUS_NO_REQ then
        (if cam_req_mgr_check_for_lower_pd_devices l1 \<noteq> 0 then (cam_req_mgr_check_for_lower_pd_devices l1, l1)
         else (0, in_q_upd (\<lambda>q. let q1 = slot_upd idx (\<lambda>s. s\<lparr>sl_status := CRM_SLOT_STATUS_REQ_ADDED\<rparr>)
                                          (cam_req_mgr_in_q_skip_idx idx q)
                                in q1\<lparr>iq_wr_idx := cam_req_mgr_inc_idx (iq_wr_idx q1) 1 (iq_num_slots q1)\<rparr>) l1))
      else (0, l1))"

text \<open>The search goes backwards from the read index.\<close>

fun find_slot_loop :: "cam_req_mgr_req_queue \<Rightarrow> int \<Rightarrow> int \<Rightarrow> nat \<Rightarrow> int" where
  "find_slot_loop q req_id idx 0 = - 1"
| "find_slot_loop q req_id idx (Suc n) =
     (if sl_req_id (elem (iq_slot q) idx) = req_id then idx
      else find_slot_loop q req_id (cam_req_mgr_dec_idx idx 1 (iq_num_slots q)) n)"

definition cam_req_mgr_find_slot_for_req :: "cam_req_mgr_req_queue \<Rightarrow> int \<Rightarrow> int" where
  "cam_req_mgr_find_slot_for_req q req_id = find_slot_loop q req_id (iq_rd_idx q) (nat (iq_num_slots q))"

fun eof_scan :: "int \<Rightarrow> cam_req_mgr_req_tbl list \<Rightarrow> crm_req_eof_trigger_type" where
  "eof_scan idx [] = CAM_REQ_EOF_TRIGGER_NONE"
| "eof_scan idx (t # ts) =
     (let ops = ts_ops (elem (tb_slot t) idx) in
      if so_is_applied ops then CAM_REQ_EOF_TRIGGER_APPLIED
      else if so_apply_at_eof ops then CAM_REQ_EOF_TRIGGER_NOT_APPLY
      else eof_scan (if ts \<noteq> [] then cam_req_mgr_dec_idx idx (tb_pd_delta t) (tb_num_slots t) else idx) ts)"

definition cam_req_mgr_check_for_eof :: "cam_req_mgr_core_link \<Rightarrow> crm_req_eof_trigger_type" where
  "cam_req_mgr_check_for_eof l = eof_scan (iq_rd_idx (in_q l)) (lk_l_tbl l)"

section \<open>Sending requests to the devices\<close>

text \<open>\<open>notify_frame_skip\<close> of one device about the request its delay had last.\<close>

definition skip_one :: "u32 \<Rightarrow> cam_req_mgr_connected_device \<Rightarrow> cam_req_mgr_core_link \<Rightarrow> cam_req_mgr_core_link" where
  "skip_one trigger d l =
     (if has_op ko_notify_frame_skip d
      then crm_emit [Ev_Frame_Skip (dv_dev_hdl d) (ap_req_id (lk_prev_apply_data l (di_p_delay (dv_dev_info d)))) trigger] l
      else l)"

definition nothing_to_apply :: "cam_req_mgr_core_link \<Rightarrow> int \<Rightarrow> bool" where
  "nothing_to_apply l pd \<longleftrightarrow> ap_skip_idx (lk_apply_data l pd) \<noteq> 0 \<or> ap_req_id (lk_apply_data l pd) < 0"

definition req_slot :: "cam_req_mgr_core_link \<Rightarrow> int \<Rightarrow> cam_req_mgr_tbl_slot" where
  "req_slot l pd = dev_slot (lk_l_tbl l) pd (ap_idx (lk_apply_data l pd))"

definition req_slot_ops_upd ::
  "int \<Rightarrow> (crm_tbl_slot_special_ops \<Rightarrow> crm_tbl_slot_special_ops) \<Rightarrow> cam_req_mgr_core_link \<Rightarrow> cam_req_mgr_core_link" where
  "req_slot_ops_upd pd f l = dev_slot_upd pd (ap_idx (lk_apply_data l pd)) (\<lambda>s. s\<lparr>ts_ops := f (ts_ops s)\<rparr>) l"

text \<open>
  The first loop, for the device that asked for a special operation: it goes on, fails with a
  device, or is done for this event.
\<close>

datatype special_result = Sp_Go | Sp_Failed int cam_req_mgr_connected_device | Sp_Done

fun send_special ::
  "crm_env \<Rightarrow> u32 \<Rightarrow> bool \<Rightarrow> cam_req_mgr_connected_device list \<Rightarrow> cam_req_mgr_core_link \<Rightarrow> special_result \<times> cam_req_mgr_core_link" where
  "send_special env trigger re_apply [] l = (Sp_Go, l)"
| "send_special env trigger re_apply (d # ds) l =
     (let pd = di_p_delay (dv_dev_info d); ops = ts_ops (req_slot l pd); req = ap_req_id (lk_apply_data l pd) in
      if pd \<ge> CAM_PIPELINE_DELAY_MAX \<or> so_dev_hdl ops < 0 \<or> dv_dev_hdl d \<noteq> so_dev_hdl ops
      then send_special env trigger re_apply ds l
      else if nothing_to_apply l pd then send_special env trigger re_apply ds (skip_one trigger d l)
      else if trigger = CAM_TRIGGER_POINT_SOF \<and> so_apply_at_eof ops then (Sp_Go, l)
      else if trigger = CAM_TRIGGER_POINT_EOF \<and> \<not> so_apply_at_eof ops then (Sp_Go, l)
      else if has_op ko_apply_req d \<and> \<not> so_is_applied ops then
        (let rc = ce_apply_req env (dv_dev_hdl d) req;
             l1 = crm_emit [Ev_Apply (dv_dev_hdl d) req trigger 0 re_apply] l
         in
         if rc \<noteq> 0 then (Sp_Failed rc d, cam_req_mgr_notify_frame_skip trigger l1)
         else if trigger = CAM_TRIGGER_POINT_EOF \<and> so_apply_at_eof ops then
           (Sp_Done, (req_slot_ops_upd pd (\<lambda>p. p\<lparr>so_is_applied := True, so_apply_at_eof := False\<rparr>) l1)
              \<lparr>lk_eof_event_cnt := (if lk_eof_event_cnt l1 > 0 then lk_eof_event_cnt l1 - 1 else lk_eof_event_cnt l1)\<rparr>)
         else send_special env trigger re_apply ds l1)
      else (Sp_Go, l))"

text \<open>
  The second loop. \<open>rc\<close> and \<open>re_apply\<close> are the variables of the code, which keep their value
  from one device to the next; \<open>visited\<close> are the devices up to the current one, last first. The
  result has the return code, the device that failed with its request and the devices to be
  told, and whether the smallest delay got a request.
\<close>

record send_result =
  sr_rc :: int
  sr_failed :: "(cam_req_mgr_connected_device \<times> int \<times> cam_req_mgr_connected_device list) option"
  sr_min_pd :: bool

fun send_regular ::
  "crm_env \<Rightarrow> u32 \<Rightarrow> bool \<Rightarrow> int \<Rightarrow> bool \<Rightarrow> cam_req_mgr_connected_device list \<Rightarrow> cam_req_mgr_connected_device list \<Rightarrow>
     cam_req_mgr_core_link \<Rightarrow> send_result \<times> cam_req_mgr_core_link" where
  "send_regular env trigger re_apply rc min_pd visited [] l = (\<lparr>sr_rc = rc, sr_failed = None, sr_min_pd = min_pd\<rparr>, l)"
| "send_regular env trigger re_apply rc min_pd visited (d # ds) l =
     (let pd = di_p_delay (dv_dev_info d); hdl = dv_dev_hdl d; req = ap_req_id (lk_apply_data l pd);
          ops = ts_ops (req_slot l pd)
      in
      if pd \<ge> CAM_PIPELINE_DELAY_MAX \<or> di_trigger (dv_dev_info d) AND trigger = 0
      then send_regular env trigger re_apply rc min_pd (d # visited) ds l
      else if nothing_to_apply l pd
      then send_regular env trigger re_apply rc min_pd (d # visited) ds (skip_one trigger d l)
      else
        let report = sl_recover (elem (iq_slot (in_q l)) (ap_idx (lk_apply_data l pd)));
            re_apply1 = (re_apply \<or> (lk_retry_cnt l > 0 \<and> report = 0 \<and> lk_dual_trigger l))
        in
        if so_dev_hdl ops = hdl \<and> so_is_applied ops
        then send_regular env trigger re_apply1 rc min_pd (d # visited) ds
               (req_slot_ops_upd pd (\<lambda>p. p\<lparr>so_is_applied := False\<rparr>) l)
        else if trigger = CAM_TRIGGER_POINT_SOF \<and> hdl = so_dev_hdl ops \<and> so_apply_at_eof ops
        then send_regular env trigger re_apply1 rc min_pd (d # visited) ds l
        else if trigger = CAM_TRIGGER_POINT_EOF \<and> hdl = so_dev_hdl ops \<and> \<not> so_apply_at_eof ops
        then send_regular env trigger re_apply1 rc min_pd (d # visited) ds l
        else if has_op ko_apply_req d then
          (let rc1 = ce_apply_req env hdl req;
               l1 = crm_emit [Ev_Apply hdl req trigger report re_apply1] l
           in
           if rc1 < 0 then (\<lparr>sr_rc = rc1, sr_failed = Some (d, req, d # visited), sr_min_pd = min_pd\<rparr>, l1)
           else send_regular env trigger re_apply1 rc1 (min_pd \<or> pd = lk_min_delay l) (d # visited) ds l1)
        else send_regular env trigger re_apply1 rc (min_pd \<or> pd = lk_min_delay l) (d # visited) ds l)"

text \<open>The result is the return code, the device that failed, and the link.\<close>

definition cam_req_mgr_send_req ::
  "crm_env \<Rightarrow> u32 \<Rightarrow> cam_req_mgr_core_link \<Rightarrow> int \<times> cam_req_mgr_connected_device option \<times> cam_req_mgr_core_link" where
  "cam_req_mgr_send_req env trigger l =
     (let re_apply = (lk_retry_cnt l > 0 \<and> ce_recovery_on_apply_fail env);
          (sp, l1) = send_special env trigger re_apply (devs l) l
      in
      (case sp of
        Sp_Failed rc d \<Rightarrow> (rc, Some d, l1)
      | Sp_Done \<Rightarrow> (0, None, l1)
      | Sp_Go \<Rightarrow>
          (let (r, l2) = send_regular env trigger re_apply 0 False [] (devs l) l1 in
          (case sr_failed r of
            Some (d, req, told) \<Rightarrow>
              (sr_rc r, Some d, cam_req_mgr_notify_frame_skip trigger
                 (crm_emit (map (\<lambda>v. Ev_Link_Evt (dv_dev_hdl v) CAM_REQ_MGR_LINK_EVT_ERR req CRM_KMD_ERR_BUBBLE)
                              (filter (has_op ko_process_evt) told)) l2))
          | None \<Rightarrow>
              (sr_rc r, None, l2\<lparr>lk_prev_apply_data := lk_apply_data l2,
                 lk_open_req_cnt := (if sr_min_pd r then lk_open_req_cnt l2 - 1 else lk_open_req_cnt l2)\<rparr>)))))"

section \<open>Building the tables of a link\<close>

fun insert_pd_tbl :: "cam_req_mgr_req_tbl \<Rightarrow> cam_req_mgr_req_tbl \<Rightarrow> cam_req_mgr_req_tbl list \<Rightarrow> cam_req_mgr_req_tbl list" where
  "insert_pd_tbl n t [] = [t\<lparr>tb_pd_delta := tb_pd t - tb_pd n\<rparr>, n\<lparr>tb_pd_delta := 0\<rparr>]"
| "insert_pd_tbl n t (u # us) =
     (if tb_pd n < tb_pd u then t # insert_pd_tbl n u us
      else t\<lparr>tb_pd_delta := tb_pd t - tb_pd n\<rparr> # n\<lparr>tb_pd_delta := tb_pd n - tb_pd u\<rparr> # u # us)"

definition cam_req_mgr_add_tbl_to_link :: "cam_req_mgr_req_tbl \<Rightarrow> cam_req_mgr_req_tbl list \<Rightarrow> cam_req_mgr_req_tbl list" where
  "cam_req_mgr_add_tbl_to_link n ts =
     (case ts of
        [] \<Rightarrow> [n]
      | t # us \<Rightarrow>
          if tb_pd t < tb_pd n then n\<lparr>tb_pd_delta := tb_pd n - tb_pd t\<rparr> # ts
          else insert_pd_tbl n t us)"

definition zero_tbl_slot :: cam_req_mgr_tbl_slot where
  "zero_tbl_slot = \<lparr>ts_req_ready_map = 0, ts_state = CRM_REQ_STATE_EMPTY, ts_inject_delay_at_sof = 0,
     ts_inject_delay_at_eof = 0, ts_ops = \<lparr>so_dev_hdl = - 1, so_apply_at_eof = False, so_is_applied = False\<rparr>\<rparr>"

text \<open>The \<open>pd\<close> of the new table is set by the caller; \<open>mem\<close> says whether the allocation succeeds.\<close>

definition cam_req_mgr_create_pd_tbl :: "bool \<Rightarrow> cam_req_mgr_req_tbl option" where
  "cam_req_mgr_create_pd_tbl mem =
     (if mem then Some \<lparr>tb_id = 0, tb_pd = 0, tb_dev_count = 0, tb_dev_mask = 0, tb_skip_traverse = 0, tb_pd_delta = 0,
        tb_num_slots = int MAX_REQ_SLOTS, tb_slot = replicate MAX_REQ_SLOTS zero_tbl_slot\<rparr>
      else None)"

definition cam_req_mgr_setup_in_q :: "cam_req_mgr_core_link \<Rightarrow> int \<times> cam_req_mgr_core_link" where
  "cam_req_mgr_setup_in_q l =
     (case lk_in_q l of
        None \<Rightarrow> (- EINVAL, l)
      | Some q \<Rightarrow>
          (0, l\<lparr>lk_in_q := Some (q\<lparr>iq_num_slots := int MAX_REQ_SLOTS,
                iq_slot := map (\<lambda>i. (iq_slot q ! i)\<lparr>sl_idx := int i, sl_req_id := - 1, sl_skip_idx := 0,
                   sl_status := CRM_SLOT_STATUS_NO_REQ\<rparr>) [0..<MAX_REQ_SLOTS],
                iq_wr_idx := 0, iq_rd_idx := 0\<rparr>)\<rparr>))"

definition zero_slot :: cam_req_mgr_slot where
  "zero_slot = \<lparr>sl_idx = 0, sl_skip_idx = 0, sl_status = CRM_SLOT_STATUS_NO_REQ, sl_recover = 0, sl_req_id = 0,
     sl_sync_mode = 0, sl_additional_timeout = 0\<rparr>"

definition cam_req_mgr_reset_in_q :: "cam_req_mgr_core_link \<Rightarrow> int \<times> cam_req_mgr_core_link" where
  "cam_req_mgr_reset_in_q l =
     (case lk_in_q l of
        None \<Rightarrow> (- EINVAL, l)
      | Some q \<Rightarrow> (0, l\<lparr>lk_in_q := Some (q\<lparr>iq_slot := map_first (iq_num_slots q) (\<lambda>_. zero_slot) (iq_slot q),
                iq_num_slots := 0, iq_wr_idx := 0, iq_rd_idx := 0\<rparr>)\<rparr>))"

definition cam_req_mgr_reset_apply_data :: "cam_req_mgr_core_link \<Rightarrow> cam_req_mgr_core_link" where
  "cam_req_mgr_reset_apply_data l =
     (let clear = (\<lambda>f. \<lambda>pd. if 0 \<le> pd \<and> pd < CAM_PIPELINE_DELAY_MAX then (f pd)\<lparr>ap_req_id := - 1\<rparr> else f pd)
      in l\<lparr>lk_apply_data := clear (lk_apply_data l), lk_prev_apply_data := clear (lk_prev_apply_data l)\<rparr>)"

end
