(* ===== verification/Crm_Task.thy ===== *)
theory Crm_Task imports Crm_Core begin

text \<open>
  The camera request manager, second part of \<open>cam_req_mgr_core.c\<close>: the checks between
  synchronised links, the processing of a trigger, and the tasks the work queue runs for a link
  (schedule, add, trigger, error, flush, stop, freeze). The links are the array \<open>g_links\<close>, a
  pointer to a link is an index into it; a session is known by its index.
\<close>

abbreviation DEFAULT_FRAME_DURATION :: u64 where "DEFAULT_FRAME_DURATION \<equiv> 33333333"
abbreviation INITIAL_IN_SYNC_REQ :: int where "INITIAL_IN_SYNC_REQ \<equiv> 5"
abbreviation MINIMUM_WORKQUEUE_SCHED_TIME_IN_MS :: u32 where "MINIMUM_WORKQUEUE_SCHED_TIME_IN_MS \<equiv> 5"

type_synonym links = "cam_req_mgr_core_link list"

definition link_upd :: "nat \<Rightarrow> (cam_req_mgr_core_link \<Rightarrow> cam_req_mgr_core_link) \<Rightarrow> links \<Rightarrow> links" where
  "link_upd k f gs = gs[k := f (gs ! k)]"

text \<open>An operation on one link, as an operation on the array.\<close>

definition on_link :: "nat \<Rightarrow> (cam_req_mgr_core_link \<Rightarrow> int \<times> cam_req_mgr_core_link) \<Rightarrow> links \<Rightarrow> int \<times> links" where
  "on_link k f gs = (let (rc, l) = f (gs ! k) in (rc, gs[k := l]))"

section \<open>Synchronised links\<close>

definition req_id_at :: "cam_req_mgr_core_link \<Rightarrow> int \<Rightarrow> int" where
  "req_id_at l idx = sl_req_id (elem (iq_slot (in_q l)) idx)"

definition status_at :: "cam_req_mgr_core_link \<Rightarrow> int \<Rightarrow> crm_slot_status" where
  "status_at l idx = sl_status (elem (iq_slot (in_q l)) idx)"

text \<open>The difference of two delays is computed in unsigned arithmetic.\<close>

definition delay_diff :: "cam_req_mgr_core_link \<Rightarrow> cam_req_mgr_core_link \<Rightarrow> u32" where
  "delay_diff l s = word_of_int (lk_max_delay l) - word_of_int (lk_max_delay s)"

definition skip_sof :: "nat \<Rightarrow> links \<Rightarrow> links" where
  "skip_sof k = link_upd k (\<lambda>l. l\<lparr>lk_sync_link_sof_skip := True\<rparr>)"

text \<open>
  The part the two branches of \<open>__cam_req_mgr_check_sync_for_mslave\<close> share: the request
  \<open>sync_req_id\<close> on the other link \<open>j\<close> has to be there, next, and ready.
\<close>

definition mslave_other_ready :: "nat \<Rightarrow> nat \<Rightarrow> int \<Rightarrow> links \<Rightarrow> int \<times> links" where
  "mslave_other_ready k j sync_req_id gs =
     (let s = gs ! j; q = in_q s in
      if lk_initial_sync_req s \<noteq> - 1 \<and> lk_initial_sync_req s \<le> sync_req_id then
        (let sync_slot_idx = cam_req_mgr_find_slot_for_req q sync_req_id in
         if sync_slot_idx = - 1 then (- EINVAL, skip_sof k gs)
         else if status_at s sync_slot_idx \<noteq> CRM_SLOT_STATUS_REQ_APPLIED \<and>
           (sync_slot_idx - iq_rd_idx q + iq_num_slots q) mod iq_num_slots q \<ge> 1 \<and>
           status_at s (iq_rd_idx q) \<noteq> CRM_SLOT_STATUS_REQ_APPLIED
         then (- EINVAL, gs)
         else
           let (rc, gs1) = on_link j (cam_req_mgr_check_link_is_ready sync_slot_idx True) gs in
           if rc \<noteq> 0 \<and> status_at (gs1 ! j) sync_slot_idx \<noteq> CRM_SLOT_STATUS_REQ_APPLIED
           then (rc, skip_sof k gs1) else (0, gs1))
      else (0, gs))"

definition cam_req_mgr_check_sync_for_mslave :: "nat \<Rightarrow> nat \<Rightarrow> cam_req_mgr_slot \<Rightarrow> links \<Rightarrow> int \<times> links" where
  "cam_req_mgr_check_sync_for_mslave k j slot gs =
     (let l = gs ! k; s = gs ! j in
      if lk_in_q s = None then (- EINVAL, gs)
      else if lk_sync_link_sof_skip s
      then (- EAGAIN, link_upd j (\<lambda>s. s\<lparr>lk_sync_link_sof_skip := False\<rparr>) gs)
      else if lk_in_msync_mode l \<and> lk_in_msync_mode s \<and>
        sl_req_id slot - req_id_at s (iq_rd_idx (in_q s)) > uint (delay_diff l s)
      then (- EINVAL, gs)
      else if lk_is_master l then
        (if lk_initial_skip s then (- EAGAIN, gs)
         else
           let (rc, gs1) = on_link k (cam_req_mgr_check_link_is_ready (sl_idx slot) True) gs in
           if rc \<noteq> 0 then (rc, skip_sof k gs1)
           else
             mslave_other_ready k j
               (req_id_at (gs1 ! k) (cam_req_mgr_dec_idx (sl_idx slot) (lk_max_delay l - lk_max_delay s)
                  (iq_num_slots (in_q l)))) gs1)
      else
        let (rc, gs1) = on_link k (cam_req_mgr_check_link_is_ready (sl_idx slot) True)
              (link_upd k (\<lambda>l. l\<lparr>lk_initial_skip := False\<rparr>) gs) in
        if rc \<noteq> 0 then (rc, skip_sof k gs1)
        else
          mslave_other_ready k j
            (req_id_at (gs1 ! k) (cam_req_mgr_inc_idx (iq_rd_idx (in_q l)) (lk_max_delay s - lk_max_delay l)
               (iq_num_slots (in_q l)))) gs1)"

definition sync_frame_duration :: "cam_req_mgr_core_link \<Rightarrow> u64" where
  "sync_frame_duration s =
     (if lk_prev_sof_timestamp s \<noteq> 0 then lk_sof_timestamp s - lk_prev_sof_timestamp s else DEFAULT_FRAME_DURATION)"

text \<open>The self-correction at the end of \<open>__cam_req_mgr_check_sync_req_is_ready\<close>.\<close>

definition sync_correction :: "nat \<Rightarrow> nat \<Rightarrow> cam_req_mgr_slot \<Rightarrow> u32 \<Rightarrow> int \<Rightarrow> links \<Rightarrow> int \<times> links" where
  "sync_correction k j slot trigger sync_slot_idx gs =
     (let l = gs ! k; s = gs ! j; rd = elem (iq_slot (in_q s)) (iq_rd_idx (in_q s));
          delta = (if lk_sof_timestamp l \<ge> lk_sof_timestamp s then lk_sof_timestamp l - lk_sof_timestamp s
                   else lk_sof_timestamp s - lk_sof_timestamp l)
      in
      if trigger = CAM_TRIGGER_POINT_SOF \<and> lk_sof_timestamp s > 0 \<and> delta < sync_frame_duration s div 5 \<and>
         sl_sync_mode rd = CAM_REQ_MGR_SYNC_MODE_SYNC \<and> sl_req_id slot \<ge> lk_initial_sync_req l \<and>
         sl_req_id slot - lk_initial_sync_req l \<ge> INITIAL_IN_SYNC_REQ + lk_max_delay l
      then
        (if sl_req_id slot > sl_req_id rd then (- EAGAIN, gs)
         else if sl_req_id slot < sl_req_id rd then (0, skip_sof k gs)
         else if status_at s sync_slot_idx \<noteq> CRM_SLOT_STATUS_REQ_APPLIED then (- EAGAIN, gs)
         else (0, gs))
      else (0, gs))"

text \<open>The two readiness checks and the decision on a disagreement.\<close>

definition sync_both_ready :: "nat \<Rightarrow> nat \<Rightarrow> cam_req_mgr_slot \<Rightarrow> u32 \<Rightarrow> int \<Rightarrow> links \<Rightarrow> int \<times> links" where
  "sync_both_ready k j slot trigger sync_slot_idx gs =
     (let (rc1, gs1) = on_link k (cam_req_mgr_check_link_is_ready (sl_idx slot) True) gs;
          (rc2, gs2) = on_link j (cam_req_mgr_check_link_is_ready sync_slot_idx True) gs1;
          ready = (rc1 = 0);
          sync_ready = (\<not> (rc2 \<noteq> 0 \<and> status_at (gs2 ! j) sync_slot_idx \<noteq> CRM_SLOT_STATUS_REQ_APPLIED))
      in
      if sync_ready \<noteq> ready then
        (- EINVAL, if lk_sof_timestamp (gs2 ! k) - lk_sof_timestamp (gs2 ! j) > sync_frame_duration (gs2 ! j) div 2
                   then skip_sof k gs2 else gs2)
      else if \<not> ready then (- EINVAL, gs2)
      else sync_correction k j slot trigger sync_slot_idx gs2)"

definition cam_req_mgr_check_sync_req_is_ready :: "nat \<Rightarrow> nat \<Rightarrow> cam_req_mgr_slot \<Rightarrow> u32 \<Rightarrow> links \<Rightarrow> int \<times> links" where
  "cam_req_mgr_check_sync_req_is_ready k j slot trigger gs =
     (let l = gs ! k; s = gs ! j; noskip = link_upd k (\<lambda>l. l\<lparr>lk_initial_skip := False\<rparr>) in
      if lk_in_q s = None then (- EINVAL, gs)
      else if lk_initial_skip s then (- EAGAIN, noskip gs)
      else if lk_initial_skip l \<and>
        (lk_sof_timestamp l > lk_sof_timestamp s \<and> lk_sof_timestamp s > 0 \<and>
           lk_sof_timestamp l - lk_sof_timestamp s < sync_frame_duration s div 2 \<or>
         lk_sof_timestamp l \<le> lk_sof_timestamp s)
      then (- EAGAIN, noskip gs)
      else
        let gs1 = (if lk_initial_skip l then noskip gs else gs) in
        if lk_sync_link_sof_skip (gs1 ! j)
        then (- EAGAIN, link_upd j (\<lambda>s. s\<lparr>lk_sync_link_sof_skip := False\<rparr>) gs1)
        else
          let q = in_q (gs1 ! j);
              sync_slot_idx = cam_req_mgr_find_slot_for_req q (sl_req_id slot);
              diff = (sync_slot_idx - iq_rd_idx q + iq_num_slots q) mod iq_num_slots q
          in
          if sync_slot_idx = - 1 then (- EAGAIN, gs1)
          else if status_at (gs1 ! j) sync_slot_idx \<noteq> CRM_SLOT_STATUS_REQ_APPLIED \<and>
            (diff > 1 \<or> diff = 1 \<and> status_at (gs1 ! j) (iq_rd_idx q) \<noteq> CRM_SLOT_STATUS_REQ_APPLIED)
          then (- EAGAIN, gs1)
          else sync_both_ready k j slot trigger sync_slot_idx gs1)"

text \<open>The loop over the synchronised links.\<close>

fun sync_links_ready :: "nat \<Rightarrow> cam_req_mgr_slot \<Rightarrow> u32 \<Rightarrow> nat option list \<Rightarrow> links \<Rightarrow> int \<times> links" where
  "sync_links_ready k slot trigger [] gs = (0, gs)"
| "sync_links_ready k slot trigger (None # js) gs = (- EINVAL, gs)"
| "sync_links_ready k slot trigger (Some j # js) gs =
     (if lk_state (gs ! j) = CAM_CRM_LINK_STATE_IDLE then (- EINVAL, gs)
      else
        let master = (\<lambda>b. link_upd j (\<lambda>s. s\<lparr>lk_is_master := \<not> b\<rparr>) (link_upd k (\<lambda>l. l\<lparr>lk_is_master := b\<rparr>) gs));
            (rc, gs1) =
              (if lk_max_delay (gs ! k) = lk_max_delay (gs ! j)
               then cam_req_mgr_check_sync_req_is_ready k j slot trigger gs
               else if lk_max_delay (gs ! k) > lk_max_delay (gs ! j)
               then cam_req_mgr_check_sync_for_mslave k j slot (master True)
               else cam_req_mgr_check_sync_for_mslave k j slot (master False))
        in
        if rc < 0 then (rc, gs1) else sync_links_ready k slot trigger js gs1)"

definition inject_delay :: "int \<Rightarrow> u32 \<Rightarrow> cam_req_mgr_core_link \<Rightarrow> int \<times> cam_req_mgr_core_link" where
  "inject_delay idx trigger l =
     (let (rc, ts) = cam_req_mgr_inject_delay (lk_l_tbl l) idx trigger in (rc, l\<lparr>lk_l_tbl := ts\<rparr>))"

definition sync_links :: "cam_req_mgr_core_link \<Rightarrow> nat option list" where
  "sync_links l = take (lk_num_sync_links l) (lk_sync_link l)"

definition cam_req_mgr_check_multi_sync_link_ready :: "nat \<Rightarrow> cam_req_mgr_slot \<Rightarrow> u32 \<Rightarrow> links \<Rightarrow> int \<times> links" where
  "cam_req_mgr_check_multi_sync_link_ready k slot trigger gs =
     (if lk_state (gs ! k) = CAM_CRM_LINK_STATE_IDLE then (- EINVAL, gs)
      else
        let (rc, gs1) = sync_links_ready k slot trigger (sync_links (gs ! k)) gs in
        if rc < 0 then (rc, gs1)
        else
          let (rc, gs2) = on_link k (inject_delay (sl_idx slot) trigger) gs1 in
          if rc < 0 then (- EINVAL, gs2)
          else (0, snd (on_link k (cam_req_mgr_check_link_is_ready (sl_idx slot) False) gs2)))"

section \<open>Processing a trigger\<close>

record cam_req_mgr_trigger_notify =
  tn_trigger :: u32
  tn_sof_timestamp_val :: u64
  tn_req_id :: int

text \<open>Leaving the master-slave mode: this link and all it is synchronised with.\<close>

definition leave_msync :: "nat \<Rightarrow> links \<Rightarrow> links" where
  "leave_msync k gs =
     (if lk_in_msync_mode (gs ! k)
      then fold (\<lambda>s. case s of None \<Rightarrow> id
                     | Some j \<Rightarrow> link_upd j (\<lambda>l. l\<lparr>lk_initial_sync_req := - 1, lk_in_msync_mode := False\<rparr>))
             (sync_links (gs ! k)) (link_upd k (\<lambda>l. l\<lparr>lk_in_msync_mode := False, lk_initial_sync_req := - 1\<rparr>) gs)
      else gs)"

text \<open>How far behind the read index a slot is given up: the largest delay that still needs it.\<close>

definition reset_step :: "nat \<Rightarrow> links \<Rightarrow> int" where
  "reset_step k gs =
     fold (\<lambda>s r. case s of None \<Rightarrow> r
             | Some j \<Rightarrow> if lk_in_msync_mode (gs ! k) \<and> lk_max_delay (gs ! j) > r then lk_max_delay (gs ! j) else r)
       (sync_links (gs ! k)) (lk_max_delay (gs ! k))"

definition rd_slot :: "cam_req_mgr_core_link \<Rightarrow> cam_req_mgr_slot" where
  "rd_slot l = elem (iq_slot (in_q l)) (iq_rd_idx (in_q l))"

definition set_rd_status :: "crm_slot_status \<Rightarrow> cam_req_mgr_core_link \<Rightarrow> cam_req_mgr_core_link" where
  "set_rd_status st l = in_q_upd (slot_upd (iq_rd_idx (in_q l)) (\<lambda>s. s\<lparr>sl_status := st\<rparr>)) l"

text \<open>Whether the request at the read index can be applied at this trigger.\<close>

definition req_ready :: "nat \<Rightarrow> cam_req_mgr_slot \<Rightarrow> u32 \<Rightarrow> links \<Rightarrow> int \<times> links" where
  "req_ready k slot trigger gs =
     (if sl_sync_mode slot = CAM_REQ_MGR_SYNC_MODE_SYNC then cam_req_mgr_check_multi_sync_link_ready k slot trigger gs
      else
        let (rc, gs1) = on_link k (cam_req_mgr_check_link_is_ready (sl_idx slot) True) (leave_msync k gs) in
        if rc \<noteq> 0 then (rc, gs1)
        else
          let (rc, gs2) = on_link k (inject_delay (sl_idx slot) trigger) gs1 in
          if rc \<noteq> 0 then (rc, gs2) else on_link k (cam_req_mgr_check_link_is_ready (sl_idx slot) False) gs2)"

text \<open>The two outcomes of \<open>__cam_req_mgr_send_req\<close> in \<open>__cam_req_mgr_process_req\<close>.\<close>

definition apply_failed :: "crm_env \<Rightarrow> cam_req_mgr_connected_device option \<Rightarrow> cam_req_mgr_core_link \<Rightarrow> cam_req_mgr_core_link" where
  "apply_failed env dev l =
     (let l1 = set_rd_status CRM_SLOT_STATUS_REQ_PENDING l;
          max_retry = (if lk_max_delay l = 1 then MAXIMUM_RETRY_ATTEMPTS + 1 else MAXIMUM_RETRY_ATTEMPTS)
      in
      case dev of
        Some d \<Rightarrow>
          if \<not> lk_wq_congestion l then
            (let l2 = l1\<lparr>lk_retry_cnt := lk_retry_cnt l1 + 1\<rparr> in
             if lk_retry_cnt l2 = max_retry
             then (snd (cam_req_mgr_notify_error_on_link env d l2))\<lparr>lk_retry_cnt := 0\<rparr>
             else l2)
          else l1
      | None \<Rightarrow> l1)"

definition apply_done :: "nat \<Rightarrow> u32 \<Rightarrow> crm_req_eof_trigger_type \<Rightarrow> links \<Rightarrow> links" where
  "apply_done k trigger eof gs =
     (let gs1 = link_upd k (\<lambda>l.
          let l1 = cam_req_mgr_validate_crm_wd_timer (l\<lparr>lk_retry_cnt := 0\<rparr>) in
          l1\<lparr>lk_state := (if lk_state l1 = CAM_CRM_LINK_STATE_ERR then CAM_CRM_LINK_STATE_READY else lk_state l1),
             lk_sync_link_sof_skip := False\<rparr>) gs
      in
      if (eof = CAM_REQ_EOF_TRIGGER_NONE \<or> eof = CAM_REQ_EOF_TRIGGER_APPLIED) \<and> trigger = CAM_TRIGGER_POINT_SOF
      then
        link_upd k (\<lambda>l.
          let l1 = set_rd_status CRM_SLOT_STATUS_REQ_APPLIED l; idx = iq_rd_idx (in_q l1);
              l2 = (if sl_req_id (rd_slot l1) > 0 then in_q_upd (\<lambda>q. q\<lparr>iq_last_applied_idx := idx\<rparr>) l1 else l1)
          in cam_req_mgr_reset_req_slot
               (cam_req_mgr_dec_idx idx (reset_step k gs1 + 1) (iq_num_slots (in_q l2))) l2) gs1
      else gs1)"

definition process_send :: "crm_env \<Rightarrow> nat \<Rightarrow> u32 \<Rightarrow> crm_req_eof_trigger_type \<Rightarrow> links \<Rightarrow> int \<times> links" where
  "process_send env k trigger eof gs =
     (let (rc, dev, l) = cam_req_mgr_send_req env trigger (gs ! k) in
      if rc < 0 then (rc, gs[k := apply_failed env dev l]) else (rc, apply_done k trigger eof (gs[k := l])))"

text \<open>The slot at the read index is not ready or may not be applied at this trigger.\<close>

definition process_not_ready :: "int \<Rightarrow> u32 \<Rightarrow> cam_req_mgr_core_link \<Rightarrow> int \<times> cam_req_mgr_core_link" where
  "process_not_ready rc trigger l =
     (if lk_state l = CAM_CRM_LINK_STATE_ERR then - EPERM else rc,
      cam_req_mgr_validate_crm_wd_timer
        (cam_req_mgr_notify_frame_skip trigger (set_rd_status CRM_SLOT_STATUS_REQ_PENDING l)))"

definition sof_bookkeeping :: "crm_env \<Rightarrow> cam_req_mgr_trigger_notify \<Rightarrow> cam_req_mgr_core_link \<Rightarrow> cam_req_mgr_core_link" where
  "sof_bookkeeping env td l =
     l\<lparr>lk_prev_sof_timestamp := lk_sof_timestamp l, lk_sof_timestamp := tn_sof_timestamp_val td,
       lk_wq_congestion := (ce_jiffies_to_msecs env (ce_jiffies env - lk_last_sof_trigger_jiffies l)
          < MINIMUM_WORKQUEUE_SCHED_TIME_IN_MS)\<rparr>"

definition process_body :: "crm_env \<Rightarrow> nat \<Rightarrow> cam_req_mgr_trigger_notify \<Rightarrow> links \<Rightarrow> int \<times> links" where
  "process_body env k td gs =
     (let trigger = tn_trigger td; eof = cam_req_mgr_check_for_eof (gs ! k); sof = (trigger = CAM_TRIGGER_POINT_SOF) in
      if trigger \<noteq> CAM_TRIGGER_POINT_SOF \<and> trigger \<noteq> CAM_TRIGGER_POINT_EOF then (0, gs)
      else if trigger = CAM_TRIGGER_POINT_EOF \<and> eof = CAM_REQ_EOF_TRIGGER_NONE then (0, gs)
      else if sof \<and> sl_status (rd_slot (gs ! k)) = CRM_SLOT_STATUS_NO_REQ
      then (0, link_upd k (cam_req_mgr_notify_frame_skip trigger) gs)
      else
        let gs1 = (if sof then link_upd k (sof_bookkeeping env td) gs else gs);
            slot = rd_slot (gs1 ! k)
        in
        if sl_status slot = CRM_SLOT_STATUS_REQ_READY then process_send env k trigger eof gs1
        else
          let (rc0, gs2) = req_ready k slot trigger gs1;
              rc = (if rc0 = 0 \<and> sof \<and> eof = CAM_REQ_EOF_TRIGGER_NOT_APPLY then - EAGAIN else rc0)
          in
          if rc < 0 then on_link k (process_not_ready rc trigger) gs2
          else process_send env k trigger eof (link_upd k (set_rd_status CRM_SLOT_STATUS_REQ_READY) gs2))"

definition cam_req_mgr_process_req :: "crm_env \<Rightarrow> nat \<Rightarrow> cam_req_mgr_trigger_notify \<Rightarrow> links \<Rightarrow> int \<times> links" where
  "cam_req_mgr_process_req env k td gs =
     (if lk_parent (gs ! k) = None then (- EINVAL, gs)
      else if lk_state (gs ! k) = CAM_CRM_LINK_STATE_IDLE then (- EPERM, gs)
      else
        let (rc, gs1) = process_body env k td gs in
        (rc, if tn_trigger td = CAM_TRIGGER_POINT_SOF
             then link_upd k (\<lambda>l. l\<lparr>lk_last_sof_trigger_jiffies := ce_jiffies env\<rparr>) gs1 else gs1))"

section \<open>Tasks of the work queue\<close>

abbreviation CAM_REQ_MGR_FLUSH_TYPE_ALL :: int where "CAM_REQ_MGR_FLUSH_TYPE_ALL \<equiv> 0"
abbreviation CAM_REQ_MGR_FLUSH_TYPE_CANCEL_REQ :: int where "CAM_REQ_MGR_FLUSH_TYPE_CANCEL_REQ \<equiv> 1"
abbreviation CAM_REQ_MGR_DEVICE_IFE :: nat where "CAM_REQ_MGR_DEVICE_IFE \<equiv> 4"

record cam_req_mgr_flush_info =
  fl_flush_type :: int
  fl_req_id :: int

record cam_req_mgr_sched_request =
  sq_req_id :: int
  sq_sync_mode :: int
  sq_bubble_enable :: int
  sq_additional_timeout :: int

record cam_req_mgr_add_request =
  ad_dev_hdl :: int
  ad_req_id :: int
  ad_skip_at_sof :: u32
  ad_skip_at_eof :: u32
  ad_trigger_eof :: bool

record cam_req_mgr_error_notify =
  er_req_id :: int
  er_trigger :: u32
  er_sof_timestamp_val :: u64
  er_error :: crm_device_error

definition cam_req_mgr_flush_dev_with_max_pd ::
  "cam_req_mgr_flush_info \<Rightarrow> int \<Rightarrow> cam_req_mgr_core_link \<Rightarrow> cam_req_mgr_core_link" where
  "cam_req_mgr_flush_dev_with_max_pd fi max_pd l =
     crm_emit (map (\<lambda>d. Ev_Flush (dv_dev_hdl d) (fl_req_id fi) (fl_flush_type fi))
       (filter (\<lambda>d. di_p_delay (dv_dev_info d) \<le> max_pd \<and> has_op ko_flush_req d) (devs l))) l"

fun find_dev_pd :: "nat \<Rightarrow> cam_req_mgr_connected_device list \<Rightarrow> int" where
  "find_dev_pd dev_id [] = - ENODEV"
| "find_dev_pd dev_id (d # ds) =
     (if di_dev_id (dv_dev_info d) = dev_id then di_p_delay (dv_dev_info d) else find_dev_pd dev_id ds)"

definition cam_req_mgr_get_dev_pd :: "cam_req_mgr_core_link \<Rightarrow> nat \<Rightarrow> int" where
  "cam_req_mgr_get_dev_pd l dev_id = find_dev_pd dev_id (devs l)"

text \<open>The highest delay whose devices have not been given the request yet.\<close>

function cancel_pd :: "(int \<Rightarrow> cam_req_mgr_apply) \<Rightarrow> int \<Rightarrow> int \<Rightarrow> int \<Rightarrow> int" where
  "cancel_pd prev req_id max_delay pd =
     (if pd + 1 \<le> max_delay \<and> \<not> req_id \<le> ap_req_id (prev (pd + 1)) then cancel_pd prev req_id max_delay (pd + 1) else pd)"
  by pat_completeness auto
termination
  by (relation "measure (\<lambda>(prev, req_id, max_delay, pd). nat (max_delay - pd))") auto

declare cancel_pd.simps [simp del]

text \<open>Dropping the slot from the queue, the devices below \<open>pd\<close> told.\<close>

definition cancel_slot :: "cam_req_mgr_flush_info \<Rightarrow> int \<Rightarrow> int \<Rightarrow> cam_req_mgr_core_link \<Rightarrow> cam_req_mgr_core_link" where
  "cancel_slot fi idx pd l =
     (let l1 = cam_req_mgr_flush_dev_with_max_pd fi pd
            (in_q_upd (\<lambda>q. cam_req_mgr_in_q_skip_idx idx (slot_upd idx (\<lambda>s. s\<lparr>sl_additional_timeout := 0\<rparr>) q)) l)
      in l1\<lparr>lk_open_req_cnt := lk_open_req_cnt l1 - 1\<rparr>)"

definition cam_req_mgr_try_cancel_req :: "cam_req_mgr_flush_info \<Rightarrow> cam_req_mgr_core_link \<Rightarrow> int \<times> cam_req_mgr_core_link" where
  "cam_req_mgr_try_cancel_req fi l =
     (let idx = cam_req_mgr_find_slot_for_req (in_q l) (fl_req_id fi) in
      if idx < 0 then (- ENOENT, l)
      else
        let status = status_at l idx in
        if status = CRM_SLOT_STATUS_REQ_PENDING \<or> status = CRM_SLOT_STATUS_REQ_APPLIED then
          (let pd = cam_req_mgr_get_dev_pd l CAM_REQ_MGR_DEVICE_IFE in
           if pd < 0 \<or> pd \<ge> CAM_PIPELINE_DELAY_MAX then (pd, l)
           else if fl_req_id fi \<le> ap_req_id (lk_prev_apply_data l pd) then (- EPERM, l)
           else (0, cancel_slot fi idx (cancel_pd (lk_prev_apply_data l) (fl_req_id fi) (lk_max_delay l) pd) l))
        else if status = CRM_SLOT_STATUS_REQ_READY \<or> status = CRM_SLOT_STATUS_REQ_ADDED
        then (0, cancel_slot fi idx CAM_PIPELINE_DELAY_MAX l)
        else (- EINVAL, l))"

definition cam_req_mgr_process_flush_req :: "cam_req_mgr_flush_info \<Rightarrow> cam_req_mgr_core_link \<Rightarrow> int \<times> cam_req_mgr_core_link" where
  "cam_req_mgr_process_flush_req fi l =
     (if fl_flush_type fi = CAM_REQ_MGR_FLUSH_TYPE_ALL then
        (let l1 = cam_req_mgr_reset_apply_data (cam_req_mgr_flush_req_slot (l\<lparr>lk_last_flush_id := fl_req_id fi\<rparr>)) in
         (0, (cam_req_mgr_flush_dev_with_max_pd fi (lk_max_delay l1) l1)\<lparr>lk_open_req_cnt := 0\<rparr>))
      else if fl_flush_type fi = CAM_REQ_MGR_FLUSH_TYPE_CANCEL_REQ then cam_req_mgr_try_cancel_req fi l
      else (- EINVAL, l))"

definition clamp_timeout :: "int \<Rightarrow> int" where
  "clamp_timeout t = (if t < 0 then 0 else if t > CAM_REQ_MGR_WATCHDOG_TIMEOUT_MAX then CAM_REQ_MGR_WATCHDOG_TIMEOUT_MAX else t)"

definition sched_slot :: "cam_req_mgr_sched_request \<Rightarrow> cam_req_mgr_slot \<Rightarrow> cam_req_mgr_slot" where
  "sched_slot sq s = s\<lparr>sl_status := CRM_SLOT_STATUS_REQ_ADDED, sl_req_id := sq_req_id sq, sl_sync_mode := sq_sync_mode sq,
     sl_skip_idx := 0, sl_recover := sq_bubble_enable sq, sl_additional_timeout := clamp_timeout (sq_additional_timeout sq)\<rparr>"

definition cam_req_mgr_process_sched_req :: "nat \<Rightarrow> cam_req_mgr_sched_request \<Rightarrow> links \<Rightarrow> int \<times> links" where
  "cam_req_mgr_process_sched_req k sq gs =
     (let gs1 = link_upd k (\<lambda>l. (in_q_upd (\<lambda>q. (slot_upd (iq_wr_idx q) (sched_slot sq) q)
              \<lparr>iq_wr_idx := cam_req_mgr_inc_idx (iq_wr_idx q) 1 (iq_num_slots q)\<rparr>) l)
              \<lparr>lk_open_req_cnt := lk_open_req_cnt l + 1\<rparr>) gs
      in
      (0, if sq_sync_mode sq = CAM_REQ_MGR_SYNC_MODE_SYNC
          then link_upd k (\<lambda>l. if lk_initial_sync_req l = - 1 then l\<lparr>lk_initial_sync_req := sq_req_id sq\<rparr> else l) gs1
          else fold (\<lambda>s. case s of None \<Rightarrow> id | Some j \<Rightarrow> link_upd j (\<lambda>l. l\<lparr>lk_initial_sync_req := - 1\<rparr>))
                 (sync_links (gs1 ! k)) (link_upd k (\<lambda>l. l\<lparr>lk_initial_sync_req := - 1\<rparr>) gs1)))"

fun find_dev :: "int \<Rightarrow> cam_req_mgr_connected_device list \<Rightarrow> cam_req_mgr_connected_device option" where
  "find_dev hdl [] = None"
| "find_dev hdl (d # ds) = (if dv_dev_hdl d = hdl then Some d else find_dev hdl ds)"

definition add_to_slot ::
  "cam_req_mgr_add_request \<Rightarrow> cam_req_mgr_connected_device \<Rightarrow> u32 \<Rightarrow> cam_req_mgr_tbl_slot \<Rightarrow> cam_req_mgr_tbl_slot" where
  "add_to_slot ad d dev_mask s =
     (let sof = (ad_skip_at_sof ad AND 0xFF); eof = (ad_skip_at_eof ad AND 0xFF);
          map = (ts_req_ready_map s OR push_bit (dv_dev_bit d) 1)
      in s\<lparr>ts_ops := (if ad_trigger_eof ad
              then \<lparr>so_dev_hdl = ad_dev_hdl ad, so_apply_at_eof = True, so_is_applied = False\<rparr>
              else (ts_ops s)\<lparr>so_is_applied := False\<rparr>),
           ts_inject_delay_at_sof := (if sof > ts_inject_delay_at_sof s then sof else ts_inject_delay_at_sof s),
           ts_inject_delay_at_eof := (if eof > ts_inject_delay_at_eof s then eof else ts_inject_delay_at_eof s),
           ts_req_ready_map := map,
           ts_state := (if map = dev_mask then CRM_REQ_STATE_READY else CRM_REQ_STATE_PENDING)\<rparr>)"

definition cam_req_mgr_process_add_req :: "cam_req_mgr_add_request \<Rightarrow> cam_req_mgr_core_link \<Rightarrow> int \<times> cam_req_mgr_core_link" where
  "cam_req_mgr_process_add_req ad l =
     (case find_dev (ad_dev_hdl ad) (devs l) of
        None \<Rightarrow> (- EINVAL, l)
      | Some d \<Rightarrow>
          let idx = cam_req_mgr_find_slot_for_req (in_q l) (ad_req_id ad); pd = di_p_delay (dv_dev_info d) in
          if idx < 0 then (- EBADSLT, l)
          else (0, dev_slot_upd pd idx (add_to_slot ad d (tb_dev_mask (the (cam_req_mgr_find_pd_tbl (lk_l_tbl l) pd)))) l))"

text \<open>The slots after the bubbled one, up to the last applied one, are applied anew.\<close>

fun bubble_reset :: "int \<Rightarrow> int \<Rightarrow> nat \<Rightarrow> cam_req_mgr_req_queue \<Rightarrow> cam_req_mgr_req_queue" where
  "bubble_reset num_slots idx 0 q = q"
| "bubble_reset num_slots idx (Suc n) q =
     (let i = cam_req_mgr_inc_idx idx 1 num_slots in
      bubble_reset num_slots i n
        (slot_upd i (\<lambda>s. if sl_status s = CRM_SLOT_STATUS_REQ_APPLIED then s\<lparr>sl_status := CRM_SLOT_STATUS_REQ_ADDED\<rparr> else s) q))"

definition bubble_slots :: "int \<Rightarrow> bool \<Rightarrow> int \<Rightarrow> cam_req_mgr_req_queue \<Rightarrow> cam_req_mgr_req_queue" where
  "bubble_slots num_slots synced idx q =
     (let q1 = (slot_upd idx (\<lambda>s. s\<lparr>sl_status := CRM_SLOT_STATUS_REQ_ADDED\<rparr>) q)\<lparr>iq_rd_idx := idx\<rparr>;
          nosync = (\<lambda>i. slot_upd i (\<lambda>s. s\<lparr>sl_sync_mode := 0\<rparr>));
          q2 = (if synced then nosync (cam_req_mgr_inc_idx idx 1 num_slots) (nosync idx q1) else q1);
          diff = iq_last_applied_idx q2 - idx;
          slot_diff = (if iq_last_applied_idx q2 \<ge> 0 then (if diff < 0 then diff + num_slots else diff) else 1)
      in bubble_reset num_slots idx (nat slot_diff) q2)"

definition bubble_link :: "int \<Rightarrow> cam_req_mgr_core_link \<Rightarrow> cam_req_mgr_core_link" where
  "bubble_link idx l =
     (let ts = cam_req_mgr_tbl_set_all_skip_cnt (lk_l_tbl l) in
      in_q_upd (bubble_slots (tb_num_slots (hd ts)) (lk_sync_link l ! 0 \<noteq> None) idx)
        (l\<lparr>lk_l_tbl := ts, lk_state := CAM_CRM_LINK_STATE_ERR, lk_open_req_cnt := lk_open_req_cnt l + 1\<rparr>))"

definition cam_req_mgr_apply_on_bubble :: "crm_env \<Rightarrow> nat \<Rightarrow> cam_req_mgr_error_notify \<Rightarrow> links \<Rightarrow> links" where
  "cam_req_mgr_apply_on_bubble env k er gs =
     snd (cam_req_mgr_process_req env k \<lparr>tn_trigger = er_trigger er, tn_sof_timestamp_val = er_sof_timestamp_val er,
       tn_req_id = 0\<rparr> gs)"

definition cam_req_mgr_process_error :: "crm_env \<Rightarrow> nat \<Rightarrow> cam_req_mgr_error_notify \<Rightarrow> links \<Rightarrow> int \<times> links" where
  "cam_req_mgr_process_error env k er gs =
     (case er_error er of
        CRM_KMD_ERR_BUBBLE \<Rightarrow>
          (let l = gs ! k; idx = cam_req_mgr_find_slot_for_req (in_q l) (er_req_id er);
               slot = elem (iq_slot (in_q l)) idx
           in
           if idx < 0 then (0, gs)
           else if sl_recover slot = 0 then (0, gs)
           else if sl_status slot \<noteq> CRM_SLOT_STATUS_REQ_PENDING \<and> sl_status slot \<noteq> CRM_SLOT_STATUS_REQ_APPLIED
           then (- EINVAL, gs)
           else (0, cam_req_mgr_apply_on_bubble env k er (link_upd k (bubble_link idx) gs)))
      | CRM_KMD_ERR_FATAL \<Rightarrow>
          (0, link_upd k (cam_req_mgr_send_evt (er_req_id er) CAM_REQ_MGR_LINK_EVT_ERR CRM_KMD_ERR_FATAL) gs)
      | CRM_KMD_ERR_OTHER _ \<Rightarrow> (0, gs))"

definition cam_req_mgr_process_stop :: "cam_req_mgr_core_link \<Rightarrow> int \<times> cam_req_mgr_core_link" where
  "cam_req_mgr_process_stop l = (0, cam_req_mgr_flush_req_slot l)"

text \<open>Giving up the slot behind the request the device reports at a SOF.\<close>

definition trigger_reset :: "nat \<Rightarrow> cam_req_mgr_trigger_notify \<Rightarrow> links \<Rightarrow> links" where
  "trigger_reset k td gs =
     (let q = in_q (gs ! k); idx = cam_req_mgr_find_slot_for_req q (tn_req_id td) in
      if tn_trigger td = CAM_TRIGGER_POINT_SOF \<and> idx \<ge> 0 then
        (let gs1 = (if idx = iq_last_applied_idx q then link_upd k (in_q_upd (\<lambda>q. q\<lparr>iq_last_applied_idx := - 1\<rparr>)) gs else gs);
             idx1 = (if idx = iq_rd_idx q then cam_req_mgr_dec_idx idx 1 (iq_num_slots q) else idx)
         in link_upd k (cam_req_mgr_reset_req_slot (cam_req_mgr_dec_idx idx1 (reset_step k gs1 + 1) (iq_num_slots q))) gs1)
      else gs)"

definition advance_rd :: "cam_req_mgr_core_link \<Rightarrow> cam_req_mgr_core_link" where
  "advance_rd = in_q_upd (\<lambda>q. q\<lparr>iq_rd_idx := cam_req_mgr_inc_idx (iq_rd_idx q) 1 (iq_num_slots q)\<rparr>)"

definition link_below_ready :: "cam_req_mgr_core_link \<Rightarrow> bool" where
  "link_below_ready l \<longleftrightarrow> lk_state l = CAM_CRM_LINK_STATE_AVAILABLE \<or> lk_state l = CAM_CRM_LINK_STATE_IDLE"

definition cam_req_mgr_process_trigger :: "crm_env \<Rightarrow> nat \<Rightarrow> cam_req_mgr_trigger_notify \<Rightarrow> links \<Rightarrow> int \<times> links" where
  "cam_req_mgr_process_trigger env k td gs =
     (let gs1 = trigger_reset k td gs in
      if link_below_ready (gs1 ! k) then (- EPERM, gs1)
      else if sl_status (rd_slot (gs1 ! k)) = CRM_SLOT_STATUS_REQ_APPLIED then
        (let (rc, gs2) = on_link k cam_req_mgr_check_next_req_slot gs1;
             gs3 = link_upd k advance_rd gs2
         in if rc \<noteq> 0 then (0, gs3) else cam_req_mgr_process_req env k td gs3)
      else cam_req_mgr_process_req env k td gs1)"

definition cam_req_mgr_process_sof_freeze :: "crm_env \<Rightarrow> cam_req_mgr_core_link \<Rightarrow> int \<times> cam_req_mgr_core_link" where
  "cam_req_mgr_process_sof_freeze env l =
     (if lk_parent l = None then (- EINVAL, l)
      else if (case lk_watchdog l of Some t \<Rightarrow> tm_pause_timer t | None \<Rightarrow> False) then (0, l)
      else (ce_notify_message env,
            crm_emit [Ev_Message Msg_Sof_Freeze] (cam_req_mgr_send_evt 0 CAM_REQ_MGR_LINK_EVT_SOF_FREEZE CRM_KMD_ERR_FATAL l)))"

end
