(* ===== verification/Crm_Pipeline.thy ===== *)
theory Crm_Pipeline imports Crm_Task begin

text \<open>
  The pipeline of a link: the traversal of the request tables in closed form, and what one SOF
  does on a link that is not synchronised with others. The table of delay \<open>p\<close> works on the
  request \<open>max - p\<close> slots behind the read index; that is how every device gets a request the
  number of frames ahead it needs.
\<close>

section \<open>Indices\<close>

lemma elem_nat [simp]: "elem xs (int i) = xs ! i"
  by (simp add: elem_def)

lemma length_elem_upd [simp]: "length (elem_upd i f xs) = length xs"
  by (simp add: elem_upd_def)

lemma elem_upd_nat: "elem_upd (int i) f xs = xs[i := f (xs ! i)]"
  by (simp add: elem_upd_def)

lemma dec_idx_mod:
  "0 \<le> i \<Longrightarrow> i < 48 \<Longrightarrow> 0 \<le> d \<Longrightarrow> d \<le> 48 \<Longrightarrow> cam_req_mgr_dec_idx i d 48 = (i - d) mod 48"
  unfolding cam_req_mgr_dec_idx_def by (smt (verit) mod_add_self1 mod_pos_pos_trivial)

lemma inc_idx_range: "0 \<le> cam_req_mgr_inc_idx i d 48" "cam_req_mgr_inc_idx i d 48 < 48"
  by (simp_all add: cam_req_mgr_inc_idx_def)

section \<open>Lists of tables\<close>

text \<open>Tables in order of falling delay, each knowing its distance to the next.\<close>

fun tbl_chain :: "cam_req_mgr_req_tbl list \<Rightarrow> bool" where
  "tbl_chain [] \<longleftrightarrow> True"
| "tbl_chain (t # ts) \<longleftrightarrow> tb_num_slots t = 48 \<and> length (tb_slot t) = 48 \<and> 0 \<le> tb_pd t \<and> tb_pd t < CAM_PIPELINE_DELAY_MAX \<and>
     (case ts of [] \<Rightarrow> True | u # _ \<Rightarrow> tb_pd u < tb_pd t \<and> tb_pd_delta t = tb_pd t - tb_pd u) \<and> tbl_chain ts"

definition tbl_idx :: "int \<Rightarrow> int \<Rightarrow> int \<Rightarrow> int" where
  "tbl_idx idx max_pd pd = (idx - (max_pd - pd)) mod 48"

text \<open>A table lets the traversal pass.\<close>

definition passes :: "cam_req_mgr_req_queue \<Rightarrow> int \<Rightarrow> int \<Rightarrow> cam_req_mgr_req_tbl \<Rightarrow> bool" where
  "passes q idx max_pd t \<longleftrightarrow>
     (let i = tbl_idx idx max_pd (tb_pd t) in
      ts_state (elem (tb_slot t) i) = CRM_REQ_STATE_READY \<or> sl_skip_idx (elem (iq_slot q) i) = 1 \<or> tb_skip_traverse t > 0)"

text \<open>What a passed table hands to its devices.\<close>

definition handed :: "cam_req_mgr_req_queue \<Rightarrow> int \<Rightarrow> int \<Rightarrow> cam_req_mgr_req_tbl \<Rightarrow> cam_req_mgr_apply \<Rightarrow> cam_req_mgr_apply" where
  "handed q idx max_pd t a =
     (let i = tbl_idx idx max_pd (tb_pd t) in
      a\<lparr>ap_pd := tb_pd t, ap_idx := i, ap_req_id := if tb_skip_traverse t > 0 then - 1 else sl_req_id (elem (iq_slot q) i)\<rparr>)"

fun handed_all :: "cam_req_mgr_req_queue \<Rightarrow> int \<Rightarrow> int \<Rightarrow> cam_req_mgr_req_tbl list \<Rightarrow> (int \<Rightarrow> cam_req_mgr_apply) \<Rightarrow> (int \<Rightarrow> cam_req_mgr_apply)" where
  "handed_all q idx max_pd [] ad = ad"
| "handed_all q idx max_pd (t # ts) ad = (handed_all q idx max_pd ts ad)(tb_pd t := handed q idx max_pd t (handed_all q idx max_pd ts ad (tb_pd t)))"

definition count_skip :: "cam_req_mgr_req_tbl \<Rightarrow> cam_req_mgr_req_tbl" where
  "count_skip t = (if tb_skip_traverse t > 0 then t\<lparr>tb_skip_traverse := tb_skip_traverse t - 1\<rparr> else t)"

fun pd_bits :: "cam_req_mgr_req_tbl list \<Rightarrow> u32 \<Rightarrow> u32" where
  "pd_bits [] r = r"
| "pd_bits (t # ts) r = (pd_bits ts r OR pd_bit (tb_pd t))"

lemma tbl_idx_range [simp]: "0 \<le> tbl_idx idx m p" "tbl_idx idx m p < 48"
  by (simp_all add: tbl_idx_def)

lemma tbl_idx_self: "0 \<le> idx \<Longrightarrow> idx < 48 \<Longrightarrow> tbl_idx idx p p = idx"
  by (simp add: tbl_idx_def)

lemma tbl_idx_next:
  "0 \<le> idx \<Longrightarrow> idx < 48 \<Longrightarrow> 0 \<le> d \<Longrightarrow> d \<le> 48 \<Longrightarrow> tbl_idx (cam_req_mgr_dec_idx idx d 48) (m - d) p = tbl_idx idx m p"
proof -
  have "((idx - d) mod 48 - (m - d - p)) mod 48 = (idx - d - (m - d - p)) mod 48" by (rule mod_diff_left_eq)
  moreover have "idx - d - (m - d - p) = idx - (m - p)" by simp
  moreover assume "0 \<le> idx" "idx < 48" "0 \<le> d" "d \<le> 48"
  ultimately show ?thesis by (simp only: tbl_idx_def dec_idx_mod)
qed

lemma traverse_pass:
  assumes "ts_state (elem (tb_slot t) idx) = CRM_REQ_STATE_READY \<or> sl_skip_idx (elem (iq_slot q) idx) = 1 \<or>
      tb_skip_traverse t > 0"
    and "ts \<noteq> []" "cam_req_mgr_traverse q vo (cam_req_mgr_dec_idx idx (tb_pd_delta t) (tb_num_slots t)) ts ad tr
      = (rc, tr1, ts1, ad1)"
  shows "cam_req_mgr_traverse q vo idx (t # ts) ad tr =
    (if rc \<ge> 0
     then (0, tr1\<lparr>tr_result := (tr_result tr1 OR pd_bit (tb_pd t))\<rparr>, (if vo then t else count_skip t) # ts1,
           if vo then ad1 else ad1(tb_pd t := (ad1 (tb_pd t))\<lparr>ap_pd := tb_pd t, ap_idx := idx,
             ap_req_id := if tb_skip_traverse t > 0 then - 1 else sl_req_id (elem (iq_slot q) idx)\<rparr>))
     else (rc, tr1, t # ts1, ad1))"
  using assms(1) unfolding cam_req_mgr_traverse.simps if_not_P [OF assms(2)] assms(3)
  by (simp add: count_skip_def Let_def)

lemma traverse_closed:
  assumes "tbl_chain (t # ts)" "0 \<le> idx" "idx < 48"
  shows "cam_req_mgr_traverse q vo idx (t # ts) ad tr =
    (if \<forall>u \<in> set (t # ts). passes q idx (tb_pd t) u
     then (0, tr\<lparr>tr_result := pd_bits (t # ts) (tr_result tr)\<rparr>, if vo then t # ts else map count_skip (t # ts),
           if vo then ad else handed_all q idx (tb_pd t) (t # ts) ad)
     else (- EAGAIN, fst (snd (cam_req_mgr_traverse q vo idx (t # ts) ad tr)), t # ts, ad))"
  using assms
proof (induction ts arbitrary: t idx)
  case Nil
  then show ?case by (auto simp: passes_def tbl_idx_self handed_def count_skip_def Let_def)
next
  case (Cons u us)
  let ?i = "cam_req_mgr_dec_idx idx (tb_pd_delta t) 48"
  have d: "tb_pd_delta t = tb_pd t - tb_pd u" "0 < tb_pd_delta t" "tb_pd_delta t \<le> 48" "tb_num_slots t = 48"
    using Cons.prems(1) by auto
  have u: "tb_pd u = tb_pd t - tb_pd_delta t" using d(1) by simp
  have i: "0 \<le> ?i" "?i < 48" using Cons.prems d by (simp_all add: dec_idx_mod)
  have ti: "tbl_idx ?i (tb_pd u) p = tbl_idx idx (tb_pd t) p" for p
    unfolding u by (rule tbl_idx_next) (use Cons.prems d in simp_all)
  have same: "passes q ?i (tb_pd u) v = passes q idx (tb_pd t) v" "handed q ?i (tb_pd u) v = handed q idx (tb_pd t) v" for v
    by (simp_all add: passes_def handed_def ti fun_eq_iff)
  have same_all: "handed_all q ?i (tb_pd u) vs ad = handed_all q idx (tb_pd t) vs ad" for vs
    by (induction vs) (simp_all add: same)
  note IH = Cons.IH [of u ?i] and simps = same same_all d(4)
  have ch: "tbl_chain (u # us)" using Cons.prems(1) by simp
  note IH' = IH [OF ch i, unfolded same same_all]
  have me: "passes q idx (tb_pd t) t \<longleftrightarrow> ts_state (elem (tb_slot t) idx) = CRM_REQ_STATE_READY \<or>
      sl_skip_idx (elem (iq_slot q) idx) = 1 \<or> tb_skip_traverse t > 0"
    using Cons.prems by (simp add: passes_def tbl_idx_self)
  show ?case
  proof (cases "passes q idx (tb_pd t) t")
    case False
    then show ?thesis using me by (subst (1 2) cam_req_mgr_traverse.simps) auto
  next
    case pass: True
    show ?thesis
    proof (cases "\<forall>v \<in> set (u # us). passes q idx (tb_pd t) v")
      case True
      then have rec: "cam_req_mgr_traverse q vo (cam_req_mgr_dec_idx idx (tb_pd_delta t) (tb_num_slots t)) (u # us) ad tr =
          (0, tr\<lparr>tr_result := pd_bits (u # us) (tr_result tr)\<rparr>, if vo then u # us else map count_skip (u # us),
           if vo then ad else handed_all q idx (tb_pd t) (u # us) ad)"
        using IH' by (simp add: d(4))
      show ?thesis
        using True pass Cons.prems(2,3) unfolding traverse_pass [OF pass [unfolded me] list.distinct(2) rec]
        by (cases vo) (simp_all add: handed_def tbl_idx_self Let_def del: cam_req_mgr_traverse.simps)
    next
      case False
      obtain tr1 where rec: "cam_req_mgr_traverse q vo (cam_req_mgr_dec_idx idx (tb_pd_delta t) (tb_num_slots t)) (u # us) ad tr = (- EAGAIN, tr1, u # us, ad)"
        using IH' False unfolding d(4) by (metis (no_types, lifting))
      have "cam_req_mgr_traverse q vo idx (t # u # us) ad tr = (- EAGAIN, tr1, t # u # us, ad)"
        by (simp add: traverse_pass [OF pass [unfolded me] _ rec] del: cam_req_mgr_traverse.simps)
      with False show ?thesis by auto
    qed
  qed
qed

section \<open>Links that are not synchronised and have no special operations\<close>

definition no_ops :: crm_tbl_slot_special_ops where
  "no_ops = \<lparr>so_dev_hdl = - 1, so_apply_at_eof = False, so_is_applied = False\<rparr>"

definition plain_tbls :: "cam_req_mgr_req_tbl list \<Rightarrow> bool" where
  "plain_tbls ts \<longleftrightarrow> (\<forall>t \<in> set ts. \<forall>s \<in> set (tb_slot t). ts_ops s = no_ops)"

definition dev_ok :: "cam_req_mgr_req_tbl list \<Rightarrow> cam_req_mgr_connected_device \<Rightarrow> bool" where
  "dev_ok ts d \<longleftrightarrow> dv_dev_hdl d > 0 \<and> di_p_delay (dv_dev_info d) \<in> tb_pd ` set ts \<and> has_op ko_apply_req d \<and>
     di_trigger (dv_dev_info d) AND CAM_TRIGGER_POINT_SOF \<noteq> 0"

text \<open>The parts of a link no trigger changes: tables in a chain, devices that take requests at the
  SOF, a queue of 48 slots, no other link.\<close>

definition link_ok :: "cam_req_mgr_core_link \<Rightarrow> bool" where
  "link_ok l \<longleftrightarrow>
     tbl_chain (lk_l_tbl l) \<and> lk_l_tbl l \<noteq> [] \<and> lk_max_delay l = tb_pd (hd (lk_l_tbl l)) \<and>
     lk_pd_mask l = pd_bits (lk_l_tbl l) 0 \<and> plain_tbls (lk_l_tbl l) \<and>
     distinct (map dv_dev_hdl (devs l)) \<and> (\<forall>d \<in> set (devs l). dev_ok (lk_l_tbl l) d) \<and>
     lk_in_q l \<noteq> None \<and> iq_num_slots (in_q l) = 48 \<and> length (iq_slot (in_q l)) = 48 \<and>
     (\<forall>j < 48. sl_idx (iq_slot (in_q l) ! j) = int j) \<and> sync_links l = [] \<and> lk_parent l \<noteq> None \<and>
     (\<forall>pd. 0 \<le> ap_idx (lk_prev_apply_data l pd) \<and> ap_idx (lk_prev_apply_data l pd) < 48)"

text \<open>A link up to what is recorded about it without deciding what its devices are given: the log,
  the timer, the time of the last trigger, the counters.\<close>

definition core :: "cam_req_mgr_core_link \<Rightarrow> cam_req_mgr_core_link" where
  "core l = l\<lparr>lk_log := [], lk_watchdog := None, lk_skip_init_frame := False, lk_initial_skip := False, lk_open_req_cnt := 0,
     lk_retry_cnt := 0, lk_sof_timestamp := 0, lk_prev_sof_timestamp := 0, lk_last_sof_trigger_jiffies := 0,
     lk_wq_congestion := False, lk_sync_link_sof_skip := False, lk_initial_sync_req := - 1, lk_in_msync_mode := False\<rparr>"

text \<open>The requests a device was given, in order.\<close>

definition given :: "int \<Rightarrow> cam_req_mgr_core_link \<Rightarrow> int list" where
  "given h l = concat (map (\<lambda>e. case e of Ev_Apply d r _ _ _ \<Rightarrow> if d = h then [r] else [] | _ \<Rightarrow> []) (lk_log l))"

lemma given_emit [simp]:
  "given h (crm_emit [Ev_Apply d r t p b] l) = given h l @ (if d = h then [r] else [])"
  "given h (crm_emit [Ev_Frame_Skip d r t] l) = given h l"
  "given h (crm_emit [Ev_Timer e] l) = given h l"
  by (simp_all add: given_def crm_emit_def)

lemma core_emit [simp]: "core (crm_emit es l) = core l"
  by (simp add: core_def crm_emit_def)

lemma core_timer [simp]: "core (crm_timer_reset l) = core l" "core (crm_timer_modify e l) = core l"
  by (simp_all add: crm_timer_reset_def crm_timer_modify_def split: option.splits) (simp_all add: core_def)

lemma given_log: "lk_log l = lk_log m \<Longrightarrow> given h l = given h m"
  by (simp add: given_def)

lemma given_timer [simp]: "given h (crm_timer_modify e l) = given h l"
  by (auto simp: crm_timer_reset_def crm_timer_modify_def intro: given_log split: option.splits)

lemma validate_wd [simp]:
  "core (cam_req_mgr_validate_crm_wd_timer l) = core l" "given h (cam_req_mgr_validate_crm_wd_timer l) = given h l"
  by (auto simp: cam_req_mgr_validate_crm_wd_timer_def Let_def split: option.splits)
    (simp_all add: core_def given_def)

lemma core_fields:
  assumes "core l = core m"
  shows "lk_l_tbl l = lk_l_tbl m" "lk_in_q l = lk_in_q m" "lk_apply_data l = lk_apply_data m"
    "lk_prev_apply_data l = lk_prev_apply_data m" "lk_state l = lk_state m" "lk_max_delay l = lk_max_delay m"
    "devs l = devs m" "sync_links l = sync_links m" "lk_parent l = lk_parent m"
    "lk_pd_mask l = lk_pd_mask m" "in_q l = in_q m"
  using arg_cong [OF assms, of lk_l_tbl] arg_cong [OF assms, of lk_in_q] arg_cong [OF assms, of lk_apply_data]
    arg_cong [OF assms, of lk_prev_apply_data] arg_cong [OF assms, of lk_state] arg_cong [OF assms, of lk_max_delay]
    arg_cong [OF assms, of lk_l_dev] arg_cong [OF assms, of lk_num_devs]
    arg_cong [OF assms, of lk_sync_link] arg_cong [OF assms, of lk_num_sync_links] arg_cong [OF assms, of lk_parent]
    arg_cong [OF assms, of lk_pd_mask]
  by (simp_all add: core_def devs_def sync_links_def in_q_def)

lemma find_pd_tbl:
  "pd \<in> tb_pd ` set ts \<Longrightarrow> \<exists>t \<in> set ts. cam_req_mgr_find_pd_tbl ts pd = Some t \<and> tb_pd t = pd"
  by (induction ts) auto

lemma chain_lengths: "tbl_chain ts \<Longrightarrow> t \<in> set ts \<Longrightarrow> length (tb_slot t) = 48 \<and> 0 \<le> tb_pd t \<and> tb_pd t < 3"
  by (induction ts) auto

lemma plain_dev_slot:
  assumes "tbl_chain ts" "plain_tbls ts" "pd \<in> tb_pd ` set ts" "0 \<le> i" "i < 48"
  shows "ts_ops (dev_slot ts pd i) = no_ops"
proof -
  from find_pd_tbl [OF assms(3)] obtain t where t: "t \<in> set ts" "cam_req_mgr_find_pd_tbl ts pd = Some t" by blast
  then have "tb_slot t ! nat i \<in> set (tb_slot t)" using chain_lengths [OF assms(1) t(1)] assms(4,5) by simp
  with t assms(2) show ?thesis by (simp add: dev_slot_def elem_def plain_tbls_def)
qed

lemma frame_skip_dev_plain:
  assumes "link_ok l" "d \<in> set (devs l)"
  shows "core (frame_skip_dev trigger d l) = core l" "given h (frame_skip_dev trigger d l) = given h l"
proof -
  let ?pd = "di_p_delay (dv_dev_info d)"
  from assms have d: "dev_ok (lk_l_tbl l) d" by (simp add: link_ok_def)
  with assms(1) have "ts_ops (dev_slot (lk_l_tbl l) ?pd (ap_idx (lk_prev_apply_data l ?pd))) = no_ops"
    by (intro plain_dev_slot) (simp_all add: link_ok_def dev_ok_def)
  with d show "core (frame_skip_dev trigger d l) = core l" "given h (frame_skip_dev trigger d l) = given h l"
    by (simp_all add: frame_skip_dev_def Let_def no_ops_def dev_ok_def)
qed

lemma link_ok_core: "core l = core m \<Longrightarrow> link_ok l = link_ok m"
  using core_fields [of l m] by (simp add: link_ok_def)

lemma notify_frame_skip_plain:
  assumes "link_ok l"
  shows "core (cam_req_mgr_notify_frame_skip trigger l) = core l \<and> given h (cam_req_mgr_notify_frame_skip trigger l) = given h l"
proof -
  have "core (fold (frame_skip_dev trigger) ds m) = core l \<and> given h (fold (frame_skip_dev trigger) ds m) = given h l"
    if "set ds \<subseteq> set (devs l)" "core m = core l" "given h m = given h l" for ds m
    using that
  proof (induction ds arbitrary: m)
    case (Cons d ds)
    have "link_ok m" "d \<in> set (devs m)"
      using assms link_ok_core [OF Cons.prems(2)] core_fields(7) [OF Cons.prems(2)] Cons.prems(1) by auto
    from frame_skip_dev_plain [OF this] Cons show ?case by simp
  qed simp
  then show ?thesis by (simp add: cam_req_mgr_notify_frame_skip_def)
qed

lemma check_ready_closed:
  assumes "link_ok l" "0 \<le> idx" "idx < 48"
  shows "cam_req_mgr_check_link_is_ready idx vo l =
    (if \<forall>t \<in> set (lk_l_tbl l). passes (in_q l) idx (lk_max_delay l) t
     then (0, l\<lparr>lk_initial_skip := False, lk_l_tbl := (if vo then lk_l_tbl l else map count_skip (lk_l_tbl l)),
        lk_apply_data := (if vo then lk_apply_data l else handed_all (in_q l) idx (lk_max_delay l) (lk_l_tbl l) (\<lambda>_. zero_apply))\<rparr>)
     else (- EAGAIN, l\<lparr>lk_initial_skip := False, lk_apply_data := (if vo then lk_apply_data l else (\<lambda>_. zero_apply))\<rparr>))"
proof -
  obtain t ts where ts: "lk_l_tbl l = t # ts" using assms(1) by (cases "lk_l_tbl l") (auto simp: link_ok_def)
  have l: "tbl_chain (t # ts)" "lk_max_delay l = tb_pd t" "lk_pd_mask l = pd_bits (t # ts) 0"
    using assms(1) by (simp_all add: link_ok_def ts)
  let ?tr = "\<lparr>tr_result = 0, tr_req_id = 0, tr_pd = 0, tr_masked_value = 0\<rparr>"
  let ?ad = "if vo then lk_apply_data l else (\<lambda>_. zero_apply)"
  show ?thesis
  proof (cases "\<forall>u \<in> set (t # ts). passes (in_q l) idx (tb_pd t) u")
    case True
    with traverse_closed [OF l(1) assms(2,3), of "in_q l" vo ?ad ?tr]
    have "cam_req_mgr_traverse (in_q l) vo idx (t # ts) ?ad ?tr = (0, ?tr\<lparr>tr_result := pd_bits (t # ts) 0\<rparr>,
        if vo then t # ts else map count_skip (t # ts), if vo then ?ad else handed_all (in_q l) idx (tb_pd t) (t # ts) ?ad)"
      by simp
    with True show ?thesis
      unfolding cam_req_mgr_check_link_is_ready_def Let_def ts l(2,3) by (auto simp del: cam_req_mgr_traverse.simps pd_bits.simps)
  next
    case False
    with traverse_closed [OF l(1) assms(2,3), of "in_q l" vo ?ad ?tr]
    obtain tr where "cam_req_mgr_traverse (in_q l) vo idx (t # ts) ?ad ?tr = (- EAGAIN, tr, t # ts, ?ad)"
      by (metis (no_types, lifting))
    with False show ?thesis
      unfolding cam_req_mgr_check_link_is_ready_def Let_def ts l(2,3)
      by (simp add: ts del: cam_req_mgr_traverse.simps pd_bits.simps)
  qed
qed

section \<open>Sending to the devices\<close>

definition dev_req :: "cam_req_mgr_core_link \<Rightarrow> cam_req_mgr_connected_device \<Rightarrow> int list" where
  "dev_req l d = (let pd = di_p_delay (dv_dev_info d) in
     if nothing_to_apply l pd then [] else [ap_req_id (lk_apply_data l pd)])"

definition apply_idx_ok :: "cam_req_mgr_core_link \<Rightarrow> bool" where
  "apply_idx_ok l \<longleftrightarrow> (\<forall>t \<in> set (lk_l_tbl l). 0 \<le> ap_idx (lk_apply_data l (tb_pd t)) \<and> ap_idx (lk_apply_data l (tb_pd t)) < 48)"

lemma apply_idx_ok_core: "core l = core m \<Longrightarrow> apply_idx_ok l = apply_idx_ok m"
  using core_fields [of l m] by (simp add: apply_idx_ok_def)

lemma dev_req_core: "core l = core m \<Longrightarrow> dev_req l = dev_req m"
  using core_fields [of l m] by (simp add: dev_req_def nothing_to_apply_def Let_def fun_eq_iff)

lemma skip_one_plain [simp]: "core (skip_one trigger d l) = core l" "given h (skip_one trigger d l) = given h l"
  by (simp_all add: skip_one_def)

lemma plain_req_slot:
  assumes "link_ok l" "apply_idx_ok l" "dev_ok (lk_l_tbl l) d"
  shows "ts_ops (req_slot l (di_p_delay (dv_dev_info d))) = no_ops" "di_p_delay (dv_dev_info d) < 3"
proof -
  from assms(3) obtain t where t: "t \<in> set (lk_l_tbl l)" "di_p_delay (dv_dev_info d) = tb_pd t"
    by (auto simp: dev_ok_def)
  with assms show "ts_ops (req_slot l (di_p_delay (dv_dev_info d))) = no_ops"
    unfolding req_slot_def by (intro plain_dev_slot) (auto simp: link_ok_def apply_idx_ok_def)
  show "di_p_delay (dv_dev_info d) < 3" using t assms(1) chain_lengths [of "lk_l_tbl l" t] by (simp add: link_ok_def)
qed

lemma send_special_plain:
  assumes "link_ok l" "apply_idx_ok l" "set ds \<subseteq> set (devs l)"
  shows "send_special env trigger re ds l = (Sp_Go, l)"
  using assms(3)
proof (induction ds)
  case (Cons d ds)
  have "dev_ok (lk_l_tbl l) d" using assms(1) Cons.prems by (simp add: link_ok_def)
  from plain_req_slot(1) [OF assms(1,2) this] Cons show ?case by (simp add: no_ops_def)
qed simp

declare send_regular.simps(2) [simp del]

lemma send_regular_step:
  assumes "link_ok l" "apply_idx_ok l" "dev_ok (lk_l_tbl l) d"
    and "ce_apply_req env (dv_dev_hdl d) = (\<lambda>_. 0)"
  shows "\<exists>re1 mp1 l1. send_regular env CAM_TRIGGER_POINT_SOF re 0 mp vis (d # ds) l =
      send_regular env CAM_TRIGGER_POINT_SOF re1 0 mp1 (d # vis) ds l1 \<and> core l1 = core l \<and>
      (\<forall>h. given h l1 = given h l @ (if dv_dev_hdl d = h then dev_req l d else []))"
proof -
  let ?pd = "di_p_delay (dv_dev_info d)"
  let ?req = "ap_req_id (lk_apply_data l ?pd)"
  note ops = plain_req_slot [OF assms(1-3)]
  have d: "dv_dev_hdl d > 0" "has_op ko_apply_req d" "\<not> di_trigger (dv_dev_info d) AND CAM_TRIGGER_POINT_SOF = 0"
    using assms(3) by (simp_all add: dev_ok_def)
  show ?thesis
  proof (cases "nothing_to_apply l ?pd")
    case True
    then have eq: "send_regular env CAM_TRIGGER_POINT_SOF re 0 mp vis (d # ds) l =
        send_regular env CAM_TRIGGER_POINT_SOF re 0 mp (d # vis) ds (skip_one CAM_TRIGGER_POINT_SOF d l)"
      using ops d by (simp add: send_regular.simps(2) Let_def)
    with True show ?thesis
      by - (intro exI conjI, rule eq, simp_all add: dev_req_def)
  next
    case False
    let ?report = "sl_recover (elem (iq_slot (in_q l)) (ap_idx (lk_apply_data l ?pd)))"
    let ?re = "re \<or> (lk_retry_cnt l > 0 \<and> ?report = 0 \<and> lk_dual_trigger l)"
    have eq: "send_regular env CAM_TRIGGER_POINT_SOF re 0 mp vis (d # ds) l =
        send_regular env CAM_TRIGGER_POINT_SOF ?re 0 (mp \<or> ?pd = lk_min_delay l) (d # vis) ds
          (crm_emit [Ev_Apply (dv_dev_hdl d) ?req CAM_TRIGGER_POINT_SOF ?report ?re] l)"
      using ops d False assms(4) by (simp add: send_regular.simps(2) Let_def no_ops_def)
    with False show ?thesis
      by - (intro exI conjI, rule eq, simp_all add: dev_req_def Let_def)
  qed
qed

lemma send_regular_plain:
  assumes "link_ok l" "apply_idx_ok l" "\<forall>d \<in> set ds. dev_ok (lk_l_tbl l) d"
    and "\<forall>d \<in> set ds. ce_apply_req env (dv_dev_hdl d) = (\<lambda>_. 0)"
  shows "\<exists>mp1 l1. send_regular env CAM_TRIGGER_POINT_SOF re 0 mp vis ds l = (\<lparr>sr_rc = 0, sr_failed = None, sr_min_pd = mp1\<rparr>, l1) \<and>
      core l1 = core l \<and> (\<forall>h. given h l1 = given h l @ concat (map (\<lambda>d. if dv_dev_hdl d = h then dev_req l d else []) ds))"
  using assms
proof (induction ds arbitrary: re mp vis l)
  case Nil
  then show ?case by simp
next
  case (Cons d ds)
  obtain re1 mp1 l1 where st: "send_regular env CAM_TRIGGER_POINT_SOF re 0 mp vis (d # ds) l =
      send_regular env CAM_TRIGGER_POINT_SOF re1 0 mp1 (d # vis) ds l1" "core l1 = core l"
      "\<And>h. given h l1 = given h l @ (if dv_dev_hdl d = h then dev_req l d else [])"
    using send_regular_step [of l d env re mp vis ds] Cons.prems by auto
  have t: "lk_l_tbl l1 = lk_l_tbl l" by (rule core_fields(1) [OF st(2)])
  obtain mp2 l2 where "send_regular env CAM_TRIGGER_POINT_SOF re1 0 mp1 (d # vis) ds l1 =
      (\<lparr>sr_rc = 0, sr_failed = None, sr_min_pd = mp2\<rparr>, l2)" "core l2 = core l1"
      "\<And>h. given h l2 = given h l1 @ concat (map (\<lambda>d. if dv_dev_hdl d = h then dev_req l1 d else []) ds)"
    using Cons.IH [of l1 re1 mp1 "d # vis"] Cons.prems link_ok_core [OF st(2)] apply_idx_ok_core [OF st(2)] t by auto
  note this [unfolded dev_req_core [OF st(2)]]
  with st show ?case by simp
qed

text \<open>Each device is given the request its table handed out, all others are left alone.\<close>

lemma one_dev:
  assumes "distinct (map dv_dev_hdl ds)" "d \<in> set ds"
  shows "concat (map (\<lambda>e. if dv_dev_hdl e = dv_dev_hdl d then f e else []) ds) = f d"
  using assms
proof (induction ds)
  case (Cons e ds)
  show ?case
  proof (cases "e = d")
    case True
    with Cons.prems(1) have "concat (map (\<lambda>e. if dv_dev_hdl e = dv_dev_hdl d then f e else []) ds) = []"
      by (auto simp: concat_eq_Nil_conv image_iff)
    with True show ?thesis by simp
  next
    case False
    with Cons show ?thesis by auto
  qed
qed simp

lemma send_req_plain:
  assumes "link_ok l" "apply_idx_ok l" "\<And>h. ce_apply_req env h = (\<lambda>_. 0)"
  obtains l1 where "cam_req_mgr_send_req env CAM_TRIGGER_POINT_SOF l = (0, None, l1)"
    "core l1 = (core l)\<lparr>lk_prev_apply_data := lk_apply_data l\<rparr>"
    "\<forall>d \<in> set (devs l). given (dv_dev_hdl d) l1 = given (dv_dev_hdl d) l @ dev_req l d"
proof -
  have ok: "\<forall>d \<in> set (devs l). dev_ok (lk_l_tbl l) d" and dist: "distinct (map dv_dev_hdl (devs l))"
    using assms(1) by (simp_all add: link_ok_def)
  let ?re = "lk_retry_cnt l > 0 \<and> ce_recovery_on_apply_fail env"
  obtain mp l1 where r: "send_regular env CAM_TRIGGER_POINT_SOF ?re 0 False [] (devs l) l =
      (\<lparr>sr_rc = 0, sr_failed = None, sr_min_pd = mp\<rparr>, l1)" "core l1 = core l"
      "\<And>h. given h l1 = given h l @ concat (map (\<lambda>d. if dv_dev_hdl d = h then dev_req l d else []) (devs l))"
    using send_regular_plain [OF assms(1,2) ok, of env ?re False "[]"] assms(3) by auto
  have sp: "send_special env CAM_TRIGGER_POINT_SOF ?re (devs l) l = (Sp_Go, l)"
    by (rule send_special_plain [OF assms(1,2)]) simp
  let ?l2 = "l1\<lparr>lk_prev_apply_data := lk_apply_data l1,
      lk_open_req_cnt := (if mp then lk_open_req_cnt l1 - 1 else lk_open_req_cnt l1)\<rparr>"
  show ?thesis
  proof (rule that)
    show "cam_req_mgr_send_req env CAM_TRIGGER_POINT_SOF l = (0, None, ?l2)"
      unfolding cam_req_mgr_send_req_def Let_def sp prod.case special_result.case r(1) by simp
    show "core ?l2 = (core l)\<lparr>lk_prev_apply_data := lk_apply_data l\<rparr>"
      unfolding r(2) [symmetric] using core_fields(3) [OF r(2)] by (simp add: core_def)
    show "\<forall>d \<in> set (devs l). given (dv_dev_hdl d) ?l2 = given (dv_dev_hdl d) l @ dev_req l d"
    proof
      fix d assume "d \<in> set (devs l)"
      from one_dev [OF dist this, of "dev_req l"] r(3) show "given (dv_dev_hdl d) ?l2 = given (dv_dev_hdl d) l @ dev_req l d"
        by (simp add: given_def)
    qed
  qed
qed

end
