(* ===== verification/Crm_Window.thy ===== *)
theory Crm_Window imports Crm_Pipeline begin

text \<open>
  The input queue of a link as a window on the list \<open>E\<close> of all entries ever made in it, requests
  and the skips the request manager puts in when it has nothing scheduled: \<open>r\<close> is the position at
  the read index, \<open>a\<close> the number of positions applied. A table of delay \<open>p\<close> is \<open>M - p\<close>
  positions behind. The operations on the queue and on the tables are followed through the window.
\<close>

section \<open>The queue as a window\<close>

definition entry :: "int \<Rightarrow> bool \<Rightarrow> bool \<Rightarrow> cam_req_mgr_slot \<Rightarrow> bool" where
  "entry e applied current s \<longleftrightarrow>
     sl_req_id s = e \<and> sl_skip_idx s = (if e = - 1 then 1 else 0) \<and> sl_sync_mode s = CAM_REQ_MGR_SYNC_MODE_NO_SYNC \<and>
     (if applied then sl_status s = CRM_SLOT_STATUS_REQ_APPLIED
      else sl_status s = CRM_SLOT_STATUS_REQ_ADDED \<or> current \<and> sl_status s = CRM_SLOT_STATUS_REQ_PENDING)"

definition queue_ok :: "cam_req_mgr_req_queue \<Rightarrow> bool" where
  "queue_ok q \<longleftrightarrow> iq_num_slots q = 48 \<and> length (iq_slot q) = 48 \<and> (\<forall>j < 48. sl_idx (iq_slot q ! j) = int j)"

text \<open>The positions from \<open>r - M\<close> on are kept: a lower delay may still need them.\<close>

definition window :: "int list \<Rightarrow> nat \<Rightarrow> nat \<Rightarrow> nat \<Rightarrow> cam_req_mgr_req_queue \<Rightarrow> bool" where
  "window E a r M q \<longleftrightarrow>
     queue_ok q \<and> M < 3 \<and> r \<le> a \<and> a \<le> Suc r \<and> a \<le> length E \<and> length E - (r - M) \<le> 48 \<and>
     iq_rd_idx q = int (r mod 48) \<and> iq_wr_idx q = int (length E mod 48) \<and>
     (\<forall>e \<in> set E. e = - 1 \<or> e > 0) \<and>
     (\<forall>i. r - M \<le> i \<and> i < length E \<longrightarrow> entry (E ! i) (i < a) (i = r) (iq_slot q ! (i mod 48))) \<and>
     (\<forall>j < 48. sl_status (iq_slot q ! j) \<in> {CRM_SLOT_STATUS_NO_REQ, CRM_SLOT_STATUS_REQ_APPLIED} \<or>
        (\<exists>i. r - M \<le> i \<and> i < length E \<and> i mod 48 = j)) \<and>
     (\<forall>j < 48. sl_status (iq_slot q ! j) = CRM_SLOT_STATUS_NO_REQ \<longrightarrow> sl_sync_mode (iq_slot q ! j) = CAM_REQ_MGR_SYNC_MODE_NO_SYNC) \<and>
     (\<forall>j < 48. sl_req_id (iq_slot q ! j) \<noteq> 0) \<and>
     (r = length E \<longrightarrow> sl_status (iq_slot q ! (r mod 48)) = CRM_SLOT_STATUS_NO_REQ)"

lemma mod48_eq:
  assumes "(i::nat) mod 48 = j mod 48" "i \<le> j" "j < i + 48"
  shows "i = j"
proof -
  from assms have "48 dvd j - i" using mod_eq_dvd_iff_nat [of i j 48] by simp
  moreover have "j - i < 48" using assms by simp
  ultimately have "j - i = 0" by (auto dest: dvd_imp_le)
  with assms(2) show ?thesis by simp
qed

text \<open>Two positions of the window never share a slot.\<close>

lemma window_inj:
  assumes "length E - (r - M) \<le> 48" "r - M \<le> i" "i < length E" "r - M \<le> j" "j < length E" "i mod 48 = j mod 48"
  shows "i = j"
proof (cases "i \<le> j")
  case True
  show ?thesis by (rule mod48_eq [OF assms(6) True]) (use assms in linarith)
next
  case False
  have "j = i" by (rule mod48_eq [OF assms(6) [symmetric]]) (use assms False in linarith)+
  then show ?thesis by simp
qed

lemma windowD:
  assumes "window E a r M q"
  shows "queue_ok q" "M < 3" "r \<le> a" "a \<le> Suc r" "a \<le> length E" "length E - (r - M) \<le> 48"
    "iq_rd_idx q = int (r mod 48)" "iq_wr_idx q = int (length E mod 48)"
  using assms by (simp_all add: window_def)

lemma window_entry:
  "window E a r M q \<Longrightarrow> r - M \<le> i \<Longrightarrow> i < length E \<Longrightarrow> entry (E ! i) (i < a) (i = r) (iq_slot q ! (i mod 48))"
  by (simp add: window_def)

lemma slot_upd_simps [simp]:
  "iq_num_slots (slot_upd i f q) = iq_num_slots q" "iq_rd_idx (slot_upd i f q) = iq_rd_idx q"
  "iq_wr_idx (slot_upd i f q) = iq_wr_idx q" "iq_last_applied_idx (slot_upd i f q) = iq_last_applied_idx q"
  "iq_slot (slot_upd i f q) = elem_upd i f (iq_slot q)"
  by (simp_all add: slot_upd_def)

lemma elem_upd_nth:
  "j < length xs \<Longrightarrow> elem_upd (int i) f xs ! j = (if i = j then f (xs ! j) else xs ! j)"
  by (auto simp: elem_upd_def)

text \<open>A change of one slot that keeps what the window says of it.\<close>

lemma window_slot_upd:
  assumes w: "window E a r M q" and j: "j < 48" and f: "sl_idx (f (iq_slot q ! j)) = sl_idx (iq_slot q ! j)"
    and e: "\<And>i. r - M \<le> i \<Longrightarrow> i < length E \<Longrightarrow> i mod 48 = j \<Longrightarrow> entry (E ! i) (i < a) (i = r) (f (iq_slot q ! j))"
    and o: "sl_status (f (iq_slot q ! j)) \<in> {CRM_SLOT_STATUS_NO_REQ, CRM_SLOT_STATUS_REQ_APPLIED} \<or>
        (\<exists>i. r - M \<le> i \<and> i < length E \<and> i mod 48 = j)"
    and m: "sl_status (f (iq_slot q ! j)) = CRM_SLOT_STATUS_NO_REQ \<Longrightarrow> sl_sync_mode (f (iq_slot q ! j)) = CAM_REQ_MGR_SYNC_MODE_NO_SYNC"
    and nz: "sl_req_id (f (iq_slot q ! j)) \<noteq> 0"
    and z: "r = length E \<Longrightarrow> j = r mod 48 \<Longrightarrow> sl_status (f (iq_slot q ! j)) = CRM_SLOT_STATUS_NO_REQ"
  shows "window E a r M (slot_upd (int j) f q)"
proof -
  let ?q = "slot_upd (int j) f q"
  have n: "iq_slot ?q ! i = (if j = i then f (iq_slot q ! j) else iq_slot q ! i)" if "i < 48" for i
    using windowD(1) [OF w] that by (simp add: elem_upd_nth queue_ok_def)
  have "queue_ok ?q" using windowD(1) [OF w] f n by (simp add: queue_ok_def)
  moreover have "entry (E ! i) (i < a) (i = r) (iq_slot ?q ! (i mod 48))" if "r - M \<le> i" "i < length E" for i
    using e [of i] window_entry [OF w that] that n [of "i mod 48"] by (cases "i mod 48 = j") simp_all
  moreover have "sl_status (iq_slot ?q ! i) \<in> {CRM_SLOT_STATUS_NO_REQ, CRM_SLOT_STATUS_REQ_APPLIED} \<or>
        (\<exists>i'. r - M \<le> i' \<and> i' < length E \<and> i' mod 48 = i)" if "i < 48" for i
    using o w that n [OF that] unfolding window_def by (cases "j = i") simp_all
  moreover have "sl_sync_mode (iq_slot ?q ! i) = CAM_REQ_MGR_SYNC_MODE_NO_SYNC"
    if "i < 48" "sl_status (iq_slot ?q ! i) = CRM_SLOT_STATUS_NO_REQ" for i
    using m w that n [OF that(1)] unfolding window_def by (cases "j = i") simp_all
  moreover have "sl_req_id (iq_slot ?q ! i) \<noteq> 0" if "i < 48" for i
    using nz w that n [OF that] unfolding window_def by (cases "j = i") simp_all
  moreover have "sl_status (iq_slot ?q ! (r mod 48)) = CRM_SLOT_STATUS_NO_REQ" if "r = length E"
  proof (cases "j = r mod 48")
    case True
    with z that n [of "r mod 48"] show ?thesis by simp
  next
    case False
    with w that n [of "r mod 48"] show ?thesis unfolding window_def by simp
  qed
  ultimately show ?thesis using w unfolding window_def slot_upd_simps(1-4) by blast
qed

lemma inc_idx_nat: "cam_req_mgr_inc_idx (int (n mod 48)) 1 48 = int (Suc n mod 48)"
proof -
  have "(int (n mod 48) + 1) mod 48 = int (Suc (n mod 48) mod 48)" by (simp add: zmod_int add.commute)
  then show ?thesis by (simp add: cam_req_mgr_inc_idx_def mod_Suc_eq del: of_nat_Suc)
qed

lemma entry_status: "entry e ap cur s \<Longrightarrow> sl_status s \<noteq> CRM_SLOT_STATUS_NO_REQ"
  by (auto simp: entry_def split: if_splits)

lemma window_last_applied [simp]: "window E a r M (q\<lparr>iq_last_applied_idx := x\<rparr>) = window E a r M q"
  by (simp add: window_def queue_ok_def)

lemma window_reset:
  assumes "window E a r M q" "j < 48" "\<And>i. r - M \<le> i \<Longrightarrow> i < length E \<Longrightarrow> i mod 48 \<noteq> j"
  shows "window E a r M (slot_upd (int j) reset_slot q)"
  by (rule window_slot_upd [OF assms(1,2)]) (use assms(3) in \<open>auto simp: reset_slot_def\<close>)

text \<open>The position at the read index is tried, or applied.\<close>

lemma window_pending:
  assumes "window E r r M q" "r < length E"
  shows "window E r r M (slot_upd (iq_rd_idx q) (\<lambda>s. s\<lparr>sl_status := CRM_SLOT_STATUS_REQ_PENDING\<rparr>) q)"
  unfolding windowD(7) [OF assms(1)]
proof (rule window_slot_upd [OF assms(1)])
  show "sl_req_id ((iq_slot q ! (r mod 48))\<lparr>sl_status := CRM_SLOT_STATUS_REQ_PENDING\<rparr>) \<noteq> 0"
    using assms(1) unfolding window_def by simp
next
  fix i assume i: "r - M \<le> i" "i < length E" "i mod 48 = r mod 48"
  have "i = r" by (rule window_inj [OF windowD(6) [OF assms(1)] i(1,2) _ assms(2) i(3)]) simp
  then show "entry (E ! i) (i < r) (i = r) ((iq_slot q ! (r mod 48))\<lparr>sl_status := CRM_SLOT_STATUS_REQ_PENDING\<rparr>)"
    using window_entry [OF assms(1) i(1,2)] by (simp add: entry_def)
qed (use assms(2) in \<open>auto intro!: exI [of _ r]\<close>)

lemma window_applied:
  assumes "window E r r M q" "r < length E"
  shows "window E (Suc r) r M (slot_upd (iq_rd_idx q) (\<lambda>s. s\<lparr>sl_status := CRM_SLOT_STATUS_REQ_APPLIED\<rparr>) q)"
proof -
  let ?q = "slot_upd (iq_rd_idx q) (\<lambda>s. s\<lparr>sl_status := CRM_SLOT_STATUS_REQ_APPLIED\<rparr>) q"
  have n: "iq_slot ?q ! i = (if r mod 48 = i then (iq_slot q ! i)\<lparr>sl_status := CRM_SLOT_STATUS_REQ_APPLIED\<rparr> else iq_slot q ! i)"
    if "i < 48" for i
    using windowD(1) [OF assms(1)] that by (simp add: windowD(7) [OF assms(1)] elem_upd_nth queue_ok_def)
  have "queue_ok ?q" using windowD(1) [OF assms(1)] n by (simp add: queue_ok_def)
  moreover have "entry (E ! i) (i < Suc r) (i = r) (iq_slot ?q ! (i mod 48))" if i: "r - M \<le> i" "i < length E" for i
  proof (cases "i = r")
    case True
    then show ?thesis using window_entry [OF assms(1) i] n [of "r mod 48"] by (simp add: entry_def)
  next
    case False
    have "i mod 48 \<noteq> r mod 48" using window_inj [OF windowD(6) [OF assms(1)] i _ assms(2)] False by auto
    then show ?thesis using window_entry [OF assms(1) i] n [of "i mod 48"] False by (auto simp: less_Suc_eq)
  qed
  moreover have "sl_status (iq_slot ?q ! i) \<in> {CRM_SLOT_STATUS_NO_REQ, CRM_SLOT_STATUS_REQ_APPLIED} \<or>
        (\<exists>i'. r - M \<le> i' \<and> i' < length E \<and> i' mod 48 = i)" if "i < 48" for i
    using assms(1) that n [OF that] unfolding window_def by (cases "r mod 48 = i") simp_all
  moreover have "sl_sync_mode (iq_slot ?q ! i) = CAM_REQ_MGR_SYNC_MODE_NO_SYNC"
    if "i < 48" "sl_status (iq_slot ?q ! i) = CRM_SLOT_STATUS_NO_REQ" for i
    using assms(1) that n [OF that(1)] unfolding window_def by (cases "r mod 48 = i") simp_all
  moreover have "sl_req_id (iq_slot ?q ! i) \<noteq> 0" if "i < 48" for i
    using assms(1) that n [OF that] unfolding window_def by (cases "r mod 48 = i") simp_all
  ultimately show ?thesis using assms unfolding window_def slot_upd_simps(1-4) by (simp del: mod_less_divisor)
qed

text \<open>A new entry at the write index.\<close>

lemma window_push:
  assumes w: "window E a r M q" and room: "length E - (r - M) < 48"
    and e: "e = - 1 \<or> e > 0" "entry e False (length E = r) (f (iq_slot q ! (length E mod 48)))"
      "sl_idx (f (iq_slot q ! (length E mod 48))) = sl_idx (iq_slot q ! (length E mod 48))"
  shows "window (E @ [e]) a r M ((slot_upd (iq_wr_idx q) f q)\<lparr>iq_wr_idx := cam_req_mgr_inc_idx (iq_wr_idx q) 1 48\<rparr>)"
proof -
  let ?q = "(slot_upd (iq_wr_idx q) f q)\<lparr>iq_wr_idx := cam_req_mgr_inc_idx (iq_wr_idx q) 1 48\<rparr>"
  have n: "iq_slot ?q ! i = (if length E mod 48 = i then f (iq_slot q ! i) else iq_slot q ! i)" if "i < 48" for i
    using windowD(1) [OF w] that by (simp add: windowD(8) [OF w] elem_upd_nth queue_ok_def)
  have other: "i mod 48 \<noteq> length E mod 48" if i: "r - M \<le> i" "i < length E" for i
    using mod48_eq [of i "length E"] i room by linarith
  have len: "length (E @ [e]) - (r - M) \<le> 48" using room by simp
  have "queue_ok ?q" using windowD(1) [OF w] e(3) n by (simp add: queue_ok_def)
  moreover have "iq_wr_idx ?q = int (length (E @ [e]) mod 48)"
    by (simp add: windowD(8) [OF w] inc_idx_nat)
  moreover have "entry ((E @ [e]) ! i) (i < a) (i = r) (iq_slot ?q ! (i mod 48))" if i: "r - M \<le> i" "i < length (E @ [e])" for i
  proof (cases "i = length E")
    case True
    then show ?thesis using e(2) n [of "length E mod 48"] windowD(3,5) [OF w] by simp
  next
    case False
    then show ?thesis using window_entry [OF w, of i] other [of i] n [of "i mod 48"] i by (simp add: nth_append)
  qed
  moreover have "sl_status (iq_slot ?q ! i) \<in> {CRM_SLOT_STATUS_NO_REQ, CRM_SLOT_STATUS_REQ_APPLIED} \<or>
        (\<exists>i'. r - M \<le> i' \<and> i' < length (E @ [e]) \<and> i' mod 48 = i)" if i: "i < 48" for i
  proof (cases "length E mod 48 = i")
    case True
    then show ?thesis using windowD(3,5) [OF w] by (intro disjI2 exI [of _ "length E"]) simp
  next
    case False
    then have "sl_status (iq_slot q ! i) \<in> {CRM_SLOT_STATUS_NO_REQ, CRM_SLOT_STATUS_REQ_APPLIED} \<or>
        (\<exists>i'. r - M \<le> i' \<and> i' < length E \<and> i' mod 48 = i)" "iq_slot ?q ! i = iq_slot q ! i"
      using w i n [OF i] unfolding window_def by simp_all
    then show ?thesis by (auto simp: less_Suc_eq)
  qed
  moreover have "sl_sync_mode (iq_slot ?q ! i) = CAM_REQ_MGR_SYNC_MODE_NO_SYNC"
    if "i < 48" "sl_status (iq_slot ?q ! i) = CRM_SLOT_STATUS_NO_REQ" for i
    using entry_status [OF e(2)] w that n [OF that(1)] unfolding window_def by (cases "length E mod 48 = i") simp_all
  moreover have "sl_req_id (iq_slot ?q ! i) \<noteq> 0" if "i < 48" for i
    using e(1,2) w that n [OF that] unfolding window_def by (cases "length E mod 48 = i") (auto simp: entry_def)
  ultimately show ?thesis using w e(1) len unfolding window_def by simp
qed

text \<open>The read index moves on.\<close>

lemma window_advance:
  assumes w: "window E (Suc r) r M q"
    and nxt: "Suc r = length E \<Longrightarrow> sl_status (iq_slot q ! (Suc r mod 48)) = CRM_SLOT_STATUS_NO_REQ"
  shows "window E (Suc r) (Suc r) M (q\<lparr>iq_rd_idx := cam_req_mgr_inc_idx (iq_rd_idx q) 1 48\<rparr>)"
proof -
  let ?q = "q\<lparr>iq_rd_idx := cam_req_mgr_inc_idx (iq_rd_idx q) 1 48\<rparr>"
  have "queue_ok ?q" using windowD(1) [OF w] by (simp add: queue_ok_def)
  moreover have "iq_rd_idx ?q = int (Suc r mod 48)"
    by (simp add: windowD(7) [OF w] inc_idx_nat)
  moreover have "entry (E ! i) (i < Suc r) (i = Suc r) (iq_slot ?q ! (i mod 48))" if i: "Suc r - M \<le> i" "i < length E" for i
  proof -
    have "r - M \<le> i" using i(1) by linarith
    from window_entry [OF w this i(2)] show ?thesis by (auto simp: entry_def)
  qed
  moreover have "sl_status (iq_slot ?q ! j) \<in> {CRM_SLOT_STATUS_NO_REQ, CRM_SLOT_STATUS_REQ_APPLIED} \<or>
        (\<exists>i'. Suc r - M \<le> i' \<and> i' < length E \<and> i' mod 48 = j)" if j: "j < 48" for j
  proof -
    have "sl_status (iq_slot q ! j) \<in> {CRM_SLOT_STATUS_NO_REQ, CRM_SLOT_STATUS_REQ_APPLIED} \<or>
        (\<exists>i'. r - M \<le> i' \<and> i' < length E \<and> i' mod 48 = j)" using w j unfolding window_def by simp
    moreover have "sl_status (iq_slot q ! j) = CRM_SLOT_STATUS_REQ_APPLIED"
      if i: "r - M \<le> i'" "i' < length E" "i' mod 48 = j" "\<not> Suc r - M \<le> i'" for i'
      using window_entry [OF w i(1,2)] i(3,4) by (simp add: entry_def)
    ultimately show ?thesis by auto
  qed
  moreover have "length E - (Suc r - M) \<le> 48" using windowD(6) [OF w] by linarith
  ultimately show ?thesis using w nxt windowD(5) [OF w] unfolding window_def by simp
qed

section \<open>The link\<close>

definition skips :: "cam_req_mgr_core_link \<Rightarrow> nat \<Rightarrow> bool" where
  "skips l a \<longleftrightarrow> (\<forall>t \<in> set (lk_l_tbl l). tb_skip_traverse t = max 0 (lk_max_delay l - tb_pd t - int a))"

text \<open>Every request of the window has been added by all devices and no delay is asked for.\<close>

definition ready :: "int list \<Rightarrow> nat \<Rightarrow> cam_req_mgr_core_link \<Rightarrow> bool" where
  "ready E r l \<longleftrightarrow>
     (\<forall>t \<in> set (lk_l_tbl l). (\<forall>s \<in> set (tb_slot t). ts_inject_delay_at_sof s = 0) \<and>
        (\<forall>i. r - nat (lk_max_delay l) \<le> i \<and> i < length E \<and> E ! i \<noteq> - 1 \<longrightarrow>
           ts_state (tb_slot t ! (i mod 48)) = CRM_REQ_STATE_READY))"

text \<open>The flag \<open>b\<close> says whether the link is also known to be ready.\<close>

definition pipe :: "bool \<Rightarrow> int list \<Rightarrow> nat \<Rightarrow> nat \<Rightarrow> cam_req_mgr_core_link \<Rightarrow> bool" where
  "pipe b E a r l \<longleftrightarrow> link_ok l \<and> lk_state l = CAM_CRM_LINK_STATE_READY \<and> skips l a \<and>
     window E a r (nat (lk_max_delay l)) (in_q l) \<and> (b \<longrightarrow> ready E r l)"

lemma pipe_core: "core l = core m \<Longrightarrow> pipe b E a r l = pipe b E a r m"
  using core_fields [of l m] link_ok_core [of l m] by (simp add: pipe_def skips_def ready_def)

lemma pipeD:
  assumes "pipe b E a r l"
  shows "link_ok l" "lk_state l = CAM_CRM_LINK_STATE_READY" "skips l a" "window E a r (nat (lk_max_delay l)) (in_q l)"
    "b \<longrightarrow> ready E r l"
  using assms by (simp_all add: pipe_def)

lemma in_q_upd_in_q [simp]: "in_q (in_q_upd f l) = f (in_q l)"
  by (simp add: in_q_def in_q_upd_def)

lemma in_q_upd_fields [simp]:
  "lk_l_tbl (in_q_upd f l) = lk_l_tbl l" "lk_max_delay (in_q_upd f l) = lk_max_delay l" "lk_state (in_q_upd f l) = lk_state l"
  "lk_log (in_q_upd f l) = lk_log l" "devs (in_q_upd f l) = devs l" "sync_links (in_q_upd f l) = sync_links l"
  "lk_parent (in_q_upd f l) = lk_parent l" "lk_pd_mask (in_q_upd f l) = lk_pd_mask l"
  "lk_prev_apply_data (in_q_upd f l) = lk_prev_apply_data l" "lk_apply_data (in_q_upd f l) = lk_apply_data l"
  "lk_in_q (in_q_upd f l) = Some (f (in_q l))"
  by (simp_all add: in_q_upd_def devs_def sync_links_def)

lemma link_ok_queue: "link_ok l \<Longrightarrow> queue_ok (in_q l)"
  by (simp add: link_ok_def queue_ok_def)

lemma link_ok_in_q_upd: "link_ok l \<Longrightarrow> queue_ok (f (in_q l)) \<Longrightarrow> link_ok (in_q_upd f l)"
  by (simp add: link_ok_def queue_ok_def)

lemma pipe_in_q_upd:
  assumes "pipe b E a r l" "window E' a' r' (nat (lk_max_delay l)) (f (in_q l))" "skips l a'" "b \<longrightarrow> ready E' r' l"
  shows "pipe b E' a' r' (in_q_upd f l)"
  using assms link_ok_in_q_upd [of l f, OF pipeD(1) [OF assms(1)] windowD(1) [OF assms(2)]] by (simp add: pipe_def skips_def ready_def)

text \<open>A change of the slots of the tables that leaves special operations away.\<close>

definition same_tbls :: "cam_req_mgr_req_tbl list \<Rightarrow> cam_req_mgr_req_tbl list \<Rightarrow> bool" where
  "same_tbls ts us \<longleftrightarrow> list_all2 (\<lambda>t u. length (tb_slot u) = length (tb_slot t) \<and> tb_pd u = tb_pd t \<and> tb_dev_mask u = tb_dev_mask t \<and>
     tb_num_slots u = tb_num_slots t \<and> tb_pd_delta u = tb_pd_delta t) ts us"

lemma same_tbls_chain: "same_tbls ts us \<Longrightarrow> tbl_chain ts \<Longrightarrow> tbl_chain us"
  unfolding same_tbls_def
proof (induction rule: list_all2_induct)
  case (Cons t ts u us)
  then show ?case by (cases ts; cases us) auto
qed simp

lemma same_tbls_pds: "same_tbls ts us \<Longrightarrow> map tb_pd us = map tb_pd ts"
  unfolding same_tbls_def by (induction rule: list_all2_induct) simp_all

lemma same_tbls_bits: "same_tbls ts us \<Longrightarrow> pd_bits us x = pd_bits ts x"
  unfolding same_tbls_def by (induction rule: list_all2_induct) simp_all

lemma link_ok_tbls:
  assumes "link_ok l" "same_tbls (lk_l_tbl l) us" "plain_tbls us"
  shows "link_ok (l\<lparr>lk_l_tbl := us\<rparr>)"
proof -
  have "tb_pd ` set us = tb_pd ` set (lk_l_tbl l)" using same_tbls_pds [OF assms(2)] by (metis set_map)
  moreover have "us \<noteq> []" using assms by (auto simp: link_ok_def same_tbls_def)
  moreover have "tb_pd (hd us) = tb_pd (hd (lk_l_tbl l))" using assms(1) same_tbls_pds [OF assms(2)] \<open>us \<noteq> []\<close>
    by (metis hd_map link_ok_def)
  ultimately show ?thesis
    using assms same_tbls_chain [OF assms(2)] same_tbls_bits [OF assms(2)]
    by (simp add: link_ok_def dev_ok_def in_q_def devs_def sync_links_def)
qed

lemma pipe_tbls:
  assumes "pipe b E a r l" "same_tbls (lk_l_tbl l) us" "plain_tbls us" "skips (l\<lparr>lk_l_tbl := us\<rparr>) a"
    "c \<longrightarrow> ready E r (l\<lparr>lk_l_tbl := us\<rparr>)"
  shows "pipe c E a r (l\<lparr>lk_l_tbl := us\<rparr>)"
  using assms link_ok_tbls [OF pipeD(1) [OF assms(1)] assms(2,3)] by (simp add: pipe_def in_q_def)

lemma plain_elem_upd:
  assumes "plain_tbls [t]" "\<And>s. ts_ops s = no_ops \<Longrightarrow> ts_ops (f s) = no_ops"
  shows "plain_tbls [t\<lparr>tb_slot := elem_upd i f (tb_slot t)\<rparr>]"
proof (cases "nat i < length (tb_slot t)")
  case True
  with assms show ?thesis by (auto simp: plain_tbls_def elem_upd_def set_update_subset_insert [THEN subsetD] dest!: set_update_subset_insert [THEN subsetD])
next
  case False
  with assms show ?thesis by (simp add: plain_tbls_def elem_upd_def list_update_beyond)
qed

text \<open>Tables that keep their \<open>skip_traverse\<close> and are changed slot by slot.\<close>

definition slot_map :: "(cam_req_mgr_req_tbl \<Rightarrow> cam_req_mgr_req_tbl) \<Rightarrow> bool" where
  "slot_map f \<longleftrightarrow> (\<forall>t. \<exists>ss. f t = t\<lparr>tb_slot := ss\<rparr> \<and> length ss = length (tb_slot t) \<and> (plain_tbls [t] \<longrightarrow> plain_tbls [f t]))"

lemma slot_map_tbls:
  assumes "slot_map f"
  shows "same_tbls ts (map f ts)" "plain_tbls ts \<Longrightarrow> plain_tbls (map f ts)" "map tb_skip_traverse (map f ts) = map tb_skip_traverse ts"
proof -
  have one: "length (tb_slot (f t)) = length (tb_slot t) \<and> tb_pd (f t) = tb_pd t \<and> tb_dev_mask (f t) = tb_dev_mask t \<and>
     tb_num_slots (f t) = tb_num_slots t \<and> tb_pd_delta (f t) = tb_pd_delta t \<and> tb_skip_traverse (f t) = tb_skip_traverse t" for t
    using assms unfolding slot_map_def by (metis (no_types, lifting) cam_req_mgr_req_tbl.select_convs cam_req_mgr_req_tbl.surjective cam_req_mgr_req_tbl.update_convs(8))
  then show "same_tbls ts (map f ts)" by (simp add: same_tbls_def list_all2_map2 list.rel_refl)
  show "map tb_skip_traverse (map f ts) = map tb_skip_traverse ts" using one by simp
  show "plain_tbls (map f ts)" if "plain_tbls ts"
    using that assms by (auto simp: plain_tbls_def slot_map_def)
qed

lemma pipe_slot_map:
  assumes "pipe b E a r l" "slot_map f" "c \<longrightarrow> ready E r (l\<lparr>lk_l_tbl := map f (lk_l_tbl l)\<rparr>)"
  shows "pipe c E a r (l\<lparr>lk_l_tbl := map f (lk_l_tbl l)\<rparr>)"
proof (rule pipe_tbls [OF assms(1) _ _ _ assms(3)])
  have "tb_skip_traverse (f t) = tb_skip_traverse t \<and> tb_pd (f t) = tb_pd t" for t
    using assms(2) unfolding slot_map_def by (metis cam_req_mgr_req_tbl.select_convs(2,5) cam_req_mgr_req_tbl.surjective cam_req_mgr_req_tbl.update_convs(8))
  with pipeD(3) [OF assms(1)] show "skips (l\<lparr>lk_l_tbl := map f (lk_l_tbl l)\<rparr>) a" by (simp add: skips_def)
qed (use slot_map_tbls [OF assms(2)] pipeD(1) [OF assms(1)] in \<open>simp_all add: link_ok_def\<close>)

lemma slot_map_elem_upd:
  assumes "\<And>s. ts_ops s = no_ops \<Longrightarrow> ts_ops (f s) = no_ops"
  shows "slot_map (\<lambda>t. if P t then t\<lparr>tb_slot := elem_upd i f (tb_slot t)\<rparr> else t)"
    "slot_map (\<lambda>t. t\<lparr>tb_slot := elem_upd i f (tb_slot t)\<rparr>)"
proof -
  have keep: "\<exists>ss. t = t\<lparr>tb_slot := ss\<rparr> \<and> length ss = length (tb_slot t)" for t :: cam_req_mgr_req_tbl
    by (rule exI [of _ "tb_slot t"]) simp
  show "slot_map (\<lambda>t. if P t then t\<lparr>tb_slot := elem_upd i f (tb_slot t)\<rparr> else t)"
    "slot_map (\<lambda>t. t\<lparr>tb_slot := elem_upd i f (tb_slot t)\<rparr>)"
    using plain_elem_upd [of _ f i, OF _ assms] keep by (auto simp: slot_map_def)
qed

lemma inject_step:
  obtains s' b where "ts_ops s' = ts_ops (elem (tb_slot t) idx)"
    "cam_req_mgr_inject_delay (t # ts) idx tp =
      (if b then - EAGAIN else fst (cam_req_mgr_inject_delay ts (cam_req_mgr_dec_idx idx (tb_pd_delta t) (tb_num_slots t)) tp),
       t\<lparr>tb_slot := elem_upd idx (\<lambda>_. s') (tb_slot t)\<rparr> #
         snd (cam_req_mgr_inject_delay ts (cam_req_mgr_dec_idx idx (tb_pd_delta t) (tb_num_slots t)) tp))"
proof -
  let ?s = "elem (tb_slot t) idx"
  let ?b1 = "tp = CAM_TRIGGER_POINT_SOF \<and> ts_inject_delay_at_sof ?s > 0"
  let ?b2 = "\<not> ?b1 \<and> tp = CAM_TRIGGER_POINT_EOF \<and> ts_inject_delay_at_eof ?s > 0"
  let ?s' = "if ?b1 then ?s\<lparr>ts_inject_delay_at_sof := ts_inject_delay_at_sof ?s - 1\<rparr>
                else if ?b2 then ?s\<lparr>ts_inject_delay_at_eof := ts_inject_delay_at_eof ?s - 1\<rparr> else ?s"
  show ?thesis
    by (rule that [of ?s' "?b1 \<or> ?b2"])
      (simp, simp only: cam_req_mgr_inject_delay.simps Let_def case_prod_beta)
qed

lemma inject_delay_map:
  "snd (cam_req_mgr_inject_delay ts idx tp) = us \<Longrightarrow> same_tbls ts us \<and> (plain_tbls ts \<longrightarrow> plain_tbls us) \<and>
     map tb_skip_traverse us = map tb_skip_traverse ts"
proof (induction ts arbitrary: idx us)
  case Nil
  then show ?case by (simp add: same_tbls_def)
next
  case (Cons t ts)
  let ?r = "cam_req_mgr_inject_delay ts (cam_req_mgr_dec_idx idx (tb_pd_delta t) (tb_num_slots t)) tp"
  obtain s' b where st: "ts_ops s' = ts_ops (elem (tb_slot t) idx)" "cam_req_mgr_inject_delay (t # ts) idx tp =
      (if b then - EAGAIN else fst ?r, t\<lparr>tb_slot := elem_upd idx (\<lambda>_. s') (tb_slot t)\<rparr> # snd ?r)"
    by (rule inject_step)
  have us: "us = t\<lparr>tb_slot := elem_upd idx (\<lambda>_. s') (tb_slot t)\<rparr> # snd ?r" "ts_ops s' = ts_ops (elem (tb_slot t) idx)"
    using Cons.prems st by simp_all
  have "plain_tbls [t\<lparr>tb_slot := elem_upd idx (\<lambda>_. s') (tb_slot t)\<rparr>]" if "plain_tbls [t]"
  proof (cases "nat idx < length (tb_slot t)")
    case True
    then have "ts_ops s' = no_ops" using that us(2) by (simp add: plain_tbls_def elem_def)
    then show ?thesis using that by (auto simp: plain_tbls_def elem_upd_def dest!: set_update_subset_insert [THEN subsetD])
  next
    case False
    with that show ?thesis by (simp add: plain_tbls_def elem_upd_def list_update_beyond)
  qed
  then have "plain_tbls us" if "plain_tbls (t # ts)"
    using that Cons.IH [OF refl, of "cam_req_mgr_dec_idx idx (tb_pd_delta t) (tb_num_slots t)"] us(1)
    by (simp add: plain_tbls_def)
  then show ?case using Cons.IH [OF refl, of "cam_req_mgr_dec_idx idx (tb_pd_delta t) (tb_num_slots t)"] us(1)
    by (simp add: same_tbls_def)
qed

lemma map_eq_all2: "map f us = map f ts \<Longrightarrow> list_all2 (\<lambda>t u. f u = f t) ts us"
  by (induction us arbitrary: ts) (auto simp: list_all2_Cons2 Cons_eq_map_conv)

lemma skips_same:
  assumes "skips l a" "same_tbls (lk_l_tbl l) us" "map tb_skip_traverse us = map tb_skip_traverse (lk_l_tbl l)"
  shows "skips (l\<lparr>lk_l_tbl := us\<rparr>) a"
proof -
  have "\<exists>t \<in> set (lk_l_tbl l). tb_skip_traverse u = tb_skip_traverse t \<and> tb_pd u = tb_pd t" if "u \<in> set us" for u
    using that assms(2,3) same_tbls_pds [OF assms(2)]
    by (metis (no_types, lifting) in_set_conv_nth length_map nth_map)
  with assms(1) show ?thesis by (fastforce simp: skips_def)
qed

lemma elem_upd_same: "elem_upd i (\<lambda>_. elem xs i) xs = xs"
  by (simp add: elem_upd_def elem_def)

text \<open>Without delays asked for, none is injected.\<close>

lemma inject_none:
  assumes "\<forall>t \<in> set ts. \<forall>s \<in> set (tb_slot t). ts_inject_delay_at_sof s = 0" "tbl_chain ts" "0 \<le> idx" "idx < 48"
  shows "cam_req_mgr_inject_delay ts idx CAM_TRIGGER_POINT_SOF = (0, ts)"
  using assms
proof (induction ts arbitrary: idx)
  case (Cons t ts)
  have "tb_slot t ! nat idx \<in> set (tb_slot t)" using Cons.prems(2-4) by simp
  then have z: "ts_inject_delay_at_sof (elem (tb_slot t) idx) = 0" using Cons.prems(1) by (simp add: elem_def)
  have "cam_req_mgr_inject_delay ts (cam_req_mgr_dec_idx idx (tb_pd_delta t) (tb_num_slots t)) CAM_TRIGGER_POINT_SOF = (0, ts)"
  proof (cases ts)
    case (Cons u us)
    have ts: "tbl_chain ts" and d: "0 \<le> tb_pd_delta t" "tb_pd_delta t \<le> 48" "tb_num_slots t = 48"
      using Cons.prems(2) Cons by auto
    show ?thesis
      by (rule Cons.IH) (use Cons.prems(1,3,4) ts d in \<open>simp_all add: dec_idx_mod\<close>)
  qed simp
  then show ?case by (simp add: Let_def z elem_upd_same)
qed simp

lemma ready_no_delay: "ready E r l \<Longrightarrow> \<forall>t \<in> set (lk_l_tbl l). \<forall>s \<in> set (tb_slot t). ts_inject_delay_at_sof s = 0"
  by (simp add: ready_def)

lemma inject_ready:
  assumes "ready E r l" "link_ok l" "0 \<le> idx" "idx < 48"
  shows "inject_delay idx CAM_TRIGGER_POINT_SOF l = (0, l)"
  using inject_none [OF ready_no_delay [OF assms(1)] _ assms(3,4)] assms(2) by (simp add: inject_delay_def link_ok_def)

lemma pipe_inject:
  assumes "pipe b E a r l" "0 \<le> idx" "idx < 48"
  shows "pipe b E a r (snd (inject_delay idx CAM_TRIGGER_POINT_SOF l))"
proof (cases b)
  case True
  then have "ready E r l" using pipeD(5) [OF assms(1)] by simp
  from inject_ready [OF this pipeD(1) [OF assms(1)] assms(2,3)] assms(1) show ?thesis by simp
next
  case False
  let ?us = "snd (cam_req_mgr_inject_delay (lk_l_tbl l) idx CAM_TRIGGER_POINT_SOF)"
  have "snd (inject_delay idx CAM_TRIGGER_POINT_SOF l) = l\<lparr>lk_l_tbl := ?us\<rparr>"
    by (simp add: inject_delay_def split: prod.splits)
  with pipe_tbls [OF assms(1)] inject_delay_map [OF refl, of "lk_l_tbl l" idx CAM_TRIGGER_POINT_SOF]
    skips_same [OF pipeD(3) [OF assms(1)]] pipeD(1) [OF assms(1)] False show ?thesis by (simp add: link_ok_def)
qed

lemma inject_rc: "fst (inject_delay idx tp l) \<le> 0"
proof -
  have "fst (cam_req_mgr_inject_delay ts idx tp) \<le> 0" for ts
  proof (induction ts arbitrary: idx)
    case (Cons t ts)
    obtain s' b where "cam_req_mgr_inject_delay (t # ts) idx tp =
      (if b then - EAGAIN else fst (cam_req_mgr_inject_delay ts (cam_req_mgr_dec_idx idx (tb_pd_delta t) (tb_num_slots t)) tp),
       t\<lparr>tb_slot := elem_upd idx (\<lambda>_. s') (tb_slot t)\<rparr> #
         snd (cam_req_mgr_inject_delay ts (cam_req_mgr_dec_idx idx (tb_pd_delta t) (tb_num_slots t)) tp))"
      by (rule inject_step)
    with Cons.IH show ?case by simp
  qed simp
  then show ?thesis by (simp add: inject_delay_def case_prod_beta)
qed

section \<open>Giving slots up\<close>

lemma given_in_q_upd [simp]: "given h (in_q_upd f l) = given h l"
  by (simp add: given_def)

text \<open>What is given up is never an applied or waiting position of the window.\<close>

lemma pipe_reset:
  assumes p: "pipe b E a r l" and "idx < 48"
    and free: "\<And>i. r - nat (lk_max_delay l) \<le> i \<Longrightarrow> i < length E \<Longrightarrow> int (i mod 48) = idx \<Longrightarrow>
      sl_status (iq_slot (in_q l) ! (i mod 48)) = CRM_SLOT_STATUS_REQ_ADDED"
  shows "pipe b E a r (cam_req_mgr_reset_req_slot idx l)"
proof (cases "idx < 0 \<or> sl_status (elem (iq_slot (in_q l)) idx) = CRM_SLOT_STATUS_REQ_ADDED \<or> iq_last_applied_idx (in_q l) = idx")
  case True
  then have "cam_req_mgr_reset_req_slot idx l = l" by (auto simp: cam_req_mgr_reset_req_slot_def Let_def)
  with p show ?thesis by simp
next
  case False
  let ?l = "l\<lparr>lk_l_tbl := map (\<lambda>t. t\<lparr>tb_slot := elem_upd idx reset_tbl_slot (tb_slot t)\<rparr>) (lk_l_tbl l)\<rparr>"
  have eq: "cam_req_mgr_reset_req_slot idx l = in_q_upd (slot_upd idx reset_slot) ?l"
    using False by (simp add: cam_req_mgr_reset_req_slot_def)
  have other: "i mod 48 \<noteq> nat idx" if "r - nat (lk_max_delay l) \<le> i" "i < length E" for i
    using free [OF that] False by (cases "int (i mod 48) = idx") auto
  have "ready E r ?l" if "ready E r l"
  proof -
    have "ts_inject_delay_at_sof s = 0"
      if "t \<in> set (lk_l_tbl l)" "s \<in> set (elem_upd idx reset_tbl_slot (tb_slot t))" for t s
      using that \<open>ready E r l\<close> set_update_subset_insert [of "tb_slot t" "nat idx"]
      by (auto simp: elem_upd_def ready_def reset_tbl_slot_def dest!: set_update_subset_insert [THEN subsetD])
    then show ?thesis using that other [THEN not_sym] by (simp add: ready_def elem_upd_def)
  qed
  then have "b \<longrightarrow> ready E r ?l" using pipeD(5) [OF p] by blast
  then have pl: "pipe b E a r ?l"
    by (rule pipe_slot_map [OF p slot_map_elem_upd(2), rotated]) (simp add: reset_tbl_slot_def no_ops_def)
  have q: "in_q ?l = in_q l" by (simp add: in_q_def)
  have "window E a r (nat (lk_max_delay l)) (slot_upd (int (nat idx)) reset_slot (in_q l))"
  proof (rule window_reset [OF pipeD(4) [OF p]])
    show "i mod 48 \<noteq> nat idx" if "r - nat (lk_max_delay l) \<le> i" "i < length E" for i
      by (rule other [OF that])
  qed (use assms(2) in simp)
  then have "window E a r (nat (lk_max_delay ?l)) (slot_upd idx reset_slot (in_q ?l))" using False by (simp add: q)
  from pipe_in_q_upd [where f = "slot_upd idx reset_slot", OF pl this pipeD(3,5) [OF pl]] show ?thesis unfolding eq .
qed

lemma reset_given [simp]:
  "given h (cam_req_mgr_reset_req_slot idx l) = given h l" "devs (cam_req_mgr_reset_req_slot idx l) = devs l"
  "lk_max_delay (cam_req_mgr_reset_req_slot idx l) = lk_max_delay l"
  "lk_apply_data (cam_req_mgr_reset_req_slot idx l) = lk_apply_data l"
  "sync_links (cam_req_mgr_reset_req_slot idx l) = sync_links l"
  by (simp_all add: cam_req_mgr_reset_req_slot_def given_def devs_def sync_links_def in_q_upd_def Let_def)

lemma pipe_last_applied:
  "pipe b E a r l \<Longrightarrow> pipe b E a r (in_q_upd (\<lambda>q. q\<lparr>iq_last_applied_idx := x\<rparr>) l)"
  by (auto simp: pipe_def skips_def link_ok_def ready_def)

lemma link_ok_delay: "link_ok l \<Longrightarrow> 0 \<le> lk_max_delay l \<and> lk_max_delay l < 3"
  using chain_lengths [of "lk_l_tbl l" "hd (lk_l_tbl l)"] by (simp add: link_ok_def)

text \<open>A slot strictly behind the window, less than a full turn away.\<close>

lemma pipe_reset_far:
  assumes p: "pipe b E a r l" and t: "lk_max_delay l < t" "t < 48"
  shows "pipe b E a r (cam_req_mgr_reset_req_slot ((int r - t) mod 48) l)"
proof (rule pipe_reset [OF p])
  fix i assume "r - nat (lk_max_delay l) \<le> i" and w: "i < length E" and eq: "int (i mod 48) = (int r - t) mod 48"
  then have "r - nat (lk_max_delay l) \<le> i" by simp
  have M: "0 \<le> lk_max_delay l" "lk_max_delay l < 3" using link_ok_delay [OF pipeD(1) [OF p]] by simp_all
  have e: "entry (E ! i) (i < a) (i = r) (iq_slot (in_q l) ! (i mod 48))"
    by (rule window_entry [OF pipeD(4) [OF p] \<open>r - nat (lk_max_delay l) \<le> i\<close> w])
  have "\<not> i \<le> r"
  proof
    assume "i \<le> r"
    have "int i mod 48 = (int r - t) mod 48" using eq by (simp add: zmod_int)
    then have "48 dvd int i - (int r - t)" by (simp only: mod_eq_dvd_iff)
    moreover have "0 < int i - (int r - t)" "int i - (int r - t) < 48"
      using \<open>i \<le> r\<close> \<open>r - nat (lk_max_delay l) \<le> i\<close> t M by linarith+
    ultimately show False by (metis zdvd_not_zless)
  qed
  then have "\<not> i < a" "i \<noteq> r" using windowD(4) [OF pipeD(4) [OF p]] by simp_all
  with e show "sl_status (iq_slot (in_q l) ! (i mod 48)) = CRM_SLOT_STATUS_REQ_ADDED" by (simp add: entry_def)
qed simp

lemma pipe_reset_behind:
  assumes p: "pipe b E a r l"
  shows "pipe b E a r (cam_req_mgr_reset_req_slot (cam_req_mgr_dec_idx (int (r mod 48)) (lk_max_delay l + 1) 48) l)"
proof -
  have d: "0 \<le> lk_max_delay l" "lk_max_delay l < 3" using link_ok_delay [OF pipeD(1) [OF p]] by simp_all
  then have "cam_req_mgr_dec_idx (int (r mod 48)) (lk_max_delay l + 1) 48 = (int r - (lk_max_delay l + 1)) mod 48"
    by (simp add: dec_idx_mod zmod_int mod_diff_left_eq)
  with pipe_reset_far [OF p, of "lk_max_delay l + 1"] d show ?thesis by simp
qed

end
