(* ===== verification/Crm_Frame.thy ===== *)
theory Crm_Frame imports Crm_Window begin

text \<open>
  One frame of a link that is not synchronised with others: when its request is ready, which
  requests each device is then handed, and what the link and its window are afterwards.
\<close>

section \<open>A request becomes ready\<close>

lemma pipe_apply_data [simp]: "pipe b E a r (l\<lparr>lk_initial_skip := c, lk_apply_data := ad\<rparr>) = pipe b E a r l"
  by (simp add: pipe_def skips_def link_ok_def in_q_def devs_def sync_links_def ready_def)

lemma link_ok_chain: "link_ok l \<Longrightarrow> tbl_chain (lk_l_tbl l)"
  by (simp add: link_ok_def)

lemma chain_less: "tbl_chain (t # ts) \<Longrightarrow> u \<in> set ts \<Longrightarrow> tb_pd u < tb_pd t"
proof (induction ts arbitrary: t)
  case (Cons v vs)
  then have v: "tb_pd v < tb_pd t" "tbl_chain (v # vs)" by auto
  with Cons.IH [OF v(2)] Cons.prems(2) show ?case by (cases "u = v") auto
qed simp

lemma chain_le_hd: "tbl_chain ts \<Longrightarrow> u \<in> set ts \<Longrightarrow> tb_pd u \<le> tb_pd (hd ts)"
  using chain_less [of "hd ts" "tl ts" u] by (cases ts) fastforce+

lemma handed_all_other: "pd \<notin> tb_pd ` set ts \<Longrightarrow> handed_all q idx m ts ad pd = ad pd"
  by (induction ts) auto

lemma handed_all_at:
  "tbl_chain ts \<Longrightarrow> t \<in> set ts \<Longrightarrow> handed_all q idx m ts ad (tb_pd t) = handed q idx m t (ad (tb_pd t))"
proof (induction ts)
  case (Cons u us)
  have other: "tb_pd u \<notin> tb_pd ` set us" using chain_less [OF Cons.prems(1)] by force
  show ?case
  proof (cases "t = u")
    case True
    then show ?thesis by (simp add: handed_all_other [OF other])
  next
    case False
    then have "t \<in> set us" using Cons.prems(2) by simp
    with chain_less [OF Cons.prems(1) this] have "t \<in> set us" "tb_pd t \<noteq> tb_pd u" by simp_all
    then show ?thesis using Cons.IH Cons.prems(1) by simp
  qed
qed simp

lemma handed_all_range:
  "(\<And>pd. 0 \<le> ap_idx (ad pd) \<and> ap_idx (ad pd) < 48) \<Longrightarrow>
     0 \<le> ap_idx (handed_all q idx m ts ad pd) \<and> ap_idx (handed_all q idx m ts ad pd) < 48"
  by (induction ts) (auto simp: handed_def Let_def)

lemma count_skip_tbls:
  "same_tbls ts (map count_skip ts)" "plain_tbls ts \<Longrightarrow> plain_tbls (map count_skip ts)"
  by (auto simp: same_tbls_def list_all2_map2 count_skip_def plain_tbls_def intro!: list.rel_refl_strong)

lemma count_skip_skips: "skips l a \<Longrightarrow> skips (l\<lparr>lk_l_tbl := map count_skip (lk_l_tbl l)\<rparr>) (Suc a)"
  by (auto simp: skips_def count_skip_def)

text \<open>What a device of delay \<open>p\<close> is handed at position \<open>r\<close>.\<close>

definition due :: "int list \<Rightarrow> nat \<Rightarrow> int \<Rightarrow> int \<Rightarrow> int" where
  "due E r m p = (if r < nat (m - p) then - 1 else E ! (r - nat (m - p)))"

definition handed_over :: "bool \<Rightarrow> int list \<Rightarrow> nat \<Rightarrow> cam_req_mgr_core_link \<Rightarrow> bool" where
  "handed_over b E r l \<longleftrightarrow> link_ok l \<and> lk_state l = CAM_CRM_LINK_STATE_READY \<and> skips l (Suc r) \<and>
     window E r r (nat (lk_max_delay l)) (in_q l) \<and>
     (\<forall>pd. 0 \<le> ap_idx (lk_apply_data l pd) \<and> ap_idx (lk_apply_data l pd) < 48) \<and>
     (\<forall>t \<in> set (lk_l_tbl l). ap_skip_idx (lk_apply_data l (tb_pd t)) = 0 \<and>
        ap_req_id (lk_apply_data l (tb_pd t)) = due E r (lk_max_delay l) (tb_pd t)) \<and>
     (b \<longrightarrow> ready E r l)"

lemma handed_due:
  assumes p: "pipe b E r r l" "r < length E" "t \<in> set (lk_l_tbl l)"
  shows "ap_req_id (handed (in_q l) (int (r mod 48)) (lk_max_delay l) t a) = due E r (lk_max_delay l) (tb_pd t)"
proof -
  have t: "tbl_chain (lk_l_tbl l)" "lk_max_delay l = tb_pd (hd (lk_l_tbl l))" using pipeD(1) [OF p(1)] by (simp_all add: link_ok_def)
  have pd: "0 \<le> tb_pd t" "tb_pd t \<le> lk_max_delay l" using chain_lengths [OF t(1) p(3)] chain_le_hd [OF t(1) p(3)] t(2) by simp_all
  obtain n where n: "lk_max_delay l - tb_pd t = int n" using zero_le_imp_eq_int pd(2) by (metis diff_ge_0_iff_ge)
  have sk: "tb_skip_traverse t = max 0 (int n - int r)" using pipeD(3) [OF p(1)] p(3) n by (simp add: skips_def)
  show ?thesis
  proof (cases "r < n")
    case True
    then show ?thesis using sk n by (simp add: handed_def due_def Let_def)
  next
    case False
    have i: "tbl_idx (int (r mod 48)) (lk_max_delay l) (tb_pd t) = int ((r - n) mod 48)"
      unfolding tbl_idx_def n using False by (simp add: zmod_int of_nat_diff mod_diff_left_eq)
    have "r - nat (lk_max_delay l) \<le> r - n" using n pd by linarith
    from window_entry [OF pipeD(4) [OF p(1)] this] p(2)
    have "sl_req_id (iq_slot (in_q l) ! ((r - n) mod 48)) = E ! (r - n)" by (simp add: entry_def)
    then show ?thesis using False sk n i by (simp add: handed_def due_def Let_def del: of_nat_mod)
  qed
qed

lemma handed_over_intro:
  assumes p: "pipe b E r r l" "r < length E"
  shows "handed_over b E r (l\<lparr>lk_initial_skip := False, lk_l_tbl := map count_skip (lk_l_tbl l),
     lk_apply_data := handed_all (in_q l) (int (r mod 48)) (lk_max_delay l) (lk_l_tbl l) (\<lambda>_. zero_apply)\<rparr>)"
proof -
  let ?m = "l\<lparr>lk_l_tbl := map count_skip (lk_l_tbl l)\<rparr>"
  let ?ad = "handed_all (in_q l) (int (r mod 48)) (lk_max_delay l) (lk_l_tbl l) (\<lambda>_. zero_apply)"
  have ok: "link_ok ?m" using link_ok_tbls [OF pipeD(1) [OF p(1)] count_skip_tbls(1)] count_skip_tbls(2) pipeD(1) [OF p(1)]
    by (simp add: link_ok_def)
  have "skips ?m (Suc r)" by (rule count_skip_skips [OF pipeD(3) [OF p(1)]])
  moreover have "0 \<le> ap_idx (?ad pd) \<and> ap_idx (?ad pd) < 48" for pd by (rule handed_all_range) (simp add: zero_apply_def)
  moreover have "ap_skip_idx (?ad (tb_pd t)) = 0 \<and> ap_req_id (?ad (tb_pd t)) = due E r (lk_max_delay l) (tb_pd t)"
    if "t \<in> set (lk_l_tbl l)" for t
    unfolding handed_all_at [OF link_ok_chain [OF pipeD(1) [OF p(1)]] that] handed_due [OF p that]
    by (simp add: handed_def zero_apply_def Let_def)
  moreover have "tb_pd (count_skip t) = tb_pd t" "tb_slot (count_skip t) = tb_slot t" for t by (simp_all add: count_skip_def)
  ultimately show ?thesis using ok pipeD(2,4,5) [OF p(1)]
    by (simp add: handed_over_def skips_def link_ok_def in_q_def devs_def sync_links_def ready_def)
qed

section \<open>One link of the array\<close>

lemma link_upd_at [simp]: "link_upd k f gs = gs[k := f (gs ! k)]"
  by (simp add: link_upd_def)

lemma on_link_at: "on_link k f gs = (fst (f (gs ! k)), gs[k := snd (f (gs ! k))])"
  by (simp add: on_link_def case_prod_beta)

lemma leave_msync_plain:
  assumes "k < length gs" "sync_links (gs ! k) = []"
  obtains l where "leave_msync k gs = gs[k := l]" "core l = core (gs ! k)" "lk_log l = lk_log (gs ! k)"
proof (rule that)
  let ?l = "if lk_in_msync_mode (gs ! k) then (gs ! k)\<lparr>lk_in_msync_mode := False, lk_initial_sync_req := - 1\<rparr> else gs ! k"
  show "leave_msync k gs = gs[k := ?l]" using assms by (simp add: leave_msync_def)
  show "core ?l = core (gs ! k)" "lk_log ?l = lk_log (gs ! k)" by (simp_all add: core_def)
qed

lemma reset_step_plain: "sync_links (gs ! k) = [] \<Longrightarrow> reset_step k gs = lk_max_delay (gs ! k)"
  by (simp add: reset_step_def)

lemma check_ready_validate:
  assumes "link_ok l" "0 \<le> idx" "idx < 48" "cam_req_mgr_check_link_is_ready idx True l = (rc, l1)"
  shows "(rc = 0 \<or> rc = - EAGAIN) \<and> core l1 = core l \<and> lk_log l1 = lk_log l"
  using assms(4) unfolding check_ready_closed [OF assms(1-3)] by (auto simp: core_def split: if_splits)

lemma ready_passes:
  assumes p: "pipe b E r r l" "r < length E" "t \<in> set (lk_l_tbl l)" and b: b
  shows "passes (in_q l) (int (r mod 48)) (lk_max_delay l) t"
proof -
  have t: "tbl_chain (lk_l_tbl l)" "lk_max_delay l = tb_pd (hd (lk_l_tbl l))" using pipeD(1) [OF p(1)] by (simp_all add: link_ok_def)
  have pd: "0 \<le> tb_pd t" "tb_pd t \<le> lk_max_delay l" using chain_lengths [OF t(1) p(3)] chain_le_hd [OF t(1) p(3)] t(2) by simp_all
  obtain n where n: "lk_max_delay l - tb_pd t = int n" using zero_le_imp_eq_int pd(2) by (metis diff_ge_0_iff_ge)
  have sk: "tb_skip_traverse t = max 0 (int n - int r)" using pipeD(3) [OF p(1)] p(3) n by (simp add: skips_def)
  show ?thesis
  proof (cases "r < n")
    case True
    then show ?thesis using sk by (simp add: passes_def Let_def)
  next
    case False
    have i: "tbl_idx (int (r mod 48)) (lk_max_delay l) (tb_pd t) = int ((r - n) mod 48)"
      unfolding tbl_idx_def n using False by (simp add: zmod_int of_nat_diff mod_diff_left_eq)
    have w: "r - nat (lk_max_delay l) \<le> r - n" "r - n < length E" using n pd p(2) by linarith+
    have rdy: "ready E r l" using pipeD(5) [OF p(1)] b by simp
    then have "E ! (r - n) \<noteq> - 1 \<Longrightarrow> ts_state (tb_slot t ! ((r - n) mod 48)) = CRM_REQ_STATE_READY"
      using w p(3) by (simp add: ready_def)
    moreover have "E ! (r - n) = - 1 \<Longrightarrow> sl_skip_idx (iq_slot (in_q l) ! ((r - n) mod 48)) = 1"
      using window_entry [OF pipeD(4) [OF p(1)] w] by (simp add: entry_def)
    ultimately show ?thesis by (auto simp: passes_def Let_def i simp del: of_nat_mod)
  qed
qed

lemma check_ready_hand:
  assumes p: "pipe b E r r l" "r < length E" and c: "cam_req_mgr_check_link_is_ready (int (r mod 48)) False l = (rc, l1)"
  shows "(rc = - EAGAIN \<and> pipe b E r r l1 \<or> rc = 0 \<and> handed_over b E r l1) \<and> devs l1 = devs l \<and> lk_log l1 = lk_log l \<and>
    lk_max_delay l1 = lk_max_delay l \<and> (b \<longrightarrow> rc = 0)"
proof -
  have i: "0 \<le> int (r mod 48)" "int (r mod 48) < 48" by simp_all
  show ?thesis
    using c handed_over_intro [OF p] p(1) ready_passes [OF p] unfolding check_ready_closed [OF pipeD(1) [OF p(1)] i]
    by (auto simp: devs_def split: if_splits)
qed

lemma check_ready_validate_ready:
  assumes p: "pipe b E r r l" "r < length E" and c: "cam_req_mgr_check_link_is_ready (int (r mod 48)) True l = (rc, l1)" and b: b
  shows "rc = 0"
proof -
  have i: "0 \<le> int (r mod 48)" "int (r mod 48) < 48" by simp_all
  show ?thesis using c ready_passes [OF p _ b] unfolding check_ready_closed [OF pipeD(1) [OF p(1)] i] by (auto split: if_splits)
qed

lemma inject_same [simp]:
  "devs (snd (inject_delay idx tp l)) = devs l" "lk_log (snd (inject_delay idx tp l)) = lk_log l"
  "lk_max_delay (snd (inject_delay idx tp l)) = lk_max_delay l"
  by (simp_all add: inject_delay_def case_prod_beta devs_def)

lemma pipe_rd_slot:
  assumes "pipe b E r r l" "r < length E"
  shows "sl_idx (rd_slot l) = int (r mod 48)" "sl_sync_mode (rd_slot l) = 0"
    "sl_status (rd_slot l) = CRM_SLOT_STATUS_REQ_ADDED \<or> sl_status (rd_slot l) = CRM_SLOT_STATUS_REQ_PENDING"
  using windowD(1,7) [OF pipeD(4) [OF assms(1)]] window_entry [OF pipeD(4) [OF assms(1)] _ assms(2)]
  by (simp_all add: rd_slot_def queue_ok_def entry_def)

lemma req_ready_plain:
  assumes k: "k < length gs" and p: "pipe b E r r (gs ! k)" "r < length E"
  obtains rc l where "req_ready k (rd_slot (gs ! k)) CAM_TRIGGER_POINT_SOF gs = (rc, gs[k := l])"
    "rc < 0 \<and> pipe b E r r l \<or> rc = 0 \<and> handed_over b E r l" "devs l = devs (gs ! k)" "lk_log l = lk_log (gs ! k)"
    "lk_max_delay l = lk_max_delay (gs ! k)" "b \<longrightarrow> rc = 0"
proof -
  let ?l = "gs ! k" and ?i = "int (r mod 48)"
  have i: "0 \<le> ?i" "?i < 48" by simp_all
  obtain l0 where l0: "leave_msync k gs = gs[k := l0]" "core l0 = core ?l" "lk_log l0 = lk_log ?l"
    using leave_msync_plain [OF k] pipeD(1) [OF p(1)] by (auto simp: link_ok_def)
  have p0: "pipe b E r r l0" using p(1) unfolding pipe_core [OF l0(2)] .
  obtain rc1 l1 where c1: "cam_req_mgr_check_link_is_ready ?i True l0 = (rc1, l1)" by force
  note v = check_ready_validate [OF pipeD(1) [OF p0] i c1]
  have p1: "pipe b E r r l1" using p0 pipe_core [of l1 l0] v by simp
  have c01: "core l1 = core ?l" using v l0(2) by simp
  have same1: "devs l1 = devs ?l" "lk_log l1 = lk_log ?l" "lk_max_delay l1 = lk_max_delay ?l"
    using core_fields(6,7) [OF c01] v l0(3) by simp_all
  note unf = req_ready_def pipe_rd_slot(1,2) [OF p] on_link_at l0(1)
  show ?thesis
  proof (cases "rc1 = 0")
    case False
    with v have "rc1 < 0" by auto
    moreover have "req_ready k (rd_slot ?l) CAM_TRIGGER_POINT_SOF gs = (rc1, gs[k := l1])"
      using False k c1 by (simp add: unf)
    moreover have "\<not> b" using check_ready_validate_ready [OF p0 p(2) c1] False by blast
    ultimately show ?thesis using that [of rc1 l1] p1 same1 by simp
  next
    case True
    let ?l2 = "snd (inject_delay ?i CAM_TRIGGER_POINT_SOF l1)"
    have p2: "pipe b E r r ?l2" by (rule pipe_inject [OF p1 i])
    show ?thesis
    proof (cases "fst (inject_delay ?i CAM_TRIGGER_POINT_SOF l1) = 0")
      case False
      have "req_ready k (rd_slot ?l) CAM_TRIGGER_POINT_SOF gs = (fst (inject_delay ?i CAM_TRIGGER_POINT_SOF l1), gs[k := ?l2])"
        using True False k c1 by (simp add: unf)
      moreover have "fst (inject_delay ?i CAM_TRIGGER_POINT_SOF l1) < 0" using False inject_rc [of ?i CAM_TRIGGER_POINT_SOF l1] by simp
      moreover have "\<not> b" using inject_ready [OF _ pipeD(1) [OF p1] i] pipeD(5) [OF p1] False by auto
      ultimately show ?thesis using that [of "fst (inject_delay ?i CAM_TRIGGER_POINT_SOF l1)" ?l2] p2 same1 by simp
    next
      case inj: True
      obtain rc3 l3 where c3: "cam_req_mgr_check_link_is_ready ?i False ?l2 = (rc3, l3)" by force
      have "req_ready k (rd_slot ?l) CAM_TRIGGER_POINT_SOF gs = (rc3, gs[k := l3])"
        using True inj k c1 c3 by (simp add: unf)
      then show ?thesis using check_ready_hand [OF p2 p(2) c3] that [of rc3 l3] same1 by auto
    qed
  qed
qed

section \<open>One frame\<close>

lemma status_twice:
  "slot_upd i (\<lambda>s. s\<lparr>sl_status := x\<rparr>) (slot_upd i (\<lambda>s. s\<lparr>sl_status := y\<rparr>) q) = slot_upd i (\<lambda>s. s\<lparr>sl_status := x\<rparr>) q"
proof (cases "nat i < length (iq_slot q)")
  case True
  then show ?thesis by (simp add: slot_upd_def elem_upd_def)
next
  case False
  then show ?thesis by (simp add: slot_upd_def elem_upd_def list_update_beyond)
qed

lemma queue_ok_status: "queue_ok q \<Longrightarrow> queue_ok (slot_upd i (\<lambda>s. s\<lparr>sl_status := x\<rparr>) q)"
proof -
  assume q: "queue_ok q"
  have "sl_idx (elem_upd i (\<lambda>s. s\<lparr>sl_status := x\<rparr>) (iq_slot q) ! j) = int j" if "j < 48" for j
    using q that by (cases "nat i = j") (simp_all add: queue_ok_def elem_upd_def)
  with q show ?thesis by (simp add: queue_ok_def)
qed

definition due_list :: "int list \<Rightarrow> nat \<Rightarrow> int \<Rightarrow> cam_req_mgr_connected_device \<Rightarrow> int list" where
  "due_list E r m d = (let e = due E r m (di_p_delay (dv_dev_info d)) in if e < 0 then [] else [e])"

text \<open>What \<open>apply_done\<close> does to the link before the slot is marked.\<close>

lemma applied_core:
  assumes "lk_state l = CAM_CRM_LINK_STATE_READY"
  shows "core (let l1 = cam_req_mgr_validate_crm_wd_timer (l\<lparr>lk_retry_cnt := 0\<rparr>) in
      l1\<lparr>lk_state := (if lk_state l1 = CAM_CRM_LINK_STATE_ERR then CAM_CRM_LINK_STATE_READY else lk_state l1),
         lk_sync_link_sof_skip := False\<rparr>) = core l"
    "given h (let l1 = cam_req_mgr_validate_crm_wd_timer (l\<lparr>lk_retry_cnt := 0\<rparr>) in
      l1\<lparr>lk_state := (if lk_state l1 = CAM_CRM_LINK_STATE_ERR then CAM_CRM_LINK_STATE_READY else lk_state l1),
         lk_sync_link_sof_skip := False\<rparr>) = given h l"
proof -
  let ?l1 = "cam_req_mgr_validate_crm_wd_timer (l\<lparr>lk_retry_cnt := 0\<rparr>)"
  have c: "core ?l1 = core l" by (simp add: core_def [of "l\<lparr>lk_retry_cnt := 0\<rparr>"]) (simp add: core_def)
  have st: "lk_state ?l1 = CAM_CRM_LINK_STATE_READY" using core_fields(5) [OF c] assms by simp
  have "core (?l1\<lparr>lk_state := lk_state ?l1, lk_sync_link_sof_skip := False\<rparr>) = core ?l1" by (simp add: core_def)
  with c st show "core (let l1 = ?l1 in l1\<lparr>lk_state := (if lk_state l1 = CAM_CRM_LINK_STATE_ERR then CAM_CRM_LINK_STATE_READY else lk_state l1),
         lk_sync_link_sof_skip := False\<rparr>) = core l" by (simp add: Let_def)
  have "given h ?l1 = given h l" by (simp add: given_def [of h "l\<lparr>lk_retry_cnt := 0\<rparr>"]) (simp add: given_def)
  then show "given h (let l1 = ?l1 in
      l1\<lparr>lk_state := (if lk_state l1 = CAM_CRM_LINK_STATE_ERR then CAM_CRM_LINK_STATE_READY else lk_state l1),
         lk_sync_link_sof_skip := False\<rparr>) = given h l"
    by (simp add: Let_def given_def)
qed

lemma set_rd_status_given [simp]: "given h (set_rd_status st l) = given h l" "devs (set_rd_status st l) = devs l"
  "lk_max_delay (set_rd_status st l) = lk_max_delay l" "lk_l_tbl (set_rd_status st l) = lk_l_tbl l"
  "in_q (set_rd_status st l) = slot_upd (iq_rd_idx (in_q l)) (\<lambda>s. s\<lparr>sl_status := st\<rparr>) (in_q l)"
  "lk_apply_data (set_rd_status st l) = lk_apply_data l" "lk_state (set_rd_status st l) = lk_state l"
  "sync_links (set_rd_status st l) = sync_links l"
  by (simp_all add: set_rd_status_def)

lemma set_rd_status_ok: "link_ok l \<Longrightarrow> link_ok (set_rd_status st l)"
  unfolding set_rd_status_def by (rule link_ok_in_q_upd) (use link_ok_queue queue_ok_status in auto)

lemma link_ok_prev:
  assumes "link_ok l" "\<forall>pd. 0 \<le> ap_idx (ad pd) \<and> ap_idx (ad pd) < 48" "core m = (core l)\<lparr>lk_prev_apply_data := ad\<rparr>"
  shows "link_ok m" "in_q m = in_q l" "lk_l_tbl m = lk_l_tbl l" "lk_state m = lk_state l" "lk_max_delay m = lk_max_delay l"
    "devs m = devs l" "sync_links m = sync_links l"
proof -
  have "core m = core (l\<lparr>lk_prev_apply_data := ad\<rparr>)" using assms(3) by (simp add: core_def)
  note f = core_fields [OF this] link_ok_core [OF this]
  show "in_q m = in_q l" "lk_l_tbl m = lk_l_tbl l" "lk_state m = lk_state l" "lk_max_delay m = lk_max_delay l"
    "devs m = devs l" "sync_links m = sync_links l"
    using f by (simp_all add: in_q_def devs_def sync_links_def)
  have "link_ok (l\<lparr>lk_prev_apply_data := ad\<rparr>)"
    using assms(1,2) by (simp add: link_ok_def in_q_def devs_def sync_links_def)
  then show "link_ok m" using f by simp
qed

lemma process_send_plain:
  assumes k: "k < length gs" "gs ! k = set_rd_status CRM_SLOT_STATUS_REQ_READY l" and h: "handed_over b E r l" "r < length E"
    and env: "\<And>h. ce_apply_req env h = (\<lambda>_. 0)"
  obtains l' where "process_send env k CAM_TRIGGER_POINT_SOF CAM_REQ_EOF_TRIGGER_NONE gs = (0, gs[k := l'])"
    "pipe b E (Suc r) r l'" "devs l' = devs l" "lk_max_delay l' = lk_max_delay l"
    "\<forall>d \<in> set (devs l). given (dv_dev_hdl d) l' = given (dv_dev_hdl d) l @ due_list E r (lk_max_delay l) d"
proof -
  let ?l1 = "set_rd_status CRM_SLOT_STATUS_REQ_READY l"
  have ok: "link_ok l" "lk_state l = CAM_CRM_LINK_STATE_READY" and w: "window E r r (nat (lk_max_delay l)) (in_q l)"
    using h(1) by (simp_all add: handed_over_def)
  have ai: "apply_idx_ok ?l1" using h(1) by (simp add: handed_over_def apply_idx_ok_def)
  obtain l2 where l2: "cam_req_mgr_send_req env CAM_TRIGGER_POINT_SOF ?l1 = (0, None, l2)"
    "core l2 = (core ?l1)\<lparr>lk_prev_apply_data := lk_apply_data ?l1\<rparr>"
    "\<forall>d \<in> set (devs ?l1). given (dv_dev_hdl d) l2 = given (dv_dev_hdl d) ?l1 @ dev_req ?l1 d"
    by (rule send_req_plain [OF set_rd_status_ok [OF ok(1)] ai env])
  note p2 = link_ok_prev [OF set_rd_status_ok [OF ok(1)] _ l2(2)]
  have idx: "\<forall>pd. 0 \<le> ap_idx (lk_apply_data ?l1 pd) \<and> ap_idx (lk_apply_data ?l1 pd) < 48"
    using h(1) by (simp add: handed_over_def)
  note p2 = p2 [OF idx]
  define l3 where "l3 = (let l1 = cam_req_mgr_validate_crm_wd_timer (l2\<lparr>lk_retry_cnt := 0\<rparr>) in
      l1\<lparr>lk_state := (if lk_state l1 = CAM_CRM_LINK_STATE_ERR then CAM_CRM_LINK_STATE_READY else lk_state l1),
         lk_sync_link_sof_skip := False\<rparr>)"
  have st2: "lk_state l2 = CAM_CRM_LINK_STATE_READY" using p2(4) ok(2) by simp
  note c3 = applied_core [OF st2, folded l3_def]
  note f3 = core_fields [OF c3(1)]
  define l4 where "l4 = set_rd_status CRM_SLOT_STATUS_REQ_APPLIED l3"
  have q4: "in_q l4 = slot_upd (iq_rd_idx (in_q l)) (\<lambda>s. s\<lparr>sl_status := CRM_SLOT_STATUS_REQ_APPLIED\<rparr>) (in_q l)"
    using f3(11) p2(2) by (simp add: l4_def status_twice)
  have tbl: "lk_l_tbl l4 = lk_l_tbl l" "lk_max_delay l4 = lk_max_delay l" "devs l4 = devs l"
    using f3(1,6,7) p2(3,5,6) by (simp_all add: l4_def)
  have "b \<longrightarrow> ready E r l4" using h(1) tbl by (simp add: ready_def handed_over_def)
  moreover have "skips l4 (Suc r)" using h(1) tbl by (simp add: skips_def handed_over_def)
  moreover have "link_ok l4" using p2(1) link_ok_core [OF c3(1)] by (simp add: l4_def set_rd_status_ok)
  ultimately have p4: "pipe b E (Suc r) r l4"
    using window_applied [OF w h(2)] st2 f3(5) tbl q4 by (simp add: pipe_def l4_def)
  define l5 where "l5 = (if sl_req_id (rd_slot l4) > 0 then in_q_upd (\<lambda>q. q\<lparr>iq_last_applied_idx := iq_rd_idx (in_q l4)\<rparr>) l4 else l4)"
  have p5: "pipe b E (Suc r) r l5" using p4 pipe_last_applied [OF p4] by (simp add: l5_def)
  have f5: "devs l5 = devs l" "lk_max_delay l5 = lk_max_delay l" "given x l5 = given x l2" for x
    using tbl c3(2) by (simp_all add: l5_def l4_def)
  define l6 where "l6 = cam_req_mgr_reset_req_slot (cam_req_mgr_dec_idx (iq_rd_idx (in_q l4)) (lk_max_delay l3 + 1) (iq_num_slots (in_q l5))) l5"
  have rd: "iq_rd_idx (in_q l4) = int (r mod 48)" by (rule windowD(7) [OF pipeD(4) [OF p4]])
  have num: "iq_num_slots (in_q l5) = 48" using link_ok_queue [OF pipeD(1) [OF p5]] by (simp add: queue_ok_def)
  have "l6 = cam_req_mgr_reset_req_slot (cam_req_mgr_dec_idx (int (r mod 48)) (lk_max_delay l5 + 1) 48) l5"
    using f5(2) f3(6) p2(5) rd num by (simp add: l6_def)
  then have p6: "pipe b E (Suc r) r l6" using pipe_reset_behind [OF p5] by simp
  have sl: "sync_links l3 = []" using f3(8) p2(7) ok(1) by (simp add: link_ok_def)
  have "apply_done k CAM_TRIGGER_POINT_SOF CAM_REQ_EOF_TRIGGER_NONE (gs[k := l2]) = gs[k := l6]"
  proof -
    have u: "link_upd k (\<lambda>l. let l1 = cam_req_mgr_validate_crm_wd_timer (l\<lparr>lk_retry_cnt := 0\<rparr>) in
          l1\<lparr>lk_state := (if lk_state l1 = CAM_CRM_LINK_STATE_ERR then CAM_CRM_LINK_STATE_READY else lk_state l1),
             lk_sync_link_sof_skip := False\<rparr>) (gs[k := l2]) = gs[k := l3]"
      using k(1) by (simp add: l3_def)
    have st: "reset_step k (gs[k := l3]) = lk_max_delay l3" using reset_step_plain sl k(1) by simp
    have f: "l6 = (let l1 = l4; idx = iq_rd_idx (in_q l1); l2 = l5
      in cam_req_mgr_reset_req_slot (cam_req_mgr_dec_idx idx (lk_max_delay l3 + 1) (iq_num_slots (in_q l2))) l2)"
      by (simp add: l6_def)
    show ?thesis unfolding apply_done_def u f l5_def l4_def using k(1) st by (simp add: Let_def)
  qed
  then have "process_send env k CAM_TRIGGER_POINT_SOF CAM_REQ_EOF_TRIGGER_NONE gs = (0, gs[k := l6])"
    unfolding process_send_def k(2) l2(1) by simp
  moreover have "given (dv_dev_hdl d) l6 = given (dv_dev_hdl d) l @ due_list E r (lk_max_delay l) d" if "d \<in> set (devs l)" for d
  proof -
    have "di_p_delay (dv_dev_info d) \<in> tb_pd ` set (lk_l_tbl l)" using ok(1) that by (simp add: link_ok_def dev_ok_def)
    then obtain t where t: "t \<in> set (lk_l_tbl l)" "di_p_delay (dv_dev_info d) = tb_pd t" by blast
    have "dev_req ?l1 d = due_list E r (lk_max_delay l) d"
      using h(1) t by (simp add: dev_req_def due_list_def nothing_to_apply_def handed_over_def Let_def)
    then show ?thesis using l2(3) that f5(3) by (simp add: l6_def)
  qed
  ultimately show ?thesis using that [of l6] p6 f5(1,2) by (simp add: l6_def)
qed

lemma check_for_eof_plain:
  assumes "link_ok l" "0 \<le> iq_rd_idx (in_q l)" "iq_rd_idx (in_q l) < 48"
  shows "cam_req_mgr_check_for_eof l = CAM_REQ_EOF_TRIGGER_NONE"
proof -
  have "eof_scan idx ts = CAM_REQ_EOF_TRIGGER_NONE" if "tbl_chain ts" "plain_tbls ts" "0 \<le> idx" "idx < 48" for idx ts
    using that
  proof (induction ts arbitrary: idx)
    case (Cons t ts)
    have "tb_slot t ! nat idx \<in> set (tb_slot t)" using Cons.prems(1,3,4) by simp
    then have ops: "ts_ops (elem (tb_slot t) idx) = no_ops" using Cons.prems(2) by (simp add: plain_tbls_def elem_def)
    have ts: "tbl_chain ts" "plain_tbls ts" using Cons.prems(1,2) by (simp_all add: plain_tbls_def)
    show ?case
    proof (cases ts)
      case (Cons u us)
      with Cons.prems(1) have d: "0 \<le> tb_pd_delta t" "tb_pd_delta t \<le> 48" "tb_num_slots t = 48" by auto
      have "eof_scan (cam_req_mgr_dec_idx idx (tb_pd_delta t) 48) ts = CAM_REQ_EOF_TRIGGER_NONE"
        by (rule Cons.IH [OF ts]) (simp_all add: dec_idx_mod Cons.prems(3,4) d(1,2))
      with ops Cons d(3) show ?thesis by (simp add: no_ops_def)
    qed (use ops in \<open>simp add: no_ops_def\<close>)
  qed simp
  then show ?thesis using assms by (simp add: cam_req_mgr_check_for_eof_def link_ok_def)
qed

end
