(* ===== verification/Crm_Delivery.thy ===== *)
theory Crm_Delivery imports Crm_Frame "HOL-Library.Sublist" begin

text \<open>
  What the devices of a link are given over a whole run of scheduling, adding and triggers, as a
  function of the window on the entries made.
\<close>

section \<open>What was delivered\<close>

definition delivered :: "int list \<Rightarrow> nat \<Rightarrow> int \<Rightarrow> int \<Rightarrow> int list" where
  "delivered E a m p = filter (\<lambda>e. e > 0) (take (a - nat (m - p)) E)"

text \<open>A link with a smaller delay beside the largest never lets the read index reach the end of the list.\<close>

definition lower :: "cam_req_mgr_core_link \<Rightarrow> bool" where
  "lower l \<longleftrightarrow> cam_req_mgr_check_for_lower_pd_devices l = 0"

text \<open>The first argument: whether the link is known to be ready, its devices and its delay.\<close>

definition static :: "cam_req_mgr_core_link \<Rightarrow> cam_req_mgr_connected_device list \<times> int" where
  "static l = (devs l, lk_max_delay l)"

definition run_inv :: "bool \<times> cam_req_mgr_connected_device list \<times> int \<Rightarrow> int list \<Rightarrow> nat \<Rightarrow> nat \<Rightarrow> cam_req_mgr_core_link \<Rightarrow> bool" where
  "run_inv c E a r l \<longleftrightarrow> pipe (fst c) E a r l \<and>
     (\<forall>d \<in> set (devs l). given (dv_dev_hdl d) l = delivered E a (lk_max_delay l) (di_p_delay (dv_dev_info d))) \<and>
     (lower l \<and> r = length E \<longrightarrow> E = []) \<and> static l = snd c"

lemma delivered_Suc:
  assumes "r < length E" "\<forall>e \<in> set E. e = - 1 \<or> e > 0"
  shows "delivered E (Suc r) m (di_p_delay (dv_dev_info d)) = delivered E r m (di_p_delay (dv_dev_info d)) @ due_list E r m d"
proof (cases "r < nat (m - di_p_delay (dv_dev_info d))")
  case False
  let ?i = "r - nat (m - di_p_delay (dv_dev_info d))"
  have "?i < length E" using assms(1) by simp
  then have "E ! ?i = - 1 \<or> E ! ?i > 0" using assms(2) by simp
  then show ?thesis using False \<open>?i < length E\<close>
    by (auto simp: delivered_def due_list_def due_def Let_def Suc_diff_le take_Suc_conv_app_nth)
qed (simp add: delivered_def due_list_def due_def Let_def)

lemma delivered_append: "a \<le> length E \<Longrightarrow> delivered (E @ xs) a m p = delivered E a m p"
  by (simp add: delivered_def)

lemma run_inv_core:
  assumes "core l = core m" "\<And>h. given h l = given h m"
  shows "run_inv c E a r l = run_inv c E a r m"
  using pipe_core [OF assms(1)] core_fields(6,7) [OF assms(1)] assms(2)
  by (simp add: run_inv_def lower_def static_def cam_req_mgr_check_for_lower_pd_devices_def)

lemma run_inv_same:
  assumes "run_inv c E a r l" "pipe (fst c) E a r m" "devs m = devs l" "lk_max_delay m = lk_max_delay l" "\<And>h. given h m = given h l"
  shows "run_inv c E a r m"
  using assms by (simp add: run_inv_def lower_def static_def cam_req_mgr_check_for_lower_pd_devices_def)

lemma bookkeeping_core [simp]:
  "core (sof_bookkeeping env td l) = core l" "given h (sof_bookkeeping env td l) = given h l"
  "core (l\<lparr>lk_last_sof_trigger_jiffies := j\<rparr>) = core l" "given h (l\<lparr>lk_last_sof_trigger_jiffies := j\<rparr>) = given h l"
  by (simp_all add: core_def given_def sof_bookkeeping_def)

lemma pipe_pending:
  assumes "pipe b E r r l" "r < length E"
  shows "pipe b E r r (set_rd_status CRM_SLOT_STATUS_REQ_PENDING l)"
  unfolding set_rd_status_def
  by (rule pipe_in_q_upd [OF assms(1) _ pipeD(3,5) [OF assms(1)]]) (rule window_pending [OF pipeD(4) [OF assms(1)] assms(2)])

lemma run_inv_not_ready:
  assumes "run_inv c E r r l" "r < length E"
  shows "run_inv c E r r (snd (process_not_ready rc tp l))"
proof -
  let ?l1 = "set_rd_status CRM_SLOT_STATUS_REQ_PENDING l"
  let ?l3 = "cam_req_mgr_validate_crm_wd_timer (cam_req_mgr_notify_frame_skip tp ?l1)"
  have p: "pipe (fst c) E r r ?l1" using assms by (simp add: pipe_pending run_inv_def)
  note n = notify_frame_skip_plain [OF pipeD(1) [OF p], of tp]
  have "run_inv c E r r ?l1" by (rule run_inv_same [OF assms(1) p]) simp_all
  then have "run_inv c E r r ?l3" using run_inv_core [of ?l3 ?l1] n by simp
  then show ?thesis by (simp add: process_not_ready_def)
qed

lemma process_body_plain:
  assumes k: "k < length gs" and inv: "run_inv c E r r (gs ! k)"
    and env: "\<And>h. ce_apply_req env h = (\<lambda>_. 0)"
  obtains rc l a where "process_body env k td gs = (rc, gs[k := l])" "run_inv c E a r l" "a = r \<or> a = Suc r"
    "fst c \<and> tn_trigger td = CAM_TRIGGER_POINT_SOF \<and> r < length E \<longrightarrow> a = Suc r"
proof -
  let ?l = "gs ! k"
  have p: "pipe (fst c) E r r ?l" using inv by (simp add: run_inv_def)
  have rE: "r \<le> length E" using windowD(5) [OF pipeD(4) [OF p]] .
  have rd: "iq_rd_idx (in_q ?l) = int (r mod 48)" by (rule windowD(7) [OF pipeD(4) [OF p]])
  have eof: "cam_req_mgr_check_for_eof ?l = CAM_REQ_EOF_TRIGGER_NONE"
    by (rule check_for_eof_plain [OF pipeD(1) [OF p]]) (simp_all add: rd)
  show ?thesis
  proof (cases "tn_trigger td = CAM_TRIGGER_POINT_SOF")
    case False
    then have "process_body env k td gs = (0, gs[k := ?l])" by (simp add: process_body_def eof Let_def)
    then show ?thesis using that [of 0 ?l r] inv False by simp
  next
    case sof: True
    show ?thesis
    proof (cases "r = length E")
      case True
      then have "sl_status (rd_slot ?l) = CRM_SLOT_STATUS_NO_REQ"
        using pipeD(4) [OF p] rd unfolding window_def rd_slot_def by simp
      then have "process_body env k td gs = (0, gs[k := cam_req_mgr_notify_frame_skip CAM_TRIGGER_POINT_SOF ?l])"
        by (simp add: process_body_def eof sof Let_def)
      moreover have "run_inv c E r r (cam_req_mgr_notify_frame_skip CAM_TRIGGER_POINT_SOF ?l)"
        using inv run_inv_core notify_frame_skip_plain [OF pipeD(1) [OF p]] by blast
      ultimately show ?thesis using that [of 0 "cam_req_mgr_notify_frame_skip CAM_TRIGGER_POINT_SOF ?l" r] True by simp
    next
      case False
      then have r: "r < length E" using rE by simp
      let ?b = "sof_bookkeeping env td ?l"
      let ?gs1 = "gs[k := ?b]"
      have k1: "k < length ?gs1" using k by simp
      have at: "?gs1 ! k = ?b" using k by simp
      have pb: "pipe (fst c) E r r (?gs1 ! k)" using p pipe_core [of ?b ?l] unfolding at by simp
      have ib: "run_inv c E r r ?b" using inv run_inv_core [of ?b ?l] by simp
      have db: "devs ?b = devs ?l" "lk_max_delay ?b = lk_max_delay ?l" using core_fields(6,7) [of ?b ?l] by simp_all
      obtain rc l where q: "req_ready k (rd_slot (?gs1 ! k)) CAM_TRIGGER_POINT_SOF ?gs1 = (rc, ?gs1[k := l])"
        "rc < 0 \<and> pipe (fst c) E r r l \<or> rc = 0 \<and> handed_over (fst c) E r l" "devs l = devs (?gs1 ! k)" "lk_log l = lk_log (?gs1 ! k)"
        "lk_max_delay l = lk_max_delay (?gs1 ! k)" "fst c \<longrightarrow> rc = 0"
        by (rule req_ready_plain [OF k1 pb r])
      have st: "sl_status (rd_slot ?l) \<noteq> CRM_SLOT_STATUS_NO_REQ" "sl_status (rd_slot ?b) \<noteq> CRM_SLOT_STATUS_REQ_READY"
        using pipe_rd_slot(3) [OF p r] pipe_rd_slot(3) [OF pb r] unfolding at by auto
      show ?thesis
      proof (cases "rc < 0")
        case True
        then have pl: "pipe (fst c) E r r l" using q(2) by simp
        have "run_inv c E r r l"
          by (rule run_inv_same [OF ib pl]) (use q(3-5) given_log [OF q(4)] in \<open>simp_all add: at\<close>)
        note run_inv_not_ready [OF this r, of rc CAM_TRIGGER_POINT_SOF]
        moreover have "process_body env k td gs = (fst (process_not_ready rc CAM_TRIGGER_POINT_SOF l),
            gs[k := snd (process_not_ready rc CAM_TRIGGER_POINT_SOF l)])"
          using True st q(1) k by (simp add: process_body_def eof sof on_link_at Let_def)
        moreover have "\<not> fst c" using q(6) True by auto
        ultimately show ?thesis using that by blast
      next
        case False
        then have rc: "rc = 0" and h: "handed_over (fst c) E r l" using q(2) by auto
        let ?gs2 = "gs[k := set_rd_status CRM_SLOT_STATUS_REQ_READY l]"
        have k2: "k < length ?gs2" using k by simp
        obtain l' where l': "process_send env k CAM_TRIGGER_POINT_SOF CAM_REQ_EOF_TRIGGER_NONE ?gs2 = (0, ?gs2[k := l'])"
          "pipe (fst c) E (Suc r) r l'" "devs l' = devs l" "lk_max_delay l' = lk_max_delay l"
          "\<forall>d \<in> set (devs l). given (dv_dev_hdl d) l' = given (dv_dev_hdl d) l @ due_list E r (lk_max_delay l) d"
          by (rule process_send_plain [OF k2 _ h r env]) (use k in simp)
        have "process_body env k td gs = (0, gs[k := l'])"
          using rc st q(1) k l'(1) by (simp add: process_body_def eof sof Let_def)
        moreover have "run_inv c E (Suc r) r l'"
        proof -
          have "\<forall>e \<in> set E. e = - 1 \<or> e > 0" using pipeD(4) [OF p] by (simp add: window_def)
          note delivered_Suc [OF r this]
          then show ?thesis using l'(2-5) q(3-5) given_log [OF q(4)] ib db r
            unfolding run_inv_def at by (simp add: lower_def static_def)
        qed
        ultimately show ?thesis using that by blast
      qed
    qed
  qed
qed

lemma process_req_plain:
  assumes k: "k < length gs" and inv: "run_inv c E r r (gs ! k)"
    and env: "\<And>h. ce_apply_req env h = (\<lambda>_. 0)"
  obtains rc l a where "cam_req_mgr_process_req env k td gs = (rc, gs[k := l])" "run_inv c E a r l" "a = r \<or> a = Suc r"
    "fst c \<and> tn_trigger td = CAM_TRIGGER_POINT_SOF \<and> r < length E \<longrightarrow> a = Suc r"
proof -
  have p: "pipe (fst c) E r r (gs ! k)" using inv by (simp add: run_inv_def)
  obtain rc l a where b: "process_body env k td gs = (rc, gs[k := l])" "run_inv c E a r l" "a = r \<or> a = Suc r"
    "fst c \<and> tn_trigger td = CAM_TRIGGER_POINT_SOF \<and> r < length E \<longrightarrow> a = Suc r"
    by (rule process_body_plain [OF k inv env])
  let ?l = "if tn_trigger td = CAM_TRIGGER_POINT_SOF then l\<lparr>lk_last_sof_trigger_jiffies := ce_jiffies env\<rparr> else l"
  obtain ps where "lk_parent (gs ! k) = Some ps" using pipeD(1) [OF p] by (auto simp: link_ok_def)
  moreover have "lk_state (gs ! k) \<noteq> CAM_CRM_LINK_STATE_IDLE" using pipeD(2) [OF p] by simp
  ultimately have "cam_req_mgr_process_req env k td gs = (rc, gs[k := ?l])"
    using b(1) k by (simp add: cam_req_mgr_process_req_def)
  moreover have "run_inv c E a r ?l" using b(2) run_inv_core [of ?l l] by simp
  ultimately show ?thesis using that b(3,4) by blast
qed

section \<open>Reports at a SOF\<close>

lemma find_slot_range:
  assumes "0 \<le> idx" "idx < 48" "iq_num_slots q = 48"
  shows "find_slot_loop q x idx n = - 1 \<or> 0 \<le> find_slot_loop q x idx n \<and> find_slot_loop q x idx n < 48"
  using assms(1,2)
proof (induction n arbitrary: idx)
  case (Suc n)
  have "0 \<le> cam_req_mgr_dec_idx idx 1 48" "cam_req_mgr_dec_idx idx 1 48 < 48"
    using Suc.prems by (simp_all add: dec_idx_mod)
  from Suc.IH [OF this] Suc.prems assms(3) show ?case by simp
qed simp

text \<open>The device reports a request it worked on in the last 45 frames, or none of the queue.\<close>

definition report_ok :: "cam_req_mgr_trigger_notify \<Rightarrow> cam_req_mgr_core_link \<Rightarrow> bool" where
  "report_ok td l \<longleftrightarrow>
     (let idx = cam_req_mgr_find_slot_for_req (in_q l) (tn_req_id td) in
      tn_trigger td \<noteq> CAM_TRIGGER_POINT_SOF \<or> idx = - 1 \<or> (iq_rd_idx (in_q l) - idx) mod 48 \<le> 44)"

lemma dec_idx_chain:
  assumes "0 \<le> i" "i < 48" "(x - i) mod 48 = n" "0 \<le> d" "d \<le> 48"
  shows "cam_req_mgr_dec_idx i d 48 = (x - (n + d)) mod 48"
proof -
  have "(x - (n + d)) mod 48 = (x - (x - i) mod 48 - d) mod 48" using assms(3) by (simp add: algebra_simps)
  also have "\<dots> = ((x - (x - i) mod 48) mod 48 - d) mod 48" by (simp only: mod_diff_left_eq)
  also have "(x - (x - i) mod 48) mod 48 = i mod 48" by (simp add: mod_diff_right_eq)
  also have "(i mod 48 - d) mod 48 = (i - d) mod 48" by (rule mod_diff_left_eq)
  finally show ?thesis using assms by (simp add: dec_idx_mod)
qed

lemma trigger_reset_plain:
  assumes k: "k < length gs" and inv: "run_inv c E a r (gs ! k)" and rep: "report_ok td (gs ! k)"
  obtains l where "trigger_reset k td gs = gs[k := l]" "run_inv c E a r l"
proof -
  let ?l = "gs ! k"
  let ?q = "in_q ?l"
  let ?idx = "cam_req_mgr_find_slot_for_req ?q (tn_req_id td)"
  have p: "pipe (fst c) E a r ?l" using inv by (simp add: run_inv_def)
  have q: "iq_num_slots ?q = 48" "iq_rd_idx ?q = int (r mod 48)"
    using windowD(1,7) [OF pipeD(4) [OF p]] by (simp_all add: queue_ok_def)
  have M: "0 \<le> lk_max_delay ?l" "lk_max_delay ?l < 3" and sl: "sync_links ?l = []"
    using link_ok_delay [OF pipeD(1) [OF p]] pipeD(1) [OF p] by (simp_all add: link_ok_def)
  show ?thesis
  proof (cases "tn_trigger td = CAM_TRIGGER_POINT_SOF \<and> ?idx \<ge> 0")
    case False
    then have "trigger_reset k td gs = gs[k := ?l]" by (auto simp: trigger_reset_def Let_def)
    then show ?thesis using that inv by blast
  next
    case True
    have range: "0 \<le> ?idx" "?idx < 48"
      using True find_slot_range [of "iq_rd_idx ?q" ?q "tn_req_id td" 48] q by (auto simp: cam_req_mgr_find_slot_for_req_def)
    let ?n = "(int r - ?idx) mod 48"
    have n: "0 \<le> ?n" "?n \<le> 44"
      using rep True q by (auto simp: report_ok_def Let_def zmod_int mod_diff_left_eq)
    define l1 where "l1 = (if ?idx = iq_last_applied_idx ?q then in_q_upd (\<lambda>q. q\<lparr>iq_last_applied_idx := - 1\<rparr>) ?l else ?l)"
    let ?idx1 = "if ?idx = iq_rd_idx ?q then cam_req_mgr_dec_idx ?idx 1 48 else ?idx"
    let ?l2 = "cam_req_mgr_reset_req_slot (cam_req_mgr_dec_idx ?idx1 (lk_max_delay ?l + 1) 48) l1"
    have l1: "pipe (fst c) E a r l1" "devs l1 = devs ?l" "lk_max_delay l1 = lk_max_delay ?l" "sync_links l1 = []" "given h l1 = given h ?l" for h
      using p pipe_last_applied [OF p] sl by (simp_all add: l1_def)
    have g1: "(if ?idx = iq_last_applied_idx ?q then link_upd k (in_q_upd (\<lambda>q. q\<lparr>iq_last_applied_idx := - 1\<rparr>)) gs else gs) = gs[k := l1]"
      by (simp add: l1_def)
    have step: "reset_step k (gs[k := l1]) = lk_max_delay ?l" using reset_step_plain [of "gs[k := l1]" k] l1(3,4) k by simp
    have "trigger_reset k td gs = gs[k := ?l2]"
      unfolding trigger_reset_def Let_def g1 if_P [OF True] step q(1) using k by simp
    moreover have "\<exists>t. lk_max_delay ?l < t \<and> t < 48 \<and> cam_req_mgr_dec_idx ?idx1 (lk_max_delay ?l + 1) 48 = (int r - t) mod 48"
    proof (cases "?idx = iq_rd_idx ?q")
      case True
      have "(int r - int (r mod 48)) mod 48 = 0" by (simp add: zmod_int minus_mod_eq_mult_div)
      from dec_idx_chain [OF range [unfolded True q(2)] this, of 1]
      have "cam_req_mgr_dec_idx ?idx 1 48 = (int r - 1) mod 48" unfolding True q(2) by simp
      moreover have "(int r - (int r - 1) mod 48) mod 48 = 1" by (simp add: mod_simps)
      ultimately have "cam_req_mgr_dec_idx ?idx1 (lk_max_delay ?l + 1) 48 = (int r - (1 + (lk_max_delay ?l + 1))) mod 48"
        using True M by (simp only: if_True) (rule dec_idx_chain, simp_all)
      then show ?thesis using M by (intro exI [of _ "1 + (lk_max_delay ?l + 1)"]) simp
    next
      case False
      have "cam_req_mgr_dec_idx ?idx1 (lk_max_delay ?l + 1) 48 = (int r - (?n + (lk_max_delay ?l + 1))) mod 48"
        using False dec_idx_chain [OF range refl, of "lk_max_delay ?l + 1" "int r"] M by simp
      then show ?thesis using M n by (intro exI [of _ "?n + (lk_max_delay ?l + 1)"]) simp
    qed
    then have "pipe (fst c) E a r ?l2" using pipe_reset_far [OF l1(1)] l1(3) by auto
    then have "run_inv c E a r ?l2" by (rule run_inv_same [OF inv]) (use l1 in simp_all)
    ultimately show ?thesis using that by blast
  qed
qed

section \<open>Moving on\<close>

lemma run_inv_window:
  assumes "run_inv c E a r l" "window E' a r' (nat (lk_max_delay l)) (f (in_q l))" "\<And>m p. delivered E' a m p = delivered E a m p"
    "fst c \<longrightarrow> ready E' r' l" "lower l \<and> r' = length E' \<longrightarrow> E' = []"
  shows "run_inv c E' a r' (in_q_upd f l)"
proof -
  have p: "pipe (fst c) E a r l" using assms(1) by (simp add: run_inv_def)
  have "lower (in_q_upd f l) = lower l" "static (in_q_upd f l) = static l"
    by (simp_all add: lower_def static_def cam_req_mgr_check_for_lower_pd_devices_def)
  then show ?thesis using assms pipe_in_q_upd [of _ E a r l E' a r' f, OF p assms(2) pipeD(3) [OF p] assms(4)]
    by (simp add: run_inv_def)
qed

lemma next_slot_free:
  assumes p: "pipe (fst c) E (Suc r) r l" and len: "Suc r = length E"
  shows "\<And>i. r - nat (lk_max_delay l) \<le> i \<Longrightarrow> i < length E \<Longrightarrow> i mod 48 \<noteq> Suc r mod 48"
    "sl_status (iq_slot (in_q l) ! (Suc r mod 48)) \<in> {CRM_SLOT_STATUS_NO_REQ, CRM_SLOT_STATUS_REQ_APPLIED}"
proof -
  have w: "window E (Suc r) r (nat (lk_max_delay l)) (in_q l)" by (rule pipeD(4) [OF p])
  show *: "i mod 48 \<noteq> Suc r mod 48" if i: "r - nat (lk_max_delay l) \<le> i" "i < length E" for i
  proof
    assume "i mod 48 = Suc r mod 48"
    moreover have "i \<le> Suc r" "Suc r < i + 48" using i len windowD(2) [OF w] by linarith+
    ultimately have "i = Suc r" by (rule mod48_eq)
    with i(2) len show False by simp
  qed
  have "sl_status (iq_slot (in_q l) ! (Suc r mod 48)) \<in> {CRM_SLOT_STATUS_NO_REQ, CRM_SLOT_STATUS_REQ_APPLIED} \<or>
        (\<exists>i. r - nat (lk_max_delay l) \<le> i \<and> i < length E \<and> i mod 48 = Suc r mod 48)"
    using w unfolding window_def by simp
  with * show "sl_status (iq_slot (in_q l) ! (Suc r mod 48)) \<in> {CRM_SLOT_STATUS_NO_REQ, CRM_SLOT_STATUS_REQ_APPLIED}" by blast
qed

text \<open>An applied slot of an earlier turn is given up.\<close>

lemma clear_next:
  assumes inv: "run_inv c E (Suc r) r l" and len: "Suc r = length E"
  defines "idx \<equiv> int (Suc r mod 48)"
  shows "\<exists>l1. (if sl_status (elem (iq_slot (in_q l)) idx) = CRM_SLOT_STATUS_REQ_APPLIED
                then cam_req_mgr_reset_req_slot idx
                       (if iq_last_applied_idx (in_q l) = idx then in_q_upd (\<lambda>q. q\<lparr>iq_last_applied_idx := - 1\<rparr>) l else l)
                else l) = l1 \<and> run_inv c E (Suc r) r l1 \<and> devs l1 = devs l \<and>
      sl_status (iq_slot (in_q l1) ! (Suc r mod 48)) = CRM_SLOT_STATUS_NO_REQ"
proof (cases "sl_status (elem (iq_slot (in_q l)) idx) = CRM_SLOT_STATUS_REQ_APPLIED")
  case False
  have "pipe (fst c) E (Suc r) r l" using inv by (simp add: run_inv_def)
  from next_slot_free(2) [OF this len] False inv show ?thesis by (simp add: idx_def)
next
  case True
  have p: "pipe (fst c) E (Suc r) r l" using inv by (simp add: run_inv_def)
  define l0 where "l0 = (if iq_last_applied_idx (in_q l) = idx then in_q_upd (\<lambda>q. q\<lparr>iq_last_applied_idx := - 1\<rparr>) l else l)"
  have p0: "pipe (fst c) E (Suc r) r l0" using p pipe_last_applied [OF p] by (simp add: l0_def)
  have f0: "devs l0 = devs l" "lk_max_delay l0 = lk_max_delay l" "given h l0 = given h l" "iq_slot (in_q l0) = iq_slot (in_q l)"
    "iq_last_applied_idx (in_q l0) \<noteq> idx" for h
    by (simp_all add: l0_def idx_def)
  let ?l1 = "cam_req_mgr_reset_req_slot idx l0"
  have "pipe (fst c) E (Suc r) r ?l1"
    by (rule pipe_reset [OF p0]) (use next_slot_free(1) [OF p0 len] in \<open>auto simp: idx_def\<close>)
  then have "run_inv c E (Suc r) r ?l1" by (rule run_inv_same [OF inv]) (simp_all add: f0)
  moreover have "sl_status (iq_slot (in_q ?l1) ! (Suc r mod 48)) = CRM_SLOT_STATUS_NO_REQ"
  proof -
    have "length (iq_slot (in_q l)) = 48" using link_ok_queue [OF pipeD(1) [OF p]] by (simp add: queue_ok_def)
    moreover have "in_q ?l1 = slot_upd idx reset_slot (in_q (l0\<lparr>lk_l_tbl := map (\<lambda>t. t\<lparr>tb_slot := elem_upd idx reset_tbl_slot (tb_slot t)\<rparr>) (lk_l_tbl l0)\<rparr>))"
      using True f0 by (simp add: cam_req_mgr_reset_req_slot_def Let_def idx_def)
    moreover have "in_q (l0\<lparr>lk_l_tbl := ts\<rparr>) = in_q l0" for ts by (simp add: in_q_def)
    ultimately show ?thesis using f0(4) by (simp add: idx_def elem_upd_nth reset_slot_def)
  qed
  ultimately show ?thesis using True f0(1) by (simp add: l0_def)
qed

lemma check_next_plain:
  assumes inv: "run_inv c E (Suc r) r l"
  obtains rc l1 E' where "cam_req_mgr_check_next_req_slot l = (rc, l1)" "run_inv c E' (Suc r) (Suc r) (advance_rd l1)"
    "E' = E \<or> E' = E @ [- 1]" "rc = 0 \<and> Suc r < length E' \<or> rc \<noteq> 0 \<and> E' = E \<and> Suc r = length E \<and> \<not> lower l1"
proof -
  have p: "pipe (fst c) E (Suc r) r l" using inv by (simp add: run_inv_def)
  have w: "window E (Suc r) r (nat (lk_max_delay l)) (in_q l)" by (rule pipeD(4) [OF p])
  have n: "iq_num_slots (in_q l) = 48" using windowD(1) [OF w] by (simp add: queue_ok_def)
  let ?idx = "int (Suc r mod 48)"
  have idx: "cam_req_mgr_inc_idx (iq_rd_idx (in_q l)) 1 (iq_num_slots (in_q l)) = ?idx"
    by (simp add: n windowD(7) [OF w] inc_idx_nat)
  have adv: "run_inv c E' (Suc r) (Suc r) (advance_rd l1)"
    if i1: "run_inv c E' (Suc r) r l1" and nx: "Suc r = length E' \<Longrightarrow> sl_status (iq_slot (in_q l1) ! (Suc r mod 48)) = CRM_SLOT_STATUS_NO_REQ \<and> \<not> lower l1"
    for E' l1
  proof -
    have w1: "window E' (Suc r) r (nat (lk_max_delay l1)) (in_q l1)" using i1 by (simp add: run_inv_def pipe_def)
    have n1: "iq_num_slots (in_q l1) = 48" using windowD(1) [OF w1] by (simp add: queue_ok_def)
    have "ready E' r l1 \<Longrightarrow> ready E' (Suc r) l1" unfolding ready_def by (meson Suc_leD diff_le_mono le_SucI le_refl order_trans)
    then have rd: "fst c \<longrightarrow> ready E' (Suc r) l1" using i1 by (simp add: run_inv_def pipe_def)
    show ?thesis unfolding advance_rd_def
      by (rule run_inv_window [OF i1 _ _ rd]) (use window_advance [OF w1] nx n1 in auto)
  qed
  show ?thesis
  proof (cases "Suc r = length E")
    case False
    then have sr: "Suc r < length E" using windowD(5) [OF w] by simp
    have "r - nat (lk_max_delay l) \<le> Suc r" by linarith
    from window_entry [OF w this sr] have st: "sl_status (elem (iq_slot (in_q l)) ?idx) = CRM_SLOT_STATUS_REQ_ADDED"
      by (simp add: entry_def)
    then have "cam_req_mgr_check_next_req_slot l = (0, l)" by (simp add: cam_req_mgr_check_next_req_slot_def idx)
    then show ?thesis using that [of 0 l E] adv [OF inv] False sr by simp
  next
    case True
    obtain l1 where l1: "(if sl_status (elem (iq_slot (in_q l)) ?idx) = CRM_SLOT_STATUS_REQ_APPLIED
                then cam_req_mgr_reset_req_slot ?idx
                       (if iq_last_applied_idx (in_q l) = ?idx then in_q_upd (\<lambda>q. q\<lparr>iq_last_applied_idx := - 1\<rparr>) l else l)
                else l) = l1" "run_inv c E (Suc r) r l1" "devs l1 = devs l"
      "sl_status (iq_slot (in_q l1) ! (Suc r mod 48)) = CRM_SLOT_STATUS_NO_REQ"
      using clear_next [OF inv True] by blast
    show ?thesis
    proof (cases "cam_req_mgr_check_for_lower_pd_devices l1 = 0")
      case False
      then have "cam_req_mgr_check_next_req_slot l = (cam_req_mgr_check_for_lower_pd_devices l1, l1)"
        unfolding cam_req_mgr_check_next_req_slot_def Let_def idx l1(1) using l1(4) by simp
      moreover have "\<not> lower l1" using False by (simp add: lower_def)
      ultimately show ?thesis using that [of _ l1 E] adv [OF l1(2)] l1(4) False True by simp
    next
      case lower: True
      let ?f = "\<lambda>s. s\<lparr>sl_req_id := - 1, sl_skip_idx := 1, sl_status := CRM_SLOT_STATUS_REQ_ADDED\<rparr>"
      let ?g = "\<lambda>q. (slot_upd (iq_wr_idx q) ?f q)\<lparr>iq_wr_idx := cam_req_mgr_inc_idx (iq_wr_idx q) 1 48\<rparr>"
      have w1: "window E (Suc r) r (nat (lk_max_delay l1)) (in_q l1)" using l1(2) by (simp add: run_inv_def pipe_def)
      have n1: "iq_num_slots (in_q l1) = 48" "length (iq_slot (in_q l1)) = 48" using windowD(1) [OF w1] by (simp_all add: queue_ok_def)
      have wr: "iq_wr_idx (in_q l1) = ?idx" using windowD(8) [OF w1] True by simp
      have "sl_sync_mode (iq_slot (in_q l1) ! (Suc r mod 48)) = 0" using w1 l1(4) unfolding window_def by simp
      then have "window (E @ [- 1]) (Suc r) r (nat (lk_max_delay l1)) (?g (in_q l1))"
        by (intro window_push [OF w1]) (use l1(4) True windowD(2) [OF w1] in \<open>simp_all add: entry_def\<close>)
      then have i2: "run_inv c (E @ [- 1]) (Suc r) r (in_q_upd ?g l1)"
      proof (rule run_inv_window [OF l1(2)])
        have "ready E r l1 \<Longrightarrow> ready (E @ [- 1]) r l1" by (auto simp: ready_def nth_append)
        then show "fst c \<longrightarrow> ready (E @ [- 1]) r l1" using l1(2) by (simp add: run_inv_def pipe_def)
      qed (use True in \<open>simp_all add: delivered_append\<close>)
      have eq: "(let q1 = slot_upd ?idx (\<lambda>s. s\<lparr>sl_status := CRM_SLOT_STATUS_REQ_ADDED\<rparr>) (cam_req_mgr_in_q_skip_idx ?idx (in_q l1))
             in q1\<lparr>iq_wr_idx := cam_req_mgr_inc_idx (iq_wr_idx q1) 1 (iq_num_slots q1)\<rparr>) = ?g (in_q l1)"
        using n1 by (simp add: wr cam_req_mgr_in_q_skip_idx_def slot_upd_def elem_upd_def Let_def)
      have "cam_req_mgr_check_next_req_slot l = (0, in_q_upd ?g l1)"
        unfolding cam_req_mgr_check_next_req_slot_def Let_def idx l1(1)
        unfolding in_q_upd_def eq [unfolded Let_def] using l1(4) lower by simp
      moreover have "run_inv c (E @ [- 1]) (Suc r) (Suc r) (advance_rd (in_q_upd ?g l1))"
        by (rule adv [OF i2]) (use True in simp)
      ultimately show ?thesis using that [of 0 "in_q_upd ?g l1" "E @ [- 1]"] True by simp
    qed
  qed
qed

lemma trigger_plain:
  assumes k: "k < length gs" and inv: "run_inv c E a r (gs ! k)" and rep: "report_ok td (gs ! k)"
    and env: "\<And>h. ce_apply_req env h = (\<lambda>_. 0)"
  obtains rc l E' a' r' where "cam_req_mgr_process_trigger env k td gs = (rc, gs[k := l])" "run_inv c E' a' r' l"
    "E' = E \<or> E' = E @ [- 1]"
    "fst c \<and> tn_trigger td = CAM_TRIGGER_POINT_SOF \<longrightarrow>
       a' = Suc a \<or> a' = a \<and> E' = E \<and> a = length E \<and> (lower l \<longrightarrow> E = [])"
proof -
  obtain l0 where l0: "trigger_reset k td gs = gs[k := l0]" "run_inv c E a r l0"
    by (rule trigger_reset_plain [OF k inv rep])
  have p: "pipe (fst c) E a r l0" using l0(2) by (simp add: run_inv_def)
  have w: "window E a r (nat (lk_max_delay l0)) (in_q l0)" by (rule pipeD(4) [OF p])
  have st: "\<not> link_below_ready l0" using pipeD(2) [OF p] by (simp add: link_below_ready_def)
  have k0: "k < length (gs[k := l0])" using k by simp
  have at: "gs[k := l0] ! k = l0" using k by simp
  have slot: "rd_slot l0 = iq_slot (in_q l0) ! (r mod 48)" using windowD(7) [OF w] by (simp add: rd_slot_def)
  show ?thesis
  proof (cases "a = r")
    case True
    have "sl_status (rd_slot l0) \<noteq> CRM_SLOT_STATUS_REQ_APPLIED"
    proof (cases "r = length E")
      case False
      then have "r < length E" using windowD(3,5) [OF w] by simp
      with pipe_rd_slot(3) [of "fst c" E r l0] p True show ?thesis by auto
    next
      case len: True
      with w slot show ?thesis unfolding window_def by simp
    qed
    then have pt: "cam_req_mgr_process_trigger env k td gs = cam_req_mgr_process_req env k td (gs[k := l0])"
      using st k by (simp add: cam_req_mgr_process_trigger_def l0(1))
    have i0: "run_inv c E r r (gs[k := l0] ! k)" using l0(2) True at by simp
    obtain rc l a' where req: "cam_req_mgr_process_req env k td (gs[k := l0]) = (rc, (gs[k := l0])[k := l])" "run_inv c E a' r l" "a' = r \<or> a' = Suc r"
      "fst c \<and> tn_trigger td = CAM_TRIGGER_POINT_SOF \<and> r < length E \<longrightarrow> a' = Suc r"
      by (rule process_req_plain [OF k0 i0 env])
    moreover have "a' \<le> length E" "r \<le> a'" "lower l \<and> r = length E \<longrightarrow> E = []"
      using \<open>run_inv c E a' r l\<close> by (auto simp: run_inv_def pipe_def window_def)
    ultimately have "fst c \<and> tn_trigger td = CAM_TRIGGER_POINT_SOF \<longrightarrow>
        a' = Suc a \<or> a' = a \<and> E = E \<and> a = length E \<and> (lower l \<longrightarrow> E = [])"
      using True by (cases "r = length E") force+
    then show ?thesis using that [of rc l E a' r] pt req by simp
  next
    case False
    then have a: "a = Suc r" using windowD(3,4) [OF w] by simp
    have rl: "r < length E" using windowD(5) [OF w] a by simp
    have "sl_status (rd_slot l0) = CRM_SLOT_STATUS_REQ_APPLIED"
      using window_entry [OF w _ rl] a slot by (simp add: entry_def)
    moreover obtain rc1 l1 E' where n: "cam_req_mgr_check_next_req_slot l0 = (rc1, l1)" "run_inv c E' (Suc r) (Suc r) (advance_rd l1)"
      "E' = E \<or> E' = E @ [- 1]" "rc1 = 0 \<and> Suc r < length E' \<or> rc1 \<noteq> 0 \<and> E' = E \<and> Suc r = length E \<and> \<not> lower l1"
      using check_next_plain [OF l0(2) [unfolded a]] by blast
    ultimately have pt: "cam_req_mgr_process_trigger env k td gs =
        (if rc1 \<noteq> 0 then (0, gs[k := advance_rd l1]) else cam_req_mgr_process_req env k td (gs[k := advance_rd l1]))"
      using st k by (simp add: cam_req_mgr_process_trigger_def l0(1) on_link_at)
    have k2: "k < length (gs[k := advance_rd l1])" using k by simp
    have i2: "run_inv c E' (Suc r) (Suc r) (gs[k := advance_rd l1] ! k)" using n(2) k by simp
    obtain rc l a' where q: "cam_req_mgr_process_req env k td (gs[k := advance_rd l1]) = (rc, (gs[k := advance_rd l1])[k := l])"
      "run_inv c E' a' (Suc r) l" "a' = Suc r \<or> a' = Suc (Suc r)"
      "fst c \<and> tn_trigger td = CAM_TRIGGER_POINT_SOF \<and> Suc r < length E' \<longrightarrow> a' = Suc (Suc r)"
      by (rule process_req_plain [OF k2 i2 env])
    show ?thesis
    proof (cases "rc1 = 0")
      case True
      then show ?thesis using that [of rc l E' a' "Suc r"] pt q n(3,4) a by simp
    next
      case False
      have "lower (advance_rd l1) = lower l1"
        by (simp add: lower_def advance_rd_def cam_req_mgr_check_for_lower_pd_devices_def)
      with False show ?thesis using that [of 0 "advance_rd l1" E' "Suc r" "Suc r"] pt n a by simp
    qed
  qed
qed

section \<open>Scheduling and adding\<close>

text \<open>The entries of the queue that have not been applied.\<close>

definition backlog :: "cam_req_mgr_core_link \<Rightarrow> nat" where
  "backlog l = length (filter (\<lambda>s. sl_status s \<noteq> CRM_SLOT_STATUS_NO_REQ \<and> sl_status s \<noteq> CRM_SLOT_STATUS_REQ_APPLIED)
     (iq_slot (in_q l)))"

lemma window_backlog:
  assumes "window E a r M (in_q l)"
  shows "length E - a \<le> backlog l"
proof -
  let ?P = "\<lambda>s. sl_status s \<noteq> CRM_SLOT_STATUS_NO_REQ \<and> sl_status s \<noteq> CRM_SLOT_STATUS_REQ_APPLIED"
  note w = windowD [OF assms]
  have "inj_on (\<lambda>i. i mod 48) {a..<length E}"
  proof (rule inj_onI)
    fix i j assume "i \<in> {a..<length E}" "j \<in> {a..<length E}" and eq: "i mod 48 = j mod 48"
    then have "r - M \<le> i" "i < length E" "r - M \<le> j" "j < length E" using w(3) by auto
    then show "i = j" using window_inj [OF w(6) _ _ _ _ eq] by blast
  qed
  then have "length E - a = card ((\<lambda>i. i mod 48) ` {a..<length E})" by (simp add: card_image)
  also have "\<dots> \<le> card {j. j < length (iq_slot (in_q l)) \<and> ?P (iq_slot (in_q l) ! j)}"
  proof (rule card_mono)
    show "(\<lambda>i. i mod 48) ` {a..<length E} \<subseteq> {j. j < length (iq_slot (in_q l)) \<and> ?P (iq_slot (in_q l) ! j)}"
    proof
      fix j assume "j \<in> (\<lambda>i. i mod 48) ` {a..<length E}"
      then obtain i where i: "j = i mod 48" "a \<le> i" "i < length E" by auto
      have "r - M \<le> i" using w(3) i(2) by simp
      from window_entry [OF assms this i(3)] have "?P (iq_slot (in_q l) ! j)" using i(1,2) by (auto simp: entry_def)
      moreover have "j < length (iq_slot (in_q l))" using w(1) i(1) by (simp add: queue_ok_def)
      ultimately show "j \<in> {j. j < length (iq_slot (in_q l)) \<and> ?P (iq_slot (in_q l) ! j)}" by simp
    qed
  qed simp
  finally show ?thesis by (simp add: backlog_def length_filter_conv_card)
qed

text \<open>
  A request is scheduled, not synchronised, when no more than 44 entries wait: the queue has 48
  slots, and those of the frame and of the two before it may still be needed. The code does not
  look at that: it warns of a waiting entry it overwrites.
\<close>

definition sched_ok :: "cam_req_mgr_sched_request \<Rightarrow> cam_req_mgr_core_link \<Rightarrow> bool" where
  "sched_ok sq l \<longleftrightarrow> sq_req_id sq > 0 \<and> sq_sync_mode sq = CAM_REQ_MGR_SYNC_MODE_NO_SYNC \<and> backlog l \<le> 44"

lemma sched_plain:
  assumes k: "k < length gs" and inv: "run_inv (False, x) E a r (gs ! k)" and ok: "sched_ok sq (gs ! k)"
  obtains l where "cam_req_mgr_process_sched_req k sq gs = (0, gs[k := l])" "run_inv (False, x) (E @ [sq_req_id sq]) a r l"
proof -
  let ?l = "gs ! k"
  let ?g = "\<lambda>q. (slot_upd (iq_wr_idx q) (sched_slot sq) q)\<lparr>iq_wr_idx := cam_req_mgr_inc_idx (iq_wr_idx q) 1 48\<rparr>"
  let ?l2 = "(in_q_upd ?g ?l)\<lparr>lk_open_req_cnt := lk_open_req_cnt ?l + 1, lk_initial_sync_req := - 1\<rparr>"
  have p: "pipe False E a r ?l" using inv by (simp add: run_inv_def)
  have w: "window E a r (nat (lk_max_delay ?l)) (in_q ?l)" by (rule pipeD(4) [OF p])
  have n: "iq_num_slots (in_q ?l) = 48" using windowD(1) [OF w] by (simp add: queue_ok_def)
  have sl: "sync_links ?l = []" using pipeD(1) [OF p] by (simp add: link_ok_def)
  have room: "length E - (r - nat (lk_max_delay ?l)) < 48"
    using ok window_backlog [OF w] windowD(2,4) [OF w] unfolding sched_ok_def by linarith
  have "window (E @ [sq_req_id sq]) a r (nat (lk_max_delay ?l)) (?g (in_q ?l))"
    by (rule window_push [OF w room]) (use ok in \<open>simp_all add: sched_ok_def sched_slot_def entry_def\<close>)
  then have i1: "run_inv (False, x) (E @ [sq_req_id sq]) a r (in_q_upd ?g ?l)"
    by (rule run_inv_window [OF inv]) (use windowD(3-5) [OF w] in \<open>simp_all add: delivered_append\<close>)
  have "core ?l2 = core (in_q_upd ?g ?l)" "given h ?l2 = given h (in_q_upd ?g ?l)" for h
    by (simp_all add: core_def given_def)
  then have i2: "run_inv (False, x) (E @ [sq_req_id sq]) a r ?l2" using i1 run_inv_core [of ?l2 "in_q_upd ?g ?l"] by simp
  have sl2: "sync_links (l\<lparr>lk_open_req_cnt := x, lk_initial_sync_req := y\<rparr>) = sync_links l" "sync_links (l\<lparr>lk_open_req_cnt := x\<rparr>) = sync_links l" for l x y
    by (simp_all add: sync_links_def)
  have "in_q_upd (\<lambda>q. (slot_upd (iq_wr_idx q) (sched_slot sq) q)
      \<lparr>iq_wr_idx := cam_req_mgr_inc_idx (iq_wr_idx q) 1 (iq_num_slots q)\<rparr>) ?l = in_q_upd ?g ?l"
    by (simp add: in_q_upd_def n)
  then have "cam_req_mgr_process_sched_req k sq gs = (0, gs[k := ?l2])"
    using k ok sl by (simp add: cam_req_mgr_process_sched_req_def sched_ok_def Let_def sl2)
  with i2 show ?thesis using that by blast
qed

lemma add_plain:
  assumes "run_inv (False, x) E a r l" "\<not> ad_trigger_eof ad"
  shows "run_inv (False, x) E a r (snd (cam_req_mgr_process_add_req ad l))"
proof -
  have same: "devs (dev_slot_upd pd idx f l) = devs l" "lk_max_delay (dev_slot_upd pd idx f l) = lk_max_delay l"
    "given h (dev_slot_upd pd idx f l) = given h l" for pd idx f h
    by (simp_all add: dev_slot_upd_def devs_def given_def)
  have "run_inv (False, x) E a r (dev_slot_upd pd idx (add_to_slot ad d m) l)" for pd idx d m
  proof -
    have "pipe False E a r (dev_slot_upd pd idx (add_to_slot ad d m) l)"
      unfolding dev_slot_upd_def
      by (rule pipe_slot_map [where b = False, OF _ slot_map_elem_upd(1)]) (use assms in \<open>simp_all add: run_inv_def add_to_slot_def no_ops_def Let_def\<close>)
    then show ?thesis by (intro run_inv_same [OF assms(1) _ same]) simp
  qed
  with assms(1) show ?thesis by (simp add: cam_req_mgr_process_add_req_def Let_def split: option.splits)
qed

section \<open>Runs of a link\<close>

text \<open>A link that was set up and given nothing yet.\<close>

definition fresh_link :: "cam_req_mgr_core_link \<Rightarrow> bool" where
  "fresh_link l \<longleftrightarrow> link_ok l \<and> lk_state l = CAM_CRM_LINK_STATE_READY \<and> (\<forall>h. given h l = []) \<and>
     iq_rd_idx (in_q l) = 0 \<and> iq_wr_idx (in_q l) = 0 \<and>
     (\<forall>s \<in> set (iq_slot (in_q l)). sl_status s = CRM_SLOT_STATUS_NO_REQ \<and> sl_sync_mode s = CAM_REQ_MGR_SYNC_MODE_NO_SYNC \<and>
       sl_req_id s = - 1) \<and>
     (\<forall>t \<in> set (lk_l_tbl l). tb_skip_traverse t = lk_max_delay l - tb_pd t)"

text \<open>
  The tasks of the work queue for the link \<open>k\<close>, in any order: requests scheduled by user space, requests
  added by devices, and triggers.
\<close>

datatype link_task =
    Sched cam_req_mgr_sched_request
  | Add cam_req_mgr_add_request
  | Trigger crm_env cam_req_mgr_trigger_notify

definition do_task :: "nat \<Rightarrow> link_task \<Rightarrow> links \<Rightarrow> links" where
  "do_task k t gs =
     (case t of
        Sched sq \<Rightarrow> snd (cam_req_mgr_process_sched_req k sq gs)
      | Add ad \<Rightarrow> snd (on_link k (cam_req_mgr_process_add_req ad) gs)
      | Trigger env td \<Rightarrow> snd (cam_req_mgr_process_trigger env k td gs))"

definition do_tasks :: "nat \<Rightarrow> link_task list \<Rightarrow> links \<Rightarrow> links" where
  "do_tasks k ts gs = fold (do_task k) ts gs"

definition scheduled :: "link_task list \<Rightarrow> int list" where
  "scheduled ts = concat (map (\<lambda>t. case t of Sched sq \<Rightarrow> [sq_req_id sq] | _ \<Rightarrow> []) ts)"

text \<open>
  What the tasks are assumed to be like: nothing waits for an end of frame, the queue is not overrun, at a
  SOF devices report what they worked on lately (\<open>report_ok\<close>), and take what they are given.
\<close>

definition task_ok :: "link_task \<Rightarrow> cam_req_mgr_core_link \<Rightarrow> bool" where
  "task_ok t l =
     (case t of Sched sq \<Rightarrow> sched_ok sq l | Add ad \<Rightarrow> \<not> ad_trigger_eof ad | Trigger env td \<Rightarrow> report_ok td l)"

fun tasks_ok :: "nat \<Rightarrow> link_task list \<Rightarrow> links \<Rightarrow> bool" where
  "tasks_ok k [] gs \<longleftrightarrow> True"
| "tasks_ok k (t # ts) gs \<longleftrightarrow> task_ok t (gs ! k) \<and> tasks_ok k ts (do_task k t gs)"

definition devices_accept :: "link_task list \<Rightarrow> bool" where
  "devices_accept ts \<longleftrightarrow> (\<forall>env td h. Trigger env td \<in> set ts \<longrightarrow> ce_apply_req env h = (\<lambda>_. 0))"

lemma do_tasks_simps [simp]:
  "do_tasks k [] gs = gs" "do_tasks k (t # ts) gs = do_tasks k ts (do_task k t gs)"
  "do_tasks k (ts @ us) gs = do_tasks k us (do_tasks k ts gs)"
  by (simp_all add: do_tasks_def)

lemma scheduled_append [simp]: "scheduled (ts @ us) = scheduled ts @ scheduled us"
  by (simp add: scheduled_def)

lemma tasks_ok_append [simp]: "tasks_ok k (ts @ us) gs \<longleftrightarrow> tasks_ok k ts gs \<and> tasks_ok k us (do_tasks k ts gs)"
  by (induction ts arbitrary: gs) simp_all

lemma devices_accept_append [simp]: "devices_accept (ts @ us) \<longleftrightarrow> devices_accept ts \<and> devices_accept us"
  unfolding devices_accept_def by auto

lemma fresh_run_inv:
  assumes "fresh_link l"
  shows "run_inv (False, static l) [] 0 0 l"
proof -
  have f: "link_ok l" "\<forall>t \<in> set (lk_l_tbl l). tb_skip_traverse t = lk_max_delay l - tb_pd t"
    "\<forall>s \<in> set (iq_slot (in_q l)). sl_status s = CRM_SLOT_STATUS_NO_REQ \<and> sl_sync_mode s = CAM_REQ_MGR_SYNC_MODE_NO_SYNC \<and> sl_req_id s = - 1"
    using assms by (simp_all add: fresh_link_def)
  have M: "nat (lk_max_delay l) < 3" using link_ok_delay [OF f(1)] by linarith
  have "tb_pd t \<le> lk_max_delay l" if "t \<in> set (lk_l_tbl l)" for t
    using chain_le_hd [OF link_ok_chain [OF f(1)] that] f(1) by (simp add: link_ok_def)
  with f(2) have "skips l 0" by (simp add: skips_def)
  moreover have "window [] 0 0 (nat (lk_max_delay l)) (in_q l)"
    using assms f(3) link_ok_queue [OF f(1)] M by (simp add: window_def fresh_link_def queue_ok_def)
  ultimately show ?thesis using assms f(1) by (simp add: run_inv_def pipe_def fresh_link_def given_def delivered_def)
qed

lemma task_inv:
  assumes k: "k < length gs" and inv: "run_inv (False, x) E a r (gs ! k)" and ok: "task_ok t (gs ! k)" "devices_accept [t]"
  obtains l E' a' r' where "do_task k t gs = gs[k := l]" "run_inv (False, x) E' a' r' l"
    "filter (\<lambda>e. e > 0) E' = filter (\<lambda>e. e > 0) E @ scheduled [t]"
proof (cases t)
  case (Sched sq)
  then have ok': "sched_ok sq (gs ! k)" using ok by (simp add: task_ok_def)
  obtain l where "cam_req_mgr_process_sched_req k sq gs = (0, gs[k := l])" "run_inv (False, x) (E @ [sq_req_id sq]) a r l"
    by (rule sched_plain [OF k inv ok'])
  then show ?thesis using Sched ok' that by (simp add: do_task_def scheduled_def sched_ok_def)
next
  case (Add ad)
  then have "run_inv (False, x) E a r (snd (cam_req_mgr_process_add_req ad (gs ! k)))"
    using add_plain [OF inv] ok by (simp add: task_ok_def)
  then show ?thesis using Add that by (simp add: do_task_def scheduled_def on_link_at)
next
  case (Trigger env td)
  then have rep: "report_ok td (gs ! k)" and env: "\<And>h. ce_apply_req env h = (\<lambda>_. 0)"
    using ok by (simp_all add: task_ok_def devices_accept_def)
  obtain rc l E' a' r' where t: "cam_req_mgr_process_trigger env k td gs = (rc, gs[k := l])" "run_inv (False, x) E' a' r' l"
    "E' = E \<or> E' = E @ [- 1]"
    by (rule trigger_plain [OF k inv rep env])
  then show ?thesis using Trigger that by (auto simp: do_task_def scheduled_def)
qed

lemma tasks_inv:
  "k < length gs \<Longrightarrow> run_inv (False, x) E a r (gs ! k) \<Longrightarrow> tasks_ok k ts gs \<Longrightarrow> devices_accept ts \<Longrightarrow>
     k < length (do_tasks k ts gs) \<and> (\<exists>E' a' r'. run_inv (False, x) E' a' r' (do_tasks k ts gs ! k) \<and>
       filter (\<lambda>e. e > 0) E' = filter (\<lambda>e. e > 0) E @ scheduled ts)"
proof (induction ts arbitrary: gs E a r)
  case Nil
  then show ?case by (auto simp: scheduled_def)
next
  case (Cons t ts)
  have ok: "task_ok t (gs ! k)" "devices_accept [t]" "devices_accept ts"
    using Cons.prems(3,4) devices_accept_append [of "[t]" ts] by simp_all
  obtain l E1 a1 r1 where l: "do_task k t gs = gs[k := l]" "run_inv (False, x) E1 a1 r1 l"
    "filter (\<lambda>e. e > 0) E1 = filter (\<lambda>e. e > 0) E @ scheduled [t]"
    by (rule task_inv [OF Cons.prems(1,2) ok(1,2)])
  have "scheduled (t # ts) = scheduled [t] @ scheduled ts" by (simp add: scheduled_def)
  with Cons.IH [of "gs[k := l]" E1 a1 r1] Cons.prems(1,3) ok(3) l show ?case by simp
qed

lemma fresh_tasks_inv:
  assumes "k < length gs" "fresh_link (gs ! k)" "tasks_ok k ts gs" "devices_accept ts"
  shows "k < length (do_tasks k ts gs)" "\<exists>E a r. run_inv (False, static (gs ! k)) E a r (do_tasks k ts gs ! k) \<and> filter (\<lambda>e. e > 0) E = scheduled ts"
  using tasks_inv [OF assms(1) fresh_run_inv [OF assms(2)] assms(3,4)] by simp_all


lemma delivered_prefix: "prefix (delivered E a m p) (filter (\<lambda>e. e > 0) E)"
proof -
  have "filter (\<lambda>e. e > 0) E = delivered E a m p @ filter (\<lambda>e. e > 0) (drop (a - nat (m - p)) E)"
    unfolding delivered_def by (metis append_take_drop_id filter_append)
  then show ?thesis by (metis prefixI)
qed

lemma fresh_tasks_prefix:
  assumes "k < length gs" "fresh_link (gs ! k)" "tasks_ok k ts gs" "devices_accept ts" "h \<in> dv_dev_hdl ` set (devs (gs ! k))"
  shows "prefix (given h (do_tasks k ts gs ! k)) (scheduled ts)"
proof -
  let ?l = "do_tasks k ts gs ! k"
  obtain E a r where i: "run_inv (False, static (gs ! k)) E a r ?l" "filter (\<lambda>e. e > 0) E = scheduled ts"
    using fresh_tasks_inv(2) [OF assms(1-4)] by blast
  have "devs ?l = devs (gs ! k)" using i(1) by (simp add: run_inv_def static_def)
  then obtain d where "h = dv_dev_hdl d" "d \<in> set (devs ?l)" using assms(5) by auto
  then have "given h ?l = delivered E a (lk_max_delay ?l) (di_p_delay (dv_dev_info d))" using i(1) by (simp add: run_inv_def)
  then show ?thesis using delivered_prefix i(2) by metis
qed


end
