(* ===== verification/Crm_Liveness.thy ===== *)
theory Crm_Liveness imports Crm_Delivery begin

text \<open>
  Progress of a link: once its devices have added what was scheduled and ask for no delay, every
  start of frame moves the pipeline by one position until each device has been given everything.
\<close>

section \<open>Links that are ready\<close>

text \<open>Every request in the queue has been added by the devices of every delay.\<close>

definition all_added :: "cam_req_mgr_core_link \<Rightarrow> bool" where
  "all_added l \<longleftrightarrow>
     list_all (\<lambda>t. list_all (\<lambda>j.
       ts_inject_delay_at_sof (tb_slot t ! j) = 0 \<and>
       (sl_status (iq_slot (in_q l) ! j) \<noteq> CRM_SLOT_STATUS_NO_REQ \<and> sl_req_id (iq_slot (in_q l) ! j) \<noteq> - 1 \<longrightarrow>
        ts_state (tb_slot t ! j) = CRM_REQ_STATE_READY)) [0..<48]) (lk_l_tbl l)"

lemma chain_slots: "tbl_chain ts \<Longrightarrow> t \<in> set ts \<Longrightarrow> length (tb_slot t) = 48 \<and> 0 \<le> tb_pd t"
  by (induction ts rule: tbl_chain.induct) auto

lemma all_added_ready:
  assumes "run_inv (False, x) E a r l" "all_added l"
  shows "run_inv (True, static l) E a r l"
proof -
  have p: "pipe False E a r l" using assms(1) by (simp add: run_inv_def)
  have "ready E r l" unfolding ready_def
  proof (intro ballI conjI allI impI)
    fix t assume t: "t \<in> set (lk_l_tbl l)"
    then have len: "length (tb_slot t) = 48" using chain_slots [OF link_ok_chain [OF pipeD(1) [OF p]]] by simp
    have all: "ts_inject_delay_at_sof (tb_slot t ! j) = 0 \<and>
       (sl_status (iq_slot (in_q l) ! j) \<noteq> CRM_SLOT_STATUS_NO_REQ \<and> sl_req_id (iq_slot (in_q l) ! j) \<noteq> - 1 \<longrightarrow>
        ts_state (tb_slot t ! j) = CRM_REQ_STATE_READY)" if "j < 48" for j
      using assms(2) t that by (simp add: all_added_def list_all_iff)
    show "ts_inject_delay_at_sof s = 0" if "s \<in> set (tb_slot t)" for s
      using that all len by (auto simp: in_set_conv_nth)
    fix i assume i: "r - nat (lk_max_delay l) \<le> i \<and> i < length E \<and> E ! i \<noteq> - 1"
    have "entry (E ! i) (i < a) (i = r) (iq_slot (in_q l) ! (i mod 48))"
      using window_entry [OF pipeD(4) [OF p]] i by blast
    then show "ts_state (tb_slot t ! (i mod 48)) = CRM_REQ_STATE_READY"
      using all [of "i mod 48"] i entry_status by (auto simp: entry_def)
  qed
  with assms(1) show ?thesis by (simp add: run_inv_def pipe_def)
qed

lemma run_inv_len:
  assumes "run_inv c E a r l"
  shows "a \<le> length E" "length E \<le> a + 48"
proof -
  have "window E a r (nat (lk_max_delay l)) (in_q l)" using assms by (simp add: run_inv_def pipe_def)
  from windowD(3,5,6) [OF this] show "a \<le> length E" "length E \<le> a + 48" by linarith+
qed

section \<open>Frames\<close>

definition all_sof :: "link_task list \<Rightarrow> bool" where
  "all_sof ts \<longleftrightarrow> (\<forall>t \<in> set ts. \<exists>env td. t = Trigger env td \<and> tn_trigger td = CAM_TRIGGER_POINT_SOF)"

lemma delivered_mono:
  assumes "a \<le> b" "a \<le> length E"
  shows "prefix (delivered E a m p) (delivered (E @ xs) b m p)"
proof -
  define i j where "i = a - nat (m - p)" and "j = b - nat (m - p)"
  have "i \<le> j" "i \<le> length E" using assms by (simp_all add: i_def j_def)
  then have "take j (E @ xs) = take i E @ take (j - i) (drop i (E @ xs))"
    using take_add [of i "j - i" "E @ xs"] by simp
  then show ?thesis unfolding delivered_def i_def [symmetric] j_def [symmetric] by (simp del: take_append drop_append)
qed


text \<open>A link that has nothing more to do.\<close>

lemma delivered_stuck:
  assumes "run_inv c E a r l" "a = length E" "lower l \<longrightarrow> E = []" "d \<in> set (devs l)"
  shows "given (dv_dev_hdl d) l = filter (\<lambda>e. e > 0) E"
proof (cases "lower l")
  case False
  then have "lk_max_delay l \<le> di_p_delay (dv_dev_info d)"
    using assms(4) by (auto simp: lower_def cam_req_mgr_check_for_lower_pd_devices_def split: if_splits)
  with assms show ?thesis by (simp add: run_inv_def delivered_def)
qed (use assms in \<open>simp add: run_inv_def delivered_def\<close>)

text \<open>A frame brings every device one position closer, or all have everything.\<close>

lemma sofs_progress:
  assumes k: "k < length gs0" and inv: "run_inv (True, x) E a r (gs0 ! k)"
    and "all_sof ts" "tasks_ok k ts gs0" "devices_accept ts"
  shows "length (do_tasks k ts gs0) = length gs0 \<and>
    (\<exists>xs a' r'. run_inv (True, x) (E @ xs) a' r' (do_tasks k ts gs0 ! k) \<and> filter (\<lambda>e. e > 0) xs = [] \<and>
    (a + length ts \<le> a' \<or>
     (\<forall>d \<in> set (devs (do_tasks k ts gs0 ! k)). given (dv_dev_hdl d) (do_tasks k ts gs0 ! k) = filter (\<lambda>e. e > 0) E)))"
  using assms(3-5)
proof (induction ts rule: rev_induct)
  case Nil
  show ?case by (intro conjI exI [of _ "[]"] exI [of _ a] exI [of _ r]) (simp_all add: inv)
next
  case (snoc t ts)
  define gs where "gs = do_tasks k ts gs0"
  define n where "n = length ts"
  obtain env td where t: "t = Trigger env td" and frame: "tn_trigger td = CAM_TRIGGER_POINT_SOF"
    using snoc.prems(1) by (auto simp: all_sof_def)
  have rep: "report_ok td (gs ! k)" and env: "\<And>h. ce_apply_req env h = (\<lambda>_. 0)"
    using snoc.prems(2,3) by (simp_all add: t task_ok_def devices_accept_def gs_def)
  have IH: "length gs = length gs0 \<and> (\<exists>xs a' r'. run_inv (True, x) (E @ xs) a' r' (gs ! k) \<and> filter (\<lambda>e. e > 0) xs = [] \<and>
    (a + n \<le> a' \<or> (\<forall>d \<in> set (devs (gs ! k)). given (dv_dev_hdl d) (gs ! k) = filter (\<lambda>e. e > 0) E)))"
    unfolding gs_def n_def by (rule snoc.IH) (use snoc.prems in \<open>simp_all add: all_sof_def\<close>)
  let ?F = "filter (\<lambda>e. e > (0::int))"
  obtain xs a1 r1 where k1: "k < length gs" and i1: "run_inv (True, x) (E @ xs) a1 r1 (gs ! k)" and xs: "?F xs = []"
    and or: "a + n \<le> a1 \<or> (\<forall>d \<in> set (devs (gs ! k)). given (dv_dev_hdl d) (gs ! k) = ?F E)"
    using IH k by auto
  obtain rc l E' a' r' where q: "cam_req_mgr_process_trigger env k td gs = (rc, gs[k := l])" "run_inv (True, x) E' a' r' l"
    "E' = E @ xs \<or> E' = (E @ xs) @ [- 1]"
    "fst (True, x) \<and> tn_trigger td = CAM_TRIGGER_POINT_SOF \<longrightarrow>
       a' = Suc a1 \<or> a' = a1 \<and> E' = E @ xs \<and> a1 = length (E @ xs) \<and> (lower l \<longrightarrow> E @ xs = [])"
    by (rule trigger_plain [OF k1 i1 rep env])
  then obtain ys where ys: "E' = E @ ys" "?F ys = []" "\<exists>zs. E' = (E @ xs) @ zs" using xs by auto
  have st: "static l = x" "static (gs ! k) = x" using q(2) i1 by (simp_all add: run_inv_def)
  then have dv: "devs (gs ! k) = devs l" "lk_max_delay (gs ! k) = lk_max_delay l" by (auto simp: static_def)
  have len: "a1 \<le> length (E @ xs)" by (rule run_inv_len(1) [OF i1])
  have ge: "a1 \<le> a'" using q(4) frame by auto
  have "a + Suc n \<le> a' \<or> (\<forall>d \<in> set (devs l). given (dv_dev_hdl d) l = ?F E)"
  proof (cases "a + n \<le> a1")
    case True
    show ?thesis
    proof (cases "a' = Suc a1")
      case False
      then have s: "a' = length E'" "lower l \<longrightarrow> E' = []" using q(4) frame by auto
      have "?F E' = ?F E" using ys by simp
      then show ?thesis using delivered_stuck [OF q(2) s] by simp
    qed (use True in simp)
  next
    case False
    have "given (dv_dev_hdl d) l = ?F E" if d: "d \<in> set (devs l)" for d
    proof -
      let ?p = "di_p_delay (dv_dev_info d)"
      have "given (dv_dev_hdl d) l = delivered E' a' (lk_max_delay l) ?p" using q(2) d by (simp add: run_inv_def)
      moreover have "?F E = delivered (E @ xs) a1 (lk_max_delay l) ?p"
        using False or i1 d dv by (simp add: run_inv_def)
      moreover obtain zs where "E' = (E @ xs) @ zs" using ys(3) by blast
      ultimately have "prefix (?F E) (given (dv_dev_hdl d) l)" using delivered_mono [OF ge len] by simp
      moreover have "prefix (given (dv_dev_hdl d) l) (?F E)"
        using delivered_prefix [of E' a' "lk_max_delay l" ?p] ys q(2) d by (simp add: run_inv_def)
      ultimately show ?thesis by (simp add: prefix_order.antisym)
    qed
    then show ?thesis by simp
  qed
  with q(1,2) ys k1 IH show ?case by (auto simp: t do_task_def gs_def [symmetric] n_def [symmetric])
qed

lemma sofs_devs:
  assumes "k < length gs" "run_inv (False, x) E a r (gs ! k)" "all_added (gs ! k)" "all_sof ts" "tasks_ok k ts gs" "devices_accept ts"
  shows "devs (do_tasks k ts gs ! k) = devs (gs ! k)"
  using sofs_progress [OF assms(1) all_added_ready [OF assms(2,3)] assms(4-6)] by (auto simp: run_inv_def static_def)


end
