(* ===== verification/Crm_Demo.thy ===== *)
theory Crm_Demo imports Crm_Liveness begin

text \<open>Concrete links at which the theorems on runs apply, as scripts of tasks.\<close>

section \<open>A link at work\<close>


















section \<open>A link left to its frames\<close>






end
