(* ===== verification/Crm_Handles.thy ===== *)
theory Crm_Handles imports Kernel_Prelude begin

text \<open>
  The handle table of the camera request manager
  (\<open>camera-kernel/drivers/cam_req_mgr/cam_req_mgr_util.c\<close>): 256 rows, a bit map of the rows
  in use, and 32-bit handles that encode the row (bits 0-7), the kind (bits 8-11) and a random
  byte (bits 16-23). Every session, device and link of the camera stack is named by such a
  handle. The model keeps the static \<open>hdl_tbl\<close> pointer as \<open>hdl_tbl option\<close> and passes it
  through each operation; a random byte is an argument of the operation that draws it.

  The lemmas show that encoding and decoding agree, that every operation keeps the table
  consistent with its bit map, and that the table implements a finite map from handles to
  entries (locale \<open>handle_registry\<close>).
\<close>

section \<open>Data\<close>

datatype hdl_state = HDL_FREE | HDL_ACTIVE

abbreviation HDL_TYPE_DEV :: u32 where "HDL_TYPE_DEV \<equiv> 1"
abbreviation HDL_TYPE_SESSION :: u32 where "HDL_TYPE_SESSION \<equiv> 2"
abbreviation HDL_TYPE_LINK :: u32 where "HDL_TYPE_LINK \<equiv> 3"

abbreviation CAM_REQ_MGR_MAX_HANDLES_V2 :: nat where "CAM_REQ_MGR_MAX_HANDLES_V2 \<equiv> 256"

record handle =
  h_session_hdl :: u32
  h_hdl_value :: u32
  h_type :: u32
  h_state :: hdl_state
  h_dev_id :: u64
  h_ops :: ptr
  h_priv :: ptr

record hdl_tbl =
  hdl :: "nat \<Rightarrow> handle"
  hdl_bitmap :: bitmap
  hdl_bits :: nat

record cam_create_dev_hdl =
  c_session_hdl :: u32
  c_dev_id :: u64
  c_ops :: ptr
  c_priv :: ptr

text \<open>A row of the zeroed table.\<close>

definition zero_handle :: handle where
  "zero_handle = \<lparr>h_session_hdl = 0, h_hdl_value = 0, h_type = 0, h_state = HDL_FREE,
     h_dev_id = 0, h_ops = None, h_priv = None\<rparr>"

text \<open>\<open>BITS_TO_LONGS(256) * sizeof(long)\<close> bytes, in bits.\<close>

definition zero_hdl_tbl :: hdl_tbl where
  "zero_hdl_tbl = \<lparr>hdl = (\<lambda>_. zero_handle), hdl_bitmap = (\<lambda>_. False),
     hdl_bits = ((CAM_REQ_MGR_MAX_HANDLES_V2 + 63) div 64) * 8 * 8\<rparr>"

section \<open>Handle encoding\<close>

definition GET_DEV_HANDLE :: "u32 \<Rightarrow> u32 \<Rightarrow> u32 \<Rightarrow> u32" where
  "GET_DEV_HANDLE rnd1 type idx =
     push_bit (24 - 8) rnd1 OR push_bit (16 - 4) 0 OR push_bit (12 - 4) type OR push_bit (8 - 8) idx"

definition CAM_REQ_MGR_GET_HDL_IDX :: "u32 \<Rightarrow> nat" where
  "CAM_REQ_MGR_GET_HDL_IDX h = unat (h AND (push_bit 8 1 - 1))"

definition CAM_REQ_MGR_GET_HDL_TYPE :: "u32 \<Rightarrow> u32" where
  "CAM_REQ_MGR_GET_HDL_TYPE h = signed_drop_bit 8 h AND (push_bit 4 1 - 1)"

section \<open>Operations\<close>

text \<open>
  \<open>cam_req_mgr_util_init\<close>: \<open>tbl_mem\<close> and \<open>bitmap_mem\<close> say whether the two allocations
  succeed; \<open>at_lock\<close> is the value of the static pointer when the lock is taken, which another
  caller may have set since the first test of \<open>at_entry\<close>.
\<close>

definition cam_req_mgr_util_init ::
  "bool \<Rightarrow> bool \<Rightarrow> hdl_tbl option \<Rightarrow> hdl_tbl option \<Rightarrow> int \<times> hdl_tbl option" where
  "cam_req_mgr_util_init tbl_mem bitmap_mem at_entry at_lock =
     (if at_entry \<noteq> None then (- EINVAL, at_entry)
      else if \<not> tbl_mem then (- ENOMEM, at_entry)
      else if \<not> bitmap_mem then (- ENOMEM, None)
      else if at_lock \<noteq> None then (- EEXIST, at_lock)
      else (0, Some zero_hdl_tbl))"

definition cam_req_mgr_util_deinit :: "hdl_tbl option \<Rightarrow> int \<times> hdl_tbl option" where
  "cam_req_mgr_util_deinit t = (if t = None then (- EINVAL, t) else (0, None))"

definition cam_handle_validate :: "hdl_tbl option \<Rightarrow> u32 \<Rightarrow> u32 \<Rightarrow> int" where
  "cam_handle_validate t session_hdl handle =
     (case t of
        None \<Rightarrow> - EINVAL
      | Some tbl \<Rightarrow>
          let idx = CAM_REQ_MGR_GET_HDL_IDX handle in
          if idx \<ge> CAM_REQ_MGR_MAX_HANDLES_V2 then - EINVAL
          else if h_state (hdl tbl idx) \<noteq> HDL_ACTIVE then - EINVAL
          else if h_session_hdl (hdl tbl idx) \<noteq> session_hdl \<or> h_hdl_value (hdl tbl idx) \<noteq> handle
          then - EINVAL
          else 0)"

text \<open>The body of the loop of \<open>cam_req_mgr_util_free_hdls\<close>, then the loop over all rows.\<close>

definition free_row :: "nat \<Rightarrow> hdl_tbl \<Rightarrow> hdl_tbl" where
  "free_row i tbl =
     (if h_state (hdl tbl i) = HDL_ACTIVE
      then tbl\<lparr>hdl := (hdl tbl)(i := (hdl tbl i)\<lparr>h_state := HDL_FREE\<rparr>),
               hdl_bitmap := clear_bit_map i (hdl_bitmap tbl)\<rparr>
      else tbl)"

definition cam_req_mgr_util_free_hdls :: "hdl_tbl option \<Rightarrow> int \<times> hdl_tbl option" where
  "cam_req_mgr_util_free_hdls t =
     (case t of
        None \<Rightarrow> (- EINVAL, t)
      | Some tbl \<Rightarrow>
          let tbl' = fold free_row [0..<CAM_REQ_MGR_MAX_HANDLES_V2] tbl in
          (0, Some (tbl'\<lparr>hdl_bitmap := bitmap_zero CAM_REQ_MGR_MAX_HANDLES_V2 (hdl_bitmap tbl')\<rparr>)))"

definition cam_get_free_handle_index :: "hdl_tbl \<Rightarrow> int \<times> hdl_tbl" where
  "cam_get_free_handle_index tbl =
     (let idx = find_first_zero_bit (hdl_bitmap tbl) (hdl_bits tbl) in
      if idx \<ge> CAM_REQ_MGR_MAX_HANDLES_V2 then (- ENOSR, tbl)
      else (int idx, tbl\<lparr>hdl_bitmap := set_bit_map idx (hdl_bitmap tbl)\<rparr>))"

text \<open>
  The three creators. \<open>get_random_bytes\<close> fills the low byte of a zeroed \<open>int\<close>: \<open>rand\<close>. The
  result is the C \<open>int32_t\<close>: the handle read as a signed number, or a negative error. In
  \<open>cam_create_session_hdl\<close> the owner id is the constant \<open>CAM_CRM\<close> of the debug utilities.
\<close>

definition cam_create_session_hdl ::
  "u64 \<Rightarrow> u8 \<Rightarrow> ptr \<Rightarrow> hdl_tbl option \<Rightarrow> int \<times> hdl_tbl option" where
  "cam_create_session_hdl CAM_CRM rand priv t =
     (case t of
        None \<Rightarrow> (- EINVAL, t)
      | Some tbl \<Rightarrow>
          let (idx, tbl1) = cam_get_free_handle_index tbl in
          if idx < 0 then (idx, Some tbl1)
          else
            let i = nat idx; h = GET_DEV_HANDLE (ucast rand) HDL_TYPE_SESSION (of_nat i) in
            (sint h, Some (tbl1\<lparr>hdl := (hdl tbl1)(i := \<lparr>h_session_hdl = h, h_hdl_value = h,
               h_type = HDL_TYPE_SESSION, h_state = HDL_ACTIVE, h_dev_id = CAM_CRM,
               h_ops = None, h_priv = priv\<rparr>)\<rparr>)))"

text \<open>\<open>crm_active\<close> is the result of \<open>cam_req_mgr_is_open\<close>.\<close>

definition cam_create_device_hdl ::
  "bool \<Rightarrow> u8 \<Rightarrow> cam_create_dev_hdl \<Rightarrow> hdl_tbl option \<Rightarrow> int \<times> hdl_tbl option" where
  "cam_create_device_hdl crm_active rand hdl_data t =
     (if \<not> crm_active then (- EINVAL, t)
      else case t of
        None \<Rightarrow> (- EINVAL, t)
      | Some tbl \<Rightarrow>
          let (idx, tbl1) = cam_get_free_handle_index tbl in
          if idx < 0 then (idx, Some tbl1)
          else
            let i = nat idx; h = GET_DEV_HANDLE (ucast rand) HDL_TYPE_DEV (of_nat i) in
            (sint h, Some (tbl1\<lparr>hdl := (hdl tbl1)(i := \<lparr>h_session_hdl = c_session_hdl hdl_data,
               h_hdl_value = h, h_type = HDL_TYPE_DEV, h_state = HDL_ACTIVE,
               h_dev_id = c_dev_id hdl_data, h_ops = c_ops hdl_data, h_priv = c_priv hdl_data\<rparr>)\<rparr>)))"

definition cam_create_link_hdl ::
  "u8 \<Rightarrow> cam_create_dev_hdl \<Rightarrow> hdl_tbl option \<Rightarrow> int \<times> hdl_tbl option" where
  "cam_create_link_hdl rand hdl_data t =
     (case t of
        None \<Rightarrow> (- EINVAL, t)
      | Some tbl \<Rightarrow>
          let (idx, tbl1) = cam_get_free_handle_index tbl in
          if idx < 0 then (idx, Some tbl1)
          else
            let i = nat idx; h = GET_DEV_HANDLE (ucast rand) HDL_TYPE_LINK (of_nat i) in
            (sint h, Some (tbl1\<lparr>hdl := (hdl tbl1)(i := \<lparr>h_session_hdl = c_session_hdl hdl_data,
               h_hdl_value = h, h_type = HDL_TYPE_LINK, h_state = HDL_ACTIVE,
               h_dev_id = c_dev_id hdl_data, h_ops = None, h_priv = c_priv hdl_data\<rparr>)\<rparr>)))"

definition cam_get_priv :: "hdl_tbl option \<Rightarrow> u32 \<Rightarrow> u32 \<Rightarrow> ptr" where
  "cam_get_priv t dev_hdl handle_type =
     (case t of
        None \<Rightarrow> None
      | Some tbl \<Rightarrow>
          let idx = CAM_REQ_MGR_GET_HDL_IDX dev_hdl in
          if idx \<ge> CAM_REQ_MGR_MAX_HANDLES_V2 then None
          else if h_hdl_value (hdl tbl idx) \<noteq> dev_hdl then None
          else if h_state (hdl tbl idx) \<noteq> HDL_ACTIVE then None
          else if CAM_REQ_MGR_GET_HDL_TYPE dev_hdl \<noteq> handle_type then None
          else h_priv (hdl tbl idx))"

definition cam_get_device_priv :: "hdl_tbl option \<Rightarrow> u32 \<Rightarrow> ptr" where
  "cam_get_device_priv t dev_hdl = cam_get_priv t dev_hdl HDL_TYPE_DEV"

definition cam_get_session_priv :: "hdl_tbl option \<Rightarrow> u32 \<Rightarrow> ptr" where
  "cam_get_session_priv t dev_hdl = cam_get_priv t dev_hdl HDL_TYPE_SESSION"

definition cam_get_link_priv :: "hdl_tbl option \<Rightarrow> u32 \<Rightarrow> ptr" where
  "cam_get_link_priv t dev_hdl = cam_get_priv t dev_hdl HDL_TYPE_LINK"

definition cam_get_device_ops :: "hdl_tbl option \<Rightarrow> u32 \<Rightarrow> ptr" where
  "cam_get_device_ops t dev_hdl =
     (case t of
        None \<Rightarrow> None
      | Some tbl \<Rightarrow>
          let idx = CAM_REQ_MGR_GET_HDL_IDX dev_hdl; type = CAM_REQ_MGR_GET_HDL_TYPE dev_hdl in
          if idx \<ge> CAM_REQ_MGR_MAX_HANDLES_V2 then None
          else if h_state (hdl tbl idx) \<noteq> HDL_ACTIVE then None
          else if HDL_TYPE_DEV \<noteq> type \<and> HDL_TYPE_SESSION \<noteq> type \<and> HDL_TYPE_LINK \<noteq> type then None
          else if h_hdl_value (hdl tbl idx) \<noteq> dev_hdl then None
          else h_ops (hdl tbl idx))"

definition cam_destroy_hdl :: "u32 \<Rightarrow> u32 \<Rightarrow> hdl_tbl option \<Rightarrow> int \<times> hdl_tbl option" where
  "cam_destroy_hdl dev_hdl dev_hdl_type t =
     (case t of
        None \<Rightarrow> (- EINVAL, t)
      | Some tbl \<Rightarrow>
          let idx = CAM_REQ_MGR_GET_HDL_IDX dev_hdl in
          if idx \<ge> CAM_REQ_MGR_MAX_HANDLES_V2 then (- EINVAL, t)
          else if h_state (hdl tbl idx) \<noteq> HDL_ACTIVE then (- EINVAL, t)
          else if CAM_REQ_MGR_GET_HDL_TYPE dev_hdl \<noteq> dev_hdl_type then (- EINVAL, t)
          else if h_hdl_value (hdl tbl idx) \<noteq> dev_hdl then (- EINVAL, t)
          else (0, Some (tbl\<lparr>hdl := (hdl tbl)(idx := (hdl tbl idx)\<lparr>h_state := HDL_FREE,
                                      h_ops := None, h_priv := None\<rparr>),
                             hdl_bitmap := clear_bit_map idx (hdl_bitmap tbl)\<rparr>)))"

definition cam_destroy_device_hdl :: "u32 \<Rightarrow> hdl_tbl option \<Rightarrow> int \<times> hdl_tbl option" where
  "cam_destroy_device_hdl dev_hdl t = cam_destroy_hdl dev_hdl HDL_TYPE_DEV t"

definition cam_destroy_link_hdl :: "u32 \<Rightarrow> hdl_tbl option \<Rightarrow> int \<times> hdl_tbl option" where
  "cam_destroy_link_hdl dev_hdl t = cam_destroy_hdl dev_hdl HDL_TYPE_LINK t"

definition cam_destroy_session_hdl :: "u32 \<Rightarrow> hdl_tbl option \<Rightarrow> int \<times> hdl_tbl option" where
  "cam_destroy_session_hdl dev_hdl t = cam_destroy_hdl dev_hdl HDL_TYPE_SESSION t"

section \<open>Facts about the encoding\<close>

lemma enc_bits:
  fixes r i :: u8
  shows "GET_DEV_HANDLE (ucast r) ty (ucast i) = push_bit 16 (ucast r) OR push_bit 8 ty OR ucast i"
  by (simp add: GET_DEV_HANDLE_def)

lemma type_bits: "take_bit 4 ty = ty \<Longrightarrow> bit (ty::u32) n \<Longrightarrow> n < 4"
  by (metis bit_take_bit_iff)

lemma enc_type:
  fixes r i :: u8
  assumes "take_bit 4 ty = ty"
  shows "CAM_REQ_MGR_GET_HDL_TYPE (GET_DEV_HANDLE (ucast r) ty (ucast i)) = ty"
proof -
  have "(push_bit 4 1 - 1 :: u32) = mask 4" by (simp add: mask_eq_decr_exp push_bit_eq_mult)
  show ?thesis
    unfolding CAM_REQ_MGR_GET_HDL_TYPE_def enc_bits \<open>_ = mask 4\<close>
    by - (rule bit_word_eqI, auto simp: bit_simps add.commute dest: type_bits [OF assms] bit_imp_le_length)
qed

lemma hdl_idx_mask: "CAM_REQ_MGR_GET_HDL_IDX h = unat (h AND mask 8)"
  by (simp add: CAM_REQ_MGR_GET_HDL_IDX_def mask_eq_decr_exp push_bit_eq_mult)

lemma hdl_idx_less [simp]: "CAM_REQ_MGR_GET_HDL_IDX h < 256"
proof -
  have "unat (h AND mask 8) = take_bit 8 (unat h)"
    by (simp only: take_bit_eq_mask [symmetric] unsigned_take_bit_eq)
  also have "\<dots> < 2 ^ 8" by (rule take_bit_nat_less_exp)
  finally show ?thesis by (simp add: hdl_idx_mask)
qed

lemma hdl_idx_not_ge [simp]: "\<not> 256 \<le> CAM_REQ_MGR_GET_HDL_IDX h"
  by (simp add: not_le)

lemma enc_idx:
  fixes r i :: u8
  shows "CAM_REQ_MGR_GET_HDL_IDX (GET_DEV_HANDLE (ucast r) ty (ucast i)) = unat i"
proof -
  have "GET_DEV_HANDLE (ucast r) ty (ucast i) AND mask 8 = ucast i"
    unfolding enc_bits by (rule bit_word_eqI) (auto simp: bit_simps dest: bit_imp_le_length)
  then show ?thesis by (simp add: hdl_idx_mask unat_ucast_u8)
qed

lemma enc_rnd:
  fixes r i :: u8
  assumes "take_bit 4 ty = ty"
  shows "drop_bit 16 (GET_DEV_HANDLE (ucast r) ty (ucast i)) = (ucast r :: u32)"
  unfolding enc_bits
  by (rule bit_word_eqI) (auto simp: bit_simps dest: type_bits [OF assms] bit_imp_le_length)

lemma sint_eq_uint:
  assumes "\<not> bit (w::u32) 31"
  shows "sint w = uint w"
proof -
  have "take_bit 31 (uint w) = uint w"
  proof (rule bit_eqI)
    fix n
    show "bit (take_bit 31 (uint w)) n \<longleftrightarrow> bit (uint w) n"
      using assms by (cases "n < 31"; cases "n = 31") (auto simp: bit_simps dest: bit_imp_le_length)
  qed
  with assms show ?thesis
    by (simp add: sint_uint signed_take_bit_eq_if_positive bit_uint_iff)
qed

lemma enc_sint:
  fixes r i :: u8
  assumes "take_bit 4 ty = ty"
  shows "sint (GET_DEV_HANDLE (ucast r) ty (ucast i)) = uint (GET_DEV_HANDLE (ucast r) ty (ucast i))"
proof (rule sint_eq_uint)
  show "\<not> bit (GET_DEV_HANDLE (ucast r) ty (ucast i)) 31"
    unfolding enc_bits by (auto simp: bit_simps dest: type_bits [OF assms] bit_imp_le_length)
qed

text \<open>The same facts for a row number, as the creators use them.\<close>

lemma row_as_byte: "k < 256 \<Longrightarrow> (of_nat k :: u32) = ucast (of_nat k :: u8)"
  by (simp add: ucast_of_nat_u8 take_bit_nat_eq_self)

lemma row_enc:
  fixes r :: u8
  assumes "k < 256" and "take_bit 4 ty = ty"
  shows row_enc_idx: "CAM_REQ_MGR_GET_HDL_IDX (GET_DEV_HANDLE (ucast r) ty (of_nat k)) = k"
    and row_enc_type: "CAM_REQ_MGR_GET_HDL_TYPE (GET_DEV_HANDLE (ucast r) ty (of_nat k)) = ty"
    and row_enc_rnd: "drop_bit 16 (GET_DEV_HANDLE (ucast r) ty (of_nat k)) = (ucast r :: u32)"
    and row_enc_sint: "sint (GET_DEV_HANDLE (ucast r) ty (of_nat k)) = uint (GET_DEV_HANDLE (ucast r) ty (of_nat k))"
  using assms by (simp_all add: row_as_byte enc_idx enc_type enc_rnd enc_sint unat_of_nat take_bit_nat_eq_self)

lemma enc_inject:
  fixes r r' :: u8
  assumes "k < 256" "k' < 256" "take_bit 4 ty = ty" "take_bit 4 ty' = ty'"
  shows "GET_DEV_HANDLE (ucast r) ty (of_nat k) = GET_DEV_HANDLE (ucast r') ty' (of_nat k') \<longleftrightarrow>
    r = r' \<and> ty = ty' \<and> k = k'"
proof
  assume eq: "GET_DEV_HANDLE (ucast r) ty (of_nat k) = GET_DEV_HANDLE (ucast r') ty' (of_nat k')"
  have "(ucast r :: u32) = ucast r'"
    using arg_cong [OF eq, of "drop_bit 16"] assms by (simp add: row_enc_rnd)
  then have "r = r'" by (metis unat_ucast_u8 word_unat_eq_iff)
  moreover have "k = k'"
    using arg_cong [OF eq, of CAM_REQ_MGR_GET_HDL_IDX] assms by (simp add: row_enc_idx)
  moreover have "ty = ty'"
    using arg_cong [OF eq, of CAM_REQ_MGR_GET_HDL_TYPE] assms by (simp add: row_enc_type)
  ultimately show "r = r' \<and> ty = ty' \<and> k = k'" by simp
qed simp

section \<open>Consistency of the table\<close>

definition row_ok :: "nat \<Rightarrow> handle \<Rightarrow> bool" where
  "row_ok i r \<longleftrightarrow> CAM_REQ_MGR_GET_HDL_IDX (h_hdl_value r) = i \<and>
     CAM_REQ_MGR_GET_HDL_TYPE (h_hdl_value r) = h_type r \<and>
     h_type r \<in> {HDL_TYPE_DEV, HDL_TYPE_SESSION, HDL_TYPE_LINK}"

definition hdl_active :: "hdl_tbl \<Rightarrow> nat \<Rightarrow> bool" where
  "hdl_active tbl i \<longleftrightarrow> h_state (hdl tbl i) = HDL_ACTIVE"

text \<open>
  The bit map marks exactly the active rows, and the value of an active row encodes its row
  number and its kind.
\<close>

definition hdl_inv :: "hdl_tbl \<Rightarrow> bool" where
  "hdl_inv tbl \<longleftrightarrow> hdl_bits tbl = CAM_REQ_MGR_MAX_HANDLES_V2 \<and>
     (\<forall>i < CAM_REQ_MGR_MAX_HANDLES_V2.
        (hdl_bitmap tbl i \<longleftrightarrow> hdl_active tbl i) \<and> (hdl_active tbl i \<longrightarrow> row_ok i (hdl tbl i)))"

text \<open>The map from handles to rows that the table stands for.\<close>

definition hdl_find :: "hdl_tbl \<Rightarrow> u32 \<Rightarrow> handle option" where
  "hdl_find tbl h =
     (let r = hdl tbl (CAM_REQ_MGR_GET_HDL_IDX h) in
      if h_state r = HDL_ACTIVE \<and> h_hdl_value r = h then Some r else None)"

lemma hdl_find_SomeD:
  "hdl_find tbl h = Some r \<Longrightarrow>
     hdl_active tbl (CAM_REQ_MGR_GET_HDL_IDX h) \<and> h_hdl_value r = h \<and> r = hdl tbl (CAM_REQ_MGR_GET_HDL_IDX h)"
  by (auto simp: hdl_find_def hdl_active_def Let_def split: if_splits)

lemma hdl_inv_row:
  "hdl_inv tbl \<Longrightarrow> hdl_active tbl i \<Longrightarrow> i < 256 \<Longrightarrow> row_ok i (hdl tbl i)"
  by (simp add: hdl_inv_def)

lemma hdl_find_row:
  "hdl_inv tbl \<Longrightarrow> hdl_active tbl i \<Longrightarrow> i < 256 \<Longrightarrow>
     hdl_find tbl (h_hdl_value (hdl tbl i)) = Some (hdl tbl i)"
  by (auto simp: hdl_find_def hdl_active_def Let_def dest: hdl_inv_row [unfolded hdl_active_def] simp: row_ok_def)

text \<open>A row with the given entry installed, as the creators leave the table.\<close>

definition install :: "nat \<Rightarrow> handle \<Rightarrow> hdl_tbl \<Rightarrow> hdl_tbl" where
  "install i r tbl = tbl\<lparr>hdl := (hdl tbl)(i := r), hdl_bitmap := set_bit_map i (hdl_bitmap tbl)\<rparr>"

text \<open>A row marked free, and its bit cleared.\<close>

definition remove :: "nat \<Rightarrow> handle \<Rightarrow> hdl_tbl \<Rightarrow> hdl_tbl" where
  "remove i r tbl = tbl\<lparr>hdl := (hdl tbl)(i := r), hdl_bitmap := clear_bit_map i (hdl_bitmap tbl)\<rparr>"

lemma hdl_active_install: "hdl_active (install i r tbl) = (hdl_active tbl)(i := h_state r = HDL_ACTIVE)"
  by (auto simp: fun_eq_iff hdl_active_def install_def)

lemma hdl_active_remove: "hdl_active (remove i r tbl) = (hdl_active tbl)(i := h_state r = HDL_ACTIVE)"
  by (auto simp: fun_eq_iff hdl_active_def remove_def)

lemma hdl_inv_install:
  "hdl_inv tbl \<Longrightarrow> row_ok i r \<Longrightarrow> h_state r = HDL_ACTIVE \<Longrightarrow> hdl_inv (install i r tbl)"
  by (auto simp: hdl_inv_def hdl_active_install) (auto simp: install_def set_bit_map_def)

lemma hdl_inv_remove:
  "hdl_inv tbl \<Longrightarrow> h_state r = HDL_FREE \<Longrightarrow> hdl_inv (remove i r tbl)"
  by (auto simp: hdl_inv_def hdl_active_remove) (auto simp: remove_def clear_bit_map_def)

lemma hdl_find_install:
  "row_ok i r \<Longrightarrow> h_state r = HDL_ACTIVE \<Longrightarrow> \<not> hdl_active tbl i \<Longrightarrow>
     hdl_find (install i r tbl) = (hdl_find tbl)(h_hdl_value r \<mapsto> r)"
  by (auto simp: fun_eq_iff hdl_find_def install_def row_ok_def hdl_active_def Let_def)

lemma hdl_find_remove:
  "h_hdl_value (hdl tbl i) = h \<Longrightarrow> CAM_REQ_MGR_GET_HDL_IDX h = i \<Longrightarrow> h_state r = HDL_FREE \<Longrightarrow>
     hdl_find (remove i r tbl) = (hdl_find tbl)(h := None)"
  by (auto simp: fun_eq_iff hdl_find_def remove_def Let_def)

section \<open>What the lookups return\<close>

lemma cam_get_priv_find:
  "cam_get_priv (Some tbl) h ty =
     (case hdl_find tbl h of
        Some r \<Rightarrow> if CAM_REQ_MGR_GET_HDL_TYPE h = ty then h_priv r else None
      | None \<Rightarrow> None)"
  by (simp add: cam_get_priv_def hdl_find_def Let_def)

lemma cam_handle_validate_find:
  "cam_handle_validate (Some tbl) s h =
     (case hdl_find tbl h of Some r \<Rightarrow> if h_session_hdl r = s then 0 else - EINVAL | None \<Rightarrow> - EINVAL)"
  by (auto simp: cam_handle_validate_def hdl_find_def Let_def)

lemma cam_get_device_ops_find:
  "hdl_inv tbl \<Longrightarrow> cam_get_device_ops (Some tbl) h =
     (case hdl_find tbl h of Some r \<Rightarrow> h_ops r | None \<Rightarrow> None)"
  using hdl_inv_row [of tbl "CAM_REQ_MGR_GET_HDL_IDX h"]
  by (auto simp: cam_get_device_ops_def hdl_find_def Let_def row_ok_def hdl_active_def)

lemma cam_destroy_hdl_find:
  "cam_destroy_hdl h ty (Some tbl) =
     (case hdl_find tbl h of
        Some r \<Rightarrow>
          if CAM_REQ_MGR_GET_HDL_TYPE h = ty
          then (0, Some (remove (CAM_REQ_MGR_GET_HDL_IDX h)
                           (r\<lparr>h_state := HDL_FREE, h_ops := None, h_priv := None\<rparr>) tbl))
          else (- EINVAL, Some tbl)
      | None \<Rightarrow> (- EINVAL, Some tbl))"
  by (auto simp: cam_destroy_hdl_def hdl_find_def Let_def remove_def)

section \<open>The creators\<close>

text \<open>The least free row, or 256.\<close>

definition free_index :: "hdl_tbl \<Rightarrow> nat" where
  "free_index tbl = find_first_zero_bit (hdl_bitmap tbl) (hdl_bits tbl)"

lemma free_index_full:
  "hdl_inv tbl \<Longrightarrow> free_index tbl \<ge> 256 \<longleftrightarrow> (\<forall>i<256. hdl_active tbl i)"
  by (simp add: free_index_def hdl_inv_def find_first_zero_bit_ge)

lemma free_index_free:
  "hdl_inv tbl \<Longrightarrow> free_index tbl < 256 \<Longrightarrow> \<not> hdl_active tbl (free_index tbl)"
  using find_first_zero_bit_clear [of "hdl_bitmap tbl" 256] by (auto simp: free_index_def hdl_inv_def)

lemma free_index_eqI:
  "hdl_inv tbl \<Longrightarrow> i < 256 \<Longrightarrow> \<not> hdl_active tbl i \<Longrightarrow> (\<And>j. j < i \<Longrightarrow> hdl_active tbl j) \<Longrightarrow>
     free_index tbl = i"
  by (auto simp: free_index_def hdl_inv_def intro!: find_first_zero_bit_eqI)

text \<open>The entry a creator installs.\<close>

datatype create_req =
    Create_Session u8 ptr
  | Create_Device u8 cam_create_dev_hdl
  | Create_Link u8 cam_create_dev_hdl

fun req_rand :: "create_req \<Rightarrow> u8" where
  "req_rand (Create_Session r _) = r"
| "req_rand (Create_Device r _) = r"
| "req_rand (Create_Link r _) = r"

fun req_type :: "create_req \<Rightarrow> u32" where
  "req_type (Create_Session _ _) = HDL_TYPE_SESSION"
| "req_type (Create_Device _ _) = HDL_TYPE_DEV"
| "req_type (Create_Link _ _) = HDL_TYPE_LINK"

fun req_entry :: "u64 \<Rightarrow> create_req \<Rightarrow> u32 \<Rightarrow> handle" where
  "req_entry crm (Create_Session r p) h = \<lparr>h_session_hdl = h, h_hdl_value = h,
     h_type = HDL_TYPE_SESSION, h_state = HDL_ACTIVE, h_dev_id = crm, h_ops = None, h_priv = p\<rparr>"
| "req_entry crm (Create_Device r d) h = \<lparr>h_session_hdl = c_session_hdl d, h_hdl_value = h,
     h_type = HDL_TYPE_DEV, h_state = HDL_ACTIVE, h_dev_id = c_dev_id d, h_ops = c_ops d,
     h_priv = c_priv d\<rparr>"
| "req_entry crm (Create_Link r d) h = \<lparr>h_session_hdl = c_session_hdl d, h_hdl_value = h,
     h_type = HDL_TYPE_LINK, h_state = HDL_ACTIVE, h_dev_id = c_dev_id d, h_ops = None,
     h_priv = c_priv d\<rparr>"

fun create_hdl :: "u64 \<Rightarrow> create_req \<Rightarrow> hdl_tbl option \<Rightarrow> int \<times> hdl_tbl option" where
  "create_hdl crm (Create_Session r p) t = cam_create_session_hdl crm r p t"
| "create_hdl crm (Create_Device r d) t = cam_create_device_hdl True r d t"
| "create_hdl crm (Create_Link r d) t = cam_create_link_hdl r d t"

definition new_handle :: "create_req \<Rightarrow> hdl_tbl \<Rightarrow> u32" where
  "new_handle q tbl = GET_DEV_HANDLE (ucast (req_rand q)) (req_type q) (of_nat (free_index tbl))"

lemma create_hdl_eq:
  "create_hdl crm q (Some tbl) =
     (if free_index tbl \<ge> 256 then (- ENOSR, Some tbl)
      else (sint (new_handle q tbl),
            Some (install (free_index tbl) (req_entry crm q (new_handle q tbl)) tbl)))"
  by (cases q) (simp_all add: cam_create_session_hdl_def cam_create_device_hdl_def
      cam_create_link_hdl_def cam_get_free_handle_index_def free_index_def new_handle_def
      install_def Let_def)

lemma req_type_bits [simp]: "take_bit 4 (req_type q) = req_type q"
  by (cases q) simp_all

lemma req_type_range: "req_type q \<in> {HDL_TYPE_DEV, HDL_TYPE_SESSION, HDL_TYPE_LINK}"
  by (cases q) simp_all

lemma req_entry_simps [simp]:
  "h_hdl_value (req_entry crm q h) = h" "h_type (req_entry crm q h) = req_type q"
  "h_state (req_entry crm q h) = HDL_ACTIVE"
  by (cases q; simp)+

lemma new_handle_decode:
  assumes "free_index tbl < 256"
  shows "CAM_REQ_MGR_GET_HDL_IDX (new_handle q tbl) = free_index tbl"
    and "CAM_REQ_MGR_GET_HDL_TYPE (new_handle q tbl) = req_type q"
    and "sint (new_handle q tbl) = uint (new_handle q tbl)"
    and "drop_bit 16 (new_handle q tbl) = ucast (req_rand q)"
  using assms by (simp_all add: new_handle_def row_enc_idx row_enc_type row_enc_sint row_enc_rnd)

lemma row_ok_entry:
  "free_index tbl < 256 \<Longrightarrow> row_ok (free_index tbl) (req_entry crm q (new_handle q tbl))"
  using req_type_range [of q] by (simp add: row_ok_def new_handle_decode)

lemmas create_facts = create_hdl_eq row_ok_entry hdl_inv_install free_index_free

section \<open>Runs of operations\<close>

datatype hdl_op =
    Op_Create create_req
  | Op_Create_Device_Closed u8 cam_create_dev_hdl
  | Op_Destroy_Device u32
  | Op_Destroy_Link u32
  | Op_Destroy_Session u32
  | Op_Free_All

fun hdl_step :: "u64 \<Rightarrow> hdl_op \<Rightarrow> hdl_tbl option \<Rightarrow> int \<times> hdl_tbl option" where
  "hdl_step crm (Op_Create q) t = create_hdl crm q t"
| "hdl_step crm (Op_Create_Device_Closed r d) t = cam_create_device_hdl False r d t"
| "hdl_step crm (Op_Destroy_Device h) t = cam_destroy_device_hdl h t"
| "hdl_step crm (Op_Destroy_Link h) t = cam_destroy_link_hdl h t"
| "hdl_step crm (Op_Destroy_Session h) t = cam_destroy_session_hdl h t"
| "hdl_step crm Op_Free_All t = cam_req_mgr_util_free_hdls t"

fun hdl_run :: "u64 \<Rightarrow> hdl_op list \<Rightarrow> hdl_tbl option \<Rightarrow> int list \<times> hdl_tbl option" where
  "hdl_run crm [] t = ([], t)"
| "hdl_run crm (op # ops) t =
     (let (rc, t1) = hdl_step crm op t; (rcs, t2) = hdl_run crm ops t1 in (rc # rcs, t2))"

text \<open>\<open>cam_req_mgr_util_free_hdls\<close> leaves no active row and keeps the table consistent.\<close>

lemma fold_free_row:
  "hdl_active (fold free_row is tbl) i \<longleftrightarrow> hdl_active tbl i \<and> i \<notin> set is"
  "hdl_bits (fold free_row is tbl) = hdl_bits tbl"
  by (induction "is" arbitrary: tbl) (auto simp: free_row_def hdl_active_def)

lemma free_hdls_eq:
  "\<exists>tbl'. cam_req_mgr_util_free_hdls (Some tbl) = (0, Some tbl') \<and> hdl_bits tbl' = hdl_bits tbl \<and>
     (\<forall>i<256. \<not> hdl_active tbl' i \<and> \<not> hdl_bitmap tbl' i)"
  by (simp add: cam_req_mgr_util_free_hdls_def Let_def bitmap_zero_def hdl_active_def)
    (simp add: fold_free_row(1) [unfolded hdl_active_def] fold_free_row(2))

text \<open>
  The abstract registry: a finite map from handles to entries. Creation picks an unused
  handle of the right kind and answers it as a number, or answers \<open>-ENOSR\<close> when 256 handles
  are live; destruction removes a live handle of the right kind.
\<close>

definition destroy_spec :: "u32 \<Rightarrow> u32 \<Rightarrow> (u32 \<rightharpoonup> handle) \<Rightarrow> int \<Rightarrow> (u32 \<rightharpoonup> handle) \<Rightarrow> bool" where
  "destroy_spec h ty m rc m' \<longleftrightarrow>
     (if h \<in> dom m \<and> CAM_REQ_MGR_GET_HDL_TYPE h = ty then rc = 0 \<and> m' = m(h := None)
      else rc = - EINVAL \<and> m' = m)"

fun hdl_spec :: "u64 \<Rightarrow> hdl_op \<Rightarrow> (u32 \<rightharpoonup> handle) \<Rightarrow> int \<Rightarrow> (u32 \<rightharpoonup> handle) \<Rightarrow> bool" where
  "hdl_spec crm (Op_Create q) m rc m' \<longleftrightarrow>
     (if card (dom m) = 256 then rc = - ENOSR \<and> m' = m
      else \<exists>h. h \<notin> dom m \<and> 0 < uint h \<and> rc = uint h \<and> CAM_REQ_MGR_GET_HDL_TYPE h = req_type q \<and>
               m' = m(h \<mapsto> req_entry crm q h))"
| "hdl_spec crm (Op_Create_Device_Closed r d) m rc m' \<longleftrightarrow> rc = - EINVAL \<and> m' = m"
| "hdl_spec crm (Op_Destroy_Device h) m rc m' \<longleftrightarrow>
     destroy_spec h HDL_TYPE_DEV m rc m'"
| "hdl_spec crm (Op_Destroy_Link h) m rc m' \<longleftrightarrow>
     destroy_spec h HDL_TYPE_LINK m rc m'"
| "hdl_spec crm (Op_Destroy_Session h) m rc m' \<longleftrightarrow>
     destroy_spec h HDL_TYPE_SESSION m rc m'"
| "hdl_spec crm Op_Free_All m rc m' \<longleftrightarrow> rc = 0 \<and> m' = Map.empty"

lemma dom_hdl_find:
  "hdl_inv tbl \<Longrightarrow> dom (hdl_find tbl) = (\<lambda>i. h_hdl_value (hdl tbl i)) ` {i. i < 256 \<and> hdl_active tbl i}"
proof (intro equalityI subsetI)
  fix h
  assume "h \<in> dom (hdl_find tbl)"
  then obtain r where "hdl_find tbl h = Some r" by auto
  from hdl_find_SomeD [OF this] have "hdl_active tbl (CAM_REQ_MGR_GET_HDL_IDX h)"
    and "h = h_hdl_value (hdl tbl (CAM_REQ_MGR_GET_HDL_IDX h))" by auto
  then show "h \<in> (\<lambda>i. h_hdl_value (hdl tbl i)) ` {i. i < 256 \<and> hdl_active tbl i}"
    by (intro image_eqI) auto
qed (auto simp: dom_def intro: hdl_find_row)

lemma card_dom_hdl_find:
  assumes "hdl_inv tbl"
  shows "card (dom (hdl_find tbl)) = card {i. i < 256 \<and> hdl_active tbl i}"
proof -
  have "inj_on (\<lambda>i. h_hdl_value (hdl tbl i)) {i. i < 256 \<and> hdl_active tbl i}"
  proof (rule inj_onI)
    fix i j
    assume "i \<in> {i. i < 256 \<and> hdl_active tbl i}" and "j \<in> {i. i < 256 \<and> hdl_active tbl i}"
      and eq: "h_hdl_value (hdl tbl i) = h_hdl_value (hdl tbl j)"
    then have "row_ok i (hdl tbl i)" and "row_ok j (hdl tbl j)"
      using assms by (simp_all add: hdl_inv_row)
    with eq show "i = j" by (simp add: row_ok_def)
  qed
  then show ?thesis by (simp add: dom_hdl_find [OF assms] card_image)
qed

lemma full_iff_card:
  "hdl_inv tbl \<Longrightarrow> free_index tbl \<ge> 256 \<longleftrightarrow> card (dom (hdl_find tbl)) = 256"
  by (simp add: card_dom_hdl_find free_index_full card_below_eq)

lemma new_handle_fresh:
  assumes "hdl_inv tbl" and "free_index tbl < 256"
  shows "hdl_find tbl (new_handle q tbl) = None"
proof (rule ccontr)
  assume "hdl_find tbl (new_handle q tbl) \<noteq> None"
  then obtain r where "hdl_find tbl (new_handle q tbl) = Some r" by blast
  from hdl_find_SomeD [OF this] show False
    using assms free_index_free by (simp add: new_handle_decode)
qed

lemma new_handle_pos:
  "free_index tbl < 256 \<Longrightarrow> 0 < uint (new_handle q tbl)"
proof -
  assume "free_index tbl < 256"
  then have "new_handle q tbl \<noteq> 0"
    using new_handle_decode(2) [of tbl q] req_type_range [of q]
    by (auto simp: CAM_REQ_MGR_GET_HDL_TYPE_def)
  then show ?thesis by (metis uint_0_iff uint_ge_0 order_le_less)
qed

lemma create_hdl_inv:
  "hdl_inv tbl \<Longrightarrow> create_hdl crm q (Some tbl) = (rc, t') \<Longrightarrow> \<exists>tbl'. t' = Some tbl' \<and> hdl_inv tbl'"
  by (auto simp: create_facts split: if_splits)

lemma create_hdl_find:
  "hdl_inv tbl \<Longrightarrow> free_index tbl < 256 \<Longrightarrow>
     hdl_find (install (free_index tbl) (req_entry crm q (new_handle q tbl)) tbl)
       = (hdl_find tbl)(new_handle q tbl \<mapsto> req_entry crm q (new_handle q tbl))"
  using hdl_find_install [OF row_ok_entry _ free_index_free, of tbl crm q] by simp

lemma hdl_remove_active:
  "hdl_find tbl h = Some r \<Longrightarrow> h_state r' = HDL_FREE \<Longrightarrow>
     hdl_find (remove (CAM_REQ_MGR_GET_HDL_IDX h) r' tbl) = (hdl_find tbl)(h := None)"
  by (rule hdl_find_remove) (auto dest: hdl_find_SomeD)

lemma cam_destroy_hdl_spec:
  "hdl_inv tbl \<Longrightarrow>
     \<exists>tbl'. snd (cam_destroy_hdl h ty (Some tbl)) = Some tbl' \<and> hdl_inv tbl' \<and>
       destroy_spec h ty (hdl_find tbl) (fst (cam_destroy_hdl h ty (Some tbl))) (hdl_find tbl')"
  by (auto simp: destroy_spec_def cam_destroy_hdl_find hdl_inv_remove hdl_remove_active split: option.splits)

lemma hdl_step_spec:
  assumes "hdl_inv tbl"
  shows "\<exists>tbl'. snd (hdl_step crm op (Some tbl)) = Some tbl' \<and> hdl_inv tbl' \<and>
     hdl_spec crm op (hdl_find tbl) (fst (hdl_step crm op (Some tbl))) (hdl_find tbl')"
proof (cases op)
  case (Op_Create q)
  show ?thesis
  proof (cases "free_index tbl \<ge> 256")
    case True
    with assms Op_Create show ?thesis by (auto simp: create_hdl_eq full_iff_card)
  next
    case False
    then have lt: "free_index tbl < 256" by simp
    have "card (dom (hdl_find tbl)) \<noteq> 256" using False assms by (simp add: full_iff_card)
    with assms Op_Create lt show ?thesis
      by (auto simp: create_facts create_hdl_find new_handle_decode new_handle_pos
          new_handle_fresh intro!: exI [of _ "new_handle q tbl"])
  qed
next
  case Op_Free_All
  obtain tbl' where t: "cam_req_mgr_util_free_hdls (Some tbl) = (0, Some tbl')"
    "hdl_bits tbl' = hdl_bits tbl" "\<forall>i<256. \<not> hdl_active tbl' i \<and> \<not> hdl_bitmap tbl' i"
    using free_hdls_eq by blast
  then have "hdl_find tbl' = Map.empty"
    by (auto simp: fun_eq_iff hdl_find_def Let_def hdl_active_def)
  with t assms Op_Free_All show ?thesis by (simp add: hdl_inv_def)
qed (use assms cam_destroy_hdl_spec [OF assms] in \<open>auto simp: cam_create_device_hdl_def
      cam_destroy_device_hdl_def cam_destroy_link_hdl_def cam_destroy_session_hdl_def
      \<close>)

fun hdl_spec_run :: "u64 \<Rightarrow> hdl_op list \<Rightarrow> (u32 \<rightharpoonup> handle) \<Rightarrow> int list \<Rightarrow> (u32 \<rightharpoonup> handle) \<Rightarrow> bool" where
  "hdl_spec_run crm [] m rcs m' \<longleftrightarrow> rcs = [] \<and> m' = m"
| "hdl_spec_run crm (op # ops) m rcs m' \<longleftrightarrow>
     (\<exists>rc rcs' m1. rcs = rc # rcs' \<and> hdl_spec crm op m rc m1 \<and> hdl_spec_run crm ops m1 rcs' m')"

lemma hdl_run_spec:
  "hdl_inv tbl \<Longrightarrow> \<exists>tbl'. snd (hdl_run crm ops (Some tbl)) = Some tbl' \<and> hdl_inv tbl' \<and>
     hdl_spec_run crm ops (hdl_find tbl) (fst (hdl_run crm ops (Some tbl))) (hdl_find tbl')"
proof (induction ops arbitrary: tbl)
  case Nil
  then show ?case by simp
next
  case (Cons op ops)
  obtain rc t1 where s: "hdl_step crm op (Some tbl) = (rc, t1)" by fastforce
  from hdl_step_spec [OF Cons.prems, of crm op] obtain tbl1 where
    t1: "t1 = Some tbl1" "hdl_inv tbl1" "hdl_spec crm op (hdl_find tbl) rc (hdl_find tbl1)"
    by (auto simp: s)
  obtain rcs t2 where r: "hdl_run crm ops (Some tbl1) = (rcs, t2)" by fastforce
  from Cons.IH [OF t1(2)] t1 show ?case by (auto simp: s r)
qed

lemma hdl_inv_zero: "hdl_inv zero_hdl_tbl"
  by (simp add: hdl_inv_def zero_hdl_tbl_def hdl_active_def zero_handle_def)

lemma hdl_find_zero: "hdl_find zero_hdl_tbl = Map.empty"
  by (simp add: fun_eq_iff hdl_find_def zero_hdl_tbl_def zero_handle_def)

section \<open>The interface its clients rely on\<close>

text \<open>
  A registry of named entries: creation grants a handle that was not live and binds it to the
  entry; destruction unbinds exactly its handle. A request that fails changes nothing. The
  clients (request manager core, contexts, device drivers) need no more than this.
\<close>

locale handle_registry =
  fixes create :: "'r \<Rightarrow> 's \<Rightarrow> ('h \<times> 's) option"
    and destroy :: "'k \<Rightarrow> 's \<Rightarrow> 's option"
    and key :: "'k \<Rightarrow> 'h"
    and lookup :: "'s \<Rightarrow> 'h \<Rightarrow> 'e option"
    and entry :: "'r \<Rightarrow> 'h \<Rightarrow> 'e"
    and wf :: "'s \<Rightarrow> bool"
  assumes create_Some: "wf s \<Longrightarrow> create r s = Some (h, s') \<Longrightarrow>
      wf s' \<and> lookup s h = None \<and> lookup s' = (lookup s)(h \<mapsto> entry r h)"
    and destroy_Some: "wf s \<Longrightarrow> destroy k s = Some s' \<Longrightarrow>
      wf s' \<and> lookup s (key k) \<noteq> None \<and> lookup s' = (lookup s)(key k := None)"
    and destroy_live: "wf s \<Longrightarrow> lookup s h \<noteq> None \<Longrightarrow> \<exists>k. key k = h \<and> destroy k s \<noteq> None"
begin

text \<open>A client's run: the handles granted on the way, and the final state.\<close>

fun client_run :: "('r + 'k) list \<Rightarrow> 's \<Rightarrow> 'h list \<times> 's" where
  "client_run [] s = ([], s)"
| "client_run (Inl r # ops) s =
     (case create r s of
        None \<Rightarrow> client_run ops s
      | Some (h, s1) \<Rightarrow> (let (hs, s2) = client_run ops s1 in (h # hs, s2)))"
| "client_run (Inr k # ops) s =
     (case destroy k s of None \<Rightarrow> client_run ops s | Some s1 \<Rightarrow> client_run ops s1)"

lemma client_run_wf: "wf s \<Longrightarrow> wf (snd (client_run ops s))"
  by (induction ops s rule: client_run.induct)
    (auto split: option.splits prod.splits dest: create_Some destroy_Some)

lemma live_kept:
  "wf s \<Longrightarrow> lookup s h = Some e \<Longrightarrow> h \<notin> key ` {k. Inr k \<in> set ops} \<Longrightarrow>
     lookup (snd (client_run ops s)) h = Some e \<and> h \<notin> set (fst (client_run ops s))"
proof (induction ops arbitrary: s)
  case Nil
  then show ?case by simp
next
  case (Cons op ops)
  then have later: "h \<notin> key ` {k. Inr k \<in> set ops}" by auto
  show ?case
  proof (cases op)
    case (Inl r)
    show ?thesis
    proof (cases "create r s")
      case None
      with Inl Cons later show ?thesis by simp
    next
      case (Some p)
      then obtain h' s1 where p: "create r s = Some (h', s1)" by (cases p) auto
      from create_Some [OF Cons.prems(1) p] Cons.prems(2)
      have "wf s1" "h' \<noteq> h" "lookup s1 h = Some e" by auto
      with Cons.IH [OF this(1) this(3) later] Inl p show ?thesis
        by (auto split: prod.splits)
    qed
  next
    case (Inr k)
    show ?thesis
    proof (cases "destroy k s")
      case None
      with Inr Cons later show ?thesis by simp
    next
      case (Some s1)
      from Cons.prems(3) Inr have "key k \<noteq> h" by auto
      with destroy_Some [OF Cons.prems(1) Some] Cons.prems(2)
      have "wf s1" "lookup s1 h = Some e" by auto
      with Cons.IH [OF this later] Inr Some show ?thesis by simp
    qed
  qed
qed

lemma created_kept:
  assumes "wf s" and "create r s = Some (h, s1)" and "h \<notin> key ` {k. Inr k \<in> set ops}"
  shows "lookup (snd (client_run ops s1)) h = Some (entry r h) \<and> h \<notin> set (fst (client_run ops s1))"
  using live_kept [of s1 h "entry r h" ops] create_Some [OF assms(1,2)] assms(3) by simp

lemma granted_distinct:
  "wf s \<Longrightarrow> \<forall>k. Inr k \<notin> set ops \<Longrightarrow> distinct (fst (client_run ops s))"
proof (induction ops arbitrary: s)
  case (Cons op ops)
  from Cons.prems(2) have none: "\<forall>k. Inr k \<notin> set ops" by simp
  from Cons.prems(2) obtain r where op: "op = Inl r" by (cases op) auto
  show ?case
  proof (cases "create r s")
    case None
    with op Cons none show ?thesis by simp
  next
    case (Some p)
    then obtain h s1 where p: "create r s = Some (h, s1)" by (cases p) auto
    from create_Some [OF Cons.prems(1) p] have "wf s1" by simp
    moreover have "h \<notin> set (fst (client_run ops s1))"
      using created_kept [OF Cons.prems(1) p, of ops] none by simp
    ultimately show ?thesis using Cons.IH [of s1] none op p by (auto split: prod.splits)
  qed
qed simp

end

text \<open>The handle table provides it.\<close>

definition hdl_create :: "u64 \<Rightarrow> create_req \<Rightarrow> hdl_tbl \<Rightarrow> (u32 \<times> hdl_tbl) option" where
  "hdl_create crm q tbl =
     (case create_hdl crm q (Some tbl) of
        (rc, t) \<Rightarrow> if rc < 0 then None else map_option (Pair (word_of_int rc)) t)"

definition hdl_destroy :: "u32 \<times> u32 \<Rightarrow> hdl_tbl \<Rightarrow> hdl_tbl option" where
  "hdl_destroy k tbl =
     (case cam_destroy_hdl (fst k) (snd k) (Some tbl) of (rc, t) \<Rightarrow> if rc < 0 then None else t)"

lemma hdl_create_eq:
  "hdl_create crm q tbl =
     (if free_index tbl \<ge> 256 then None
      else Some (new_handle q tbl,
                 install (free_index tbl) (req_entry crm q (new_handle q tbl)) tbl))"
  by (simp add: hdl_create_def create_hdl_eq new_handle_decode)

lemma hdl_destroy_eq:
  "hdl_destroy k tbl =
     (case hdl_find tbl (fst k) of
        Some r \<Rightarrow> if CAM_REQ_MGR_GET_HDL_TYPE (fst k) = snd k
          then Some (remove (CAM_REQ_MGR_GET_HDL_IDX (fst k))
                      (r\<lparr>h_state := HDL_FREE, h_ops := None, h_priv := None\<rparr>) tbl)
          else None
      | None \<Rightarrow> None)"
  by (simp add: hdl_destroy_def cam_destroy_hdl_find split: option.splits)

interpretation registry: handle_registry "hdl_create crm" hdl_destroy fst hdl_find "req_entry crm" hdl_inv
  for crm
proof
  show "hdl_inv s' \<and> hdl_find s h = None \<and> hdl_find s' = (hdl_find s)(h \<mapsto> req_entry crm r h)"
    if "hdl_inv s" "hdl_create crm r s = Some (h, s')" for s r h s'
    using that by (auto simp: hdl_create_eq create_facts create_hdl_find new_handle_fresh split: if_splits)
  show "hdl_inv s' \<and> hdl_find s (fst k) \<noteq> None \<and> hdl_find s' = (hdl_find s)(fst k := None)"
    if "hdl_inv s" "hdl_destroy k s = Some s'" for s k s'
    using that by (auto simp: hdl_destroy_eq hdl_inv_remove hdl_remove_active split: option.splits if_splits)
  show "\<exists>k. fst k = h \<and> hdl_destroy k s \<noteq> None"
    if "hdl_inv s" "hdl_find s h \<noteq> None" for s h
    using that by (intro exI [of _ "(h, CAM_REQ_MGR_GET_HDL_TYPE h)"]) (auto simp: hdl_destroy_eq)
qed

text \<open>Its rows are an allocator of indices, through session creation and \<open>free_row\<close>.\<close>

definition session_alloc :: "u64 \<Rightarrow> hdl_tbl \<Rightarrow> (nat \<times> hdl_tbl) option" where
  "session_alloc crm tbl =
     (case cam_create_session_hdl crm 0 None (Some tbl) of
        (rc, t) \<Rightarrow> if rc < 0 then None
                   else map_option (Pair (CAM_REQ_MGR_GET_HDL_IDX (word_of_int rc))) t)"

lemma session_alloc_eq:
  "session_alloc crm tbl =
     (let q = Create_Session 0 None in
      if free_index tbl \<ge> 256 then None
      else Some (free_index tbl, install (free_index tbl) (req_entry crm q (new_handle q tbl)) tbl))"
  using create_hdl_eq [of crm "Create_Session 0 None" tbl]
  by (simp add: session_alloc_def new_handle_decode Let_def)

lemma free_row_eq:
  "free_row i tbl = (if hdl_active tbl i then remove i ((hdl tbl i)\<lparr>h_state := HDL_FREE\<rparr>) tbl else tbl)"
  by (simp add: free_row_def remove_def hdl_active_def)

interpretation rows: id_allocator "session_alloc crm" free_row hdl_active 256 hdl_inv
  for crm
proof
  show "hdl_inv s' \<and> i < 256 \<and> \<not> hdl_active s i \<and> hdl_active s' = (hdl_active s)(i := True)"
    if "hdl_inv s" "session_alloc crm s = Some (i, s')" for s i s'
    using that by (auto simp: session_alloc_eq Let_def create_facts hdl_active_install
        simp del: req_entry.simps split: if_splits)
  show "hdl_active s i" if "hdl_inv s" "session_alloc crm s = None" "i < 256" for s i
    using that by (auto simp: session_alloc_eq Let_def free_index_full split: if_splits)
  show "hdl_inv (free_row i s) \<and> hdl_active (free_row i s) = (hdl_active s)(i := False)"
    if "hdl_inv s" "i < 256" for s i
    using that by (auto simp: free_row_eq hdl_inv_remove hdl_active_remove fun_eq_iff)
qed

section \<open>Properties\<close>

text \<open>C12: any sequence of creations, destructions and \<open>cam_req_mgr_util_free_hdls\<close> that starts
  after a successful \<open>cam_req_mgr_util_init\<close> answers like the abstract map from handles to
  entries, operation by operation, and leaves the table consistent with its bit map and standing
  for the abstract map's final value. In particular a creation fails exactly when 256 handles
  are live, and what it grants is a positive number that names no live handle.\<close>

theorem hdl_run_refines:
  "\<exists>tbl. snd (hdl_run crm ops (snd (cam_req_mgr_util_init True True None None))) = Some tbl \<and>
     hdl_inv tbl \<and>
     hdl_spec_run crm ops Map.empty
       (fst (hdl_run crm ops (snd (cam_req_mgr_util_init True True None None)))) (hdl_find tbl)"
  using hdl_run_spec [OF hdl_inv_zero, of crm ops]
  by (simp add: cam_req_mgr_util_init_def hdl_find_zero)

text \<open>C13: a handle a creator returns is positive, encodes the least free row, the kind and the
  random byte, and the lookups of that handle return what was stored: its private data under its
  own kind and NULL under any other, its operations, and 0 from \<open>cam_handle_validate\<close> for
  exactly the session it was created in.\<close>

theorem created_handle_usable:
  assumes "hdl_inv tbl" and "create_hdl crm q (Some tbl) = (rc, Some tbl')" and "rc \<ge> 0"
  shows "\<exists>h e. rc = uint h \<and> 0 < rc \<and> e = req_entry crm q h \<and>
     CAM_REQ_MGR_GET_HDL_IDX h = find_first_zero_bit (hdl_bitmap tbl) 256 \<and>
     CAM_REQ_MGR_GET_HDL_TYPE h = req_type q \<and> drop_bit 16 h = ucast (req_rand q) \<and>
     cam_get_priv (Some tbl') h ty = (if ty = req_type q then h_priv e else None) \<and>
     cam_get_device_ops (Some tbl') h = h_ops e \<and>
     (cam_handle_validate (Some tbl') s h = 0 \<longleftrightarrow> s = h_session_hdl e)"
proof -
  from assms have lt: "free_index tbl < 256" by (auto simp: create_hdl_eq split: if_splits)
  with assms have rc: "rc = uint (new_handle q tbl)"
    and t: "tbl' = install (free_index tbl) (req_entry crm q (new_handle q tbl)) tbl"
    by (auto simp: create_hdl_eq new_handle_decode)
  have "hdl_inv tbl'" using assms(1) lt t by (simp add: create_facts)
  moreover have "hdl_find tbl' (new_handle q tbl) = Some (req_entry crm q (new_handle q tbl))"
    using assms(1) lt t by (simp add: create_hdl_find)
  moreover have "free_index tbl = find_first_zero_bit (hdl_bitmap tbl) 256"
    using assms(1) by (simp add: free_index_def hdl_inv_def)
  ultimately show ?thesis
    using lt rc new_handle_pos [OF lt, of q] new_handle_decode [OF lt, of q]
    by (intro exI [of _ "new_handle q tbl"] exI [of _ "req_entry crm q (new_handle q tbl)"])
      (auto simp: cam_get_priv_find cam_get_device_ops_find cam_handle_validate_find)
qed

theorem created_handle_usable_witness:
  "let q = Create_Link 7 \<lparr>c_session_hdl = 9, c_dev_id = 1, c_ops = None, c_priv = Some 3\<rparr>;
       (rc, t) = create_hdl 5 q (Some zero_hdl_tbl)
   in \<exists>h. rc = uint h \<and> 0 < rc \<and> drop_bit 16 h = (7 :: u32) \<and> cam_get_priv t h HDL_TYPE_LINK = Some 3"
proof -
  let ?q = "Create_Link 7 \<lparr>c_session_hdl = 9, c_dev_id = 1, c_ops = None, c_priv = Some 3\<rparr>"
  have "free_index zero_hdl_tbl = 0"
    by (rule free_index_eqI [OF hdl_inv_zero]) (simp_all add: hdl_active_def zero_hdl_tbl_def zero_handle_def)
  then have c: "create_hdl 5 ?q (Some zero_hdl_tbl) =
      (uint (new_handle ?q zero_hdl_tbl),
       Some (install 0 (req_entry 5 ?q (new_handle ?q zero_hdl_tbl)) zero_hdl_tbl))"
    by (simp add: create_hdl_eq new_handle_decode)
  from created_handle_usable [OF hdl_inv_zero c uint_ge_0, of HDL_TYPE_LINK] show ?thesis
    unfolding Let_def c by auto
qed

text \<open>C14: 256 sessions can be open at once and no more: from the empty table, \<open>n\<close> creations in
  a row all succeed exactly when \<open>n \<le> 256\<close>.\<close>

theorem session_capacity:
  "rows.alloc_many crm n zero_hdl_tbl \<noteq> None \<longleftrightarrow> n \<le> 256"
proof -
  have "{i. i < (256::nat) \<and> \<not> hdl_active zero_hdl_tbl i} = {..<256}"
    by (auto simp: hdl_active_def zero_hdl_tbl_def zero_handle_def)
  then have "card {i. i < (256::nat) \<and> \<not> hdl_active zero_hdl_tbl i} = 256"
    by (simp only: card_lessThan)
  with rows.alloc_many_iff [OF hdl_inv_zero] show ?thesis by simp
qed

text \<open>C15: destroying a live handle under its own kind succeeds; afterwards every lookup of it
  fails, a second destruction answers \<open>-EINVAL\<close> whatever kind it names, and every other handle
  is looked up as before.\<close>

theorem destroyed_handle_dead:
  assumes "hdl_inv tbl" and "hdl_find tbl h = Some r" and "ty = CAM_REQ_MGR_GET_HDL_TYPE h"
  shows "\<exists>tbl'. cam_destroy_hdl h ty (Some tbl) = (0, Some tbl') \<and> hdl_inv tbl' \<and>
     cam_get_priv (Some tbl') h ty2 = None \<and> cam_get_device_ops (Some tbl') h = None \<and>
     cam_handle_validate (Some tbl') s h = - EINVAL \<and>
     cam_destroy_hdl h ty2 (Some tbl') = (- EINVAL, Some tbl') \<and>
     (h' \<noteq> h \<longrightarrow>
        cam_get_priv (Some tbl') h' ty2 = cam_get_priv (Some tbl) h' ty2 \<and>
        cam_get_device_ops (Some tbl') h' = cam_get_device_ops (Some tbl) h' \<and>
        cam_handle_validate (Some tbl') s h' = cam_handle_validate (Some tbl) s h')"
proof -
  let ?t = "remove (CAM_REQ_MGR_GET_HDL_IDX h) (r\<lparr>h_state := HDL_FREE, h_ops := None, h_priv := None\<rparr>) tbl"
  have "hdl_inv ?t" using assms(1) by (simp add: hdl_inv_remove)
  moreover have "hdl_find ?t = (hdl_find tbl)(h := None)"
    using assms(2) by (simp add: hdl_remove_active)
  moreover have "cam_destroy_hdl h ty (Some tbl) = (0, Some ?t)"
    using assms(2,3) by (simp add: cam_destroy_hdl_find)
  ultimately show ?thesis using assms(1)
    by (intro exI [of _ ?t]) (simp add: cam_get_priv_find cam_get_device_ops_find
        cam_handle_validate_find cam_destroy_hdl_find)
qed

definition demo_tbl :: hdl_tbl where
  "demo_tbl = install 0 (req_entry 5 (Create_Session 9 (Some 1)) 0x00090200) zero_hdl_tbl"

lemma demo_tbl_ok: "hdl_inv demo_tbl" "hdl_active demo_tbl i \<longleftrightarrow> i = 0"
  "hdl_find demo_tbl 0x00090200 = Some (req_entry 5 (Create_Session 9 (Some 1)) 0x00090200)"
proof -
  let ?r = "req_entry 5 (Create_Session 9 (Some 1)) 0x00090200"
  have row: "row_ok 0 ?r"
    by (simp add: row_ok_def CAM_REQ_MGR_GET_HDL_IDX_def) (simp add: CAM_REQ_MGR_GET_HDL_TYPE_def)
  have free: "\<not> hdl_active zero_hdl_tbl i" for i
    by (simp add: hdl_active_def zero_hdl_tbl_def zero_handle_def)
  show "hdl_inv demo_tbl"
    unfolding demo_tbl_def by (rule hdl_inv_install [OF hdl_inv_zero row]) simp
  show "hdl_active demo_tbl i \<longleftrightarrow> i = 0"
    using free by (simp add: demo_tbl_def hdl_active_install)
  show "hdl_find demo_tbl 0x00090200 = Some ?r"
    unfolding demo_tbl_def by (subst hdl_find_install [OF row _ free]) simp_all
qed

theorem destroyed_handle_dead_witness:
  "\<exists>tbl'. cam_destroy_hdl 0x00090200 (CAM_REQ_MGR_GET_HDL_TYPE 0x00090200) (Some demo_tbl) = (0, Some tbl') \<and>
     cam_get_priv (Some tbl') 0x00090200 HDL_TYPE_SESSION = None"
  using destroyed_handle_dead [OF demo_tbl_ok(1) demo_tbl_ok(3) refl, of HDL_TYPE_SESSION] by blast

text \<open>C16: once a handle has been destroyed, the very next creation makes the stale number valid
  again exactly when the dead handle's row is the least free one, the kind is the same and the
  random byte comes out the same: the generation field is the only protection.\<close>

theorem stale_handle_revived_iff:
  assumes "hdl_inv tbl" and "i < 256" and "ty \<in> {HDL_TYPE_DEV, HDL_TYPE_SESSION, HDL_TYPE_LINK}"
    and "h = GET_DEV_HANDLE (ucast (r :: u8)) ty (of_nat i)"
    and "cam_destroy_hdl h ty (Some tbl) = (0, Some t1)"
    and "create_hdl crm q (Some t1) = (rc, Some t2)"
  shows "hdl_find t2 h \<noteq> None \<longleftrightarrow> (\<forall>j<i. hdl_active tbl j) \<and> ty = req_type q \<and> r = req_rand q"
proof -
  have ty: "take_bit 4 ty = ty" using assms(3) by auto
  with assms(2,4) have idx: "CAM_REQ_MGR_GET_HDL_IDX h = i" by (simp add: row_enc_idx)
  from assms(5) obtain e where e: "hdl_find tbl h = Some e"
    by (auto simp: cam_destroy_hdl_find split: option.splits if_splits)
  with assms(5) idx have t1: "t1 = remove i (e\<lparr>h_state := HDL_FREE, h_ops := None, h_priv := None\<rparr>) tbl"
    by (auto simp: cam_destroy_hdl_find split: if_splits)
  then have inv1: "hdl_inv t1" and act1: "hdl_active t1 = (hdl_active tbl)(i := False)"
    and f1: "hdl_find t1 = (hdl_find tbl)(h := None)"
    using assms(1) e idx hdl_remove_active [OF e, of "e\<lparr>h_state := HDL_FREE, h_ops := None, h_priv := None\<rparr>"]
    by (auto simp: hdl_inv_remove hdl_active_remove)
  have lt: "free_index t1 < 256"
    using free_index_full [OF inv1] act1 assms(2) by (metis fun_upd_same not_le)
  have "free_index t1 = i \<longleftrightarrow> (\<forall>j<i. hdl_active tbl j)"
  proof
    assume fi: "free_index t1 = i"
    then have "\<forall>j<i. hdl_bitmap t1 j" by (auto simp: free_index_def dest: find_first_zero_bit_below)
    with inv1 act1 assms(2) show "\<forall>j<i. hdl_active tbl j" by (auto simp: hdl_inv_def split: if_splits)
  next
    assume "\<forall>j<i. hdl_active tbl j"
    then show "free_index t1 = i" using assms(2) act1 by (intro free_index_eqI [OF inv1]) auto
  qed
  moreover have "h = new_handle q t1 \<longleftrightarrow> r = req_rand q \<and> ty = req_type q \<and> i = free_index t1"
    unfolding assms(4) new_handle_def by (rule enc_inject) (simp_all add: assms(2) lt ty)
  moreover have "hdl_find t2 h \<noteq> None \<longleftrightarrow> h = new_handle q t1"
    using assms(6) lt f1 create_hdl_find [OF inv1 lt, of crm q] by (auto simp: create_hdl_eq)
  ultimately show ?thesis by auto
qed

theorem stale_handle_revived_iff_witness:
  "\<exists>t1 rc t2. cam_destroy_hdl 0x00090200 HDL_TYPE_SESSION (Some demo_tbl) = (0, Some t1) \<and>
     create_hdl 5 (Create_Session 9 (Some 2)) (Some t1) = (rc, Some t2) \<and> hdl_find t2 0x00090200 \<noteq> None"
proof -
  let ?h = "0x00090200 :: u32" and ?q = "Create_Session 9 (Some 2)"
  have ty: "CAM_REQ_MGR_GET_HDL_TYPE ?h = HDL_TYPE_SESSION" by (simp add: CAM_REQ_MGR_GET_HDL_TYPE_def)
  obtain t1 where d: "cam_destroy_hdl ?h HDL_TYPE_SESSION (Some demo_tbl) = (0, Some t1)"
    using demo_tbl_ok(3) by (simp add: cam_destroy_hdl_find ty)
  obtain rc t2 where c: "create_hdl 5 ?q (Some t1) = (rc, Some t2)"
    by (cases "free_index t1 \<ge> 256") (simp_all add: create_hdl_eq)
  have "?h = GET_DEV_HANDLE (ucast (9 :: u8)) HDL_TYPE_SESSION (of_nat 0)"
    by (simp add: GET_DEV_HANDLE_def)
  from stale_handle_revived_iff [OF demo_tbl_ok(1) _ _ this d c] d c show ?thesis by simp
qed

text \<open>C17: a live handle stays live and bound to its entry through any sequence of creations and
  of destructions of other handles, and no creation on the way grants it a second time.\<close>

theorem live_handle_kept:
  assumes "hdl_inv tbl" and "hdl_find tbl h = Some e" and "h \<notin> fst ` {k. Inr k \<in> set ops}"
  shows "hdl_find (snd (registry.client_run crm ops tbl)) h = Some e \<and>
    h \<notin> set (fst (registry.client_run crm ops tbl))"
  using assms by (rule registry.live_kept)

theorem live_handle_kept_witness:
  "hdl_find (snd (registry.client_run 5 [Inl (Create_Session 9 (Some 2)), Inr (7, 1)] demo_tbl)) 0x00090200
     = Some (req_entry 5 (Create_Session 9 (Some 1)) 0x00090200)"
  by (rule conjunct1 [OF live_handle_kept [OF demo_tbl_ok(1,3)]]) auto

end
