(* ===== verification/Crm_Workq.thy ===== *)
theory Crm_Workq imports Kernel_Prelude "HOL-Library.Multiset" begin

text \<open>
  The deferred-work queue of the camera drivers
  (\<open>camera-kernel/drivers/cam_req_mgr/cam_req_mgr_workq.c\<close>): a fixed pool of tasks that
  clients take (\<open>get_task\<close>), fill and enqueue at one of two priorities, and that one worker
  drains (\<open>process_workq\<close>), running each task's callback and putting the task back.

  A task is its index in the pool, a list head the list of the tasks linked to it. A callback
  is a parameter that may change the queue and its own environment \<open>'e\<close>. First the operations
  as whole calls; then the same operations interleaved: a step relation of clients, the worker
  and a flush, each lock-protected section one step. The lemmas show that no task is lost or
  duplicated unless a flush runs, that the counters count, and that each priority is served
  first in, first out.
\<close>

section \<open>Data\<close>

abbreviation CRM_TASK_PRIORITY_0 :: int where "CRM_TASK_PRIORITY_0 \<equiv> 0"
abbreviation CRM_TASK_PRIORITY_MAX :: int where "CRM_TASK_PRIORITY_MAX \<equiv> 2"

record crm_workq_task =
  wt_priority :: int
  wt_payload :: ptr
  wt_process_cb :: ptr
  wt_parent :: bool
  wt_cancel :: u8
  wt_priv :: ptr
  wt_ret :: int

text \<open>
  The workqueue \<open>alloc_workqueue\<close> returned is known by the high-priority flag and the
  maximal number of active work items it was asked for; \<open>wq_queued\<close> says that \<open>queue_work\<close> has
  queued the work item and the worker has not picked it up.
\<close>

record crm_workq =
  wq_job :: "(bool \<times> int) option"
  wq_in_irq :: u32
  wq_flush :: int
  wq_name :: string
  wq_queued :: bool
  wq_pending_cnt :: int
  wq_free_cnt :: int
  wq_process_head :: "nat \<Rightarrow> nat list"
  wq_empty_head :: "nat list"
  wq_pool :: "nat \<Rightarrow> crm_workq_task"
  wq_num_task :: nat

text \<open>A callback: its function pointer, \<open>priv\<close>, \<open>payload\<close>, and the state it runs in.\<close>

type_synonym 'e task_cb = "nat \<Rightarrow> ptr \<Rightarrow> ptr \<Rightarrow> 'e \<times> crm_workq \<Rightarrow> 'e \<times> crm_workq"

section \<open>Operations\<close>

definition upd_task :: "nat \<Rightarrow> (crm_workq_task \<Rightarrow> crm_workq_task) \<Rightarrow> crm_workq \<Rightarrow> crm_workq" where
  "upd_task t f w = w\<lparr>wq_pool := (wq_pool w)(t := f (wq_pool w t))\<rparr>"

text \<open>\<open>list_del_init (&task->entry)\<close>: out of whatever list the task is in.\<close>

definition list_del_init :: "nat \<Rightarrow> crm_workq \<Rightarrow> crm_workq" where
  "list_del_init t w = w\<lparr>wq_process_head := (\<lambda>i. removeAll t (wq_process_head w i)),
                        wq_empty_head := removeAll t (wq_empty_head w)\<rparr>"

definition cam_req_mgr_workq_get_task :: "crm_workq option \<Rightarrow> nat option \<times> crm_workq option" where
  "cam_req_mgr_workq_get_task wo =
     (case wo of
        None \<Rightarrow> (None, None)
      | Some w \<Rightarrow>
          (case wq_empty_head w of
             [] \<Rightarrow> (None, Some w)
           | t # _ \<Rightarrow> (Some t, Some (list_del_init t (w\<lparr>wq_free_cnt := wq_free_cnt w - 1\<rparr>)))))"

definition cam_req_mgr_workq_put_task :: "nat \<Rightarrow> crm_workq \<Rightarrow> crm_workq" where
  "cam_req_mgr_workq_put_task t w =
     (let w1 = list_del_init t w;
          w2 = upd_task t (\<lambda>tk. tk\<lparr>wt_cancel := 0, wt_process_cb := None, wt_priv := None\<rparr>) w1
      in w2\<lparr>wq_empty_head := wq_empty_head w2 @ [t], wq_free_cnt := wq_free_cnt w2 + 1\<rparr>)"

text \<open>\<open>cam_req_mgr_workq_flush\<close> when no instance of the worker is running: \<open>cancel_work_sync\<close>
  takes the work item back.\<close>

definition cam_req_mgr_workq_flush :: "crm_workq option \<Rightarrow> crm_workq option" where
  "cam_req_mgr_workq_flush wo =
     (case wo of
        None \<Rightarrow> None
      | Some w \<Rightarrow>
          let w1 = w\<lparr>wq_flush := 1\<rparr>; w2 = w1\<lparr>wq_queued := False\<rparr> in Some (w2\<lparr>wq_flush := 0\<rparr>))"

definition cam_req_mgr_process_task ::
  "'e task_cb \<Rightarrow> nat option \<Rightarrow> 'e \<times> crm_workq \<Rightarrow> int \<times> ('e \<times> crm_workq)" where
  "cam_req_mgr_process_task run_cb task s =
     (case task of
        None \<Rightarrow> (- EINVAL, s)
      | Some t \<Rightarrow>
          let tk = wq_pool (snd s) t;
              s1 = (case wt_process_cb tk of
                      Some cb \<Rightarrow> run_cb cb (wt_priv tk) (wt_payload tk) s
                    | None \<Rightarrow> s)
          in (0, (fst s1, cam_req_mgr_workq_put_task t (snd s1))))"

text \<open>The first task of priority \<open>i\<close> taken off its list, as the worker does under the lock.\<close>

definition take_task :: "nat \<Rightarrow> crm_workq \<Rightarrow> crm_workq" where
  "take_task t w = list_del_init t (w\<lparr>wq_pending_cnt := wq_pending_cnt w - 1\<rparr>)"

text \<open>The inner loop of \<open>cam_req_mgr_process_workq\<close>; a callback may keep it running for ever.\<close>

partial_function (option) drain ::
  "'e task_cb \<Rightarrow> nat \<Rightarrow> 'e \<times> crm_workq \<Rightarrow> ('e \<times> crm_workq) option" where
  "drain run_cb i s =
     (case wq_process_head (snd s) i of
        [] \<Rightarrow> Some s
      | t # _ \<Rightarrow>
          (let s1 = (fst s, take_task t (snd s));
               s2 = (if wq_flush (snd s1) = 0
                     then snd (cam_req_mgr_process_task run_cb (Some t) s1) else s1)
           in drain run_cb i s2))"

definition cam_req_mgr_process_workq ::
  "'e task_cb \<Rightarrow> 'e \<times> crm_workq \<Rightarrow> ('e \<times> crm_workq) option" where
  "cam_req_mgr_process_workq run_cb s =
     Option.bind (drain run_cb 0 s) (drain run_cb 1)"

definition cam_req_mgr_workq_enqueue_task ::
  "nat option \<Rightarrow> ptr \<Rightarrow> int \<Rightarrow> crm_workq \<Rightarrow> int \<times> crm_workq" where
  "cam_req_mgr_workq_enqueue_task task priv prio w =
     (case task of
        None \<Rightarrow> (- EINVAL, w)
      | Some t \<Rightarrow>
          if \<not> wt_parent (wq_pool w t) then (- EINVAL, w)
          else if wt_cancel (wq_pool w t) = 1 \<or> wq_flush w \<noteq> 0 then (0, cam_req_mgr_workq_put_task t w)
          else
            let pri = (if prio < CRM_TASK_PRIORITY_MAX \<and> prio \<ge> CRM_TASK_PRIORITY_0 then prio
                       else CRM_TASK_PRIORITY_0);
                w1 = upd_task t (\<lambda>tk. tk\<lparr>wt_priv := priv, wt_priority := pri\<rparr>) w in
            if wq_job w1 = None then (- EINVAL, cam_req_mgr_workq_put_task t w1)
            else
              (0, w1\<lparr>wq_process_head := (wq_process_head w1)(nat pri := wq_process_head w1 (nat pri) @ [t]),
                    wq_pending_cnt := wq_pending_cnt w1 + 1, wq_queued := True\<rparr>))"

definition zero_task :: crm_workq_task where
  "zero_task = \<lparr>wt_priority = 0, wt_payload = None, wt_process_cb = None, wt_parent = False,
     wt_cancel = 0, wt_priv = None, wt_ret = 0\<rparr>"

text \<open>\<open>wq_mem\<close>, \<open>job_mem\<close> and \<open>pool_mem\<close> say whether the three allocations succeed.\<close>

definition cam_req_mgr_workq_create ::
  "bool \<Rightarrow> bool \<Rightarrow> bool \<Rightarrow> string \<Rightarrow> u32 \<Rightarrow> crm_workq option \<Rightarrow> u32 \<Rightarrow> u32 \<Rightarrow> int \<times> crm_workq option" where
  "cam_req_mgr_workq_create wq_mem job_mem pool_mem nm num_tasks workq in_irq flags =
     (if workq \<noteq> None then (0, workq)
      else if \<not> wq_mem then (- ENOMEM, workq)
      else if \<not> job_mem then (- ENOMEM, workq)
      else if \<not> pool_mem then (- ENOMEM, workq)
      else
        let crm_workq = \<lparr>wq_job = Some (bit flags 0, if bit flags 1 then 1 else 0),
              wq_in_irq = in_irq, wq_flush = 0, wq_name = take 127 (''crm_workq-'' @ nm),
              wq_queued = False, wq_pending_cnt = 0, wq_free_cnt = 0,
              wq_process_head = (\<lambda>_. []), wq_empty_head = [], wq_pool = (\<lambda>_. zero_task),
              wq_num_task = unat num_tasks\<rparr>
        in (0, Some (fold (\<lambda>i w. cam_req_mgr_workq_put_task i (upd_task i (\<lambda>tk. tk\<lparr>wt_parent := True\<rparr>) w))
                      [0..<unat num_tasks] crm_workq)))"

text \<open>
  The result is the environment, the payload block that is freed and the caller's pointer.
  \<open>destroy_workqueue\<close> drains: a queued work item runs once more, with \<open>flush\<close> set.
\<close>

definition cam_req_mgr_workq_destroy ::
  "'e task_cb \<Rightarrow> 'e \<Rightarrow> crm_workq option \<Rightarrow> ('e \<times> ptr \<times> crm_workq option) option" where
  "cam_req_mgr_workq_destroy run_cb e wo =
     (case wo of
        None \<Rightarrow> Some (e, None, None)
      | Some w \<Rightarrow>
          let w1 = w\<lparr>wq_flush := 1\<rparr> in
          Option.bind
            (if wq_job w1 \<noteq> None \<and> wq_queued w1
             then cam_req_mgr_process_workq run_cb (e, w1\<lparr>wq_job := None, wq_queued := False\<rparr>)
             else Some (e, w1))
            (\<lambda>(e', w2). Some (e', wt_payload (wq_pool w2 0), None)))"

section \<open>Well-formed queues\<close>

text \<open>Every task is linked at most once, and the two counters count the linked tasks.\<close>

definition wq_wf :: "crm_workq \<Rightarrow> bool" where
  "wq_wf w \<longleftrightarrow> distinct (wq_empty_head w @ wq_process_head w 0 @ wq_process_head w 1) \<and>
     wq_free_cnt w = int (length (wq_empty_head w)) \<and>
     wq_pending_cnt w = int (length (wq_process_head w 0)) + int (length (wq_process_head w 1))"

lemmas wq_unfold = cam_req_mgr_workq_put_task_def list_del_init_def upd_task_def take_task_def Let_def

lemma prio_cases: "i < 2 \<Longrightarrow> (i = 0 \<Longrightarrow> P) \<Longrightarrow> (i = (1::nat) \<Longrightarrow> P) \<Longrightarrow> P"
  by linarith

lemma put_task_wf:
  "wq_wf w \<Longrightarrow> t \<notin> set (wq_empty_head w @ wq_process_head w 0 @ wq_process_head w 1) \<Longrightarrow>
     wq_wf (cam_req_mgr_workq_put_task t w) \<and>
     wq_empty_head (cam_req_mgr_workq_put_task t w) = wq_empty_head w @ [t] \<and>
     wq_process_head (cam_req_mgr_workq_put_task t w) 0 = wq_process_head w 0 \<and>
     wq_process_head (cam_req_mgr_workq_put_task t w) 1 = wq_process_head w 1"
  by (auto simp: wq_wf_def wq_unfold)

lemma take_task_wf:
  assumes "wq_wf w" and "i < 2" and "wq_process_head w i = t # ts"
  shows "wq_wf (take_task t w) \<and> wq_process_head (take_task t w) i = ts \<and>
     (\<forall>j<2. j \<noteq> i \<longrightarrow> wq_process_head (take_task t w) j = wq_process_head w j) \<and>
     wq_empty_head (take_task t w) = wq_empty_head w \<and>
     t \<notin> set (wq_empty_head w @ wq_process_head (take_task t w) 0 @ wq_process_head (take_task t w) 1)"
  using assms by (elim prio_cases) (auto simp: wq_wf_def wq_unfold less_2_cases_iff)

lemma get_task_wf:
  assumes "wq_wf w" and "cam_req_mgr_workq_get_task (Some w) = (Some t, Some w')"
  shows "wq_wf w' \<and> wq_empty_head w = t # wq_empty_head w' \<and>
     wq_process_head w' 0 = wq_process_head w 0 \<and> wq_process_head w' 1 = wq_process_head w 1 \<and>
     t \<notin> set (wq_empty_head w' @ wq_process_head w' 0 @ wq_process_head w' 1)"
  using assms by (auto simp: wq_wf_def cam_req_mgr_workq_get_task_def wq_unfold split: list.splits)

section \<open>Draining\<close>

text \<open>A callback that leaves the queue alone and transforms the environment by \<open>f\<close>.\<close>

definition quiet :: "(nat \<Rightarrow> ptr \<Rightarrow> ptr \<Rightarrow> 'e \<Rightarrow> 'e) \<Rightarrow> 'e task_cb" where
  "quiet f cb priv payload s = (f cb priv payload (fst s), snd s)"

text \<open>What running the callback of one task does to the environment.\<close>

definition run_task :: "(nat \<Rightarrow> ptr \<Rightarrow> ptr \<Rightarrow> 'e \<Rightarrow> 'e) \<Rightarrow> crm_workq \<Rightarrow> nat \<Rightarrow> 'e \<Rightarrow> 'e" where
  "run_task f w t e =
     (let tk = wq_pool w t in
      case wt_process_cb tk of Some cb \<Rightarrow> f cb (wt_priv tk) (wt_payload tk) e | None \<Rightarrow> e)"

lemma process_task_quiet:
  "snd (cam_req_mgr_process_task (quiet f) (Some t) (e, w)) = (run_task f w t e, cam_req_mgr_workq_put_task t w)"
  by (simp add: cam_req_mgr_process_task_def run_task_def quiet_def Let_def split: option.splits)

lemma unlink_keeps:
  "wq_flush (take_task t w) = wq_flush w" "wq_pool (take_task t w) = wq_pool w"
  "wq_flush (cam_req_mgr_workq_put_task t w) = wq_flush w"
  "t' \<noteq> t \<Longrightarrow> wq_pool (cam_req_mgr_workq_put_task t w) t' = wq_pool w t'"
  "wq_job (take_task t w) = wq_job w" "wq_queued (take_task t w) = wq_queued w"
  "wq_job (cam_req_mgr_workq_put_task t w) = wq_job w"
  "wq_queued (cam_req_mgr_workq_put_task t w) = wq_queued w"
  by (simp_all add: wq_unfold)

lemma run_task_cong: "wq_pool w t = wq_pool w' t \<Longrightarrow> run_task f w t = run_task f w' t"
  by (simp add: run_task_def fun_eq_iff)

lemma fold_run_task_cong:
  "(\<And>t. t \<in> set ts \<Longrightarrow> wq_pool w t = wq_pool w' t) \<Longrightarrow> fold (run_task f w) ts e = fold (run_task f w') ts e"
  by (rule fold_cong) (auto intro: run_task_cong)

lemma drain_quiet:
  assumes "wq_wf w" "i < 2" "wq_flush w = 0" "wq_process_head w i = ts"
  shows "\<exists>w'. drain (quiet f) i (e, w) = Some (fold (run_task f w) ts e, w') \<and> wq_wf w' \<and>
     wq_process_head w' i = [] \<and> (\<forall>j<2. j \<noteq> i \<longrightarrow> wq_process_head w' j = wq_process_head w j) \<and>
     wq_empty_head w' = wq_empty_head w @ ts \<and> wq_flush w' = 0 \<and>
     (\<forall>t. t \<notin> set ts \<longrightarrow> wq_pool w' t = wq_pool w t)"
  using assms
proof (induction ts arbitrary: w e)
  case Nil
  then show ?case by (subst drain.simps) auto
next
  case (Cons t ts)
  let ?w1 = "take_task t w" let ?w2 = "cam_req_mgr_workq_put_task t ?w1"
  note t = take_task_wf [OF Cons.prems(1,2,4)]
  then have p: "wq_wf ?w2 \<and> wq_empty_head ?w2 = wq_empty_head w @ [t] \<and>
      wq_process_head ?w2 0 = wq_process_head ?w1 0 \<and> wq_process_head ?w2 1 = wq_process_head ?w1 1"
    using put_task_wf [of ?w1 t] by simp
  have heads: "wq_process_head ?w2 i = ts" "\<forall>j<2. j \<noteq> i \<longrightarrow> wq_process_head ?w2 j = wq_process_head w j"
    using p t Cons.prems(2) by (auto simp: less_2_cases_iff)
  have step: "drain (quiet f) i (e, w) = drain (quiet f) i (run_task f w t e, ?w2)"
    using Cons.prems by (subst drain.simps)
      (simp add: unlink_keeps process_task_quiet run_task_cong [of ?w1 t w])
  have nin: "t \<notin> set ts" using t Cons.prems(2) by (elim prio_cases) auto
  then have fold: "fold (run_task f ?w2) ts x = fold (run_task f w) ts x" for x
    by (intro fold_run_task_cong) (metis unlink_keeps(2,4))
  obtain w' where "drain (quiet f) i (run_task f w t e, ?w2) = Some (fold (run_task f ?w2) ts (run_task f w t e), w')"
    and w': "wq_wf w'" "wq_process_head w' i = []"
      "\<forall>j<2. j \<noteq> i \<longrightarrow> wq_process_head w' j = wq_process_head ?w2 j"
      "wq_empty_head w' = wq_empty_head ?w2 @ ts" "wq_flush w' = 0"
      "\<forall>t. t \<notin> set ts \<longrightarrow> wq_pool w' t = wq_pool ?w2 t"
    using Cons.IH [of ?w2 "run_task f w t e"] p heads Cons.prems(2,3) by (auto simp: unlink_keeps)
  with step fold show ?case
    using heads p by (intro exI [of _ w']) (auto simp: unlink_keeps)
qed

text \<open>With \<open>flush\<close> set the loop unlinks the tasks and does nothing else, whatever the callbacks are.\<close>

lemma drain_flushed:
  assumes "wq_wf w" "i < 2" "wq_flush w \<noteq> 0" "wq_process_head w i = ts"
  shows "\<exists>w'. drain run_cb i (e, w) = Some (e, w') \<and> wq_wf w' \<and> wq_process_head w' i = [] \<and>
     (\<forall>j<2. j \<noteq> i \<longrightarrow> wq_process_head w' j = wq_process_head w j) \<and>
     wq_empty_head w' = wq_empty_head w \<and> wq_flush w' = wq_flush w \<and> wq_pool w' = wq_pool w"
  using assms
proof (induction ts arbitrary: w)
  case Nil
  then show ?case by (subst drain.simps) auto
next
  case (Cons t ts)
  let ?w1 = "take_task t w"
  note t = take_task_wf [OF Cons.prems(1,2,4)]
  have step: "drain run_cb i (e, w) = drain run_cb i (e, ?w1)"
    using Cons.prems by (subst drain.simps) (simp add: unlink_keeps)
  have "\<exists>w'. drain run_cb i (e, ?w1) = Some (e, w') \<and> wq_wf w' \<and> wq_process_head w' i = [] \<and>
     (\<forall>j<2. j \<noteq> i \<longrightarrow> wq_process_head w' j = wq_process_head ?w1 j) \<and>
     wq_empty_head w' = wq_empty_head ?w1 \<and> wq_flush w' = wq_flush ?w1 \<and> wq_pool w' = wq_pool ?w1"
    using Cons.prems t by (intro Cons.IH) (auto simp: unlink_keeps)
  with step t show ?case by (fastforce simp: unlink_keeps)
qed

lemma process_workq_flushed:
  assumes "wq_wf w" and "wq_flush w \<noteq> 0"
  shows "\<exists>w'. cam_req_mgr_process_workq run_cb (e, w) = Some (e, w') \<and> wq_wf w' \<and>
     wq_process_head w' 0 = [] \<and> wq_process_head w' 1 = [] \<and> wq_empty_head w' = wq_empty_head w \<and>
     wq_pool w' = wq_pool w"
proof -
  obtain w1 where w1: "drain run_cb 0 (e, w) = Some (e, w1)" "wq_wf w1" "wq_process_head w1 0 = []"
    "wq_empty_head w1 = wq_empty_head w" "wq_flush w1 = wq_flush w" "wq_pool w1 = wq_pool w"
    using drain_flushed [OF assms(1) _ assms(2) refl, of 0 run_cb e] by auto
  obtain w2 where "drain run_cb 1 (e, w1) = Some (e, w2)" "wq_wf w2" "wq_process_head w2 1 = []"
    "\<forall>j<2. j \<noteq> 1 \<longrightarrow> wq_process_head w2 j = wq_process_head w1 j"
    "wq_empty_head w2 = wq_empty_head w1" "wq_pool w2 = wq_pool w1"
    using drain_flushed [OF w1(2) _ _ refl, of 1 run_cb e] assms(2) w1(5) by auto
  with w1 show ?thesis by (auto simp: cam_req_mgr_process_workq_def)
qed

section \<open>Creation\<close>

definition put_all :: "nat list \<Rightarrow> crm_workq \<Rightarrow> crm_workq" where
  "put_all ts w = fold (\<lambda>i w. cam_req_mgr_workq_put_task i (upd_task i (\<lambda>tk. tk\<lparr>wt_parent := True\<rparr>) w)) ts w"

lemma put_all_wf:
  "wq_wf w \<Longrightarrow> distinct ts \<Longrightarrow>
     set ts \<inter> set (wq_empty_head w @ wq_process_head w 0 @ wq_process_head w 1) = {} \<Longrightarrow>
     wq_wf (put_all ts w) \<and> wq_empty_head (put_all ts w) = wq_empty_head w @ ts \<and>
     wq_process_head (put_all ts w) 0 = wq_process_head w 0 \<and>
     wq_process_head (put_all ts w) 1 = wq_process_head w 1 \<and>
     wq_num_task (put_all ts w) = wq_num_task w \<and> wq_job (put_all ts w) = wq_job w \<and>
     wq_flush (put_all ts w) = wq_flush w \<and> wq_queued (put_all ts w) = wq_queued w \<and>
     (\<forall>t. wt_parent (wq_pool (put_all ts w) t) \<longleftrightarrow> t \<in> set ts \<or> wt_parent (wq_pool w t))"
proof (induction ts arbitrary: w)
  case Nil
  then show ?case by (simp add: put_all_def)
next
  case (Cons t ts)
  let ?u = "upd_task t (\<lambda>tk. tk\<lparr>wt_parent := True\<rparr>) w"
  let ?w = "cam_req_mgr_workq_put_task t ?u"
  have u: "wq_wf ?u" "wq_empty_head ?u = wq_empty_head w" "wq_process_head ?u = wq_process_head w"
    using Cons.prems(1) by (simp_all add: wq_wf_def upd_task_def)
  have p: "wq_wf ?w \<and> wq_empty_head ?w = wq_empty_head w @ [t] \<and>
     wq_process_head ?w 0 = wq_process_head w 0 \<and> wq_process_head ?w 1 = wq_process_head w 1"
    using put_task_wf [OF u(1), of t] Cons.prems(3) u(2,3) by auto
  have k: "wq_num_task ?w = wq_num_task w" "wq_job ?w = wq_job w" "wq_flush ?w = wq_flush w"
    "wq_queued ?w = wq_queued w" "\<forall>x. wt_parent (wq_pool ?w x) \<longleftrightarrow> x = t \<or> wt_parent (wq_pool w x)"
    by (auto simp: wq_unfold)
  have "put_all (t # ts) w = put_all ts ?w" by (simp add: put_all_def)
  with Cons.IH [of ?w] p k Cons.prems show ?case by auto
qed

lemma workq_create_ok:
  assumes "cam_req_mgr_workq_create True True True nm n None irq flags = (rc, wo)"
  shows "rc = 0 \<and> (\<exists>w. wo = Some w \<and> wq_wf w \<and> wq_empty_head w = [0..<unat n] \<and>
    wq_process_head w 0 = [] \<and> wq_process_head w 1 = [] \<and> wq_num_task w = unat n \<and>
    wq_job w \<noteq> None \<and> wq_flush w = 0 \<and> \<not> wq_queued w \<and> (\<forall>t<unat n. wt_parent (wq_pool w t)))"
proof -
  define w0 where "w0 = \<lparr>wq_job = Some (bit flags 0, if bit flags 1 then 1 else 0),
      wq_in_irq = irq, wq_flush = 0, wq_name = take 127 (''crm_workq-'' @ nm),
      wq_queued = False, wq_pending_cnt = 0, wq_free_cnt = 0,
      wq_process_head = (\<lambda>_. []), wq_empty_head = [], wq_pool = (\<lambda>_. zero_task),
      wq_num_task = unat n\<rparr>"
  have "rc = 0 \<and> wo = Some (put_all [0..<unat n] w0)"
    using assms by (auto simp: cam_req_mgr_workq_create_def put_all_def w0_def Let_def)
  moreover have "wq_wf w0" by (simp add: wq_wf_def w0_def)
  ultimately show ?thesis
    using put_all_wf [of w0 "[0..<unat n]"] by (simp add: w0_def)
qed

section \<open>The queue under interleaving\<close>

text \<open>
  \<open>s_held\<close>: tasks clients have taken and not yet enqueued. The worker is idle, at priority
  list \<open>i\<close>, has picked task \<open>t\<close> off list \<open>i\<close> (before it reads \<open>flush\<close>), or is running it. Ghost
  fields: \<open>s_lost\<close>, the tasks the worker unlinked and skipped because of a flush; \<open>s_enq i\<close> and
  \<open>s_taken i\<close>, the tasks ever linked to and taken off list \<open>i\<close>, oldest first.
\<close>

datatype worker = Idle | At nat | Picked nat nat | Running nat nat

record workq_sys =
  s_wq :: crm_workq
  s_held :: "nat list"
  s_worker :: worker
  s_lost :: "nat list"
  s_enq :: "nat \<Rightarrow> nat list"
  s_taken :: "nat \<Rightarrow> nat list"

definition sys_init :: "crm_workq \<Rightarrow> workq_sys" where
  "sys_init w = \<lparr>s_wq = w, s_held = [], s_worker = Idle, s_lost = [], s_enq = (\<lambda>_. []), s_taken = (\<lambda>_. [])\<rparr>"

text \<open>The client fills the task before it enqueues it.\<close>

definition fill_task :: "nat \<Rightarrow> ptr \<Rightarrow> u8 \<Rightarrow> crm_workq \<Rightarrow> crm_workq" where
  "fill_task t cb cancel w = upd_task t (\<lambda>tk. tk\<lparr>wt_process_cb := cb, wt_cancel := cancel\<rparr>) w"

definition enq_log :: "crm_workq \<Rightarrow> nat \<Rightarrow> (nat \<Rightarrow> nat list) \<Rightarrow> nat \<Rightarrow> nat list" where
  "enq_log w' t log = (\<lambda>i. if i < 2 \<and> t \<in> set (wq_process_head w' i) then log i @ [t] else log i)"

inductive sys_step :: "workq_sys \<Rightarrow> workq_sys \<Rightarrow> bool" where
  Get: "cam_req_mgr_workq_get_task (Some (s_wq s)) = (Some t, Some w') \<Longrightarrow>
    sys_step s (s\<lparr>s_wq := w', s_held := t # s_held s\<rparr>)"
| Enqueue: "t \<in> set (s_held s) \<Longrightarrow>
    cam_req_mgr_workq_enqueue_task (Some t) priv prio (fill_task t cb cancel (s_wq s)) = (rc, w') \<Longrightarrow>
    sys_step s (s\<lparr>s_wq := w', s_held := remove1 t (s_held s), s_enq := enq_log w' t (s_enq s)\<rparr>)"
| Start: "s_worker s = Idle \<Longrightarrow> wq_queued (s_wq s) \<Longrightarrow>
    sys_step s (s\<lparr>s_wq := (s_wq s)\<lparr>wq_queued := False\<rparr>, s_worker := At 0\<rparr>)"
| Pick: "s_worker s = At i \<Longrightarrow> wq_process_head (s_wq s) i = t # ts \<Longrightarrow>
    sys_step s (s\<lparr>s_wq := take_task t (s_wq s), s_worker := Picked i t,
                  s_taken := (s_taken s)(i := s_taken s i @ [t])\<rparr>)"
| Next: "s_worker s = At i \<Longrightarrow> wq_process_head (s_wq s) i = [] \<Longrightarrow>
    sys_step s (s\<lparr>s_worker := if i + 1 < 2 then At (i + 1) else Idle\<rparr>)"
| Run: "s_worker s = Picked i t \<Longrightarrow> wq_flush (s_wq s) = 0 \<Longrightarrow>
    sys_step s (s\<lparr>s_worker := Running i t\<rparr>)"
| Skip: "s_worker s = Picked i t \<Longrightarrow> wq_flush (s_wq s) \<noteq> 0 \<Longrightarrow>
    sys_step s (s\<lparr>s_worker := At i, s_lost := t # s_lost s\<rparr>)"
| Finish: "s_worker s = Running i t \<Longrightarrow>
    sys_step s (s\<lparr>s_wq := cam_req_mgr_workq_put_task t (s_wq s), s_worker := At i\<rparr>)"
| Flush_Begin: "sys_step s (s\<lparr>s_wq := (s_wq s)\<lparr>wq_flush := 1, wq_queued := False\<rparr>\<rparr>)"
| Flush_End: "s_worker s = Idle \<Longrightarrow> sys_step s (s\<lparr>s_wq := (s_wq s)\<lparr>wq_flush := 0\<rparr>\<rparr>)"

inductive sys_reach :: "crm_workq \<Rightarrow> workq_sys \<Rightarrow> bool" for w0 where
  init: "sys_reach w0 (sys_init w0)"
| step: "sys_reach w0 s \<Longrightarrow> sys_step s s' \<Longrightarrow> sys_reach w0 s'"

inductive_cases sys_stepE: "sys_step s s'"

fun worker_task :: "worker \<Rightarrow> nat list" where
  "worker_task (Picked i t) = [t]"
| "worker_task (Running i t) = [t]"
| "worker_task _ = []"

text \<open>Where a task can be: free, waiting at a priority, with a client, with the worker, or lost.\<close>

definition all_places :: "workq_sys \<Rightarrow> nat list" where
  "all_places s = wq_empty_head (s_wq s) @ wq_process_head (s_wq s) 0 @ wq_process_head (s_wq s) 1 @
     s_held s @ worker_task (s_worker s) @ s_lost s"

fun worker_prio :: "worker \<Rightarrow> nat" where
  "worker_prio Idle = 0"
| "worker_prio (At i) = i"
| "worker_prio (Picked i t) = i"
| "worker_prio (Running i t) = i"

definition sys_inv :: "crm_workq \<Rightarrow> workq_sys \<Rightarrow> bool" where
  "sys_inv w0 s \<longleftrightarrow> wq_wf (s_wq s) \<and> mset (all_places s) = mset (wq_empty_head w0) \<and>
     (\<forall>t\<in>set (wq_empty_head w0). wt_parent (wq_pool (s_wq s) t)) \<and>
     worker_prio (s_worker s) < 2 \<and>
     (\<forall>i<2. s_enq s i = s_taken s i @ wq_process_head (s_wq s) i)"

lemma all_places_distinct:
  "sys_inv w0 s \<Longrightarrow> wq_wf w0 \<Longrightarrow> distinct (all_places s)"
  by (auto simp: sys_inv_def wq_wf_def dest: mset_eq_imp_distinct_iff)

lemma all_places_set: "sys_inv w0 s \<Longrightarrow> set (all_places s) = set (wq_empty_head w0)"
  by (metis sys_inv_def mset_eq_setD)

text \<open>The facts about an enqueue the invariant needs: it links the task at the end of one list.\<close>

lemma enqueue_wf:
  assumes "wq_wf w" and "t \<notin> set (wq_empty_head w @ wq_process_head w 0 @ wq_process_head w 1)"
    and "wt_parent (wq_pool w t)"
    and "cam_req_mgr_workq_enqueue_task (Some t) priv prio w = (rc, w')"
  shows "wq_wf w' \<and>
    (wq_empty_head w' = wq_empty_head w @ [t] \<and> wq_process_head w' 0 = wq_process_head w 0 \<and>
       wq_process_head w' 1 = wq_process_head w 1 \<or>
     wq_empty_head w' = wq_empty_head w \<and>
       (\<exists>i<2. wq_process_head w' i = wq_process_head w i @ [t] \<and>
          (\<forall>j<2. j \<noteq> i \<longrightarrow> wq_process_head w' j = wq_process_head w j)))"
proof -
  define pri where "pri = (if prio < CRM_TASK_PRIORITY_MAX \<and> prio \<ge> CRM_TASK_PRIORITY_0 then prio
       else CRM_TASK_PRIORITY_0)"
  let ?u = "upd_task t (\<lambda>tk. tk\<lparr>wt_priv := priv, wt_priority := pri\<rparr>) w"
  have u: "wq_wf ?u" "wq_empty_head ?u = wq_empty_head w" "wq_process_head ?u = wq_process_head w"
    using assms(1) by (simp_all add: wq_wf_def upd_task_def)
  have nat: "nat pri = 0 \<or> nat pri = 1" by (auto simp: pri_def)
  have *: "w' = cam_req_mgr_workq_put_task t w \<or> w' = cam_req_mgr_workq_put_task t ?u \<or>
    w' = ?u\<lparr>wq_process_head := (wq_process_head ?u)(nat pri := wq_process_head ?u (nat pri) @ [t]),
           wq_pending_cnt := wq_pending_cnt ?u + 1, wq_queued := True\<rparr>" (is "_ \<or> _ \<or> w' = ?v")
    using assms(3,4) by (auto simp: cam_req_mgr_workq_enqueue_task_def pri_def Let_def split: if_splits)
  have v: "wq_wf ?v \<and> wq_empty_head ?v = wq_empty_head w \<and>
       (\<exists>i<2. wq_process_head ?v i = wq_process_head w i @ [t] \<and>
          (\<forall>j<2. j \<noteq> i \<longrightarrow> wq_process_head ?v j = wq_process_head w j))"
    using nat assms(1,2) u
    by (elim disjE) (auto simp: wq_wf_def upd_task_def less_2_cases_iff)
  from * v put_task_wf [OF assms(1,2)] put_task_wf [OF u(1)] assms(2) u show ?thesis
    by (elim disjE) auto
qed

lemma enqueue_parent:
  "cam_req_mgr_workq_enqueue_task (Some t) priv prio w = (rc, w') \<Longrightarrow>
     wt_parent (wq_pool w' x) = wt_parent (wq_pool w x)"
  by (auto simp: cam_req_mgr_workq_enqueue_task_def wq_unfold split: if_splits)

lemma sys_inv_step:
  assumes inv: "sys_inv w0 s" and wf0: "wq_wf w0" and st: "sys_step s s'"
  shows "sys_inv w0 s'"
  using st
proof (cases rule: sys_step.cases)
  case (Get t w')
  have "wt_parent (wq_pool w' x) = wt_parent (wq_pool (s_wq s) x)" for x
    using Get(2) by (auto simp: cam_req_mgr_workq_get_task_def list_del_init_def split: list.splits)
  with Get get_task_wf [OF _ Get(2)] inv show ?thesis
    by (auto simp: sys_inv_def all_places_def less_2_cases_iff)
next
  case (Enqueue t priv prio cb cancel rc w')
  let ?w = "fill_task t cb cancel (s_wq s)"
  have t: "t \<notin> set (wq_empty_head ?w @ wq_process_head ?w 0 @ wq_process_head ?w 1)" "wt_parent (wq_pool ?w t)"
    using Enqueue(2) all_places_distinct [OF inv wf0] all_places_set [OF inv] inv
    by (auto simp: fill_task_def upd_task_def all_places_def sys_inv_def)
  have w: "wq_wf ?w" "wq_empty_head ?w = wq_empty_head (s_wq s)" "wq_process_head ?w = wq_process_head (s_wq s)"
    "wt_parent (wq_pool ?w x) = wt_parent (wq_pool (s_wq s) x)" for x
    using inv by (auto simp: sys_inv_def wq_wf_def fill_task_def upd_task_def)
  note e = enqueue_wf [OF w(1) t Enqueue(3)] enqueue_parent [OF Enqueue(3)]
  obtain H where rem: "mset (s_held s) = add_mset t H"
    using Enqueue(2) by (metis multi_member_split set_mset_mset)
  from e(1) t(1) have "mset (wq_empty_head w') + mset (wq_process_head w' 0) + mset (wq_process_head w' 1)
      = add_mset t (mset (wq_empty_head (s_wq s)) + mset (wq_process_head (s_wq s) 0) + mset (wq_process_head (s_wq s) 1))"
    using w by (elim conjE disjE exE prio_cases) (auto simp: less_2_cases_iff)
  then have "mset (all_places s') = mset (all_places s)"
    using Enqueue(1) by (simp add: all_places_def rem add.assoc [symmetric])
  moreover have "enq_log w' t (s_enq s) i = s_taken s i @ wq_process_head w' i" if "i < 2" for i
    using e(1) t(1) inv that by (auto simp: enq_log_def sys_inv_def w less_2_cases_iff)
  ultimately show ?thesis
    using e inv Enqueue(1) w(4) by (simp add: sys_inv_def)
next
  case (Pick i t ts)
  from inv Pick(2) have i: "i < 2" by (simp add: sys_inv_def)
  with Pick take_task_wf [OF _ i Pick(3)] inv show ?thesis
    by (elim prio_cases) (auto simp: sys_inv_def all_places_def unlink_keeps less_2_cases_iff)
next
  case (Finish i t)
  have "t \<notin> set (wq_empty_head (s_wq s) @ wq_process_head (s_wq s) 0 @ wq_process_head (s_wq s) 1)"
    using all_places_distinct [OF inv wf0] Finish by (auto simp: all_places_def)
  note p = put_task_wf [OF _ this]
  have "wt_parent (wq_pool (cam_req_mgr_workq_put_task t (s_wq s)) x) = wt_parent (wq_pool (s_wq s) x)" for x
    by (simp add: wq_unfold)
  with Finish p inv show ?thesis by (auto simp: sys_inv_def all_places_def less_2_cases_iff)
qed (use inv in \<open>auto simp: sys_inv_def all_places_def wq_wf_def\<close>)

lemma sys_inv_init:
  "wq_wf w0 \<Longrightarrow> wq_process_head w0 0 = [] \<Longrightarrow> wq_process_head w0 1 = [] \<Longrightarrow>
     (\<forall>t\<in>set (wq_empty_head w0). wt_parent (wq_pool w0 t)) \<Longrightarrow> sys_inv w0 (sys_init w0)"
  by (auto simp: sys_inv_def sys_init_def all_places_def less_2_cases_iff)

lemma sys_inv_reach:
  assumes "sys_reach w0 s" and "wq_wf w0" and "sys_inv w0 (sys_init w0)"
  shows "sys_inv w0 s"
  using assms(1) by induction (use assms sys_inv_step in blast)+

section \<open>Properties\<close>

lemma created_reach_inv:
  assumes "cam_req_mgr_workq_create True True True nm n None irq flags = (rc, Some w0)"
    and "sys_reach w0 s"
  shows "sys_inv w0 s \<and> wq_empty_head w0 = [0..<unat n]"
  using workq_create_ok [OF assms(1)] sys_inv_reach [OF assms(2)] sys_inv_init [of w0] by auto

text \<open>A queue of two tasks, and the state in which a client has enqueued task 0 at priority 1 and
  the worker has picked it up.\<close>

definition demo_wq :: crm_workq where
  "demo_wq = the (snd (cam_req_mgr_workq_create True True True ''x'' 2 None 0 0))"

lemma demo_wq_created: "cam_req_mgr_workq_create True True True ''x'' 2 None 0 0 = (0, Some demo_wq)"
  by (simp add: demo_wq_def cam_req_mgr_workq_create_def Let_def)

lemma demo_wq_facts: "wq_wf demo_wq" "wq_empty_head demo_wq = [0, 1]" "wq_flush demo_wq = 0"
  "wq_process_head demo_wq 0 = []" "wq_process_head demo_wq 1 = []" "wq_job demo_wq \<noteq> None"
  "wt_parent (wq_pool demo_wq 0)" "wq_process_head demo_wq (Suc 0) = []"
  using workq_create_ok [OF demo_wq_created] by (auto simp: upt_rec)

lemma demo_got: "\<exists>w1. cam_req_mgr_workq_get_task (Some demo_wq) = (Some 0, Some w1)"
  by (simp add: cam_req_mgr_workq_get_task_def demo_wq_facts)

lemma demo_reach: "\<exists>w1. sys_reach demo_wq ((sys_init demo_wq)\<lparr>s_wq := w1, s_held := [0]\<rparr>) \<and>
    wq_empty_head w1 = [1]"
proof -
  obtain w1 where g: "cam_req_mgr_workq_get_task (Some demo_wq) = (Some 0, Some w1)"
    using demo_got by blast
  have "sys_step (sys_init demo_wq) ((sys_init demo_wq)\<lparr>s_wq := w1, s_held := 0 # s_held (sys_init demo_wq)\<rparr>)"
    using g by (intro sys_step.Get) (simp add: sys_init_def)
  from sys_reach.step [OF sys_reach.init this] get_task_wf [OF demo_wq_facts(1) g] show ?thesis
    by (auto simp: demo_wq_facts sys_init_def)
qed

text \<open>C18: however clients, the worker and flushes interleave, every task of the pool a successful
  \<open>cam_req_mgr_workq_create\<close> made is at every moment in exactly one place (free list, one of the
  two process lists, with a client, with the worker, or dropped by a flush), \<open>free_cnt\<close> counts
  the free list and \<open>pending_cnt\<close> the two process lists.\<close>

theorem tasks_conserved:
  assumes "cam_req_mgr_workq_create True True True nm n None irq flags = (rc, Some w0)"
    and "sys_reach w0 s"
  shows "mset (wq_empty_head (s_wq s)) + mset (wq_process_head (s_wq s) 0) +
      mset (wq_process_head (s_wq s) 1) + mset (s_held s) + mset (worker_task (s_worker s)) +
      mset (s_lost s) = mset [0..<unat n] \<and>
    wq_free_cnt (s_wq s) = int (length (wq_empty_head (s_wq s))) \<and>
    wq_pending_cnt (s_wq s) =
      int (length (wq_process_head (s_wq s) 0)) + int (length (wq_process_head (s_wq s) 1))"
proof -
  have "mset (all_places s) = mset [0..<unat n]" "wq_wf (s_wq s)"
    using created_reach_inv [OF assms] by (simp_all add: sys_inv_def)
  then show ?thesis by (simp add: all_places_def wq_wf_def add.assoc)
qed

theorem tasks_conserved_witness:
  "\<exists>s. sys_reach demo_wq s \<and> s_held s = [0] \<and> wq_empty_head (s_wq s) = [1] \<and>
     wq_free_cnt (s_wq s) = 1 \<and> wq_pending_cnt (s_wq s) = 0"
proof -
  obtain w1 where r: "sys_reach demo_wq ((sys_init demo_wq)\<lparr>s_wq := w1, s_held := [0]\<rparr>)" (is "sys_reach _ ?s")
    and e: "wq_empty_head w1 = [1]" using demo_reach by blast
  have n: "mset_set {0..<2} = {#0, Suc 0#}"
    using mset_upt [of 0 2, symmetric] by (simp add: upt_rec)
  from tasks_conserved [OF demo_wq_created r] e have "wq_free_cnt w1 = 1 \<and> wq_pending_cnt w1 = 0"
    by (simp add: n sys_init_def)
  with r e show ?thesis by (intro exI [of _ ?s]) simp
qed

text \<open>The queue with one waiting task, whose callback is 3.\<close>

definition demo_busy :: crm_workq where
  "demo_busy =
     (let w = the (snd (cam_req_mgr_workq_get_task (Some demo_wq)))
      in snd (cam_req_mgr_workq_enqueue_task (Some 0) (Some 7) 1 (upd_task 0 (\<lambda>tk. tk\<lparr>wt_process_cb := Some 3\<rparr>) w)))"

lemma demo_busy_facts: "wq_wf demo_busy" "wq_flush demo_busy = 0" "wq_empty_head demo_busy = [1]"
  "wq_process_head demo_busy 0 = []" "wq_process_head demo_busy (Suc 0) = [0]"
  "wt_process_cb (wq_pool demo_busy 0) = Some 3"
  using demo_wq_facts
  by (simp_all add: demo_busy_def demo_wq_def cam_req_mgr_workq_create_def cam_req_mgr_workq_get_task_def
      cam_req_mgr_workq_enqueue_task_def wq_unfold upd_task_def wq_wf_def zero_task_def upt_rec Let_def)

text \<open>C19: when no callback touches the queue and no flush is on, the worker's loop returns; it has
  run the callbacks of all waiting tasks, those of priority 0 first and each list in order,
  nothing is pending, and all those tasks are back in the pool in that order.\<close>

theorem process_workq_serves_all:
  assumes "wq_wf w" and "wq_flush w = 0"
  shows "\<exists>w'. cam_req_mgr_process_workq (quiet f) (e, w) =
       Some (fold (run_task f w) (wq_process_head w 0 @ wq_process_head w 1) e, w') \<and>
     wq_process_head w' 0 = [] \<and> wq_process_head w' 1 = [] \<and> wq_pending_cnt w' = 0 \<and>
     wq_empty_head w' = wq_empty_head w @ wq_process_head w 0 @ wq_process_head w 1 \<and>
     wq_free_cnt w' = wq_free_cnt w + wq_pending_cnt w"
proof -
  let ?e1 = "fold (run_task f w) (wq_process_head w 0) e"
  obtain w1 where d1: "drain (quiet f) 0 (e, w) = Some (?e1, w1)" and w1: "wq_wf w1"
    "wq_process_head w1 0 = []" "wq_process_head w1 1 = wq_process_head w 1"
    "wq_empty_head w1 = wq_empty_head w @ wq_process_head w 0" "wq_flush w1 = 0"
    "\<forall>t. t \<notin> set (wq_process_head w 0) \<longrightarrow> wq_pool w1 t = wq_pool w t"
    using drain_quiet [OF assms(1) _ assms(2) refl, of 0 f e] by auto
  obtain w2 where d2: "drain (quiet f) 1 (?e1, w1) = Some (fold (run_task f w1) (wq_process_head w 1) ?e1, w2)"
    and w2: "wq_wf w2" "wq_process_head w2 1 = []" "wq_process_head w2 0 = []"
    "wq_empty_head w2 = wq_empty_head w1 @ wq_process_head w 1"
    using drain_quiet [OF w1(1) _ w1(5) w1(3), of f ?e1] w1(2) by auto
  have "fold (run_task f w1) (wq_process_head w 1) ?e1 = fold (run_task f w) (wq_process_head w 1) ?e1"
    using assms(1) w1(6) by (intro fold_run_task_cong) (auto simp: wq_wf_def)
  with d1 d2 w1 w2 assms(1) show ?thesis
    by (auto simp: cam_req_mgr_process_workq_def wq_wf_def)
qed

theorem process_workq_serves_all_witness:
  "\<exists>w'. cam_req_mgr_process_workq (quiet (\<lambda>_ _ _ n. n + 1)) (0 :: nat, demo_busy) = Some (1, w') \<and>
     wq_empty_head w' = [1, 0]"
  using process_workq_serves_all [OF demo_busy_facts(1,2), of "\<lambda>_ _ _ n. n + 1" "0 :: nat"]
  by (auto simp: demo_busy_facts run_task_def)

text \<open>Enqueueing a task a client holds answers 0 and links it last on the list of its
  priority, out-of-range priorities counting as 0, exactly when the queue has its workqueue and
  neither the task is cancelled nor a flush is on; otherwise the task goes back to the pool with
  its callback cleared, and the answer is \<open>-EINVAL\<close> only for the missing workqueue.\<close>

theorem enqueue_outcome:
  assumes "wq_wf w" and "t \<notin> set (wq_empty_head w @ wq_process_head w 0 @ wq_process_head w 1)"
    and "wt_parent (wq_pool w t)"
    and "cam_req_mgr_workq_enqueue_task (Some t) priv prio w = (rc, w')"
    and "p = (if prio = 1 then 1 else 0 :: nat)"
  shows "if wt_cancel (wq_pool w t) \<noteq> 1 \<and> wq_flush w = 0 \<and> wq_job w \<noteq> None
    then rc = 0 \<and> wq_process_head w' p = wq_process_head w p @ [t] \<and>
      wq_process_head w' (1 - p) = wq_process_head w (1 - p) \<and> wq_empty_head w' = wq_empty_head w \<and>
      wq_pending_cnt w' = wq_pending_cnt w + 1 \<and> wq_queued w' \<and>
      wt_priv (wq_pool w' t) = priv \<and> wt_priority (wq_pool w' t) = int p
    else rc = (if wt_cancel (wq_pool w t) \<noteq> 1 \<and> wq_flush w = 0 then - EINVAL else 0) \<and>
      wq_empty_head w' = wq_empty_head w @ [t] \<and> wq_free_cnt w' = wq_free_cnt w + 1 \<and>
      wq_process_head w' 0 = wq_process_head w 0 \<and> wq_process_head w' 1 = wq_process_head w 1 \<and>
      wt_process_cb (wq_pool w' t) = None \<and> wt_cancel (wq_pool w' t) = 0"
proof -
  have one: "prio < 2 \<Longrightarrow> 0 \<le> prio \<Longrightarrow> prio \<noteq> 1 \<Longrightarrow> prio = 0" by presburger
  show ?thesis
  proof (cases "wt_cancel (wq_pool w t) \<noteq> 1 \<and> wq_flush w = 0 \<and> wq_job w \<noteq> None")
    case True
    then show ?thesis using assms one
      by (cases "prio = 1") (auto simp: cam_req_mgr_workq_enqueue_task_def upd_task_def Let_def)
  next
    case False
    then show ?thesis using assms
      by (auto simp: cam_req_mgr_workq_enqueue_task_def wq_unfold split: if_splits)
  qed
qed

theorem enqueue_outcome_witness:
  "\<exists>w1 w'. cam_req_mgr_workq_enqueue_task (Some 0) (Some 7) 9 w1 = (0, w') \<and>
     wq_process_head w' 0 = [0] \<and> wq_pending_cnt w' = 1"
proof -
  obtain w1 where g: "cam_req_mgr_workq_get_task (Some demo_wq) = (Some 0, Some w1)"
    using demo_got by blast
  then have "w1 = list_del_init 0 (demo_wq\<lparr>wq_free_cnt := wq_free_cnt demo_wq - 1\<rparr>)"
    by (simp add: cam_req_mgr_workq_get_task_def demo_wq_facts)
  then have "wq_job w1 \<noteq> None" "wq_flush w1 = 0" "wt_parent (wq_pool w1 0)"
    and "wt_cancel (wq_pool w1 0) = wt_cancel (wq_pool demo_wq 0)" "wq_pending_cnt w1 = wq_pending_cnt demo_wq"
    using demo_wq_facts by (simp_all add: list_del_init_def)
  moreover obtain rc w' where e: "cam_req_mgr_workq_enqueue_task (Some 0) (Some 7) 9 w1 = (rc, w')"
    by fastforce
  moreover have "wt_cancel (wq_pool demo_wq 0) = 0" "wq_pending_cnt demo_wq = 0"
    using demo_wq_facts by (simp_all add: wq_wf_def)
      (simp add: demo_wq_def cam_req_mgr_workq_create_def Let_def wq_unfold upt_rec zero_task_def)
  ultimately show ?thesis
    using enqueue_outcome [OF _ _ _ e refl] get_task_wf [OF demo_wq_facts(1) g] e
    by (intro exI [of _ w1] exI [of _ w']) (simp add: demo_wq_facts)
qed

text \<open>C20: a worker that meets a flush unlinks every waiting task without running its callback and
  without putting it back: afterwards the pool is short of exactly those tasks. (They stay lost
  after \<open>cam_req_mgr_workq_flush\<close> has cleared the flag.)\<close>

theorem flush_drops_waiting_tasks:
  assumes "wq_wf w" and "wq_flush w \<noteq> 0"
  shows "\<exists>w'. cam_req_mgr_process_workq run_cb (e, w) = Some (e, w') \<and>
     wq_process_head w' 0 = [] \<and> wq_process_head w' 1 = [] \<and> wq_pending_cnt w' = 0 \<and>
     wq_empty_head w' = wq_empty_head w \<and> wq_free_cnt w' = wq_free_cnt w"
  using process_workq_flushed [OF assms, of run_cb e] assms(1) by (auto simp: wq_wf_def)

theorem flush_drops_waiting_tasks_witness:
  "\<exists>w'. cam_req_mgr_process_workq (\<lambda>_ _ _ (n, w). (n + 1, w)) (0 :: nat, demo_busy\<lparr>wq_flush := 1\<rparr>) = Some (0, w')
     \<and> wq_process_head w' 1 = [] \<and> wq_empty_head w' = [1]"
proof -
  have "wq_wf (demo_busy\<lparr>wq_flush := 1\<rparr>)" using demo_busy_facts(1) by (simp add: wq_wf_def)
  from flush_drops_waiting_tasks [OF this, of "\<lambda>_ _ _ (n, w). (n + 1, w)" "0 :: nat"] show ?thesis
    by (auto simp: demo_busy_facts)
qed

text \<open>Destroying a queue returns, runs no callback even if work is queued and whatever the
  callbacks are, frees the payload block of the pool and clears the caller's pointer.\<close>

theorem destroy_runs_no_callback:
  assumes "wq_wf w"
  shows "cam_req_mgr_workq_destroy run_cb e (Some w) = Some (e, wt_payload (wq_pool w 0), None)"
proof (cases "wq_job w \<noteq> None \<and> wq_queued w")
  case True
  let ?w = "w\<lparr>wq_flush := 1, wq_job := None, wq_queued := False\<rparr>"
  have "wq_wf ?w" using assms by (simp add: wq_wf_def)
  from process_workq_flushed [OF this, of run_cb e] True show ?thesis
    by (auto simp: cam_req_mgr_workq_destroy_def Let_def)
next
  case False
  then show ?thesis by (auto simp: cam_req_mgr_workq_destroy_def Let_def)
qed

theorem destroy_runs_no_callback_witness:
  "\<exists>p. cam_req_mgr_workq_destroy (\<lambda>_ _ _ (n, w). (n + 1, w)) (0 :: nat) (Some demo_wq) = Some (0, p, None)"
  by (rule exI, rule destroy_runs_no_callback [OF demo_wq_facts(1)])

end
