(* ===== verification/Crm_Link.thy ===== *)
theory Crm_Link imports Crm_Task Crm_Handles Crm_Workq begin

text \<open>
  The life of sessions and links, last part of \<open>cam_req_mgr_core.c\<close>: the calls from user space that
  create and destroy sessions, connect devices to links and take them apart; and the callbacks by
  which devices post tasks to the work queue of a link.

  The state has the static \<open>g_crm_core_dev\<close> (\<open>None\<close> is NULL, otherwise its list of sessions), the heap
  of sessions, the array \<open>g_links\<close>, the work queue and the task payloads of each link, and the handle
  table. A pointer to a session is its address in the heap, a pointer to a link its index. The
  payload of a task, \<open>crm_task_payload\<close>, stands for its \<open>type\<close>, its union and its callback, which
  the code always sets together. \<open>cr_fault\<close> records that the code went through a NULL pointer.
\<close>

abbreviation CAM_REQ_MGR_MAX_HANDLES :: nat where "CAM_REQ_MGR_MAX_HANDLES \<equiv> 64"
abbreviation MAX_LINKS_PER_SESSION :: int where "MAX_LINKS_PER_SESSION \<equiv> 2"
abbreviation CAM_REQ_MGR_MAX_TRIGGERS :: nat where "CAM_REQ_MGR_MAX_TRIGGERS \<equiv> 2"
abbreviation CRM_WORKQ_NUM_TASKS :: u32 where "CRM_WORKQ_NUM_TASKS \<equiv> 60"
abbreviation CRM_KMD_ERR_MAX :: crm_device_error where "CRM_KMD_ERR_MAX \<equiv> CRM_KMD_ERR_OTHER 7"
abbreviation AUTO_RECOVERY :: int where "AUTO_RECOVERY \<equiv> 0"
abbreviation FORCE_ENABLE_RECOVERY :: int where "FORCE_ENABLE_RECOVERY \<equiv> 1"
abbreviation CAM_REQ_MGR_LINK_ACTIVATE :: int where "CAM_REQ_MGR_LINK_ACTIVATE \<equiv> 0"
abbreviation CAM_REQ_MGR_LINK_DEACTIVATE :: int where "CAM_REQ_MGR_LINK_DEACTIVATE \<equiv> 1"

section \<open>Data\<close>

record cam_req_mgr_core_session =
  ss_session_hdl :: int
  ss_num_links :: nat
  ss_links :: "nat option list"
  ss_force_err_recovery :: int
  ss_sync_mode :: int

datatype crm_task_payload =
    Pl_None
  | Pl_Add_Req cam_req_mgr_add_request
  | Pl_Trigger cam_req_mgr_trigger_notify
  | Pl_Error cam_req_mgr_error_notify
  | Pl_Flush cam_req_mgr_flush_info
  | Pl_Stop
  | Pl_Freeze

record crm_state =
  cr_session_head :: "nat list option"
  cr_session :: "nat \<Rightarrow> cam_req_mgr_core_session option"
  cr_links :: links
  cr_workq :: "nat \<Rightarrow> crm_workq option"
  cr_payload :: "nat \<Rightarrow> nat \<Rightarrow> crm_task_payload"
  cr_tbl :: "hdl_tbl option"
  cr_fault :: bool

record cam_req_mgr_link_info =
  li_session_hdl :: int
  li_num_devices :: nat
  li_dev_hdls :: "int list"

text \<open>
  What the calls ask of the outside: the callbacks a device registered under an \<open>ops\<close> pointer, what
  its \<open>get_dev_info\<close> and \<open>link_setup\<close> return, which allocations succeed, the random byte of a new
  handle and the owner id \<open>CAM_CRM\<close> of the debug utilities.
\<close>

record crm_setup =
  su_ops :: "nat \<Rightarrow> cam_req_mgr_kmd_ops"
  su_get_dev_info :: "int \<Rightarrow> int \<times> cam_req_mgr_device_info"
  su_link_setup :: "int \<Rightarrow> int"
  su_in_q_mem :: bool
  su_l_dev_mem :: bool
  su_tbl_mem :: "nat \<Rightarrow> bool"
  su_wq_mem :: bool
  su_job_mem :: bool
  su_pool_mem :: bool
  su_payload_mem :: bool
  su_rand :: u8
  su_CAM_CRM :: u64

definition hdl32 :: "int \<Rightarrow> u32" where
  "hdl32 h = word_of_int h"

definition at_link :: "nat \<Rightarrow> (cam_req_mgr_core_link \<Rightarrow> cam_req_mgr_core_link) \<Rightarrow> crm_state \<Rightarrow> crm_state" where
  "at_link k f s = s\<lparr>cr_links := link_upd k f (cr_links s)\<rparr>"

definition at_session :: "nat \<Rightarrow> (cam_req_mgr_core_session \<Rightarrow> cam_req_mgr_core_session) \<Rightarrow> crm_state \<Rightarrow> crm_state" where
  "at_session p f s = s\<lparr>cr_session := (cr_session s)(p := map_option f (cr_session s p))\<rparr>"

text \<open>The session or link a handle of user space stands for, if the object agrees.\<close>

definition session_of :: "int \<Rightarrow> crm_state \<Rightarrow> nat option" where
  "session_of h s =
     (case cam_get_session_priv (cr_tbl s) (hdl32 h) of
        None \<Rightarrow> None
      | Some p \<Rightarrow> if ss_session_hdl (the (cr_session s p)) \<noteq> h then None else Some p)"

definition link_of :: "int \<Rightarrow> crm_state \<Rightarrow> nat option" where
  "link_of h s =
     (case cam_get_link_priv (cr_tbl s) (hdl32 h) of
        None \<Rightarrow> None
      | Some k \<Rightarrow> if lk_link_hdl (cr_links s ! k) \<noteq> h then None else Some k)"

section \<open>Reserving a link\<close>

definition cam_req_mgr_core_link_reset :: "cam_req_mgr_core_link \<Rightarrow> cam_req_mgr_core_link" where
  "cam_req_mgr_core_link_reset l =
     cam_req_mgr_reset_apply_data (zero_triggers (l\<lparr>
       lk_link_hdl := 0, lk_num_devs := 0, lk_max_delay := 0, lk_min_delay := CAM_PIPELINE_DELAY_MAX, lk_pd_mask := 0,
       lk_l_dev := [], lk_in_q := None, lk_l_tbl := [], lk_num_tbl := 0, lk_watchdog := None,
       lk_state := CAM_CRM_LINK_STATE_AVAILABLE, lk_parent := None, lk_sync_link_sof_skip := False, lk_open_req_cnt := 0,
       lk_last_flush_id := - 1, lk_initial_sync_req := - 1, lk_dual_trigger := False, lk_in_msync_mode := False,
       lk_retry_cnt := 0, lk_is_shutdown := False, lk_initial_skip := True, lk_sof_timestamp := 0,
       lk_prev_sof_timestamp := 0, lk_skip_init_frame := False, lk_num_sync_links := 0, lk_last_sof_trigger_jiffies := 0,
       lk_wq_congestion := False, lk_eof_event_cnt := 0, lk_sync_link := replicate 3 None\<rparr>))"

definition zero_queue :: cam_req_mgr_req_queue where
  "zero_queue = \<lparr>iq_num_slots = 0, iq_slot = replicate MAX_REQ_SLOTS zero_slot, iq_rd_idx = 0, iq_wr_idx = 0,
     iq_last_applied_idx = 0\<rparr>"

text \<open>The log of a link starts anew when it is reserved. The branch without a free entry in the session frees the
  queue but leaves the pointer to it in the link, which stays in use.\<close>

definition cam_req_mgr_reserve_link :: "crm_setup \<Rightarrow> nat \<Rightarrow> crm_state \<Rightarrow> nat option \<times> crm_state" where
  "cam_req_mgr_reserve_link su p s =
     (let ss = the (cr_session s p) in
      if cr_session_head s = None then (None, s)
      else if ss_num_links ss \<ge> MAXIMUM_LINKS_PER_SESSION then (None, s)
      else (case find (\<lambda>i. \<not> lk_is_used (cr_links s ! i)) [0..<MAXIMUM_LINKS_PER_SESSION] of
        None \<Rightarrow> (None, s)
      | Some k \<Rightarrow>
          let s1 = (at_link k (\<lambda>l. (cam_req_mgr_core_link_reset (l\<lparr>lk_is_used := True\<rparr>))\<lparr>lk_log := []\<rparr>) s)
                     \<lparr>cr_workq := (cr_workq s)(k := None)\<rparr>
          in
          if \<not> su_in_q_mem su then (None, s1)
          else
            let s2 = at_link k (\<lambda>l. l\<lparr>lk_num_devs := 0, lk_max_delay := 0, lk_min_delay := CAM_PIPELINE_DELAY_MAX,
                       lk_in_q := Some zero_queue, lk_state := CAM_CRM_LINK_STATE_IDLE, lk_parent := Some p,
                       lk_sync_link := replicate 3 None\<rparr>) s1
            in
            (case find (\<lambda>i. ss_links ss ! i = None) [0..<MAXIMUM_LINKS_PER_SESSION] of
               None \<Rightarrow> (None, s2)
             | Some i \<Rightarrow> (Some k, at_session p (\<lambda>ss. ss\<lparr>ss_links := (ss_links ss)[i := Some k],
                            ss_num_links := ss_num_links ss + 1\<rparr>) s2))))"

definition cam_req_mgr_free_link :: "nat \<Rightarrow> crm_state \<Rightarrow> crm_state" where
  "cam_req_mgr_free_link k s =
     (at_link k (\<lambda>l. (cam_req_mgr_core_link_reset (l\<lparr>lk_in_q := None, lk_parent := None\<rparr>))\<lparr>lk_is_used := False\<rparr>) s)
       \<lparr>cr_workq := (cr_workq s)(k := None)\<rparr>"

text \<open>One turn of the loop over the links of the session: entry \<open>i\<close> is cleared if it is the link, else
  the entries of the link it stands for.\<close>

definition unreserve_entry :: "nat \<Rightarrow> nat \<Rightarrow> nat \<Rightarrow> crm_state \<Rightarrow> crm_state" where
  "unreserve_entry p k i s =
     (let s1 = (if ss_links (the (cr_session s p)) ! i = Some k
                then at_session p (\<lambda>ss. ss\<lparr>ss_links := (ss_links ss)[i := None]\<rparr>) s else s)
      in
      fold (\<lambda>j s.
          case lk_sync_link (cr_links s ! k) ! j of
            None \<Rightarrow> s
          | Some m \<Rightarrow>
              if ss_links (the (cr_session s p)) ! i = Some m
              then at_link m (\<lambda>l. l\<lparr>lk_sync_link := (lk_sync_link l)[j := None]\<rparr>) s else s)
        [0..<MAXIMUM_LINKS_PER_SESSION - 1] s1)"

definition cam_req_mgr_unreserve_link :: "nat \<Rightarrow> nat \<Rightarrow> crm_state \<Rightarrow> crm_state" where
  "cam_req_mgr_unreserve_link p k s =
     (if ss_num_links (the (cr_session s p)) = 0 then s
      else
        let s1 = fold (unreserve_entry p k) [0..<MAXIMUM_LINKS_PER_SESSION] s;
            s2 = at_link k (\<lambda>l. l\<lparr>lk_sync_link := replicate 3 None\<rparr>) s1;
            s3 = at_session p (\<lambda>ss. ss\<lparr>ss_num_links := ss_num_links ss - 1\<rparr>) s2
        in cam_req_mgr_free_link k s3)"

section \<open>Connecting devices\<close>

definition zero_dev :: cam_req_mgr_connected_device where
  "zero_dev = \<lparr>dv_dev_hdl = 0, dv_dev_bit = 0,
     dv_dev_info = \<lparr>di_dev_id = 0, di_p_delay = 0, di_trigger = 0, di_trigger_on = False\<rparr>, dv_ops = None\<rparr>"

definition dev_upd :: "nat \<Rightarrow> (cam_req_mgr_connected_device \<Rightarrow> cam_req_mgr_connected_device) \<Rightarrow> cam_req_mgr_core_link \<Rightarrow> cam_req_mgr_core_link" where
  "dev_upd i f l = l\<lparr>lk_l_dev := (lk_l_dev l)[i := f (lk_l_dev l ! i)]\<rparr>"

definition cam_req_mgr_destroy_link_info :: "cam_req_mgr_core_link \<Rightarrow> cam_req_mgr_core_link" where
  "cam_req_mgr_destroy_link_info l =
     (snd (cam_req_mgr_reset_in_q (l\<lparr>lk_l_tbl := []\<rparr>)))
       \<lparr>lk_num_tbl := 0, lk_pd_mask := 0, lk_num_devs := 0, lk_max_delay := 0, lk_min_delay := CAM_PIPELINE_DELAY_MAX\<rparr>"

text \<open>The first loop asks every device for its delay: \<open>Inl\<close> is the code the loop fails with, \<open>Inr\<close>
  the largest delay and the number of trigger devices.\<close>

fun query_devs ::
  "crm_setup \<Rightarrow> hdl_tbl option \<Rightarrow> nat \<Rightarrow> int list \<Rightarrow> int \<Rightarrow> nat \<Rightarrow> cam_req_mgr_core_link \<Rightarrow> (int + int \<times> nat) \<times> cam_req_mgr_core_link" where
  "query_devs su t i [] max_delay triggers l = (Inr (max_delay, triggers), l)"
| "query_devs su t i (h # hs) max_delay triggers l =
     (let ops = map_option (su_ops su) (cam_get_device_ops t (hdl32 h));
          l1 = dev_upd i (\<lambda>d. d\<lparr>dv_ops := ops\<rparr>) l
      in
      if (case ops of None \<Rightarrow> True | Some k \<Rightarrow> \<not> ko_get_dev_info k \<or> \<not> ko_link_setup k) then (Inl (- ENXIO), l1)
      else
        let (rc, info) = su_get_dev_info su h;
            l2 = dev_upd i (\<lambda>d. d\<lparr>dv_dev_hdl := h, dv_dev_info := info\<rparr>) l1
        in
        if rc < 0 \<or> di_p_delay info \<ge> CAM_PIPELINE_DELAY_MAX \<or> di_p_delay info < 0 then (Inl rc, l2)
        else query_devs su t (Suc i) hs (if di_p_delay info > max_delay then di_p_delay info else max_delay)
               (if di_trigger_on info then Suc triggers else triggers) l2)"

text \<open>The table of a delay, made when it is the first device of that delay.\<close>

definition pd_table :: "crm_setup \<Rightarrow> nat \<Rightarrow> int \<Rightarrow> cam_req_mgr_core_link \<Rightarrow> cam_req_mgr_core_link option" where
  "pd_table su i pd l =
     (if lk_pd_mask l AND pd_bit pd \<noteq> 0
      then (case cam_req_mgr_find_pd_tbl (lk_l_tbl l) pd of None \<Rightarrow> None | Some _ \<Rightarrow> Some l)
      else (case cam_req_mgr_create_pd_tbl (su_tbl_mem su i) of
              None \<Rightarrow> None
            | Some t \<Rightarrow> Some (l\<lparr>lk_pd_mask := lk_pd_mask l OR pd_bit pd,
                lk_l_tbl := cam_req_mgr_add_tbl_to_link (t\<lparr>tb_pd := pd\<rparr>) (lk_l_tbl l)\<rparr>)))"

definition join_table :: "nat \<Rightarrow> cam_req_mgr_core_link \<Rightarrow> cam_req_mgr_core_link" where
  "join_table i l =
     (let pd = di_p_delay (dv_dev_info (lk_l_dev l ! i)); bit = tb_dev_count (the (cam_req_mgr_find_pd_tbl (lk_l_tbl l) pd)) in
      dev_upd i (\<lambda>d. d\<lparr>dv_dev_bit := bit\<rparr>)
        (l\<lparr>lk_l_tbl := map (\<lambda>t. if tb_pd t = pd then t\<lparr>tb_dev_count := tb_dev_count t + 1,
             tb_dev_mask := tb_dev_mask t OR push_bit bit 1\<rparr> else t) (lk_l_tbl l)\<rparr>))"

text \<open>The second loop gives every device its table and tells it of the link; \<open>n\<close> devices are left. The
  result says whether it got through.\<close>

fun setup_devs :: "crm_setup \<Rightarrow> int \<Rightarrow> nat \<Rightarrow> nat \<Rightarrow> int \<Rightarrow> cam_req_mgr_core_link \<Rightarrow> bool \<times> cam_req_mgr_core_link" where
  "setup_devs su max_delay 0 i triggers l = (True, l)"
| "setup_devs su max_delay (Suc n) i triggers l =
     (let d = lk_l_dev l ! i; pd = di_p_delay (dv_dev_info d) in
      (case pd_table su i pd l of
         None \<Rightarrow> (False, l)
       | Some l1 \<Rightarrow>
           let trig = (di_trigger_on (dv_dev_info d) \<and> lk_dual_trigger l1);
               l2 = crm_emit [Ev_Link_Setup (dv_dev_hdl d) max_delay (if trig then triggers else - 1)] (join_table i l1)
           in setup_devs su max_delay n (Suc i) (if trig then triggers + 1 else triggers)
                (l2\<lparr>lk_max_delay := (if pd > lk_max_delay l2 then pd else lk_max_delay l2),
                   lk_min_delay := (if pd < lk_min_delay l2 then pd else lk_min_delay l2)\<rparr>)))"

text \<open>\<open>limit\<close> is the bound on the number of devices of the version.\<close>

definition cam_req_mgr_setup_link_info ::
  "crm_setup \<Rightarrow> nat \<Rightarrow> cam_req_mgr_link_info \<Rightarrow> hdl_tbl option \<Rightarrow> cam_req_mgr_core_link \<Rightarrow> int \<times> cam_req_mgr_core_link" where
  "cam_req_mgr_setup_link_info su limit info t l =
     (if li_num_devices info > limit then (- EPERM, l)
      else
        let (rc, l1) = cam_req_mgr_setup_in_q (l\<lparr>lk_num_tbl := 0\<rparr>) in
        if rc < 0 then (rc, l1)
        else (case query_devs su t 0 (take (li_num_devices info) (li_dev_hdls info)) 0 0 l1 of
          (Inl rc, l2) \<Rightarrow> (rc, cam_req_mgr_destroy_link_info l2)
        | (Inr (max_delay, triggers), l2) \<Rightarrow>
            if triggers > CAM_REQ_MGR_MAX_TRIGGERS then (- EINVAL, cam_req_mgr_destroy_link_info l2)
            else
              (case setup_devs su max_delay (li_num_devices info) 0 0
                     (if triggers = CAM_REQ_MGR_MAX_TRIGGERS then l2\<lparr>lk_dual_trigger := True\<rparr> else l2) of
                 (False, l3) \<Rightarrow> (- ENXIO, cam_req_mgr_destroy_link_info l3)
               | (True, l3) \<Rightarrow>
                   let (ts, n) = cam_req_mgr_tbl_set_id (lk_l_tbl l3) (lk_num_tbl l3) in
                   (0, l3\<lparr>lk_num_devs := li_num_devices info, lk_num_tbl := n,
                        lk_l_tbl := cam_req_mgr_tbl_set_all_skip_cnt ts\<rparr>))))"

section \<open>Sessions\<close>

text \<open>\<open>mem\<close> is the address \<open>kzalloc\<close> returns.\<close>

definition cam_req_mgr_create_session :: "crm_setup \<Rightarrow> nat option \<Rightarrow> crm_state \<Rightarrow> int \<times> crm_state" where
  "cam_req_mgr_create_session su mem s =
     (case mem of
        None \<Rightarrow> (- ENOMEM, s)
      | Some p \<Rightarrow>
          let (h, t) = cam_create_session_hdl (su_CAM_CRM su) (su_rand su) (Some p) (cr_tbl s); s1 = s\<lparr>cr_tbl := t\<rparr> in
          if h < 0 then (h, s1)
          else (0, s1\<lparr>cr_session := (cr_session s1)(p := Some \<lparr>ss_session_hdl = h, ss_num_links = 0, ss_links = replicate 4 None,
                       ss_force_err_recovery = AUTO_RECOVERY, ss_sync_mode = CAM_REQ_MGR_SYNC_MODE_NO_SYNC\<rparr>),
                     cr_session_head := map_option (\<lambda>ps. p # ps) (cr_session_head s1)\<rparr>))"

text \<open>The return code of the last device.\<close>

definition cam_req_mgr_disconnect_link :: "crm_setup \<Rightarrow> cam_req_mgr_core_link \<Rightarrow> int \<times> cam_req_mgr_core_link" where
  "cam_req_mgr_disconnect_link su l =
     (let calls = filter (has_op ko_link_setup) (devs l) in
      (if calls = [] then 0 else su_link_setup su (dv_dev_hdl (last calls)),
       crm_emit (map (\<lambda>d. Ev_Unlink (dv_dev_hdl d)) calls)
         (l\<lparr>lk_l_dev := map (\<lambda>d. d\<lparr>dv_dev_hdl := 0, dv_ops := None\<rparr>) (devs l) @ drop (lk_num_devs l) (lk_l_dev l)\<rparr>)))"

text \<open>The work queue is destroyed with its flush flag set, so no task runs any more.\<close>

definition destroy_workq :: "nat \<Rightarrow> crm_state \<Rightarrow> crm_state" where
  "destroy_workq k s =
     s\<lparr>cr_workq := (cr_workq s)(k := snd (snd (the (cam_req_mgr_workq_destroy (quiet (\<lambda>_ _ _ e. e)) () (cr_workq s k)))))\<rparr>"

definition cam_req_mgr_unlink_link :: "crm_setup \<Rightarrow> nat \<Rightarrow> crm_state \<Rightarrow> int \<times> crm_state" where
  "cam_req_mgr_unlink_link su k s =
     (let s1 = at_link k (\<lambda>l. l\<lparr>lk_state := CAM_CRM_LINK_STATE_IDLE\<rparr>) s;
          s2 = at_link k (\<lambda>l. if lk_is_shutdown l then l else snd (cam_req_mgr_disconnect_link su l)) s1;
          s3 = destroy_workq k (at_link k crm_timer_exit s2);
          s4 = at_link k (\<lambda>l. (cam_req_mgr_destroy_link_info l)\<lparr>lk_l_dev := []\<rparr>) s3;
          (rc, t) = cam_destroy_link_hdl (hdl32 (lk_link_hdl (cr_links s4 ! k))) (cr_tbl s4);
          s5 = s4\<lparr>cr_tbl := t\<rparr>
      in (rc, if rc < 0 then s5 else at_link k (\<lambda>l. l\<lparr>lk_link_hdl := - 1\<rparr>) s5))"

definition drop_entry :: "crm_setup \<Rightarrow> bool \<Rightarrow> nat option \<Rightarrow> crm_state \<Rightarrow> crm_state" where
  "drop_entry su is_shutdown e s =
     (case e of
        None \<Rightarrow> s
      | Some k \<Rightarrow> cam_req_mgr_free_link k
          (snd (cam_req_mgr_unlink_link su k (at_link k (\<lambda>l. l\<lparr>lk_is_shutdown := is_shutdown\<rparr>) s))))"

definition cam_req_mgr_destroy_session :: "crm_setup \<Rightarrow> int \<Rightarrow> bool \<Rightarrow> crm_state \<Rightarrow> int \<times> crm_state" where
  "cam_req_mgr_destroy_session su h is_shutdown s =
     (case session_of h s of
        None \<Rightarrow> (- ENOENT, s)
      | Some p \<Rightarrow>
          let ss = the (cr_session s p);
              s1 = (if ss_num_links ss = 0 then s else fold (drop_entry su is_shutdown) (ss_links ss) s);
              s2 = s1\<lparr>cr_session_head := map_option (removeAll p) (cr_session_head s1), cr_session := (cr_session s1)(p := None)\<rparr>;
              (rc, t) = cam_destroy_session_hdl (hdl32 h) (cr_tbl s2)
          in (rc, s2\<lparr>cr_tbl := t\<rparr>))"

definition cam_req_mgr_handle_core_shutdown :: "crm_setup \<Rightarrow> crm_state \<Rightarrow> crm_state" where
  "cam_req_mgr_handle_core_shutdown su s =
     fold (\<lambda>p s. snd (cam_req_mgr_destroy_session su (ss_session_hdl (the (cr_session s p))) True s))
       (the (cr_session_head s)) s"

section \<open>Links\<close>

text \<open>\<open>%x\<close>.\<close>

fun hex_digit :: "nat \<Rightarrow> char" where
  "hex_digit n = (''0123456789abcdef'' ! n)"

fun hex :: "nat \<Rightarrow> string" where
  "hex n = (if n < 16 then [hex_digit n] else hex (n div 16) @ [hex_digit (n mod 16)])"

definition workq_name :: "int \<Rightarrow> int \<Rightarrow> string" where
  "workq_name session_hdl link_hdl = hex (unat (hdl32 session_hdl)) @ ''-'' @ hex (unat (hdl32 link_hdl))"

definition cam_req_mgr_setup_payload :: "bool \<Rightarrow> nat \<Rightarrow> crm_state \<Rightarrow> int \<times> crm_state" where
  "cam_req_mgr_setup_payload mem k s =
     (if mem
      then (0, s\<lparr>cr_workq := (cr_workq s)(k := map_option (\<lambda>w. fold (\<lambda>i. upd_task i (\<lambda>tk. tk\<lparr>wt_payload := Some i\<rparr>))
                   [0..<wq_num_task w] w) (cr_workq s k)),
                 cr_payload := (cr_payload s)(k := (\<lambda>_. Pl_None))\<rparr>)
      else (- ENOMEM, s))"

text \<open>The labels \<open>create_subdev_failed\<close> and \<open>link_hdl_fail\<close>.\<close>

definition link_failed :: "nat \<Rightarrow> nat \<Rightarrow> crm_state \<Rightarrow> crm_state" where
  "link_failed p k s =
     cam_req_mgr_unreserve_link p k (s\<lparr>cr_tbl := snd (cam_destroy_link_hdl (hdl32 (lk_link_hdl (cr_links s ! k))) (cr_tbl s))\<rparr>)"

text \<open>The part of \<open>cam_req_mgr_link\<close> and \<open>cam_req_mgr_link_v2\<close> once the link has its handle;
  \<open>v2\<close> tells the two apart.\<close>

definition link_setup :: "crm_setup \<Rightarrow> nat \<Rightarrow> bool \<Rightarrow> cam_req_mgr_link_info \<Rightarrow> nat \<Rightarrow> nat \<Rightarrow> crm_state \<Rightarrow> int \<times> crm_state" where
  "link_setup su limit v2 info p k s =
     (if \<not> su_l_dev_mem su then (- ENOMEM, link_failed p k s)
      else
        let (rc, l) = cam_req_mgr_setup_link_info su limit info (cr_tbl s)
              ((cr_links s ! k)\<lparr>lk_l_dev := replicate (li_num_devices info) zero_dev\<rparr>);
            s1 = at_link k (\<lambda>_. l) s
        in
        if rc < 0 then (rc, link_failed p k (at_link k (\<lambda>l. l\<lparr>lk_l_dev := []\<rparr>) s1))
        else
          let s2 = at_link k (\<lambda>l. l\<lparr>lk_state := CAM_CRM_LINK_STATE_READY\<rparr>) s1;
              (rc, w) = cam_req_mgr_workq_create (su_wq_mem su) (su_job_mem su) (su_pool_mem su)
                (workq_name (li_session_hdl info) (lk_link_hdl (cr_links s2 ! k))) CRM_WORKQ_NUM_TASKS (cr_workq s2 k) 0 3;
              s3 = s2\<lparr>cr_workq := (cr_workq s2)(k := w)\<rparr>;
              undo = (\<lambda>s. link_failed p k (at_link k (\<lambda>l. (cam_req_mgr_destroy_link_info l)\<lparr>lk_l_dev := []\<rparr>) s))
          in
          if rc < 0 then (rc, undo s3)
          else
            let (rc, s4) = cam_req_mgr_setup_payload (su_payload_mem su) k s3 in
            if rc < 0 then (rc, undo (destroy_workq k s4)) else (rc, if v2 then at_link k zero_triggers s4 else s4))"

text \<open>The result is the return code, what is written to \<open>link_hdl\<close>, and the state.\<close>

definition link_create :: "crm_setup \<Rightarrow> nat \<Rightarrow> bool \<Rightarrow> cam_req_mgr_link_info \<Rightarrow> crm_state \<Rightarrow> int \<times> int option \<times> crm_state" where
  "link_create su limit v2 info s =
     (if li_num_devices info > limit then (- EINVAL, None, s)
      else (case session_of (li_session_hdl info) s of
        None \<Rightarrow> (- EINVAL, None, s)
      | Some p \<Rightarrow>
         (case cam_req_mgr_reserve_link su p s of
            (None, s1) \<Rightarrow> (- EINVAL, None, s1)
          | (Some k, s1) \<Rightarrow>
              let (h, t) = cam_create_link_hdl (su_rand su) \<lparr>c_session_hdl = hdl32 (li_session_hdl info), c_dev_id = su_CAM_CRM su,
                     c_ops = None, c_priv = Some k\<rparr> (cr_tbl s1);
                  s2 = at_link k (\<lambda>l. l\<lparr>lk_link_hdl := h\<rparr>) (s1\<lparr>cr_tbl := t\<rparr>)
              in
              if h < 0 then (h, None, cam_req_mgr_unreserve_link p k s2)
              else
                let (rc, s3) = link_setup su limit v2 info p k (at_link k (\<lambda>l. l\<lparr>lk_last_flush_id := 0\<rparr>) s2) in
                (rc, Some (if rc < 0 then - 1 else h), s3))))"

definition cam_req_mgr_link :: "crm_setup \<Rightarrow> cam_req_mgr_link_info \<Rightarrow> crm_state \<Rightarrow> int \<times> int option \<times> crm_state" where
  "cam_req_mgr_link su info s = link_create su CAM_REQ_MGR_MAX_HANDLES False info s"

definition cam_req_mgr_link_v2 :: "crm_setup \<Rightarrow> cam_req_mgr_link_info \<Rightarrow> crm_state \<Rightarrow> int \<times> int option \<times> crm_state" where
  "cam_req_mgr_link_v2 su info s = link_create su CAM_REQ_MGR_MAX_HANDLES_V2 True info s"

definition cam_req_mgr_unlink :: "crm_setup \<Rightarrow> int \<Rightarrow> int \<Rightarrow> crm_state \<Rightarrow> int \<times> crm_state" where
  "cam_req_mgr_unlink su session_hdl link_hdl s =
     (case session_of session_hdl s of
        None \<Rightarrow> (- EINVAL, s)
      | Some p \<Rightarrow>
         (case link_of link_hdl s of
            None \<Rightarrow> (- EINVAL, s)
          | Some k \<Rightarrow> let (rc, s1) = cam_req_mgr_unlink_link su k s in (rc, cam_req_mgr_unreserve_link p k s1)))"

text \<open>\<open>recovery\<close> of the session decides over the flag of the request.\<close>

definition cam_req_mgr_schedule_request :: "int \<Rightarrow> cam_req_mgr_sched_request \<Rightarrow> crm_state \<Rightarrow> int \<times> crm_state" where
  "cam_req_mgr_schedule_request link_hdl sq s =
     (case link_of link_hdl s of
        None \<Rightarrow> (- EINVAL, s)
      | Some k \<Rightarrow>
         (case lk_parent (cr_links s ! k) of
            None \<Rightarrow> (- EINVAL, s)
          | Some p \<Rightarrow>
              if sq_req_id sq \<le> lk_last_flush_id (cr_links s ! k) then (- EBADR, s)
              else
                let force = ss_force_err_recovery (the (cr_session s p));
                    s1 = at_link k (\<lambda>l. l\<lparr>lk_last_flush_id := 0\<rparr>) s;
                    sq1 = sq\<lparr>sq_bubble_enable := (if force = AUTO_RECOVERY then sq_bubble_enable sq
                             else if force = FORCE_ENABLE_RECOVERY then 1 else 0)\<rparr>;
                    (rc, gs) = cam_req_mgr_process_sched_req k sq1 (cr_links s1)
                in (rc, s1\<lparr>cr_links := gs\<rparr>)))"

text \<open>The first loop of \<open>cam_req_mgr_sync_config\<close>: it finds the links and clears what they were
  synchronised with; \<open>None\<close> when a handle is no good.\<close>

fun sync_clear :: "int \<Rightarrow> int list \<Rightarrow> crm_state \<Rightarrow> nat list option \<times> crm_state" where
  "sync_clear num [] s = (Some [], s)"
| "sync_clear num (h # hs) s =
     (case (if h = 0 then None else link_of h s) of
        None \<Rightarrow> (None, s)
      | Some k \<Rightarrow>
          let s1 = at_link k (\<lambda>l. l\<lparr>lk_sync_link_sof_skip := False, lk_is_master := False, lk_in_msync_mode := False,
                     lk_initial_sync_req := - 1, lk_num_sync_links := 0,
                     lk_sync_link := map_first (num - 1) (\<lambda>_. None) (lk_sync_link l)\<rparr>) s;
              (ks, s2) = sync_clear num hs s1
          in (map_option (\<lambda>ks. k # ks) ks, s2))"

text \<open>Link number \<open>i\<close> gets all the others.\<close>

definition sync_join :: "nat list \<Rightarrow> nat \<Rightarrow> crm_state \<Rightarrow> crm_state" where
  "sync_join ks i s =
     at_link (ks ! i) (\<lambda>l. l\<lparr>lk_initial_skip := True, lk_sof_timestamp := 0\<rparr>)
       (snd (fold (\<lambda>j (idx, s).
               if i \<noteq> j then (Suc idx, at_link (ks ! i) (\<lambda>l. l\<lparr>lk_sync_link := (lk_sync_link l)[idx := Some (ks ! j)],
                                        lk_num_sync_links := lk_num_sync_links l + 1\<rparr>) s)
               else (idx, s))
          [0..<length ks] (0, s)))"

definition cam_req_mgr_sync_config :: "int \<Rightarrow> int \<Rightarrow> int \<Rightarrow> int list \<Rightarrow> crm_state \<Rightarrow> int \<times> crm_state" where
  "cam_req_mgr_sync_config session_hdl sync_mode num link_hdls s =
     (if num < 0 \<or> num > MAX_LINKS_PER_SESSION then (- EINVAL, s)
      else if sync_mode \<noteq> CAM_REQ_MGR_SYNC_MODE_SYNC \<and> sync_mode \<noteq> CAM_REQ_MGR_SYNC_MODE_NO_SYNC then (- EINVAL, s)
      else if link_hdls ! 0 = 0 \<or> link_hdls ! 1 = 0 then (- EINVAL, s)
      else (case session_of session_hdl s of
        None \<Rightarrow> (- EINVAL, s)
      | Some p \<Rightarrow>
          (case sync_clear num (take (nat num) link_hdls) s of
             (None, s1) \<Rightarrow> (- EINVAL, s1)
           | (Some ks, s1) \<Rightarrow>
               let s2 = (if sync_mode = CAM_REQ_MGR_SYNC_MODE_SYNC then fold (sync_join ks) [0..<length ks] s1
                         else fold (\<lambda>k. at_link k (\<lambda>l. l\<lparr>lk_initial_skip := True, lk_sof_timestamp := 0\<rparr>)) ks s1)
               in (0, at_session p (\<lambda>ss. ss\<lparr>ss_sync_mode := sync_mode\<rparr>) s2))))"

section \<open>Tasks of the work queue\<close>

text \<open>A task is taken, filled and enqueued; \<open>None\<close> when there is no task.\<close>

definition crm_post :: "nat \<Rightarrow> crm_task_payload \<Rightarrow> crm_state \<Rightarrow> int option \<times> crm_state" where
  "crm_post k pl s =
     (case cam_req_mgr_workq_get_task (cr_workq s k) of
        (Some t, Some w) \<Rightarrow>
          (let w1 = upd_task t (\<lambda>tk. tk\<lparr>wt_process_cb := Some 0\<rparr>) w;
               (rc, w2) = cam_req_mgr_workq_enqueue_task (Some t) (Some k) CRM_TASK_PRIORITY_0 w1
           in (Some rc, s\<lparr>cr_workq := (cr_workq s)(k := Some w2),
                cr_payload := (cr_payload s)(k := (cr_payload s k)(the (wt_payload (wq_pool w t)) := pl))\<rparr>))
      | (_, w) \<Rightarrow> (None, s\<lparr>cr_workq := (cr_workq s)(k := w)\<rparr>))"

text \<open>What the worker does with a task of link \<open>k\<close>.\<close>

fun run_payload :: "crm_env \<Rightarrow> nat \<Rightarrow> crm_task_payload \<Rightarrow> links \<Rightarrow> links" where
  "run_payload env k Pl_None gs = gs"
| "run_payload env k (Pl_Add_Req ad) gs = snd (on_link k (cam_req_mgr_process_add_req ad) gs)"
| "run_payload env k (Pl_Trigger td) gs = snd (cam_req_mgr_process_trigger env k td gs)"
| "run_payload env k (Pl_Error er) gs = snd (cam_req_mgr_process_error env k er gs)"
| "run_payload env k (Pl_Flush fi) gs = snd (on_link k (cam_req_mgr_process_flush_req fi) gs)"
| "run_payload env k Pl_Stop gs = snd (on_link k cam_req_mgr_process_stop gs)"
| "run_payload env k Pl_Freeze gs = snd (on_link k (cam_req_mgr_process_sof_freeze env) gs)"

definition link_cb :: "crm_env \<Rightarrow> (nat \<Rightarrow> crm_task_payload) \<Rightarrow> nat \<Rightarrow> ptr \<Rightarrow> ptr \<Rightarrow> links \<Rightarrow> links" where
  "link_cb env mem cb priv payload gs = run_payload env (the priv) (mem (the payload)) gs"

definition cam_req_mgr_process_workq_link_worker :: "crm_env \<Rightarrow> nat \<Rightarrow> crm_state \<Rightarrow> crm_state option" where
  "cam_req_mgr_process_workq_link_worker env k s =
     (case cr_workq s k of
        None \<Rightarrow> Some s
      | Some w \<Rightarrow>
          map_option (\<lambda>(gs, w'). s\<lparr>cr_links := gs, cr_workq := (cr_workq s)(k := Some w')\<rparr>)
            (cam_req_mgr_process_workq (quiet (link_cb env (cr_payload s k))) (cr_links s, w)))"

text \<open>\<open>waited\<close> is what the wait for the completion of the task returns.\<close>

definition cam_req_mgr_flush_requests :: "int \<Rightarrow> int \<Rightarrow> int \<Rightarrow> cam_req_mgr_flush_info \<Rightarrow> crm_state \<Rightarrow> int \<times> crm_state" where
  "cam_req_mgr_flush_requests waited session_hdl link_hdl fi s =
     (if fl_flush_type fi \<ge> 2 then (- EINVAL, s)
      else (case session_of session_hdl s of
        None \<Rightarrow> (- EINVAL, s)
      | Some p \<Rightarrow>
          if ss_num_links (the (cr_session s p)) = 0 then (0, s)
          else (case link_of link_hdl s of
            None \<Rightarrow> (- EINVAL, s)
          | Some k \<Rightarrow>
              (case crm_post k (Pl_Flush fi) s of
                 (None, s1) \<Rightarrow> (- ENOMEM, s1)
               | (Some _, s1) \<Rightarrow> (waited, s1)))))"

text \<open>One turn of the loop of \<open>cam_req_mgr_link_control\<close>; \<open>mem\<close> says whether the timer is allocated.\<close>

definition control_link :: "bool \<Rightarrow> int \<Rightarrow> int \<Rightarrow> nat \<Rightarrow> int \<Rightarrow> crm_state \<Rightarrow> int \<times> crm_state" where
  "control_link mem ops init_timeout k rc s =
     (if ops = CAM_REQ_MGR_LINK_ACTIVATE then
        (let l = (cr_links s ! k)\<lparr>lk_state := CAM_CRM_LINK_STATE_READY,
                   lk_skip_init_frame := (init_timeout \<noteq> 0 \<or> lk_skip_init_frame (cr_links s ! k))\<rparr>;
             (rc1, l1) = crm_timer_init mem (2 * init_timeout + CAM_REQ_MGR_WATCHDOG_TIMEOUT) l;
             l2 = cam_req_mgr_send_evt 0 CAM_REQ_MGR_LINK_EVT_RESUME CRM_KMD_ERR_MAX
                    (l1\<lparr>lk_watchdog := map_option (\<lambda>t. t\<lparr>tm_pause_timer := True\<rparr>) (lk_watchdog l1)\<rparr>)
         in (if rc1 < 0 then - EFAULT else rc1,
             (at_link k (\<lambda>_. l2) s)\<lparr>cr_fault := cr_fault s \<or> lk_watchdog l1 = None\<rparr>))
      else if ops = CAM_REQ_MGR_LINK_DEACTIVATE then
        (rc, at_link k (\<lambda>l. crm_timer_exit ((cam_req_mgr_send_evt 0 CAM_REQ_MGR_LINK_EVT_PAUSE CRM_KMD_ERR_MAX l)
               \<lparr>lk_state := CAM_CRM_LINK_STATE_IDLE, lk_skip_init_frame := False\<rparr>)) s)
      else (- EINVAL, s))"

fun control_links :: "(nat \<Rightarrow> bool) \<Rightarrow> int \<Rightarrow> (int \<times> int) list \<Rightarrow> nat \<Rightarrow> int \<Rightarrow> crm_state \<Rightarrow> int \<times> crm_state" where
  "control_links mem ops [] i rc s = (rc, s)"
| "control_links mem ops ((h, init_timeout) # cs) i rc s =
     (case link_of h s of
        None \<Rightarrow> (- EINVAL, s)
      | Some k \<Rightarrow>
          let (rc1, s1) = control_link (mem i) ops init_timeout k rc s in control_links mem ops cs (Suc i) rc1 s1)"

definition cam_req_mgr_link_control :: "(nat \<Rightarrow> bool) \<Rightarrow> int \<Rightarrow> int \<Rightarrow> (int \<times> int) list \<Rightarrow> crm_state \<Rightarrow> int \<times> crm_state" where
  "cam_req_mgr_link_control mem ops num cs s =
     (if num \<le> 0 \<or> num > MAX_LINKS_PER_SESSION then (- EINVAL, s) else control_links mem ops (take (nat num) cs) 0 0 s)"

section \<open>Callbacks of the devices\<close>

text \<open>These find the link by its handle alone.\<close>

definition cam_req_mgr_cb_add_req :: "int \<Rightarrow> cam_req_mgr_add_request \<Rightarrow> crm_state \<Rightarrow> int \<times> crm_state" where
  "cam_req_mgr_cb_add_req link_hdl ad s =
     (case cam_get_link_priv (cr_tbl s) (hdl32 link_hdl) of
        None \<Rightarrow> (- EINVAL, s)
      | Some k \<Rightarrow>
         (case lk_in_q (cr_links s ! k) of
            None \<Rightarrow> (- EINVAL, s)
          | Some q \<Rightarrow>
              if cam_req_mgr_find_slot_for_req q (ad_req_id ad) < 0
              then (if ad_req_id ad mod 2 ^ 32 \<le> lk_last_flush_id (cr_links s ! k) then - EBADR else - ENOENT, s)
              else (case crm_post k (Pl_Add_Req ad) s of
                (None, s1) \<Rightarrow> (- EBUSY, s1)
              | (Some rc, s1) \<Rightarrow>
                  (rc, if ad_trigger_eof ad then at_link k (\<lambda>l. l\<lparr>lk_eof_event_cnt := lk_eof_event_cnt l + 1\<rparr>) s1 else s1))))"

text \<open>The code copies all of the error but its time stamp; \<open>stale\<close> is what the task had there.\<close>

definition cam_req_mgr_cb_notify_err :: "u64 \<Rightarrow> int \<Rightarrow> cam_req_mgr_error_notify \<Rightarrow> crm_state \<Rightarrow> int \<times> crm_state" where
  "cam_req_mgr_cb_notify_err stale link_hdl er s =
     (case cam_get_link_priv (cr_tbl s) (hdl32 link_hdl) of
        None \<Rightarrow> (- EINVAL, s)
      | Some k \<Rightarrow>
          if lk_state (cr_links s ! k) \<noteq> CAM_CRM_LINK_STATE_READY then (- EPERM, s)
          else (case crm_post k (Pl_Error (er\<lparr>er_sof_timestamp_val := stale\<rparr>)) (at_link k crm_timer_reset s) of
            (None, s1) \<Rightarrow> (- EBUSY, s1)
          | (Some rc, s1) \<Rightarrow> (rc, s1)))"

definition cam_req_mgr_check_for_dual_trigger :: "u32 \<Rightarrow> cam_req_mgr_core_link \<Rightarrow> int \<times> cam_req_mgr_core_link" where
  "cam_req_mgr_check_for_dual_trigger trigger l =
     (let c0 = lk_trigger_cnt l 0 trigger; c1 = lk_trigger_cnt l 1 trigger;
          zero = l\<lparr>lk_trigger_cnt := (\<lambda>i tp. if i < 2 \<and> tp = trigger then 0 else lk_trigger_cnt l i tp)\<rparr>
      in
      if c0 = c1 then (0, zero)
      else if c0 \<noteq> 0 \<and> c0 - c1 > 1 \<or> c1 \<noteq> 0 \<and> c1 - c0 > 1 then (- EAGAIN, zero)
      else (- EAGAIN, l))"

text \<open>\<open>state\<close> is whether the device wants the timer on.\<close>

definition cam_req_mgr_cb_notify_timer :: "int \<Rightarrow> bool \<Rightarrow> crm_state \<Rightarrow> int \<times> crm_state" where
  "cam_req_mgr_cb_notify_timer link_hdl state s =
     (case cam_get_link_priv (cr_tbl s) (hdl32 link_hdl) of
        None \<Rightarrow> (- EINVAL, s)
      | Some k \<Rightarrow>
          if link_below_ready (cr_links s ! k) then (- EPERM, s)
          else (0, at_link k (\<lambda>l. crm_timer_reset (l\<lparr>lk_watchdog := map_option (\<lambda>t. t\<lparr>tm_pause_timer := \<not> state\<rparr>) (lk_watchdog l)\<rparr>)) s))"

definition cam_req_mgr_cb_notify_stop :: "int \<Rightarrow> crm_state \<Rightarrow> int \<times> crm_state" where
  "cam_req_mgr_cb_notify_stop link_hdl s =
     (case cam_get_link_priv (cr_tbl s) (hdl32 link_hdl) of
        None \<Rightarrow> (- EINVAL, s)
      | Some k \<Rightarrow>
          if lk_state (cr_links s ! k) \<noteq> CAM_CRM_LINK_STATE_READY then (- EPERM, s)
          else
            let s1 = (at_link k (\<lambda>l. (crm_timer_reset l)\<lparr>lk_watchdog := map_option (\<lambda>t. t\<lparr>tm_pause_timer := True\<rparr>) (lk_watchdog l)\<rparr>) s)
                       \<lparr>cr_fault := cr_fault s \<or> lk_watchdog (cr_links s ! k) = None\<rparr>
            in (case crm_post k Pl_Stop s1 of (None, s2) \<Rightarrow> (- EBUSY, s2) | (Some rc, s2) \<Rightarrow> (rc, s2)))"

definition set_pause :: "bool \<Rightarrow> cam_req_mgr_core_link \<Rightarrow> cam_req_mgr_core_link" where
  "set_pause b l = l\<lparr>lk_watchdog := map_option (\<lambda>t. t\<lparr>tm_pause_timer := b\<rparr>) (lk_watchdog l)\<rparr>"

text \<open>Counting the triggers of a link with two trigger devices: only a code of 0 goes on.\<close>

definition count_trigger :: "int \<Rightarrow> u32 \<Rightarrow> cam_req_mgr_core_link \<Rightarrow> int \<times> cam_req_mgr_core_link" where
  "count_trigger trigger_id trigger l =
     (if \<not> lk_dual_trigger l then (0, l)
      else if 0 \<le> trigger_id \<and> trigger_id < int CAM_REQ_MGR_MAX_TRIGGERS
      then cam_req_mgr_check_for_dual_trigger trigger
             (l\<lparr>lk_trigger_cnt := (lk_trigger_cnt l)(nat trigger_id := (lk_trigger_cnt l (nat trigger_id))
                (trigger := lk_trigger_cnt l (nat trigger_id) trigger + 1))\<rparr>)
      else (- EINVAL, l))"

definition cam_req_mgr_cb_notify_trigger :: "int \<Rightarrow> int \<Rightarrow> cam_req_mgr_trigger_notify \<Rightarrow> crm_state \<Rightarrow> int \<times> crm_state" where
  "cam_req_mgr_cb_notify_trigger link_hdl trigger_id td s =
     (case cam_get_link_priv (cr_tbl s) (hdl32 link_hdl) of
        None \<Rightarrow> (- EINVAL, s)
      | Some k \<Rightarrow>
          let l = cr_links s ! k; trigger = tn_trigger td in
          if lk_eof_event_cnt l = 0 \<and> trigger = CAM_TRIGGER_POINT_EOF then (0, s)
          else if link_below_ready l then (- EPERM, s)
          else
            let (rc, l1) = count_trigger trigger_id trigger (if trigger = CAM_TRIGGER_POINT_SOF then set_pause False l else l) in
            if rc \<noteq> 0 then (rc, at_link k (\<lambda>_. l1) s)
            else
              (case crm_post k (Pl_Trigger td)
                      (at_link k (\<lambda>_. if trigger = CAM_TRIGGER_POINT_SOF then crm_timer_reset l1 else l1) s) of
                 (None, s1) \<Rightarrow> (- EBUSY, at_link k (set_pause True) s1)
               | (Some rc, s1) \<Rightarrow> (rc, s1)))"

text \<open>The timer expires.\<close>

definition cam_req_mgr_sof_freeze :: "nat \<Rightarrow> crm_state \<Rightarrow> crm_state" where
  "cam_req_mgr_sof_freeze k s = snd (crm_post k Pl_Freeze s)"

section \<open>The device\<close>

definition cam_req_mgr_core_device_init :: "bool \<Rightarrow> crm_state \<Rightarrow> int \<times> crm_state" where
  "cam_req_mgr_core_device_init mem s =
     (if cr_session_head s \<noteq> None then (0, s)
      else if \<not> mem then (- ENOMEM, s)
      else (0, s\<lparr>cr_session_head := Some [], cr_links := map (\<lambda>l. cam_req_mgr_core_link_reset (l\<lparr>lk_is_used := False\<rparr>)) (cr_links s),
                 cr_workq := (\<lambda>k. if k < MAXIMUM_LINKS_PER_SESSION then None else cr_workq s k)\<rparr>))"

definition cam_req_mgr_core_device_deinit :: "crm_state \<Rightarrow> int \<times> crm_state" where
  "cam_req_mgr_core_device_deinit s =
     (if cr_session_head s = None then (- EINVAL, s) else (0, s\<lparr>cr_session_head := None\<rparr>))"

end
