(* ===== verification/Crm_Ident.thy ===== *)
theory Crm_Ident imports Crm_Link begin

text \<open>
  What no task of the work queue changes: whether a link is in use, its session and its handle.
\<close>

named_theorems ident_simps \<open>operations that keep the identity of links\<close>

definition ident :: "cam_req_mgr_core_link \<Rightarrow> bool \<times> nat option \<times> int" where
  "ident l = (lk_is_used l, lk_parent l, lk_link_hdl l)"

definition idents :: "links \<Rightarrow> (bool \<times> nat option \<times> int) list" where
  "idents gs = map ident gs"

section \<open>Operations on one link\<close>

lemma ident_basic [ident_simps]:
  "ident (crm_emit es l) = ident l" "ident (in_q_upd f l) = ident l" "ident (dev_slot_upd pd i g l) = ident l"
  "ident (req_slot_ops_upd pd h l) = ident l" "ident (set_rd_status st l) = ident l" "ident (zero_triggers l) = ident l"
  "ident (crm_timer_reset l) = ident l" "ident (crm_timer_modify x l) = ident l" "ident (crm_timer_exit l) = ident l"
  "ident (snd (crm_timer_init m x l)) = ident l" "ident (advance_rd l) = ident l" "ident (sof_bookkeeping env td l) = ident l"
  "ident (set_pause b l) = ident l"
  by (simp_all add: ident_def crm_emit_def in_q_upd_def dev_slot_upd_def req_slot_ops_upd_def set_rd_status_def zero_triggers_def
      crm_timer_reset_def crm_timer_modify_def crm_timer_exit_def crm_timer_init_def advance_rd_def sof_bookkeeping_def
      set_pause_def split: option.splits)

lemma ident_fields [ident_simps]:
  "ident (l\<lparr>lk_num_devs := a\<rparr>) = ident l" "ident (l\<lparr>lk_max_delay := b\<rparr>) = ident l" "ident (l\<lparr>lk_min_delay := b\<rparr>) = ident l"
  "ident (l\<lparr>lk_pd_mask := c\<rparr>) = ident l" "ident (l\<lparr>lk_l_dev := d\<rparr>) = ident l" "ident (l\<lparr>lk_in_q := e\<rparr>) = ident l"
  "ident (l\<lparr>lk_l_tbl := f\<rparr>) = ident l" "ident (l\<lparr>lk_num_tbl := b\<rparr>) = ident l" "ident (l\<lparr>lk_apply_data := g\<rparr>) = ident l"
  "ident (l\<lparr>lk_prev_apply_data := g\<rparr>) = ident l" "ident (l\<lparr>lk_watchdog := h\<rparr>) = ident l" "ident (l\<lparr>lk_state := i\<rparr>) = ident l"
  "ident (l\<lparr>lk_sync_link := j\<rparr>) = ident l" "ident (l\<lparr>lk_num_sync_links := a\<rparr>) = ident l"
  "ident (l\<lparr>lk_sync_link_sof_skip := k\<rparr>) = ident l" "ident (l\<lparr>lk_open_req_cnt := c\<rparr>) = ident l"
  "ident (l\<lparr>lk_last_flush_id := b\<rparr>) = ident l" "ident (l\<lparr>lk_is_master := k\<rparr>) = ident l" "ident (l\<lparr>lk_initial_skip := k\<rparr>) = ident l"
  "ident (l\<lparr>lk_in_msync_mode := k\<rparr>) = ident l" "ident (l\<lparr>lk_initial_sync_req := b\<rparr>) = ident l"
  "ident (l\<lparr>lk_retry_cnt := c\<rparr>) = ident l" "ident (l\<lparr>lk_is_shutdown := k\<rparr>) = ident l" "ident (l\<lparr>lk_sof_timestamp := m\<rparr>) = ident l"
  "ident (l\<lparr>lk_prev_sof_timestamp := m\<rparr>) = ident l" "ident (l\<lparr>lk_dual_trigger := k\<rparr>) = ident l"
  "ident (l\<lparr>lk_trigger_cnt := n\<rparr>) = ident l" "ident (l\<lparr>lk_eof_event_cnt := b\<rparr>) = ident l"
  "ident (l\<lparr>lk_skip_init_frame := k\<rparr>) = ident l" "ident (l\<lparr>lk_last_sof_trigger_jiffies := m\<rparr>) = ident l"
  "ident (l\<lparr>lk_wq_congestion := k\<rparr>) = ident l" "ident (l\<lparr>lk_log := p\<rparr>) = ident l"
  by (simp_all add: ident_def)

lemma ident_fold: "(\<And>x l. ident (f x l) = ident l) \<Longrightarrow> ident (fold f xs l) = ident l"
  by (induction xs arbitrary: l) simp_all

lemma ident_notify [ident_simps]:
  "ident (frame_skip_dev tp d l) = ident l" "ident (cam_req_mgr_notify_frame_skip tp l) = ident l"
  "ident (cam_req_mgr_send_evt r e err l) = ident l" "ident (snd (cam_req_mgr_notify_error_on_link env d l)) = ident l"
  "ident (skip_one tp d l) = ident l"
proof -
  show f: "ident (frame_skip_dev tp d l) = ident l" for tp d l by (simp add: frame_skip_dev_def Let_def ident_simps)
  show "ident (cam_req_mgr_notify_frame_skip tp l) = ident l" by (simp add: cam_req_mgr_notify_frame_skip_def ident_fold f)
qed (simp_all add: cam_req_mgr_send_evt_def cam_req_mgr_notify_error_on_link_def skip_one_def Let_def ident_simps)

lemma ident_wd [ident_simps]: "ident (cam_req_mgr_validate_crm_wd_timer l) = ident l"
  by (simp add: cam_req_mgr_validate_crm_wd_timer_def Let_def ident_simps split: option.splits)

lemma ident_slots [ident_simps]:
  "ident (cam_req_mgr_flush_req_slot l) = ident l" "ident (cam_req_mgr_reset_req_slot i l) = ident l"
  "ident (cam_req_mgr_reset_apply_data l) = ident l" "ident (snd (inject_delay i tp l)) = ident l"
  "ident (snd (cam_req_mgr_check_link_is_ready i v l)) = ident l" "ident (snd (cam_req_mgr_check_next_req_slot l)) = ident l"
  by (simp_all add: cam_req_mgr_flush_req_slot_def cam_req_mgr_reset_req_slot_def cam_req_mgr_reset_apply_data_def inject_delay_def
      cam_req_mgr_check_link_is_ready_def cam_req_mgr_check_next_req_slot_def Let_def case_prod_beta ident_simps)

lemma ident_send_special [ident_simps]: "ident (snd (send_special env tp re ds l)) = ident l"
  by (induction ds arbitrary: tp l) (simp_all add: Let_def ident_simps)

lemma ident_send_regular [ident_simps]: "ident (snd (send_regular env tp re rc m v ds l)) = ident l"
  by (induction ds arbitrary: tp l re rc m v) (simp_all add: Let_def ident_simps)

lemma ident_send_req [ident_simps]: "ident (snd (snd (cam_req_mgr_send_req env tp l))) = ident l"
  by (simp add: cam_req_mgr_send_req_def Let_def case_prod_beta ident_simps split: special_result.splits option.splits)

lemma ident_tasks [ident_simps]:
  "ident (apply_failed env d l) = ident l" "ident (snd (process_not_ready rc tp l)) = ident l"
  "ident (cam_req_mgr_flush_dev_with_max_pd fi pd l) = ident l" "ident (cancel_slot fi i pd l) = ident l"
  "ident (snd (cam_req_mgr_try_cancel_req fi l)) = ident l" "ident (snd (cam_req_mgr_process_flush_req fi l)) = ident l"
  "ident (snd (cam_req_mgr_process_add_req ad l)) = ident l" "ident (bubble_link i l) = ident l"
  "ident (snd (cam_req_mgr_process_stop l)) = ident l" "ident (snd (cam_req_mgr_process_sof_freeze env l)) = ident l"
  by (simp_all add: apply_failed_def process_not_ready_def cam_req_mgr_flush_dev_with_max_pd_def cancel_slot_def
      cam_req_mgr_try_cancel_req_def cam_req_mgr_process_flush_req_def cam_req_mgr_process_add_req_def bubble_link_def
      cam_req_mgr_process_stop_def cam_req_mgr_process_sof_freeze_def Let_def ident_simps split: option.splits)

section \<open>Operations on the array\<close>

lemma idents_at [ident_simps]:
  "(\<And>l. ident (f l) = ident l) \<Longrightarrow> idents (link_upd k f gs) = idents gs"
  "ident l = ident (gs ! k) \<Longrightarrow> idents (gs[k := l]) = idents gs"
  "(\<And>l. ident (snd (g l)) = ident l) \<Longrightarrow> idents (snd (on_link k g gs)) = idents gs"
proof -
  show upd: "ident l = ident (gs ! k) \<Longrightarrow> idents (gs[k := l]) = idents gs" for l
    by (cases "k < length gs") (simp_all add: idents_def map_update list_update_same_conv list_update_beyond)
  show "(\<And>l. ident (f l) = ident l) \<Longrightarrow> idents (link_upd k f gs) = idents gs" by (simp add: link_upd_def upd)
  show "(\<And>l. ident (snd (g l)) = ident l) \<Longrightarrow> idents (snd (on_link k g gs)) = idents gs"
    by (simp add: on_link_def case_prod_beta Let_def upd)
qed

lemma idents_fold: "(\<And>x gs. idents (f x gs) = idents gs) \<Longrightarrow> idents (fold f xs gs) = idents gs"
  by (induction xs arbitrary: gs) simp_all

lemma idents_sync [ident_simps]:
  "idents (skip_sof k gs) = idents gs" "idents (snd (mslave_other_ready k j x gs)) = idents gs"
  "idents (snd (cam_req_mgr_check_sync_for_mslave k j slot gs)) = idents gs"
  "idents (snd (sync_correction k j slot tp i gs)) = idents gs" "idents (snd (sync_both_ready k j slot tp i gs)) = idents gs"
  "idents (snd (cam_req_mgr_check_sync_req_is_ready k j slot tp gs)) = idents gs"
proof -
  show s: "idents (skip_sof k gs) = idents gs" for k gs by (simp add: skip_sof_def ident_simps)
  show m: "idents (snd (mslave_other_ready k j x gs)) = idents gs" for k j x gs
    by (simp add: mslave_other_ready_def Let_def case_prod_beta ident_simps s)
  show "idents (snd (cam_req_mgr_check_sync_for_mslave k j slot gs)) = idents gs"
    by (simp add: cam_req_mgr_check_sync_for_mslave_def Let_def case_prod_beta ident_simps s m)
  show c: "idents (snd (sync_correction k j slot tp i gs)) = idents gs" for k j slot tp i gs
    by (simp add: sync_correction_def Let_def s)
  show b: "idents (snd (sync_both_ready k j slot tp i gs)) = idents gs" for k j slot tp i gs
    by (simp add: sync_both_ready_def Let_def case_prod_beta ident_simps s c)
  show "idents (snd (cam_req_mgr_check_sync_req_is_ready k j slot tp gs)) = idents gs"
    by (simp add: cam_req_mgr_check_sync_req_is_ready_def Let_def case_prod_beta ident_simps s b)
qed

lemma idents_sync_links [ident_simps]: "idents (snd (sync_links_ready k slot tp js gs)) = idents gs"
proof (induction js arbitrary: gs)
  case (Cons j js)
  then show ?case by (cases j) (simp_all add: Let_def case_prod_beta ident_simps)
qed simp

lemma idents_ready [ident_simps]:
  "idents (snd (cam_req_mgr_check_multi_sync_link_ready k slot tp gs)) = idents gs" "idents (leave_msync k gs) = idents gs"
  "idents (snd (req_ready k slot tp gs)) = idents gs"
proof -
  show m: "idents (snd (cam_req_mgr_check_multi_sync_link_ready k slot tp gs)) = idents gs"
    by (simp add: cam_req_mgr_check_multi_sync_link_ready_def Let_def case_prod_beta ident_simps)
  show l: "idents (leave_msync k gs) = idents gs" for k gs
    unfolding leave_msync_def by (auto intro!: trans [OF idents_fold] simp: ident_simps split: option.splits)
  show "idents (snd (req_ready k slot tp gs)) = idents gs"
    by (simp add: req_ready_def Let_def case_prod_beta ident_simps l m)
qed

lemma idents_process [ident_simps]:
  "idents (apply_done k tp eof gs) = idents gs" "idents (snd (process_send env k tp eof gs)) = idents gs"
  "idents (snd (process_body env k td gs)) = idents gs" "idents (snd (cam_req_mgr_process_req env k td gs)) = idents gs"
proof -
  show d: "idents (apply_done k tp eof gs) = idents gs" for k tp eof gs
    by (simp add: apply_done_def Let_def ident_simps)
  show s: "idents (snd (process_send env k tp eof gs)) = idents gs" for tp eof gs
    by (simp add: process_send_def Let_def case_prod_beta ident_simps d)
  show b: "idents (snd (process_body env k td gs)) = idents gs"
    by (simp add: process_body_def Let_def case_prod_beta ident_simps s)
  show "idents (snd (cam_req_mgr_process_req env k td gs)) = idents gs"
    by (simp add: cam_req_mgr_process_req_def Let_def case_prod_beta ident_simps b)
qed

lemma idents_trigger [ident_simps]:
  "idents (trigger_reset k td gs) = idents gs" "idents (snd (cam_req_mgr_process_trigger env k td gs)) = idents gs"
  "idents (snd (cam_req_mgr_process_error env k er gs)) = idents gs" "idents (snd (cam_req_mgr_process_sched_req k sq gs)) = idents gs"
proof -
  show t: "idents (trigger_reset k td gs) = idents gs" by (simp add: trigger_reset_def Let_def ident_simps)
  show "idents (snd (cam_req_mgr_process_trigger env k td gs)) = idents gs"
    by (simp add: cam_req_mgr_process_trigger_def Let_def case_prod_beta ident_simps t)
  show "idents (snd (cam_req_mgr_process_error env k er gs)) = idents gs"
    by (simp add: cam_req_mgr_process_error_def cam_req_mgr_apply_on_bubble_def Let_def ident_simps split: crm_device_error.splits)
  show "idents (snd (cam_req_mgr_process_sched_req k sq gs)) = idents gs"
    unfolding cam_req_mgr_process_sched_req_def Let_def
    by (auto intro!: trans [OF idents_fold] simp: ident_simps split: option.splits)
qed

lemma idents_payload [ident_simps]: "idents (run_payload env k pl gs) = idents gs"
  by (cases pl) (simp_all add: ident_simps)

end
