(* ===== verification/Crm_Owner.thy ===== *)
theory Crm_Owner imports Crm_Ident begin

text \<open>
  Who owns what: sessions, links and handles point to each other. The invariant is stated on the
  map the handle table stands for, the sessions and the identities of the links; its lemmas are
  the steps the calls from user space are made of.
\<close>

section \<open>The invariant\<close>

type_synonym link_ids = "(bool \<times> nat option \<times> int) list"
type_synonym sessions = "nat \<Rightarrow> cam_req_mgr_core_session option"

abbreviation id_used :: "link_ids \<Rightarrow> nat \<Rightarrow> bool" where "id_used ids k \<equiv> fst (ids ! k)"
abbreviation id_parent :: "link_ids \<Rightarrow> nat \<Rightarrow> nat option" where "id_parent ids k \<equiv> fst (snd (ids ! k))"
abbreviation id_hdl :: "link_ids \<Rightarrow> nat \<Rightarrow> int" where "id_hdl ids k \<equiv> snd (snd (ids ! k))"

text \<open>A session lists links that are in use and its own, each once, and counts them.\<close>

definition sess_ok :: "link_ids \<Rightarrow> nat \<Rightarrow> cam_req_mgr_core_session \<Rightarrow> bool" where
  "sess_ok ids p ss \<longleftrightarrow> length (ss_links ss) = 4 \<and> ss_num_links ss = length (filter (\<lambda>e. e \<noteq> None) (ss_links ss)) \<and>
     distinct (filter (\<lambda>e. e \<noteq> None) (ss_links ss)) \<and>
     (\<forall>k. Some k \<in> set (ss_links ss) \<longrightarrow> k < 4 \<and> id_used ids k \<and> id_parent ids k = Some p)"

text \<open>A row of the table for a session, or for a link.\<close>

definition session_row :: "(u32 \<Rightarrow> handle option) \<Rightarrow> int \<Rightarrow> nat \<Rightarrow> bool" where
  "session_row m h p \<longleftrightarrow> (\<exists>r. m (hdl32 h) = Some r \<and> h_type r = HDL_TYPE_SESSION \<and> h_priv r = Some p)"

definition link_row :: "(u32 \<Rightarrow> handle option) \<Rightarrow> int \<Rightarrow> nat \<Rightarrow> bool" where
  "link_row m h k \<longleftrightarrow> (\<exists>r. m (hdl32 h) = Some r \<and> h_type r = HDL_TYPE_LINK \<and> h_priv r = Some k)"

text \<open>The links of \<open>X\<close> have no handle: they are being set up or taken apart.\<close>

definition owner_inv :: "nat set \<Rightarrow> sessions \<Rightarrow> link_ids \<Rightarrow> (u32 \<Rightarrow> handle option) \<Rightarrow> bool" where
  "owner_inv X sess ids m \<longleftrightarrow> length ids = 4 \<and>
     (\<forall>h r. m h = Some r \<and> h_type r = HDL_TYPE_SESSION \<longrightarrow>
        (\<exists>p ss. h_priv r = Some p \<and> sess p = Some ss \<and> ss_session_hdl ss = sint h)) \<and>
     (\<forall>h r. m h = Some r \<and> h_type r = HDL_TYPE_LINK \<longrightarrow>
        (\<exists>k. h_priv r = Some k \<and> k < 4 \<and> k \<notin> X \<and> id_parent ids k \<noteq> None \<and> id_hdl ids k = sint h)) \<and>
     (\<forall>p ss. sess p = Some ss \<longrightarrow> sess_ok ids p ss \<and> session_row m (ss_session_hdl ss) p) \<and>
     (\<forall>k p. k < 4 \<and> id_parent ids k = Some p \<longrightarrow>
        id_used ids k \<and> (\<exists>ss. sess p = Some ss \<and> Some k \<in> set (ss_links ss)) \<and> (k \<notin> X \<longrightarrow> link_row m (id_hdl ids k) k))"

lemma hdl32_sint [simp]: "hdl32 (sint h) = h"
  by (simp add: hdl32_def)

lemma owner_invD:
  assumes "owner_inv X sess ids m"
  shows "length ids = 4"
    "m h = Some r \<Longrightarrow> h_type r = HDL_TYPE_SESSION \<Longrightarrow> \<exists>p ss. h_priv r = Some p \<and> sess p = Some ss \<and> ss_session_hdl ss = sint h"
    "m h = Some r \<Longrightarrow> h_type r = HDL_TYPE_LINK \<Longrightarrow> \<exists>k. h_priv r = Some k \<and> k < 4 \<and> k \<notin> X \<and> id_parent ids k \<noteq> None \<and> id_hdl ids k = sint h"
    "sess p = Some ss \<Longrightarrow> sess_ok ids p ss" "sess p = Some ss \<Longrightarrow> session_row m (ss_session_hdl ss) p"
    "k < 4 \<Longrightarrow> id_parent ids k = Some p \<Longrightarrow> id_used ids k"
    "k < 4 \<Longrightarrow> id_parent ids k = Some p \<Longrightarrow> \<exists>ss. sess p = Some ss \<and> Some k \<in> set (ss_links ss)"
    "k < 4 \<Longrightarrow> id_parent ids k = Some p \<Longrightarrow> k \<notin> X \<Longrightarrow> link_row m (id_hdl ids k) k"
  using assms unfolding owner_inv_def by blast+

lemma owner_invI:
  assumes "length ids = 4"
    "\<And>h r. m h = Some r \<Longrightarrow> h_type r = HDL_TYPE_SESSION \<Longrightarrow> \<exists>p ss. h_priv r = Some p \<and> sess p = Some ss \<and> ss_session_hdl ss = sint h"
    "\<And>h r. m h = Some r \<Longrightarrow> h_type r = HDL_TYPE_LINK \<Longrightarrow> \<exists>k. h_priv r = Some k \<and> k < 4 \<and> k \<notin> X \<and> id_parent ids k \<noteq> None \<and> id_hdl ids k = sint h"
    "\<And>p ss. sess p = Some ss \<Longrightarrow> sess_ok ids p ss" "\<And>p ss. sess p = Some ss \<Longrightarrow> session_row m (ss_session_hdl ss) p"
    "\<And>k p. k < 4 \<Longrightarrow> id_parent ids k = Some p \<Longrightarrow> id_used ids k"
    "\<And>k p. k < 4 \<Longrightarrow> id_parent ids k = Some p \<Longrightarrow> \<exists>ss. sess p = Some ss \<and> Some k \<in> set (ss_links ss)"
    "\<And>k p. k < 4 \<Longrightarrow> id_parent ids k = Some p \<Longrightarrow> k \<notin> X \<Longrightarrow> link_row m (id_hdl ids k) k"
  shows "owner_inv X sess ids m"
  using assms unfolding owner_inv_def by blast

section \<open>Steps of the links\<close>

text \<open>A link in no session can change as long as it stays out of sessions.\<close>

lemma owner_orphan:
  assumes "owner_inv X sess ids m" "k < 4" "id_parent ids k = None"
  shows "owner_inv X sess (ids[k := (u, None, h)]) m"
proof -
  note o = owner_invD [OF assms(1)]
  have nth: "ids[k := (u, None, h)] ! j = (if j = k then (u, None, h) else ids ! j)" if "j < 4" for j
    using that o(1) assms(2) by simp
  show ?thesis
  proof (rule owner_invI)
    show "\<exists>j. h_priv r = Some j \<and> j < 4 \<and> j \<notin> X \<and> id_parent (ids[k := (u, None, h)]) j \<noteq> None \<and> id_hdl (ids[k := (u, None, h)]) j = sint x"
      if "m x = Some r" "h_type r = HDL_TYPE_LINK" for x r
      using o(3) [OF that] assms(3) by (auto simp: nth)
    show "sess_ok (ids[k := (u, None, h)]) p ss" if "sess p = Some ss" for p ss
      using o(4) [OF that] assms(3) by (auto simp: sess_ok_def nth)
  qed (use o assms in \<open>auto simp: nth split: if_splits\<close>)
qed

text \<open>A link without a session joins one, without a handle yet.\<close>

lemma owner_join:
  assumes inv: "owner_inv X sess ids m" and k: "k < 4" "id_parent ids k = None"
    and p: "sess p = Some ss" and i: "i < 4" "ss_links ss ! i = None"
  shows "owner_inv (insert k X) (sess(p \<mapsto> ss\<lparr>ss_links := (ss_links ss)[i := Some k], ss_num_links := ss_num_links ss + 1\<rparr>))
    (ids[k := (True, Some p, h)]) m"
    (is "owner_inv _ (sess(p \<mapsto> ?ss)) ?ids m")
proof -
  note o = owner_invD [OF inv]
  have nth: "?ids ! j = (if j = k then (True, Some p, h) else ids ! j)" if "j < 4" for j using that o(1) k(1) by simp
  have ok: "sess_ok ids p ss" by (rule o(4) [OF p])
  have len: "length (ss_links ss) = 4" using ok by (simp add: sess_ok_def)
  have notin: "Some k \<notin> set (ss_links ss')" if "sess q = Some ss'" for q ss'
    using o(4) [OF that] k(2) by (auto simp: sess_ok_def)
  have split: "ss_links ss = take i (ss_links ss) @ None # drop (Suc i) (ss_links ss)"
    using id_take_nth_drop [of i "ss_links ss"] i len by simp
  have upd: "(ss_links ss)[i := Some k] = take i (ss_links ss) @ Some k # drop (Suc i) (ss_links ss)"
    using i len by (simp add: upd_conv_take_nth_drop)
  have new: "filter (\<lambda>e. e \<noteq> None) (ss_links ?ss) =
      filter (\<lambda>e. e \<noteq> None) (take i (ss_links ss)) @ Some k # filter (\<lambda>e. e \<noteq> None) (drop (Suc i) (ss_links ss))"
    "filter (\<lambda>e. e \<noteq> None) (ss_links ss) =
      filter (\<lambda>e. e \<noteq> None) (take i (ss_links ss)) @ filter (\<lambda>e. e \<noteq> None) (drop (Suc i) (ss_links ss))"
    using upd by (simp, subst split, simp)
  have set: "set ((ss_links ss)[i := Some k]) \<subseteq> insert (Some k) (set (ss_links ss))" by (rule set_update_subset_insert)
  have mem: "Some j \<in> set (ss_links ss) \<Longrightarrow> Some j \<in> set ((ss_links ss)[i := Some k])" for j
  proof -
    assume "Some j \<in> set (ss_links ss)"
    then have "Some j \<in> set (take i (ss_links ss) @ None # drop (Suc i) (ss_links ss))" using split by simp
    then show "Some j \<in> set ((ss_links ss)[i := Some k])" unfolding upd by simp
  qed
  show ?thesis
  proof (rule owner_invI)
    show "length ?ids = 4" using o(1) by simp
    show "\<exists>q s'. h_priv r = Some q \<and> (sess(p \<mapsto> ?ss)) q = Some s' \<and> ss_session_hdl s' = sint x"
      if "m x = Some r" "h_type r = HDL_TYPE_SESSION" for x r
      using o(2) [OF that] p by auto
    show "\<exists>j. h_priv r = Some j \<and> j < 4 \<and> j \<notin> insert k X \<and> id_parent ?ids j \<noteq> None \<and> id_hdl ?ids j = sint x"
      if "m x = Some r" "h_type r = HDL_TYPE_LINK" for x r
      using o(3) [OF that] k by (auto simp: nth)
    show "sess_ok ?ids q s'" if q: "(sess(p \<mapsto> ?ss)) q = Some s'" for q s'
    proof (cases "q = p")
      case True
      then have s': "s' = ?ss" using q by simp
      have "distinct (filter (\<lambda>e. e \<noteq> None) (ss_links ?ss))"
        using ok notin [OF p] unfolding new sess_ok_def by (auto simp: new dest: in_set_takeD in_set_dropD)
      then show ?thesis using True ok set k new unfolding s' sess_ok_def by (auto simp: nth)
    next
      case False
      then have "sess q = Some s'" using q by simp
      then show ?thesis using o(4) notin by (fastforce simp: sess_ok_def nth)
    qed
    show "session_row m (ss_session_hdl s') q" if q: "(sess(p \<mapsto> ?ss)) q = Some s'" for q s'
      using that o(5) p by (auto split: if_splits)
    show "\<exists>s'. (sess(p \<mapsto> ?ss)) q = Some s' \<and> Some j \<in> set (ss_links s')" if "j < 4" "id_parent ?ids j = Some q" for j q
    proof (cases "j = k")
      case True
      then show ?thesis using that k i len by (auto simp: nth intro: set_update_memI)
    next
      case False
      then have "id_parent ids j = Some q" using that by (simp add: nth)
      with o(7) [OF that(1)] obtain s' where "sess q = Some s'" "Some j \<in> set (ss_links s')" by blast
      then show ?thesis using mem p by auto
    qed
  qed (use o in \<open>auto simp: nth split: if_splits\<close>)
qed

text \<open>The link gets its handle.\<close>

lemma owner_grant:
  assumes inv: "owner_inv X sess ids m" and k: "k < 4" "k \<in> X" "id_parent ids k = Some p"
    and r: "m h = None" "h_type r = HDL_TYPE_LINK" "h_priv r = Some k"
  shows "owner_inv (X - {k}) sess (ids[k := (True, Some p, sint h)]) (m(h \<mapsto> r))"
    (is "owner_inv _ _ ?ids _")
proof -
  note o = owner_invD [OF inv]
  have nth: "?ids ! j = (if j = k then (True, Some p, sint h) else ids ! j)" if "j < 4" for j using that o(1) k(1) by simp
  have row: "link_row m x j \<Longrightarrow> link_row (m(h \<mapsto> r)) x j" "session_row m x j \<Longrightarrow> session_row (m(h \<mapsto> r)) x j" for x j
    using r by (auto simp: link_row_def session_row_def)
  show ?thesis
  proof (rule owner_invI)
    show "sess_ok ?ids q s'" if "sess q = Some s'" for q s'
      using o(4) [OF that] k(3) by (fastforce simp: sess_ok_def nth)
    show "\<exists>q ss. h_priv r' = Some q \<and> sess q = Some ss \<and> ss_session_hdl ss = sint x"
      if "(m(h \<mapsto> r)) x = Some r'" "h_type r' = HDL_TYPE_SESSION" for x r'
      using that o(2) r by (auto split: if_splits)
    show "\<exists>j. h_priv r' = Some j \<and> j < 4 \<and> j \<notin> X - {k} \<and> id_parent ?ids j \<noteq> None \<and> id_hdl ?ids j = sint x"
      if "(m(h \<mapsto> r)) x = Some r'" "h_type r' = HDL_TYPE_LINK" for x r'
    proof (cases "x = h")
      case True
      then show ?thesis using that r k by (auto simp: nth)
    next
      case False
      then have "m x = Some r'" using that by simp
      from o(3) [OF this that(2)] k(2) show ?thesis by (auto simp: nth)
    qed
    show "link_row (m(h \<mapsto> r)) (id_hdl ?ids j) j" if "j < 4" "id_parent ?ids j = Some q" "j \<notin> X - {k}" for j q
    proof (cases "j = k")
      case True
      then show ?thesis using r k by (simp add: nth link_row_def)
    next
      case False
      then show ?thesis using that o(8) [of j q] row by (simp add: nth)
    qed
  qed (use o row k in \<open>auto simp: nth split: if_splits\<close>)
qed

text \<open>The handle of a link is destroyed.\<close>

lemma owner_revoke:
  assumes inv: "owner_inv X sess ids m" and k: "k < 4" "k \<notin> X" "id_parent ids k = Some p"
  shows "owner_inv (insert k X) sess (ids[k := (True, Some p, h)]) (m(hdl32 (id_hdl ids k) := None))"
    (is "owner_inv _ _ ?ids ?m")
proof -
  note o = owner_invD [OF inv]
  have nth: "?ids ! j = (if j = k then (True, Some p, h) else ids ! j)" if "j < 4" for j using that o(1) k(1) by simp
  obtain r where r: "m (hdl32 (id_hdl ids k)) = Some r" "h_type r = HDL_TYPE_LINK" "h_priv r = Some k"
    using o(8) [OF k(1) k(3) k(2)] by (auto simp: link_row_def)
  show ?thesis
  proof (rule owner_invI)
    show "sess_ok ?ids q s'" if "sess q = Some s'" for q s'
      using o(4) [OF that] k(3) by (fastforce simp: sess_ok_def nth)
    show "session_row ?m (ss_session_hdl s') q" if "sess q = Some s'" for q s'
      using o(5) [OF that] r by (auto simp: session_row_def)
    show "\<exists>j. h_priv r' = Some j \<and> j < 4 \<and> j \<notin> insert k X \<and> id_parent ?ids j \<noteq> None \<and> id_hdl ?ids j = sint x"
      if x: "?m x = Some r'" "h_type r' = HDL_TYPE_LINK" for x r'
    proof -
      have "m x = Some r'" "x \<noteq> hdl32 (id_hdl ids k)" using x by (auto split: if_splits)
      with o(3) [OF _ x(2)] obtain j where "h_priv r' = Some j" "j < 4" "j \<notin> X" "id_parent ids j \<noteq> None" "id_hdl ids j = sint x" by blast
      moreover have "j \<noteq> k" using calculation \<open>x \<noteq> _\<close> by auto
      ultimately show ?thesis by (auto simp: nth)
    qed
    show "link_row ?m (id_hdl ?ids j) j" if "j < 4" "id_parent ?ids j = Some q" "j \<notin> insert k X" for j q
    proof -
      have "link_row m (id_hdl ids j) j" using that o(8) [of j q] by (simp add: nth)
      then show ?thesis using r that by (auto simp: link_row_def nth)
    qed
  qed (use o k in \<open>auto simp: nth split: if_splits\<close>)
qed

text \<open>The handle of a link that has none is not looked at.\<close>

lemma owner_rehandle:
  assumes inv: "owner_inv X sess ids m" and k: "k < 4" "k \<in> X" "id_parent ids k = Some p"
  shows "owner_inv X sess (ids[k := (True, Some p, h)]) m" (is "owner_inv _ _ ?ids _")
proof -
  note o = owner_invD [OF inv]
  have nth: "?ids ! j = (if j = k then (True, Some p, h) else ids ! j)" if "j < 4" for j using that o(1) k(1) by simp
  show ?thesis
  proof (rule owner_invI)
    show "sess_ok ?ids q s'" if "sess q = Some s'" for q s'
      using o(4) [OF that] k(3) by (fastforce simp: sess_ok_def nth)
    show "\<exists>j. h_priv r = Some j \<and> j < 4 \<and> j \<notin> X \<and> id_parent ?ids j \<noteq> None \<and> id_hdl ?ids j = sint x"
      if x: "m x = Some r" "h_type r = HDL_TYPE_LINK" for x r
    proof -
      obtain j where j: "h_priv r = Some j" "j < 4" "j \<notin> X" "id_parent ids j \<noteq> None" "id_hdl ids j = sint x" using o(3) [OF x] by blast
      then have "j \<noteq> k" using k(2) by auto
      with j show ?thesis by (auto simp: nth)
    qed
  qed (use o k in \<open>auto simp: nth split: if_splits\<close>)
qed

text \<open>The link leaves its session and becomes free.\<close>

definition drop_link :: "nat \<Rightarrow> nat option list \<Rightarrow> nat option list" where
  "drop_link k es = map (\<lambda>e. if e = Some k then None else e) es"

lemma drop_link_filter: "filter (\<lambda>e. e \<noteq> None) (drop_link k es) = removeAll (Some k) (filter (\<lambda>e. e \<noteq> None) es)"
  by (induction es) (auto simp: drop_link_def)

lemma owner_leave:
  assumes inv: "owner_inv X sess ids m" and k: "k < 4" "k \<in> X" "id_parent ids k = Some p" and p: "sess p = Some ss"
  shows "owner_inv (X - {k}) (sess(p \<mapsto> ss\<lparr>ss_links := drop_link k (ss_links ss), ss_num_links := ss_num_links ss - 1\<rparr>))
    (ids[k := (u, None, h)]) m"
    (is "owner_inv _ (sess(p \<mapsto> ?ss)) ?ids m")
proof -
  note o = owner_invD [OF inv]
  have nth: "?ids ! j = (if j = k then (u, None, h) else ids ! j)" if "j < 4" for j using that o(1) k(1) by simp
  have ok: "sess_ok ids p ss" by (rule o(4) [OF p])
  have in_p: "Some k \<in> set (ss_links ss)" using o(7) [OF k(1,3)] p by auto
  have mem: "Some j \<in> set (drop_link k es) \<longleftrightarrow> Some j \<in> set es \<and> j \<noteq> k" for j es by (auto simp: drop_link_def)
  have other: "Some k \<notin> set (ss_links s')" if "sess q = Some s'" "q \<noteq> p" for q s'
    using o(4) [OF that(1)] k(3) that(2) by (auto simp: sess_ok_def)
  show ?thesis
  proof (rule owner_invI)
    show "length ?ids = 4" using o(1) by simp
    show "\<exists>q s'. h_priv r = Some q \<and> (sess(p \<mapsto> ?ss)) q = Some s' \<and> ss_session_hdl s' = sint x"
      if "m x = Some r" "h_type r = HDL_TYPE_SESSION" for x r
      using o(2) [OF that] p by auto
    show "\<exists>j. h_priv r = Some j \<and> j < 4 \<and> j \<notin> X - {k} \<and> id_parent ?ids j \<noteq> None \<and> id_hdl ?ids j = sint x"
      if x: "m x = Some r" "h_type r = HDL_TYPE_LINK" for x r
    proof -
      obtain j where j: "h_priv r = Some j" "j < 4" "j \<notin> X" "id_parent ids j \<noteq> None" "id_hdl ids j = sint x" using o(3) [OF x] by blast
      then have "j \<noteq> k" using k(2) by auto
      with j show ?thesis by (auto simp: nth)
    qed
    show "sess_ok ?ids q s'" if q: "(sess(p \<mapsto> ?ss)) q = Some s'" for q s'
    proof (cases "q = p")
      case True
      let ?es = "filter (\<lambda>e. e \<noteq> None) (ss_links ss)"
      have s': "s' = ?ss" using q True by simp
      have d: "distinct ?es" "Some k \<in> set ?es" using ok in_p by (simp_all add: sess_ok_def)
      have "length (removeAll (Some k) ?es) = length ?es - 1" using d by (simp add: distinct_remove1_removeAll [symmetric] length_remove1)
      moreover have "distinct (removeAll (Some k) ?es)" using d by (simp add: distinct_removeAll)
      moreover have "length (drop_link k (ss_links ss)) = 4" using ok by (simp add: drop_link_def sess_ok_def)
      ultimately show ?thesis using ok True unfolding s' sess_ok_def by (auto simp: drop_link_filter [simplified] mem nth)
    next
      case False
      then have s: "sess q = Some s'" using q by simp
      then show ?thesis using o(4) [OF s] other [OF s False] by (auto simp: sess_ok_def nth)
    qed
    show "session_row m (ss_session_hdl s') q" if q: "(sess(p \<mapsto> ?ss)) q = Some s'" for q s'
      using that o(5) p by (auto split: if_splits)
    show "\<exists>s'. (sess(p \<mapsto> ?ss)) q = Some s' \<and> Some j \<in> set (ss_links s')" if "j < 4" "id_parent ?ids j = Some q" for j q
    proof -
      have j: "j \<noteq> k" "id_parent ids j = Some q" using that by (auto simp: nth split: if_splits)
      with o(7) [OF that(1)] obtain s' where "sess q = Some s'" "Some j \<in> set (ss_links s')" by blast
      then show ?thesis using j p by (auto simp: mem)
    qed
  qed (use o in \<open>auto simp: nth split: if_splits\<close>)
qed

section \<open>Steps of the sessions\<close>

lemma owner_new_session:
  assumes inv: "owner_inv X sess ids m" and p: "sess p = None" and r: "m h = None" "h_type r = HDL_TYPE_SESSION" "h_priv r = Some p"
    and ss: "ss_session_hdl ss = sint h" "ss_num_links ss = 0" "ss_links ss = replicate 4 None"
  shows "owner_inv X (sess(p \<mapsto> ss)) ids (m(h \<mapsto> r))"
proof -
  note o = owner_invD [OF inv]
  have row: "link_row m x j \<Longrightarrow> link_row (m(h \<mapsto> r)) x j" "session_row m x j \<Longrightarrow> session_row (m(h \<mapsto> r)) x j" for x j
    using r by (auto simp: link_row_def session_row_def)
  show ?thesis
  proof (rule owner_invI)
    show "\<exists>q s'. h_priv r' = Some q \<and> (sess(p \<mapsto> ss)) q = Some s' \<and> ss_session_hdl s' = sint x"
      if "(m(h \<mapsto> r)) x = Some r'" "h_type r' = HDL_TYPE_SESSION" for x r'
    proof (cases "x = h")
      case False
      then have "m x = Some r'" using that by simp
      from o(2) [OF this that(2)] p show ?thesis by fastforce
    qed (use that r ss in auto)
    show "\<exists>j. h_priv r' = Some j \<and> j < 4 \<and> j \<notin> X \<and> id_parent ids j \<noteq> None \<and> id_hdl ids j = sint x"
      if "(m(h \<mapsto> r)) x = Some r'" "h_type r' = HDL_TYPE_LINK" for x r'
      using that o(3) r by (auto split: if_splits)
    show "sess_ok ids q s'" if "(sess(p \<mapsto> ss)) q = Some s'" for q s'
      using that o(4) ss by (auto simp: sess_ok_def split: if_splits)
    show "session_row (m(h \<mapsto> r)) (ss_session_hdl s') q" if "(sess(p \<mapsto> ss)) q = Some s'" for q s'
    proof (cases "q = p")
      case True
      then show ?thesis using that r ss by (auto simp: session_row_def)
    next
      case False
      then show ?thesis using that o(5) [of q s'] row by simp
    qed
    show "\<exists>s'. (sess(p \<mapsto> ss)) q = Some s' \<and> Some j \<in> set (ss_links s')" if "j < 4" "id_parent ids j = Some q" for j q
      using o(7) [OF that] p by fastforce
  qed (use o row in auto)
qed

lemma owner_end_session:
  assumes inv: "owner_inv X sess ids m" and p: "sess p = Some ss" "\<forall>k. Some k \<notin> set (ss_links ss)"
  shows "owner_inv X (sess(p := None)) ids (m(hdl32 (ss_session_hdl ss) := None))"
proof -
  note o = owner_invD [OF inv]
  let ?h = "hdl32 (ss_session_hdl ss)"
  obtain r where r: "m ?h = Some r" "h_type r = HDL_TYPE_SESSION" "h_priv r = Some p" using o(5) [OF p(1)] by (auto simp: session_row_def)
  have mine: "ss_session_hdl ss = sint ?h" using o(2) [OF r(1,2)] r(3) p(1) by auto
  have no: "id_parent ids k \<noteq> Some p" if "k < 4" for k using o(7) [OF that, of p] p by auto
  show ?thesis
  proof (rule owner_invI)
    show "\<exists>q s'. h_priv r' = Some q \<and> (sess(p := None)) q = Some s' \<and> ss_session_hdl s' = sint x"
      if x: "(m(?h := None)) x = Some r'" "h_type r' = HDL_TYPE_SESSION" for x r'
    proof -
      have "m x = Some r'" "x \<noteq> ?h" using x by (auto split: if_splits)
      with o(2) [OF _ x(2)] obtain q s' where q: "h_priv r' = Some q" "sess q = Some s'" "ss_session_hdl s' = sint x" by blast
      have "q \<noteq> p"
      proof
        assume "q = p"
        then have "sint x = sint ?h" using q p(1) mine by simp
        then have "x = ?h" by (metis hdl32_sint)
        with \<open>x \<noteq> ?h\<close> show False by simp
      qed
      with q show ?thesis by auto
    qed
    show "\<exists>j. h_priv r' = Some j \<and> j < 4 \<and> j \<notin> X \<and> id_parent ids j \<noteq> None \<and> id_hdl ids j = sint x"
      if "(m(?h := None)) x = Some r'" "h_type r' = HDL_TYPE_LINK" for x r'
      using that o(3) by (auto split: if_splits)
    show "session_row (m(?h := None)) (ss_session_hdl s') q" if q: "(sess(p := None)) q = Some s'" for q s'
    proof -
      have "q \<noteq> p" "session_row m (ss_session_hdl s') q" using q o(5) by (auto split: if_splits)
      then show ?thesis using r by (auto simp: session_row_def)
    qed
    show "\<exists>s'. (sess(p := None)) q = Some s' \<and> Some j \<in> set (ss_links s')" if "j < 4" "id_parent ids j = Some q" for j q
      using o(7) [OF that] no that by auto
    show "link_row (m(?h := None)) (id_hdl ids j) j" if "j < 4" "id_parent ids j = Some q" "j \<notin> X" for j q
      using o(8) [OF that] r by (auto simp: link_row_def)
  qed (use o in \<open>auto split: if_splits\<close>)
qed

text \<open>What else of a session may change, and what other drivers do with handles of devices.\<close>

lemma owner_session_keep:
  assumes "owner_inv X sess ids m" "\<And>p. map_option (\<lambda>ss. (ss_session_hdl ss, ss_num_links ss, ss_links ss)) (sess' p) =
      map_option (\<lambda>ss. (ss_session_hdl ss, ss_num_links ss, ss_links ss)) (sess p)"
  shows "owner_inv X sess' ids m"
proof -
  note o = owner_invD [OF assms(1)]
  have fwd: "sess p = Some ss \<Longrightarrow> \<exists>ss'. sess' p = Some ss' \<and> ss_session_hdl ss' = ss_session_hdl ss \<and> ss_links ss' = ss_links ss" for p ss
    using assms(2) [of p] by (cases "sess' p") auto
  have bwd: "sess' p = Some ss' \<Longrightarrow> \<exists>ss. sess p = Some ss \<and> ss_session_hdl ss' = ss_session_hdl ss \<and> ss_links ss' = ss_links ss \<and>
      ss_num_links ss' = ss_num_links ss" for p ss'
    using assms(2) [of p] by (cases "sess p") auto
  show ?thesis
  proof (rule owner_invI)
    show "\<exists>q s'. h_priv r = Some q \<and> sess' q = Some s' \<and> ss_session_hdl s' = sint x"
      if "m x = Some r" "h_type r = HDL_TYPE_SESSION" for x r
      using o(2) [OF that] fwd by force
    show "sess_ok ids q s'" if "sess' q = Some s'" for q s'
      using bwd [OF that] o(4) by (auto simp: sess_ok_def)
    show "session_row m (ss_session_hdl s') q" if "sess' q = Some s'" for q s'
      using bwd [OF that] o(5) by force
    show "\<exists>s'. sess' q = Some s' \<and> Some j \<in> set (ss_links s')" if "j < 4" "id_parent ids j = Some q" for j q
      using o(7) [OF that] fwd by force
  qed (use o in auto)
qed

lemma owner_dev_row:
  assumes "owner_inv X sess ids m" "m h = None" "h_type r = HDL_TYPE_DEV"
  shows "owner_inv X sess ids (m(h \<mapsto> r))"
proof -
  note o = owner_invD [OF assms(1)]
  have row: "link_row m x j \<Longrightarrow> link_row (m(h \<mapsto> r)) x j" "session_row m x j \<Longrightarrow> session_row (m(h \<mapsto> r)) x j" for x j
    using assms by (auto simp: link_row_def session_row_def)
  show ?thesis by (rule owner_invI) (use o row assms in \<open>auto split: if_splits\<close>)
qed

lemma owner_dev_free:
  assumes "owner_inv X sess ids m" "m h = Some r" "h_type r = HDL_TYPE_DEV"
  shows "owner_inv X sess ids (m(h := None))"
proof -
  note o = owner_invD [OF assms(1)]
  have row: "link_row m x j \<Longrightarrow> link_row (m(h := None)) x j" "session_row m x j \<Longrightarrow> session_row (m(h := None)) x j" for x j
    using assms by (auto simp: link_row_def session_row_def)
  show ?thesis by (rule owner_invI) (use o row assms in \<open>auto split: if_splits\<close>)
qed

end
