(* ===== verification/Crm_Connect.thy ===== *)
theory Crm_Connect imports Crm_Delivery Crm_Link begin

text \<open>
  What \<open>__cam_req_mgr_setup_link_info\<close> builds: a chain of tables, one per delay, in which every device
  has its place. A link that was set up is a fresh link in the sense of the theorems on delivery.
\<close>

section \<open>The chain of tables\<close>

text \<open>What of a table the chain is about.\<close>

definition chain_key :: "cam_req_mgr_req_tbl \<Rightarrow> int \<times> cam_req_mgr_tbl_slot list \<times> int \<times> int" where
  "chain_key t = (tb_num_slots t, tb_slot t, tb_pd t, tb_pd_delta t)"

lemma chain_same:
  assumes "map chain_key us = map chain_key ts"
  shows "tbl_chain us = tbl_chain ts" "plain_tbls us = plain_tbls ts" "pd_bits us x = pd_bits ts x" "map tb_pd us = map tb_pd ts"
proof -
  have "tbl_chain us = tbl_chain ts \<and> plain_tbls us = plain_tbls ts \<and> pd_bits us x = pd_bits ts x \<and> map tb_pd us = map tb_pd ts"
    using assms
  proof (induction us arbitrary: ts)
    case (Cons u us)
    then obtain t ts' where ts: "ts = t # ts'" "chain_key u = chain_key t" "map chain_key us = map chain_key ts'" by (cases ts) auto
    have "us = [] \<longleftrightarrow> ts' = []" using ts(3) by auto
    moreover have "us \<noteq> [] \<Longrightarrow> tb_pd (hd us) = tb_pd (hd ts')" using ts(3) by (cases us; cases ts') (auto simp: chain_key_def)
    ultimately show ?case using Cons.IH [OF ts(3)] ts(1,2)
      by (cases us; cases ts') (auto simp: chain_key_def plain_tbls_def)
  qed simp
  then show "tbl_chain us = tbl_chain ts" "plain_tbls us = plain_tbls ts" "pd_bits us x = pd_bits ts x" "map tb_pd us = map tb_pd ts"
    by simp_all
qed

definition new_tbl :: "int \<Rightarrow> cam_req_mgr_req_tbl \<Rightarrow> bool" where
  "new_tbl pd n \<longleftrightarrow> tb_pd n = pd \<and> 0 \<le> pd \<and> pd < CAM_PIPELINE_DELAY_MAX \<and> tb_num_slots n = 48 \<and> length (tb_slot n) = 48 \<and>
     plain_tbls [n]"

lemma insert_pd_tbl_chain:
  "tbl_chain (t # us) \<Longrightarrow> new_tbl pd n \<Longrightarrow> pd < tb_pd t \<Longrightarrow> pd \<notin> tb_pd ` set us \<Longrightarrow>
     tbl_chain (insert_pd_tbl n t us) \<and> tb_pd (hd (insert_pd_tbl n t us)) = tb_pd t"
proof (induction n t us rule: insert_pd_tbl.induct)
  case (2 n t u us)
  show ?case
  proof (cases "tb_pd n < tb_pd u")
    case True
    with 2 have "tbl_chain (insert_pd_tbl n u us)" "tb_pd (hd (insert_pd_tbl n u us)) = tb_pd u" by (auto simp: new_tbl_def)
    with 2(2-) True show ?thesis by (cases "insert_pd_tbl n u us") (auto simp: new_tbl_def)
  qed (use 2(2-) in \<open>auto simp: new_tbl_def\<close>)
qed (auto simp: new_tbl_def)

lemma insert_pd_tbl_sets:
  "tb_pd ` set (insert_pd_tbl n t us) = insert (tb_pd n) (tb_pd ` set (t # us))"
  "plain_tbls [n] \<Longrightarrow> plain_tbls (t # us) \<Longrightarrow> plain_tbls (insert_pd_tbl n t us)"
  "pd_bits (insert_pd_tbl n t us) x = (pd_bits (t # us) x OR pd_bit (tb_pd n))"
  by (induction n t us rule: insert_pd_tbl.induct) (auto simp: plain_tbls_def ac_simps)

lemma add_tbl:
  assumes "tbl_chain ts" "new_tbl pd n" "pd \<notin> tb_pd ` set ts"
  defines "us \<equiv> cam_req_mgr_add_tbl_to_link n ts"
  shows "tbl_chain us" "plain_tbls ts \<Longrightarrow> plain_tbls us" "tb_pd ` set us = insert pd (tb_pd ` set ts)"
    "pd_bits us x = (pd_bits ts x OR pd_bit pd)" "us \<noteq> []"
    "tb_pd (hd us) = (if ts = [] then pd else max pd (tb_pd (hd ts)))"
proof -
  have n: "tb_pd n = pd" "plain_tbls [n]" using assms(2) by (simp_all add: new_tbl_def)
  have "tbl_chain us \<and> (plain_tbls ts \<longrightarrow> plain_tbls us) \<and> tb_pd ` set us = insert pd (tb_pd ` set ts) \<and>
    pd_bits us x = (pd_bits ts x OR pd_bit pd) \<and> us \<noteq> [] \<and> tb_pd (hd us) = (if ts = [] then pd else max pd (tb_pd (hd ts)))"
  proof (cases ts)
    case Nil
    then show ?thesis using assms(2) n by (auto simp: us_def cam_req_mgr_add_tbl_to_link_def new_tbl_def)
  next
    case (Cons t ts')
    show ?thesis
    proof (cases "tb_pd t < pd")
      case True
      then show ?thesis using assms(1,2) n Cons
        by (auto simp: us_def cam_req_mgr_add_tbl_to_link_def new_tbl_def plain_tbls_def)
    next
      case False
      then have lt: "pd < tb_pd t" using assms(3) Cons by auto
      then have us: "us = insert_pd_tbl n t ts'" using False n Cons by (simp add: us_def cam_req_mgr_add_tbl_to_link_def)
      have "insert_pd_tbl n t ts' \<noteq> []" by (cases ts') auto
      then show ?thesis using insert_pd_tbl_chain [of t ts' pd n] insert_pd_tbl_sets [of n t ts'] assms(1-3) lt n Cons us
        by (auto simp: max_def)
    qed
  qed
  then show "tbl_chain us" "plain_tbls ts \<Longrightarrow> plain_tbls us" "tb_pd ` set us = insert pd (tb_pd ` set ts)"
    "pd_bits us x = (pd_bits ts x OR pd_bit pd)" "us \<noteq> []"
    "tb_pd (hd us) = (if ts = [] then pd else max pd (tb_pd (hd ts)))" by simp_all
qed

lemma created_new: "cam_req_mgr_create_pd_tbl mem = Some t \<Longrightarrow> 0 \<le> pd \<Longrightarrow> pd < 3 \<Longrightarrow> new_tbl pd (t\<lparr>tb_pd := pd\<rparr>)"
  by (auto simp: cam_req_mgr_create_pd_tbl_def new_tbl_def plain_tbls_def zero_tbl_slot_def no_ops_def split: if_splits)

text \<open>The mask has the bits of the tables and no other.\<close>

lemma pd_bit_and: "0 \<le> p \<Longrightarrow> p < 3 \<Longrightarrow> 0 \<le> q \<Longrightarrow> q < 3 \<Longrightarrow> (pd_bit p AND pd_bit q \<noteq> 0) = (p = q)"
proof -
  assume "0 \<le> p" "p < 3" "0 \<le> q" "q < 3"
  then have "p = 0 \<or> p = 1 \<or> p = 2" "q = 0 \<or> q = 1 \<or> q = 2" by linarith+
  then show ?thesis by (elim disjE) (simp_all add: pd_bit_def)
qed

lemma pd_bits_and:
  assumes "0 \<le> p" "p < 3"
  shows "tbl_chain ts \<Longrightarrow> (pd_bits ts 0 AND pd_bit p \<noteq> 0) = (p \<in> tb_pd ` set ts)"
proof (induction ts)
  case (Cons t ts)
  then have "tbl_chain ts" "0 \<le> tb_pd t" "tb_pd t < 3" by (auto split: list.splits)
  moreover have "((x::u32) OR y) AND z \<noteq> 0 \<longleftrightarrow> x AND z \<noteq> 0 \<or> y AND z \<noteq> 0" for x y z
    by (simp add: bit.conj_disj_distrib2 or_eq_0_iff)
  ultimately show ?case using Cons.IH pd_bit_and [OF _ _ assms, of "tb_pd t"] by auto
qed simp

section \<open>The devices\<close>

text \<open>What the first loop leaves of a device.\<close>

definition connected :: "crm_setup \<Rightarrow> hdl_tbl option \<Rightarrow> int \<Rightarrow> cam_req_mgr_connected_device \<Rightarrow> bool" where
  "connected su t h d \<longleftrightarrow> dv_dev_hdl d = h \<and> dv_dev_info d = snd (su_get_dev_info su h) \<and>
     (\<exists>p. cam_get_device_ops t (hdl32 h) = Some p \<and> dv_ops d = Some (su_ops su p)) \<and>
     0 \<le> di_p_delay (dv_dev_info d) \<and> di_p_delay (dv_dev_info d) < CAM_PIPELINE_DELAY_MAX"

lemma query_devs_ok:
  "query_devs su t i hs m n l = (Inr r, l') \<Longrightarrow> i + length hs \<le> length (lk_l_dev l) \<Longrightarrow>
     \<exists>ds. l' = l\<lparr>lk_l_dev := take i (lk_l_dev l) @ ds @ drop (i + length hs) (lk_l_dev l)\<rparr> \<and> list_all2 (connected su t) hs ds"
proof (induction hs arbitrary: i m n l)
  case (Cons h hs)
  let ?info = "snd (su_get_dev_info su h)"
  obtain p where p: "cam_get_device_ops t (hdl32 h) = Some p"
    using Cons.prems(1) by (cases "cam_get_device_ops t (hdl32 h)") (auto simp: Let_def)
  define d where "d = (lk_l_dev l ! i)\<lparr>dv_ops := Some (su_ops su p), dv_dev_hdl := h, dv_dev_info := ?info\<rparr>"
  have i: "i < length (lk_l_dev l)" using Cons.prems(2) by simp
  then have upd: "dev_upd i (\<lambda>d. d\<lparr>dv_dev_hdl := h, dv_dev_info := ?info\<rparr>) (dev_upd i (\<lambda>d. d\<lparr>dv_ops := Some (su_ops su p)\<rparr>) l) =
      l\<lparr>lk_l_dev := (lk_l_dev l)[i := d]\<rparr>" by (simp add: dev_upd_def d_def)
  have con: "connected su t h d" and rest: "\<exists>m n. query_devs su t (Suc i) hs m n (l\<lparr>lk_l_dev := (lk_l_dev l)[i := d]\<rparr>) = (Inr r, l')"
    using Cons.prems(1) p upd by (auto simp: Let_def connected_def d_def case_prod_beta split: if_splits)
  then obtain ds where "l' = l\<lparr>lk_l_dev := take (Suc i) ((lk_l_dev l)[i := d]) @ ds @ drop (Suc i + length hs) ((lk_l_dev l)[i := d])\<rparr>"
    "list_all2 (connected su t) hs ds"
    using Cons.IH [of "Suc i" _ _ "l\<lparr>lk_l_dev := (lk_l_dev l)[i := d]\<rparr>"] Cons.prems(2) by fastforce
  then show ?case using i con by (intro exI [of _ "d # ds"]) (simp add: take_Suc_conv_app_nth)
qed auto

text \<open>What the second loop keeps of a device and of the link.\<close>

definition dev_id :: "cam_req_mgr_connected_device \<Rightarrow> int \<times> cam_req_mgr_device_info \<times> cam_req_mgr_kmd_ops option" where
  "dev_id d = (dv_dev_hdl d, dv_dev_info d, dv_ops d)"

definition link_rest :: "cam_req_mgr_core_link \<Rightarrow> cam_req_mgr_core_link" where
  "link_rest l = l\<lparr>lk_l_tbl := [], lk_pd_mask := 0, lk_l_dev := [], lk_max_delay := 0, lk_min_delay := 0, lk_log := []\<rparr>"

text \<open>After the first \<open>i\<close> devices.\<close>

definition built :: "nat \<Rightarrow> cam_req_mgr_core_link \<Rightarrow> bool" where
  "built i l \<longleftrightarrow> tbl_chain (lk_l_tbl l) \<and> plain_tbls (lk_l_tbl l) \<and> lk_pd_mask l = pd_bits (lk_l_tbl l) 0 \<and>
     tb_pd ` set (lk_l_tbl l) = (\<lambda>d. di_p_delay (dv_dev_info d)) ` set (take i (lk_l_dev l)) \<and>
     lk_max_delay l = (if lk_l_tbl l = [] then 0 else tb_pd (hd (lk_l_tbl l)))"

lemma built_step:
  assumes b: "built i l" and i: "i < length (lk_l_dev l)" and pd: "0 \<le> di_p_delay (dv_dev_info (lk_l_dev l ! i))"
    "di_p_delay (dv_dev_info (lk_l_dev l ! i)) < 3" and t: "pd_table su i (di_p_delay (dv_dev_info (lk_l_dev l ! i))) l = Some l1"
  shows "built (Suc i) ((join_table i l1)\<lparr>lk_max_delay := (if di_p_delay (dv_dev_info (lk_l_dev l ! i)) > lk_max_delay l
      then di_p_delay (dv_dev_info (lk_l_dev l ! i)) else lk_max_delay l), lk_min_delay := x, lk_log := y\<rparr>)"
proof -
  let ?pd = "di_p_delay (dv_dev_info (lk_l_dev l ! i))"
  have c: "tbl_chain (lk_l_tbl l)" and mask: "lk_pd_mask l = pd_bits (lk_l_tbl l) 0" using b by (simp_all add: built_def)
  have ins: "(\<lambda>d. di_p_delay (dv_dev_info d)) ` set (take (Suc i) (lk_l_dev l)) =
      insert ?pd ((\<lambda>d. di_p_delay (dv_dev_info d)) ` set (take i (lk_l_dev l)))"
    using i by (simp add: take_Suc_conv_app_nth)
  have le: "\<forall>t \<in> set (lk_l_tbl l). tb_pd t \<le> tb_pd (hd (lk_l_tbl l))" using chain_le_hd [OF c] by blast
  have l1: "tbl_chain (lk_l_tbl l1) \<and> plain_tbls (lk_l_tbl l1) \<and> lk_pd_mask l1 = pd_bits (lk_l_tbl l1) 0 \<and>
      tb_pd ` set (lk_l_tbl l1) = insert ?pd (tb_pd ` set (lk_l_tbl l)) \<and> lk_l_tbl l1 \<noteq> [] \<and>
      tb_pd (hd (lk_l_tbl l1)) = (if ?pd > lk_max_delay l then ?pd else lk_max_delay l) \<and> lk_l_dev l1 = lk_l_dev l"
  proof (cases "lk_pd_mask l AND pd_bit ?pd \<noteq> 0")
    case True
    then have m: "?pd \<in> tb_pd ` set (lk_l_tbl l)" using pd_bits_and [OF pd c] mask by simp
    have "l1 = l" using t True by (simp add: pd_table_def split: option.splits)
    moreover have "lk_l_tbl l \<noteq> []" "?pd \<le> tb_pd (hd (lk_l_tbl l))" using m le by auto
    ultimately show ?thesis using b m by (simp add: built_def insert_absorb)
  next
    case False
    then have m: "?pd \<notin> tb_pd ` set (lk_l_tbl l)" using pd_bits_and [OF pd c] mask by simp
    obtain n where n: "cam_req_mgr_create_pd_tbl (su_tbl_mem su i) = Some n"
      "l1 = l\<lparr>lk_pd_mask := lk_pd_mask l OR pd_bit ?pd, lk_l_tbl := cam_req_mgr_add_tbl_to_link (n\<lparr>tb_pd := ?pd\<rparr>) (lk_l_tbl l)\<rparr>"
      using t False by (auto simp: pd_table_def split: option.splits)
    note a = add_tbl [OF c created_new [OF n(1) pd] m]
    show ?thesis using a n(2) b pd by (auto simp: built_def max_def)
  qed
  let ?l2 = "join_table i l1"
  have "map chain_key (lk_l_tbl ?l2) = map chain_key (lk_l_tbl l1)"
    by (simp add: join_table_def Let_def dev_upd_def chain_key_def)
  note same = chain_same [OF this]
  have hd: "lk_l_tbl ?l2 \<noteq> []" "tb_pd (hd (lk_l_tbl ?l2)) = tb_pd (hd (lk_l_tbl l1))"
    using same(4) l1 by (cases "lk_l_tbl ?l2"; cases "lk_l_tbl l1"; simp)+
  have set: "tb_pd ` set (lk_l_tbl ?l2) = tb_pd ` set (lk_l_tbl l1)" using same(4) by (metis set_map)
  have mask: "lk_pd_mask ?l2 = lk_pd_mask l1" by (simp add: join_table_def Let_def dev_upd_def)
  have "map (\<lambda>d. di_p_delay (dv_dev_info d)) (lk_l_dev ?l2) = map (\<lambda>d. di_p_delay (dv_dev_info d)) (lk_l_dev l)"
    using l1 i by (simp add: join_table_def Let_def dev_upd_def map_update list_update_same_conv)
  then have "(\<lambda>d. di_p_delay (dv_dev_info d)) ` set (take (Suc i) (lk_l_dev ?l2)) =
      (\<lambda>d. di_p_delay (dv_dev_info d)) ` set (take (Suc i) (lk_l_dev l))" by (metis set_map take_map)
  then show ?thesis using l1 ins b same hd set mask by (simp add: built_def)
qed

lemma pd_table_keeps:
  assumes "pd_table su i pd l = Some l1"
  shows "lk_l_dev l1 = lk_l_dev l" "lk_log l1 = lk_log l" "link_rest l1 = link_rest l" "lk_max_delay l1 = lk_max_delay l"
  using assms by (auto simp: pd_table_def link_rest_def split: if_splits option.splits)

lemma join_table_keeps:
  "lk_log (join_table i l) = lk_log l" "link_rest (join_table i l) = link_rest l" "lk_max_delay (join_table i l) = lk_max_delay l"
  "map dev_id (lk_l_dev (join_table i l)) = map dev_id (lk_l_dev l)"
proof -
  show "map dev_id (lk_l_dev (join_table i l)) = map dev_id (lk_l_dev l)"
    by (cases "i < length (lk_l_dev l)") (simp_all add: join_table_def Let_def dev_upd_def dev_id_def map_update list_update_same_conv list_update_beyond)
qed (simp_all add: join_table_def Let_def dev_upd_def link_rest_def)

lemma setup_devs_ok:
  "setup_devs su m n i k l = (True, l') \<Longrightarrow> built i l \<Longrightarrow> i + n \<le> length (lk_l_dev l) \<Longrightarrow>
     \<forall>d \<in> set (lk_l_dev l). 0 \<le> di_p_delay (dv_dev_info d) \<and> di_p_delay (dv_dev_info d) < 3 \<Longrightarrow>
     built (i + n) l' \<and> map dev_id (lk_l_dev l') = map dev_id (lk_l_dev l) \<and> link_rest l' = link_rest l \<and>
     (\<forall>h. given h l' = given h l)"
proof (induction n arbitrary: i k l)
  case (Suc n)
  let ?pd = "di_p_delay (dv_dev_info (lk_l_dev l ! i))"
  have i: "i < length (lk_l_dev l)" using Suc.prems(3) by simp
  then have pd: "0 \<le> ?pd" "?pd < 3" using Suc.prems(4) by simp_all
  obtain l1 where t: "pd_table su i ?pd l = Some l1" using Suc.prems(1) by (auto simp: Let_def split: option.splits)
  note keep = pd_table_keeps [OF t] join_table_keeps [of i l1]
  define ev where "ev = Ev_Link_Setup (dv_dev_hdl (lk_l_dev l ! i)) m (if di_trigger_on (dv_dev_info (lk_l_dev l ! i)) \<and> lk_dual_trigger l1 then k else - 1)"
  define j where "j = crm_emit [ev] (join_table i l1)"
  define l2 where "l2 = j\<lparr>lk_max_delay := (if ?pd > lk_max_delay j then ?pd else lk_max_delay j),
      lk_min_delay := (if ?pd < lk_min_delay j then ?pd else lk_min_delay j)\<rparr>"
  have "\<exists>k. setup_devs su m n (Suc i) k l2 = (True, l')"
    using Suc.prems(1) unfolding setup_devs.simps Let_def t option.case l2_def j_def ev_def by blast
  then obtain k' where run: "setup_devs su m n (Suc i) k' l2 = (True, l')" by blast
  have l2: "l2 = (join_table i l1)\<lparr>lk_max_delay := (if ?pd > lk_max_delay l then ?pd else lk_max_delay l),
      lk_min_delay := (if ?pd < lk_min_delay j then ?pd else lk_min_delay j), lk_log := lk_log l @ [ev]\<rparr>"
    using keep by (simp add: l2_def j_def crm_emit_def)
  have b: "built (Suc i) l2" unfolding l2 by (rule built_step [OF Suc.prems(2) i pd t])
  have ids: "map dev_id (lk_l_dev l2) = map dev_id (lk_l_dev l)" using keep by (simp add: l2)
  then have len: "length (lk_l_dev l2) = length (lk_l_dev l)" by (metis length_map)
  have delays: "\<forall>d \<in> set (lk_l_dev l2). 0 \<le> di_p_delay (dv_dev_info d) \<and> di_p_delay (dv_dev_info d) < 3"
  proof
    fix d assume "d \<in> set (lk_l_dev l2)"
    then have "dev_id d \<in> set (map dev_id (lk_l_dev l))" using ids by (metis image_eqI set_map)
    then show "0 \<le> di_p_delay (dv_dev_info d) \<and> di_p_delay (dv_dev_info d) < 3"
      using Suc.prems(4) by (auto simp: dev_id_def)
  qed
  have "link_rest l2 = link_rest (join_table i l1)" by (simp add: l2 link_rest_def)
  moreover have "given h l2 = given h l" for h by (simp add: l2 given_def ev_def)
  ultimately show ?case using Suc.IH [OF run b _ delays] Suc.prems(3) ids len keep by simp
qed auto

section \<open>A link that is set up is fresh\<close>

text \<open>Devices that answer with a delay the request manager knows, take requests, at the SOF at least.\<close>

definition good_devices :: "crm_setup \<Rightarrow> hdl_tbl option \<Rightarrow> int list \<Rightarrow> bool" where
  "good_devices su t hs \<longleftrightarrow> hs \<noteq> [] \<and> distinct hs \<and>
     (\<forall>h \<in> set hs. h > 0 \<and> 0 \<le> di_p_delay (snd (su_get_dev_info su h)) \<and>
        di_p_delay (snd (su_get_dev_info su h)) < CAM_PIPELINE_DELAY_MAX \<and>
        di_trigger (snd (su_get_dev_info su h)) AND CAM_TRIGGER_POINT_SOF \<noteq> 0 \<and>
        (\<forall>p. cam_get_device_ops t (hdl32 h) = Some p \<longrightarrow> ko_apply_req (su_ops su p)))"

text \<open>A link as \<open>__cam_req_mgr_reserve_link\<close> leaves it.\<close>

definition reserved :: "cam_req_mgr_core_link \<Rightarrow> bool" where
  "reserved l \<longleftrightarrow> lk_in_q l = Some zero_queue \<and> lk_l_tbl l = [] \<and> lk_pd_mask l = 0 \<and> lk_max_delay l = 0 \<and>
     lk_num_sync_links l = 0 \<and> lk_parent l \<noteq> None \<and> lk_log l = [] \<and>
     (\<forall>pd. 0 \<le> ap_idx (lk_prev_apply_data l pd) \<and> ap_idx (lk_prev_apply_data l pd) < 48)"

lemma set_id_same: "map chain_key (fst (cam_req_mgr_tbl_set_id ts n)) = map chain_key ts"
  by (induction ts arbitrary: n) (auto simp: chain_key_def case_prod_beta Let_def)

text \<open>Numbering the tables and setting their skips changes nothing of the chain.\<close>

lemma finish_tbls:
  fixes n assumes "tbl_chain ts" "plain_tbls ts" "ts \<noteq> []"
  defines "vs \<equiv> cam_req_mgr_tbl_set_all_skip_cnt (fst (cam_req_mgr_tbl_set_id ts n))"
  shows "tbl_chain vs" "plain_tbls vs" "pd_bits vs 0 = pd_bits ts 0" "tb_pd ` set vs = tb_pd ` set ts" "vs \<noteq> []"
    "tb_pd (hd vs) = tb_pd (hd ts)" "\<forall>t \<in> set vs. tb_skip_traverse t = tb_pd (hd ts) - tb_pd t"
proof -
  let ?us = "fst (cam_req_mgr_tbl_set_id ts n)"
  have us: "?us \<noteq> []" using set_id_same [of ts n] assms(3) by (metis list.map_disc_iff)
  then have vs: "vs = map (\<lambda>u. u\<lparr>tb_skip_traverse := tb_pd (hd ?us) - tb_pd u\<rparr>) ?us"
    by (simp add: vs_def cam_req_mgr_tbl_set_all_skip_cnt_def split: list.splits)
  then have "map chain_key vs = map chain_key ?us" by (simp add: chain_key_def)
  then have "map chain_key vs = map chain_key ts" using set_id_same by simp
  note same = chain_same [OF this]
  show "vs \<noteq> []" using us vs by simp
  show h: "tb_pd (hd vs) = tb_pd (hd ts)" using same(4) \<open>vs \<noteq> []\<close> assms(3) by (metis hd_map)
  show "tb_pd ` set vs = tb_pd ` set ts" using same(4) by (metis set_map)
  show "tbl_chain vs" "plain_tbls vs" "pd_bits vs 0 = pd_bits ts 0" using same assms by simp_all
  have "tb_pd (hd ?us) = tb_pd (hd ts)" using h us unfolding vs by (simp add: hd_map)
  then show "\<forall>t \<in> set vs. tb_skip_traverse t = tb_pd (hd ts) - tb_pd t" unfolding vs by auto
qed

lemma connected_hdls: "list_all2 (connected su t) hs ds \<Longrightarrow> map dv_dev_hdl ds = hs"
  by (induction rule: list_all2_induct) (auto simp: connected_def)

lemma query_devs_code:
  "fst (query_devs su t i hs m n l) = Inl rc \<Longrightarrow>
     \<forall>h \<in> set hs. 0 \<le> di_p_delay (snd (su_get_dev_info su h)) \<and> di_p_delay (snd (su_get_dev_info su h)) < 3 \<Longrightarrow> rc < 0"
  by (induction hs arbitrary: i m n l) (auto simp: Let_def case_prod_beta split: if_splits option.splits)

lemma link_rest_fields:
  assumes "link_rest l = link_rest m"
  shows "lk_in_q l = lk_in_q m" "lk_parent l = lk_parent m" "sync_links l = sync_links m" "lk_prev_apply_data l = lk_prev_apply_data m"
proof -
  have "f (link_rest l) = f (link_rest m)" for f :: "cam_req_mgr_core_link \<Rightarrow> 'a" using assms by simp
  from this [of lk_in_q] this [of lk_parent] this [of sync_links] this [of lk_prev_apply_data]
  show "lk_in_q l = lk_in_q m" "lk_parent l = lk_parent m" "sync_links l = sync_links m" "lk_prev_apply_data l = lk_prev_apply_data m"
    by (simp_all add: link_rest_def sync_links_def)
qed

lemma fresh_queue:
  "queue_ok (zero_queue\<lparr>iq_num_slots := 48, iq_slot := map (\<lambda>i. zero_slot\<lparr>sl_idx := int i, sl_req_id := - 1\<rparr>) [0..<48]\<rparr>)"
  by (simp add: queue_ok_def)

lemma setup_link_info_fresh:
  assumes l: "reserved l" "lk_l_dev l = replicate (li_num_devices info) zero_dev"
    and good: "good_devices su t (take (li_num_devices info) (li_dev_hdls info))"
    and len: "li_num_devices info \<le> length (li_dev_hdls info)"
    and ok: "cam_req_mgr_setup_link_info su limit info t l = (0, l')"
  shows "fresh_link (l'\<lparr>lk_state := CAM_CRM_LINK_STATE_READY\<rparr>)"
    and "map dv_dev_hdl (devs l') = take (li_num_devices info) (li_dev_hdls info)"
proof -
  let ?n = "li_num_devices info" and ?hs = "take (li_num_devices info) (li_dev_hdls info)"
  let ?q = "zero_queue\<lparr>iq_num_slots := 48, iq_slot := map (\<lambda>i. zero_slot\<lparr>sl_idx := int i, sl_req_id := - 1\<rparr>) [0..<48]\<rparr>"
  define l1 where "l1 = snd (cam_req_mgr_setup_in_q (l\<lparr>lk_num_tbl := 0\<rparr>))"
  have q: "cam_req_mgr_setup_in_q (l\<lparr>lk_num_tbl := 0\<rparr>) = (0, l1)" "l1 = l\<lparr>lk_num_tbl := 0, lk_in_q := Some ?q\<rparr>"
    using l(1) by (simp_all add: l1_def cam_req_mgr_setup_in_q_def reserved_def zero_queue_def zero_slot_def)
  have nlimit: "\<not> ?n > limit" using ok by (auto simp: cam_req_mgr_setup_link_info_def split: if_splits)
  obtain r l2 where query: "query_devs su t 0 ?hs 0 0 l1 = (r, l2)" by fastforce
  obtain md trg where r: "r = Inr (md, trg)"
  proof (cases r)
    case (Inl rc)
    then have "rc < 0" using query_devs_code [of su t 0 ?hs 0 0 l1 rc] query good by (simp add: good_devices_def)
    with ok nlimit q(1) query Inl show ?thesis by (simp add: cam_req_mgr_setup_link_info_def)
  qed (use that in auto)
  have trg: "\<not> trg > 2" using ok nlimit q(1) query r by (auto simp: cam_req_mgr_setup_link_info_def split: if_splits)
  have hs: "length ?hs = ?n" using len by simp
  obtain ds where ds: "l2 = l1\<lparr>lk_l_dev := ds\<rparr>" "list_all2 (connected su t) ?hs ds"
    using query_devs_ok [OF query [unfolded r]] l(2) q(2) hs by auto
  have dn: "length ds = ?n" using list_all2_lengthD [OF ds(2)] hs by simp
  define l2' where "l2' = (if trg = 2 then l2\<lparr>lk_dual_trigger := True\<rparr> else l2)"
  obtain l3 where run: "setup_devs su md ?n 0 0 l2' = (True, l3)"
    "l' = l3\<lparr>lk_num_devs := ?n, lk_num_tbl := snd (cam_req_mgr_tbl_set_id (lk_l_tbl l3) (lk_num_tbl l3)),
       lk_l_tbl := cam_req_mgr_tbl_set_all_skip_cnt (fst (cam_req_mgr_tbl_set_id (lk_l_tbl l3) (lk_num_tbl l3)))\<rparr>"
  proof (cases "setup_devs su md ?n 0 0 l2'")
    case (Pair b l3)
    have "(case setup_devs su md ?n 0 0 l2' of (False, l3) \<Rightarrow> (- ENXIO, cam_req_mgr_destroy_link_info l3)
         | (True, l3) \<Rightarrow> let (ts, n) = cam_req_mgr_tbl_set_id (lk_l_tbl l3) (lk_num_tbl l3) in
             (0, l3\<lparr>lk_num_devs := ?n, lk_num_tbl := n, lk_l_tbl := cam_req_mgr_tbl_set_all_skip_cnt ts\<rparr>)) = (0, l')"
      using ok nlimit q(1) query r trg unfolding cam_req_mgr_setup_link_info_def l2'_def by simp
    with Pair have "b" "l' = l3\<lparr>lk_num_devs := ?n, lk_num_tbl := snd (cam_req_mgr_tbl_set_id (lk_l_tbl l3) (lk_num_tbl l3)),
       lk_l_tbl := cam_req_mgr_tbl_set_all_skip_cnt (fst (cam_req_mgr_tbl_set_id (lk_l_tbl l3) (lk_num_tbl l3)))\<rparr>"
      by (cases b; simp add: case_prod_beta Let_def)+
    with Pair that show ?thesis by simp
  qed
  have l2': "built 0 l2'" "lk_l_dev l2' = ds" "lk_log l2' = []" "link_rest l2' = link_rest (l2\<lparr>lk_dual_trigger := lk_dual_trigger l2'\<rparr>)"
    using l(1) ds(1) q(2) by (simp_all add: l2'_def built_def reserved_def plain_tbls_def link_rest_def)
  have conn: "\<forall>d \<in> set ds. \<exists>h \<in> set ?hs. connected su t h d" using ds(2) by (metis in_set_conv_nth list_all2_conv_all_nth)
  then have "\<forall>d \<in> set ds. 0 \<le> di_p_delay (dv_dev_info d) \<and> di_p_delay (dv_dev_info d) < 3" by (auto simp: connected_def)
  with setup_devs_ok [OF run(1) l2'(1)] l2' dn
  have s: "built ?n l3" "map dev_id (lk_l_dev l3) = map dev_id ds" "link_rest l3 = link_rest l2'" "\<And>h. given h l3 = given h l2'" by simp_all
  have dl: "length (lk_l_dev l3) = ?n" using s(2) dn by (metis length_map)
  have "?n \<noteq> 0" using good by (auto simp: good_devices_def)
  then have "lk_l_dev l3 \<noteq> []" using dl by auto
  then have ne: "lk_l_tbl l3 \<noteq> []" using s(1) dl by (auto simp: built_def)
  have bt: "tbl_chain (lk_l_tbl l3)" "plain_tbls (lk_l_tbl l3)" using s(1) by (simp_all add: built_def)
  note fin = finish_tbls [OF bt ne, where n = "lk_num_tbl l3"]
  have fields: "lk_in_q l3 = Some ?q" "lk_parent l3 = lk_parent l" "sync_links l3 = []" "lk_prev_apply_data l3 = lk_prev_apply_data l"
    using link_rest_fields [of l3 "l2\<lparr>lk_dual_trigger := lk_dual_trigger l2'\<rparr>"] s(3) l2'(4) l(1) ds(1) q(2)
    by (simp_all add: reserved_def sync_links_def)
  have hdls: "map dv_dev_hdl (lk_l_dev l3) = ?hs"
  proof -
    have "map dv_dev_hdl (lk_l_dev l3) = map fst (map dev_id (lk_l_dev l3))" by (simp add: dev_id_def)
    also have "\<dots> = map dv_dev_hdl ds" unfolding s(2) by (simp add: dev_id_def)
    also have "\<dots> = ?hs" by (rule connected_hdls [OF ds(2)])
    finally show ?thesis .
  qed
  have devs: "dv_dev_hdl d > 0 \<and> has_op ko_apply_req d \<and> di_trigger (dv_dev_info d) AND CAM_TRIGGER_POINT_SOF \<noteq> 0"
    if "d \<in> set (lk_l_dev l3)" for d
  proof -
    have "dev_id d \<in> set (map dev_id ds)" using that s(2) by (metis image_eqI set_map)
    then obtain e where e: "e \<in> set ds" "dev_id d = dev_id e" by auto
    with conn obtain h where "h \<in> set ?hs" "connected su t h e" by blast
    with e(2) good show ?thesis by (auto simp: dev_id_def connected_def good_devices_def has_op_def)
  qed
  have pds: "tb_pd ` set (lk_l_tbl l3) = (\<lambda>d. di_p_delay (dv_dev_info d)) ` set (lk_l_dev l3)"
    using s(1) dl by (simp add: built_def)
  have base: "lk_pd_mask l3 = pd_bits (lk_l_tbl l3) 0" "lk_max_delay l3 = tb_pd (hd (lk_l_tbl l3))"
    using s(1) ne by (simp_all add: built_def)
  have gv: "given h l3 = []" for h using s(4) l2'(3) by (simp add: given_def)
  have slots: "iq_slot ?q = map (\<lambda>i. zero_slot\<lparr>sl_idx := int i, sl_req_id := - 1\<rparr>) [0..<48]" by simp
  let ?l = "l'\<lparr>lk_state := CAM_CRM_LINK_STATE_READY\<rparr>"
  have inq: "in_q ?l = ?q" using fields(1) run(2) by (simp add: in_q_def)
  have dv: "devs ?l = lk_l_dev l3" using run(2) dl by (simp add: devs_def)
  have "link_ok ?l"
    unfolding link_ok_def dv inq
    using fin base fields(2-4) hdls good devs pds l(1) run(2)
    by (simp add: good_devices_def dev_ok_def reserved_def sync_links_def fields(1))
  moreover have "given h ?l = []" for h using gv run(2) by (simp add: given_def)
  moreover have "\<forall>t \<in> set (lk_l_tbl ?l). tb_skip_traverse t = lk_max_delay ?l - tb_pd t" using fin(7) base(2) run(2) by simp
  ultimately show "fresh_link ?l" unfolding fresh_link_def inq by (auto simp: zero_queue_def zero_slot_def)
  show "map dv_dev_hdl (devs l') = ?hs" using run(2) dl hdls by (simp add: devs_def)
qed

end
