(* ===== verification/Crm_Lifecycle.thy ===== *)
theory Crm_Lifecycle imports Crm_Owner Crm_Connect begin

text \<open>
  Sessions, links and handles over any sequence of calls: every operation of \<open>Crm_Link\<close> keeps the
  invariant of \<open>Crm_Owner\<close>.
\<close>

section \<open>The invariant of the state\<close>

text \<open>\<open>sess\<close> is the heap of sessions; while a session is taken apart it runs ahead of the code.\<close>

definition crm_inv_at :: "sessions \<Rightarrow> nat set \<Rightarrow> crm_state \<Rightarrow> bool" where
  "crm_inv_at sess X s \<longleftrightarrow> (\<exists>t ps. cr_tbl s = Some t \<and> hdl_inv t \<and> cr_session_head s = Some ps \<and> distinct ps \<and>
     (\<forall>p. p \<in> set ps \<longleftrightarrow> sess p \<noteq> None) \<and> owner_inv X sess (idents (cr_links s)) (hdl_find t))"

abbreviation crm_inv :: "nat set \<Rightarrow> crm_state \<Rightarrow> bool" where
  "crm_inv X s \<equiv> crm_inv_at (cr_session s) X s"

lemma crm_inv_atE:
  assumes "crm_inv_at sess X s"
  obtains t ps where "cr_tbl s = Some t" "hdl_inv t" "cr_session_head s = Some ps" "distinct ps"
    "\<forall>p. p \<in> set ps \<longleftrightarrow> sess p \<noteq> None" "owner_inv X sess (idents (cr_links s)) (hdl_find t)"
  using assms unfolding crm_inv_at_def by blast

lemma crm_inv_atI:
  "cr_tbl s = Some t \<Longrightarrow> hdl_inv t \<Longrightarrow> cr_session_head s = Some ps \<Longrightarrow> distinct ps \<Longrightarrow> (\<And>p. p \<in> set ps \<longleftrightarrow> sess p \<noteq> None) \<Longrightarrow>
     owner_inv X sess (idents (cr_links s)) (hdl_find t) \<Longrightarrow> crm_inv_at sess X s"
  unfolding crm_inv_at_def by blast

text \<open>What the invariant speaks of.\<close>

definition own :: "crm_state \<Rightarrow> nat list option \<times> link_ids \<times> hdl_tbl option" where
  "own s = (cr_session_head s, idents (cr_links s), cr_tbl s)"

lemma crm_inv_own: "own s' = own s \<Longrightarrow> crm_inv_at sess X s' = crm_inv_at sess X s"
  by (simp add: own_def crm_inv_at_def)

lemma own_fields [ident_simps]:
  "own (s\<lparr>cr_workq := a\<rparr>) = own s" "own (s\<lparr>cr_payload := b\<rparr>) = own s" "own (s\<lparr>cr_fault := c\<rparr>) = own s"
  "own (s\<lparr>cr_session := d\<rparr>) = own s" "idents gs = idents (cr_links s) \<Longrightarrow> own (s\<lparr>cr_links := gs\<rparr>) = own s"
  by (simp_all add: own_def)

lemma own_at_session [ident_simps]: "own (at_session p f s) = own s"
  by (simp add: at_session_def own_def)

lemma own_at_link [ident_simps]: "(\<And>l. ident (f l) = ident l) \<Longrightarrow> own (at_link k f s) = own s"
  by (simp add: at_link_def own_def ident_simps)

lemma at_link_fields [simp]:
  "cr_session (at_link k f s) = cr_session s" "cr_tbl (at_link k f s) = cr_tbl s"
  "cr_session_head (at_link k f s) = cr_session_head s" "cr_workq (at_link k f s) = cr_workq s"
  "cr_links (at_link k f s) = link_upd k f (cr_links s)"
  by (simp_all add: at_link_def)

lemma at_session_fields [simp]:
  "cr_session (at_session p f s) = (cr_session s)(p := map_option f (cr_session s p))" "cr_tbl (at_session p f s) = cr_tbl s"
  "cr_session_head (at_session p f s) = cr_session_head s" "cr_links (at_session p f s) = cr_links s"
  by (simp_all add: at_session_def)

lemma idents_upd: "idents (link_upd k f gs) = (idents gs)[k := ident (f (gs ! k))]"
  by (simp add: idents_def link_upd_def map_update)

lemma idents_list_upd: "idents (gs[k := l]) = (idents gs)[k := ident l]"
  by (simp add: idents_def map_update)

lemma idents_nth: "k < length gs \<Longrightarrow> idents gs ! k = ident (gs ! k)"
  by (simp add: idents_def)

lemma ident_parts [simp]:
  "fst (ident l) = lk_is_used l" "fst (snd (ident l)) = lk_parent l" "snd (snd (ident l)) = lk_link_hdl l"
  by (simp_all add: ident_def)

lemma ident_eq: "ident l = (a, b, c) \<longleftrightarrow> lk_is_used l = a \<and> lk_parent l = b \<and> lk_link_hdl l = c"
  by (auto simp: ident_def)

lemma owned_length:
  assumes "crm_inv_at sess X s"
  shows "length (cr_links s) = 4"
  using assms by (elim crm_inv_atE) (drule owner_invD(1), simp add: idents_def)

section \<open>Handles of user space\<close>

lemma session_priv:
  assumes "crm_inv_at sess X s" "cam_get_session_priv (cr_tbl s) h = Some p"
  shows "\<exists>ss. sess p = Some ss \<and> ss_session_hdl ss = sint h"
proof -
  obtain t where t: "cr_tbl s = Some t" "hdl_inv t" and o: "owner_inv X sess (idents (cr_links s)) (hdl_find t)"
    using assms(1) by (rule crm_inv_atE)
  obtain r where r: "hdl_find t h = Some r" "CAM_REQ_MGR_GET_HDL_TYPE h = HDL_TYPE_SESSION" "h_priv r = Some p"
    using assms(2) t by (auto simp: cam_get_session_priv_def cam_get_priv_find split: option.splits if_splits)
  have "h_type r = HDL_TYPE_SESSION"
    using hdl_find_SomeD [OF r(1)] hdl_inv_row [OF t(2), of "CAM_REQ_MGR_GET_HDL_IDX h"] r(2) by (auto simp: row_ok_def)
  with owner_invD(2) [OF o r(1)] r(3) show ?thesis by auto
qed

lemma link_priv:
  assumes "crm_inv_at sess X s" "cam_get_link_priv (cr_tbl s) h = Some k"
  shows "k < 4 \<and> k \<notin> X \<and> lk_link_hdl (cr_links s ! k) = sint h \<and> lk_is_used (cr_links s ! k) \<and>
    (\<exists>p ss. lk_parent (cr_links s ! k) = Some p \<and> sess p = Some ss \<and> Some k \<in> set (ss_links ss))"
proof -
  obtain t where t: "cr_tbl s = Some t" "hdl_inv t" and o: "owner_inv X sess (idents (cr_links s)) (hdl_find t)"
    using assms(1) by (rule crm_inv_atE)
  obtain r where r: "hdl_find t h = Some r" "CAM_REQ_MGR_GET_HDL_TYPE h = HDL_TYPE_LINK" "h_priv r = Some k"
    using assms(2) t by (auto simp: cam_get_link_priv_def cam_get_priv_find split: option.splits if_splits)
  have "h_type r = HDL_TYPE_LINK"
    using hdl_find_SomeD [OF r(1)] hdl_inv_row [OF t(2), of "CAM_REQ_MGR_GET_HDL_IDX h"] r(2) by (auto simp: row_ok_def)
  with owner_invD(3) [OF o r(1)] r(3) obtain p
    where k: "k < 4" "k \<notin> X" "id_parent (idents (cr_links s)) k = Some p" "id_hdl (idents (cr_links s)) k = sint h" by auto
  show ?thesis using k owner_invD(6,7) [OF o k(1,3)] by (simp add: idents_nth owned_length [OF assms(1)])
qed

lemma session_of_inv:
  assumes "crm_inv_at sess X s" "session_of h s = Some p"
  shows "\<exists>ss. sess p = Some ss"
  using session_priv [OF assms(1), of "hdl32 h" p] assms(2) by (auto simp: session_of_def split: option.splits if_splits)

lemma link_of_inv:
  assumes "crm_inv_at sess X s" "link_of h s = Some k"
  shows "k < 4 \<and> k \<notin> X \<and> (\<exists>p. lk_parent (cr_links s ! k) = Some p)"
  using link_priv [OF assms(1), of "hdl32 h" k] assms(2) by (auto simp: link_of_def split: option.splits if_splits)

lemma row_type:
  assumes "hdl_inv t" "hdl_find t h = Some r"
  shows "CAM_REQ_MGR_GET_HDL_TYPE h = h_type r"
  using hdl_find_SomeD [OF assms(2)] hdl_inv_row [OF assms(1), of "CAM_REQ_MGR_GET_HDL_IDX h"] by (auto simp: row_ok_def)

lemma session_of_live:
  assumes "crm_inv X s" "cr_session s p = Some ss"
  shows "session_of (ss_session_hdl ss) s = Some p"
proof -
  obtain t where t: "cr_tbl s = Some t" "hdl_inv t" and o: "owner_inv X (cr_session s) (idents (cr_links s)) (hdl_find t)"
    using assms(1) by (rule crm_inv_atE)
  obtain r where r: "hdl_find t (hdl32 (ss_session_hdl ss)) = Some r" "h_type r = HDL_TYPE_SESSION" "h_priv r = Some p"
    using owner_invD(5) [OF o assms(2)] by (auto simp: session_row_def)
  show ?thesis using r row_type [OF t(2) r(1)] assms(2) t(1)
    by (simp add: session_of_def cam_get_session_priv_def cam_get_priv_find)
qed

lemma link_of_live:
  assumes "crm_inv X s" "k < 4" "k \<notin> X" "lk_parent (cr_links s ! k) = Some p"
  shows "link_of (lk_link_hdl (cr_links s ! k)) s = Some k"
proof -
  obtain t where t: "cr_tbl s = Some t" "hdl_inv t" and o: "owner_inv X (cr_session s) (idents (cr_links s)) (hdl_find t)"
    using assms(1) by (rule crm_inv_atE)
  have len: "length (cr_links s) = 4" by (rule owned_length [OF assms(1)])
  obtain r where r: "hdl_find t (hdl32 (lk_link_hdl (cr_links s ! k))) = Some r" "h_type r = HDL_TYPE_LINK" "h_priv r = Some k"
    using owner_invD(8) [OF o assms(2) _ assms(3), of p] assms(2,4) len by (auto simp: link_row_def idents_nth)
  show ?thesis using r row_type [OF t(2) r(1)] t(1) by (simp add: link_of_def cam_get_link_priv_def cam_get_priv_find)
qed

lemma listed_iff:
  assumes "crm_inv {} s" "cr_session s p = Some ss"
  shows "Some k \<in> set (ss_links ss) \<longleftrightarrow> k < 4 \<and> lk_parent (cr_links s ! k) = Some p"
proof -
  obtain t where o: "owner_inv {} (cr_session s) (idents (cr_links s)) (hdl_find t)" using assms(1) by (rule crm_inv_atE)
  have len: "length (cr_links s) = 4" by (rule owned_length [OF assms(1)])
  show ?thesis
    using owner_invD(4) [OF o assms(2)] owner_invD(7) [OF o, of k p] assms(2) len by (auto simp: sess_ok_def idents_nth)
qed

lemma counted_links:
  assumes "crm_inv {} s" "cr_session s p = Some ss"
  shows "ss_num_links ss = card {k. k < 4 \<and> lk_parent (cr_links s ! k) = Some p}"
proof -
  obtain t where o: "owner_inv {} (cr_session s) (idents (cr_links s)) (hdl_find t)" using assms(1) by (rule crm_inv_atE)
  have ok: "sess_ok (idents (cr_links s)) p ss" by (rule owner_invD(4) [OF o assms(2)])
  have "set (filter (\<lambda>e. e \<noteq> None) (ss_links ss)) = Some ` {k. k < 4 \<and> lk_parent (cr_links s ! k) = Some p}"
    using listed_iff [OF assms] by (force simp: image_iff)
  then have "card (set (filter (\<lambda>e. e \<noteq> None) (ss_links ss))) = card {k. k < 4 \<and> lk_parent (cr_links s ! k) = Some p}"
    by (simp only: card_image [OF inj_Some])
  then show ?thesis using ok unfolding sess_ok_def by (metis distinct_card)
qed

section \<open>Taking links apart\<close>

lemma reset_ident [simp]: "ident (cam_req_mgr_core_link_reset l) = (lk_is_used l, None, 0)"
  by (simp add: cam_req_mgr_core_link_reset_def ident_simps ident_def)
    (simp add: cam_req_mgr_reset_apply_data_def zero_triggers_def)

lemma ident_link_info [ident_simps]: "ident (cam_req_mgr_destroy_link_info l) = ident l"
  "ident (snd (cam_req_mgr_disconnect_link su l)) = ident l" "ident (dev_upd i g l) = ident l" "ident (join_table i l) = ident l"
  by (simp_all add: cam_req_mgr_destroy_link_info_def cam_req_mgr_reset_in_q_def cam_req_mgr_disconnect_link_def dev_upd_def
      join_table_def Let_def ident_simps split: option.splits)

lemma revoke_handle:
  assumes inv: "crm_inv_at sess X s" and k: "k < 4" "k \<notin> X" "lk_parent (cr_links s ! k) = Some p"
  shows "\<exists>t. cam_destroy_link_hdl (hdl32 (lk_link_hdl (cr_links s ! k))) (cr_tbl s) = (0, t) \<and>
    crm_inv_at sess (insert k X) (at_link k (\<lambda>l. l\<lparr>lk_link_hdl := h\<rparr>) (s\<lparr>cr_tbl := t\<rparr>))"
proof -
  obtain t ps where t: "cr_tbl s = Some t" "hdl_inv t" and ps: "cr_session_head s = Some ps" "distinct ps"
      "\<forall>p. p \<in> set ps \<longleftrightarrow> sess p \<noteq> None" and o: "owner_inv X sess (idents (cr_links s)) (hdl_find t)"
    using inv by (rule crm_inv_atE)
  have len: "length (cr_links s) = 4" by (rule owned_length [OF inv])
  have par: "id_parent (idents (cr_links s)) k = Some p" using k len by (simp add: idents_nth)
  define x where "x = hdl32 (lk_link_hdl (cr_links s ! k))"
  obtain r where r: "hdl_find t x = Some r" "h_type r = HDL_TYPE_LINK"
    using owner_invD(8) [OF o k(1) par k(2)] len k(1) by (auto simp: link_row_def idents_nth x_def)
  have ty: "CAM_REQ_MGR_GET_HDL_TYPE x = HDL_TYPE_LINK"
    using hdl_find_SomeD [OF r(1)] hdl_inv_row [OF t(2), of "CAM_REQ_MGR_GET_HDL_IDX x"] r(2) by (auto simp: row_ok_def)
  let ?r = "r\<lparr>h_state := HDL_FREE, h_ops := None, h_priv := None\<rparr>" let ?t = "remove (CAM_REQ_MGR_GET_HDL_IDX x) ?r t"
  have d: "cam_destroy_link_hdl x (cr_tbl s) = (0, Some ?t)"
    using r ty t by (simp add: cam_destroy_link_hdl_def cam_destroy_hdl_find)
  have f: "hdl_find ?t = (hdl_find t)(x := None)" by (rule hdl_remove_active [OF r(1)]) simp
  have used: "lk_is_used (cr_links s ! k)" using owner_invD(6) [OF o k(1) par] len k(1) by (simp add: idents_nth)
  have "owner_inv (insert k X) sess ((idents (cr_links s))[k := (True, Some p, h)]) (hdl_find ?t)"
    using owner_revoke [OF o k(1,2) par, of h] f len k(1) by (simp add: idents_nth x_def)
  then have "crm_inv_at sess (insert k X) (at_link k (\<lambda>l. l\<lparr>lk_link_hdl := h\<rparr>) (s\<lparr>cr_tbl := Some ?t\<rparr>))"
    using t ps used k len by (intro crm_inv_atI [of _ ?t ps]) (simp_all add: hdl_inv_remove idents_list_upd ident_def)
  then show ?thesis using d x_def by blast
qed

lemma workq_own [ident_simps]: "own (destroy_workq k s) = own s" "cr_session (destroy_workq k s) = cr_session s"
  "cr_tbl (destroy_workq k s) = cr_tbl s" "cr_links (destroy_workq k s) = cr_links s"
  by (simp_all add: destroy_workq_def ident_simps)

lemma own_links: "own s' = own s \<Longrightarrow> ident (cr_links s' ! k) = ident (cr_links s ! k) \<or> length (cr_links s) \<le> k"
  by (auto simp: own_def idents_def dest: arg_cong [where f = "\<lambda>xs. xs ! k"] arg_cong [where f = length] map_eq_imp_length_eq)
    (metis map_eq_imp_length_eq not_le nth_map)

text \<open>Destroying the handle of a link with a session succeeds; the link stays without a handle.\<close>

lemma unlink_link_inv:
  assumes inv: "crm_inv_at sess X s" and k: "k < 4" "k \<notin> X" "lk_parent (cr_links s ! k) = Some p"
  shows "fst (cam_req_mgr_unlink_link su k s) = 0 \<and> crm_inv_at sess (insert k X) (snd (cam_req_mgr_unlink_link su k s)) \<and>
    cr_session (snd (cam_req_mgr_unlink_link su k s)) = cr_session s \<and> lk_parent (cr_links (snd (cam_req_mgr_unlink_link su k s)) ! k) = Some p"
proof -
  define s4 where "s4 = at_link k (\<lambda>l. (cam_req_mgr_destroy_link_info l)\<lparr>lk_l_dev := []\<rparr>)
    (destroy_workq k (at_link k crm_timer_exit (at_link k (\<lambda>l. if lk_is_shutdown l then l else snd (cam_req_mgr_disconnect_link su l))
       (at_link k (\<lambda>l. l\<lparr>lk_state := CAM_CRM_LINK_STATE_IDLE\<rparr>) s))))"
  have own: "own s4 = own s" by (simp add: s4_def ident_simps)
  have sess: "cr_session s4 = cr_session s" by (simp add: s4_def ident_simps)
  have len: "length (cr_links s) = 4" by (rule owned_length [OF inv])
  have "ident (cr_links s4 ! k) = ident (cr_links s ! k)" using own_links [OF own, of k] len k(1) by auto
  then have par: "lk_parent (cr_links s4 ! k) = Some p" using k(3) by (simp add: ident_def)
  have inv4: "crm_inv_at sess X s4" using inv by (simp add: crm_inv_own [OF own])
  obtain t where t: "cam_destroy_link_hdl (hdl32 (lk_link_hdl (cr_links s4 ! k))) (cr_tbl s4) = (0, t)"
    "crm_inv_at sess (insert k X) (at_link k (\<lambda>l. l\<lparr>lk_link_hdl := - 1\<rparr>) (s4\<lparr>cr_tbl := t\<rparr>))"
    using revoke_handle [OF inv4 k(1,2) par] by blast
  have eq: "cam_req_mgr_unlink_link su k s = (0, at_link k (\<lambda>l. l\<lparr>lk_link_hdl := - 1\<rparr>) (s4\<lparr>cr_tbl := t\<rparr>))"
    using t(1) unfolding cam_req_mgr_unlink_link_def Let_def s4_def by simp
  show ?thesis unfolding eq using t(2) sess par owned_length [OF inv4] k(1) by simp
qed

text \<open>The link leaves the session and is free again.\<close>

lemma unreserve_entry_eq:
  assumes "cr_session s p = Some ss"
  shows "cr_session (unreserve_entry p k i s) = (cr_session s)(p \<mapsto> ss\<lparr>ss_links := (ss_links ss)
      [i := if ss_links ss ! i = Some k then None else ss_links ss ! i]\<rparr>)" (is "_ = ?sess")
    and "own (unreserve_entry p k i s) = own s"
proof -
  let ?s1 = "if ss_links (the (cr_session s p)) ! i = Some k
    then at_session p (\<lambda>ss. ss\<lparr>ss_links := (ss_links ss)[i := None]\<rparr>) s else s"
  have turn: "cr_session (fold f js s') = cr_session s' \<and> own (fold f js s') = own s'"
    if "\<And>j s. cr_session (f j s) = cr_session s \<and> own (f j s) = own s" for f js s'
    using that by (induction js arbitrary: s') auto
  have s1: "cr_session ?s1 = ?sess" "own ?s1 = own s" using assms by (auto simp: ident_simps fun_upd_idem)
  show "cr_session (unreserve_entry p k i s) = ?sess" "own (unreserve_entry p k i s) = own s"
    unfolding unreserve_entry_def Let_def
    by (subst turn [THEN conjunct1], simp add: ident_simps split: option.splits, rule s1(1))
      (subst turn [THEN conjunct2], simp add: ident_simps split: option.splits, rule s1(2))
qed

lemma unreserve_fold:
  assumes "cr_session s p = Some ss" "length (ss_links ss) = 4"
  shows "cr_session (fold (unreserve_entry p k) [0..<4] s) = (cr_session s)(p \<mapsto> ss\<lparr>ss_links := drop_link k (ss_links ss)\<rparr>) \<and>
    own (fold (unreserve_entry p k) [0..<4] s) = own s"
proof -
  let ?u = "\<lambda>n. take n (drop_link k (ss_links ss)) @ drop n (ss_links ss)"
  have "cr_session (fold (unreserve_entry p k) [0..<n] s) = (cr_session s)(p \<mapsto> ss\<lparr>ss_links := ?u n\<rparr>) \<and>
      own (fold (unreserve_entry p k) [0..<n] s) = own s" if "n \<le> 4" for n
    using that
  proof (induction n)
    case 0
    then show ?case using assms(1) by (simp add: fun_upd_idem)
  next
    case (Suc n)
    let ?s = "fold (unreserve_entry p k) [0..<n] s"
    have ih: "cr_session ?s = (cr_session s)(p \<mapsto> ss\<lparr>ss_links := ?u n\<rparr>)" "own ?s = own s" using Suc.IH [OF Suc_leD [OF Suc.prems]] by blast+
    have n: "n < length (ss_links ss)" using Suc.prems assms(2) by simp
    have up: "(?u n)[n := if ?u n ! n = Some k then None else ?u n ! n] = ?u (Suc n)"
      using n by (auto simp: drop_link_def nth_append list_update_append take_Suc_conv_app_nth Cons_nth_drop_Suc [symmetric] min_def)
    then have "cr_session (unreserve_entry p k n ?s) = (cr_session s)(p \<mapsto> ss\<lparr>ss_links := ?u (Suc n)\<rparr>)"
      using unreserve_entry_eq(1) [of ?s p "ss\<lparr>ss_links := ?u n\<rparr>" k n] ih(1) up by (simp cong: if_cong split del: if_split)
    then show ?case using unreserve_entry_eq(2) [of ?s p "ss\<lparr>ss_links := ?u n\<rparr>" k n] ih by simp
  qed
  from this [of 4] show ?thesis using assms(2) by (simp add: drop_link_def)
qed

lemma free_link_inv:
  assumes inv: "crm_inv_at sess X s" and k: "k < 4" "k \<in> X" "lk_parent (cr_links s ! k) = Some p" and p: "sess p = Some ss"
  shows "crm_inv_at (sess(p \<mapsto> ss\<lparr>ss_links := drop_link k (ss_links ss), ss_num_links := ss_num_links ss - 1\<rparr>)) (X - {k})
    (cam_req_mgr_free_link k s)"
proof -
  obtain t ps where t: "cr_tbl s = Some t" "hdl_inv t" and ps: "cr_session_head s = Some ps" "distinct ps"
      "\<forall>p. p \<in> set ps \<longleftrightarrow> sess p \<noteq> None" and o: "owner_inv X sess (idents (cr_links s)) (hdl_find t)"
    using inv by (rule crm_inv_atE)
  have len: "length (cr_links s) = 4" by (rule owned_length [OF inv])
  have par: "id_parent (idents (cr_links s)) k = Some p" using k len by (simp add: idents_nth)
  have id: "ident ((cam_req_mgr_core_link_reset (l\<lparr>lk_in_q := None, lk_parent := None\<rparr>))\<lparr>lk_is_used := False\<rparr>) = (False, None, 0)" for l
    using reset_ident [of "l\<lparr>lk_in_q := None, lk_parent := None\<rparr>"] by (simp add: ident_def)
  show ?thesis
    by (rule crm_inv_atI [OF _ t(2) _ ps(2)])
      (use t ps p owner_leave [OF o k(1,2) par p, of False 0] in \<open>auto simp: cam_req_mgr_free_link_def idents_list_upd id\<close>)
qed

lemma unreserve_inv:
  assumes inv: "crm_inv X s" and k: "k < 4" "k \<in> X" "lk_parent (cr_links s ! k) = Some p"
  shows "crm_inv (X - {k}) (cam_req_mgr_unreserve_link p k s)"
proof -
  obtain t ps where t: "cr_tbl s = Some t" "hdl_inv t" and ps: "cr_session_head s = Some ps" "distinct ps"
      "\<forall>p. p \<in> set ps \<longleftrightarrow> cr_session s p \<noteq> None" and o: "owner_inv X (cr_session s) (idents (cr_links s)) (hdl_find t)"
    using inv by (rule crm_inv_atE)
  have len: "length (cr_links s) = 4" by (rule owned_length [OF inv])
  have par: "id_parent (idents (cr_links s)) k = Some p" using k len by (simp add: idents_nth)
  obtain ss where ss: "cr_session s p = Some ss" "Some k \<in> set (ss_links ss)" using owner_invD(7) [OF o k(1) par] by blast
  have ok: "sess_ok (idents (cr_links s)) p ss" by (rule owner_invD(4) [OF o ss(1)])
  have pos: "ss_num_links ss \<noteq> 0" using ok ss(2) by (auto simp: sess_ok_def filter_empty_conv)
  define s1 where "s1 = fold (unreserve_entry p k) [0..<MAXIMUM_LINKS_PER_SESSION] s"
  have s1: "cr_session s1 = (cr_session s)(p \<mapsto> ss\<lparr>ss_links := drop_link k (ss_links ss)\<rparr>)" "own s1 = own s"
    using unreserve_fold [OF ss(1), of k] ok by (simp_all add: sess_ok_def s1_def)
  define s3 where "s3 = at_session p (\<lambda>ss. ss\<lparr>ss_num_links := ss_num_links ss - 1\<rparr>) (at_link k (\<lambda>l. l\<lparr>lk_sync_link := replicate 3 None\<rparr>) s1)"
  have s3: "cr_session s3 = (cr_session s)(p \<mapsto> ss\<lparr>ss_links := drop_link k (ss_links ss), ss_num_links := ss_num_links ss - 1\<rparr>)"
    "own s3 = own s" using s1 by (simp_all add: s3_def ident_simps)
  have i3: "crm_inv_at (cr_session s) X s3" using inv by (simp add: crm_inv_own [OF s3(2)])
  have par3: "lk_parent (cr_links s3 ! k) = Some p"
    using own_links [OF s3(2), of k] len k by (auto simp: ident_def)
  have "crm_inv_at (cr_session s3) (X - {k}) (cam_req_mgr_free_link k s3)"
    unfolding s3(1) by (rule free_link_inv [OF i3 k(1,2) par3 ss(1)])
  moreover have "cam_req_mgr_unreserve_link p k s = cam_req_mgr_free_link k s3"
    using pos ss(1) by (simp add: cam_req_mgr_unreserve_link_def s3_def s1_def Let_def)
  moreover have "cr_session (cam_req_mgr_free_link k s3) = cr_session s3" by (simp add: cam_req_mgr_free_link_def)
  ultimately show ?thesis by simp
qed

section \<open>Sessions\<close>

lemma drop_entry_inv:
  assumes inv: "crm_inv_at sess {} s" and p: "sess p = Some ss" and k: "Some k \<in> set (ss_links ss)"
  shows "crm_inv_at (sess(p \<mapsto> ss\<lparr>ss_links := drop_link k (ss_links ss), ss_num_links := ss_num_links ss - 1\<rparr>)) {}
      (drop_entry su b (Some k) s)" (is ?inv)
    and "cr_session (drop_entry su b (Some k) s) = cr_session s"
proof -
  obtain t where o: "owner_inv {} sess (idents (cr_links s)) (hdl_find t)" using inv by (rule crm_inv_atE)
  have len: "length (cr_links s) = 4" by (rule owned_length [OF inv])
  have k4: "k < 4" "lk_parent (cr_links s ! k) = Some p"
    using owner_invD(4) [OF o p] k len by (auto simp: sess_ok_def idents_nth)
  define s0 where "s0 = at_link k (\<lambda>l. l\<lparr>lk_is_shutdown := b\<rparr>) s"
  have own: "own s0 = own s" "cr_session s0 = cr_session s" by (simp_all add: s0_def ident_simps)
  have par: "lk_parent (cr_links s0 ! k) = Some p" using own_links [OF own(1), of k] k4 len by (auto simp: ident_def)
  have i0: "crm_inv_at sess {} s0" using inv by (simp add: crm_inv_own [OF own(1)])
  have u: "crm_inv_at sess {k} (snd (cam_req_mgr_unlink_link su k s0))"
    "cr_session (snd (cam_req_mgr_unlink_link su k s0)) = cr_session s0"
    "lk_parent (cr_links (snd (cam_req_mgr_unlink_link su k s0)) ! k) = Some p"
    using unlink_link_inv [OF i0 k4(1) _ par, of su] by auto
  have eq: "drop_entry su b (Some k) s = cam_req_mgr_free_link k (snd (cam_req_mgr_unlink_link su k s0))"
    by (simp add: drop_entry_def s0_def)
  show ?inv using free_link_inv [OF u(1) k4(1) _ u(3) p] by (simp add: eq)
  show "cr_session (drop_entry su b (Some k) s) = cr_session s" using u(2) own(2) by (simp add: eq cam_req_mgr_free_link_def)
qed

lemma drop_entries:
  assumes "crm_inv_at sess {} s" "sess p = Some ss" "distinct (filter (\<lambda>e. e \<noteq> None) es)"
    "\<forall>k. Some k \<in> set (ss_links ss) \<longleftrightarrow> Some k \<in> set es"
  shows "\<exists>ss'. crm_inv_at (sess(p \<mapsto> ss')) {} (fold (drop_entry su b) es s) \<and> (\<forall>k. Some k \<notin> set (ss_links ss')) \<and>
    ss_session_hdl ss' = ss_session_hdl ss \<and> cr_session (fold (drop_entry su b) es s) = cr_session s"
  using assms
proof (induction es arbitrary: sess ss s)
  case Nil
  then have "sess(p \<mapsto> ss) = sess" by (simp add: fun_upd_idem)
  with Nil show ?case by (intro exI [of _ ss]) simp
next
  case (Cons e es)
  show ?case
  proof (cases e)
    case None
    with Cons.prems Cons.IH [of sess s ss] show ?thesis by (simp add: drop_entry_def)
  next
    case (Some k)
    let ?ss = "ss\<lparr>ss_links := drop_link k (ss_links ss), ss_num_links := ss_num_links ss - 1\<rparr>"
    have k: "Some k \<in> set (ss_links ss)" using Cons.prems(4) Some by simp
    note d = drop_entry_inv [OF Cons.prems(1,2) k, of su b]
    have dist: "distinct (filter (\<lambda>e. e \<noteq> None) es)" using Cons.prems(3) Some by simp
    have "Some k \<notin> set es" using Cons.prems(3) Some by auto
    then have mem: "\<forall>j. Some j \<in> set (ss_links ?ss) \<longleftrightarrow> Some j \<in> set es"
      using Cons.prems(4) Some by (auto simp: drop_link_def)
    have "\<exists>ss'. crm_inv_at ((sess(p \<mapsto> ?ss))(p \<mapsto> ss')) {} (fold (drop_entry su b) es (drop_entry su b (Some k) s)) \<and>
        (\<forall>k. Some k \<notin> set (ss_links ss')) \<and> ss_session_hdl ss' = ss_session_hdl ?ss \<and>
        cr_session (fold (drop_entry su b) es (drop_entry su b (Some k) s)) = cr_session (drop_entry su b (Some k) s)"
      by (rule Cons.IH [OF d(1) _ dist mem]) simp
    then show ?thesis unfolding fun_upd_upd d(2) Some by (simp add: fun_upd_def)
  qed
qed

text \<open>Destroying a live session succeeds and takes its links along.\<close>

lemma destroy_session_inv:
  assumes inv: "crm_inv {} s" and p: "session_of h s = Some p"
  shows "fst (cam_req_mgr_destroy_session su h b s) = 0 \<and> crm_inv {} (snd (cam_req_mgr_destroy_session su h b s)) \<and>
    cr_session (snd (cam_req_mgr_destroy_session su h b s)) = (cr_session s)(p := None) \<and>
    cr_session_head (snd (cam_req_mgr_destroy_session su h b s)) = map_option (removeAll p) (cr_session_head s)"
proof -
  obtain t ps where t: "cr_tbl s = Some t" and ps: "cr_session_head s = Some ps" and o: "owner_inv {} (cr_session s) (idents (cr_links s)) (hdl_find t)"
    using inv by (rule crm_inv_atE)
  obtain ss where ss: "cr_session s p = Some ss" using session_of_inv [OF inv p] by blast
  have h: "ss_session_hdl ss = h" using p ss by (auto simp: session_of_def split: option.splits if_splits)
  have ok: "sess_ok (idents (cr_links s)) p ss" by (rule owner_invD(4) [OF o ss])
  define s1 where "s1 = (if ss_num_links ss = 0 then s else fold (drop_entry su b) (ss_links ss) s)"
  obtain ss' where s1: "crm_inv_at ((cr_session s)(p \<mapsto> ss')) {} s1" "\<forall>k. Some k \<notin> set (ss_links ss')"
      "ss_session_hdl ss' = h" "cr_session s1 = cr_session s"
  proof (cases "ss_num_links ss = 0")
    case True
    have "\<forall>k. Some k \<notin> set (ss_links ss)" using ok True by (auto simp: sess_ok_def filter_empty_conv)
    then show thesis using that [of ss] True inv ss h by (simp add: s1_def fun_upd_idem)
  next
    case False
    have "distinct (filter (\<lambda>e. e \<noteq> None) (ss_links ss))" using ok by (simp add: sess_ok_def)
    from drop_entries [OF inv ss this, of su b] False h that show thesis by (auto simp: s1_def)
  qed
  obtain t1 ps1 where t1: "cr_tbl s1 = Some t1" "hdl_inv t1" and ps1: "cr_session_head s1 = Some ps1" "distinct ps1"
      "\<forall>q. q \<in> set ps1 \<longleftrightarrow> ((cr_session s)(p \<mapsto> ss')) q \<noteq> None"
      and o1: "owner_inv {} ((cr_session s)(p \<mapsto> ss')) (idents (cr_links s1)) (hdl_find t1)"
    using s1(1) by (rule crm_inv_atE)
  have head: "cr_session_head s1 = cr_session_head s"
  proof -
    have "cr_session_head (drop_entry su b e s) = cr_session_head s" for e s
      by (cases e) (simp_all add: drop_entry_def cam_req_mgr_free_link_def cam_req_mgr_unlink_link_def destroy_workq_def Let_def case_prod_beta)
    then have "cr_session_head (fold (drop_entry su b) es s) = cr_session_head s" for es s by (induction es arbitrary: s) simp_all
    then show ?thesis by (simp add: s1_def)
  qed
  obtain r where r: "hdl_find t1 (hdl32 h) = Some r" "h_type r = HDL_TYPE_SESSION"
    using owner_invD(5) [OF o1, of p ss'] s1(3) by (auto simp: session_row_def)
  have ty: "CAM_REQ_MGR_GET_HDL_TYPE (hdl32 h) = HDL_TYPE_SESSION"
    using hdl_find_SomeD [OF r(1)] hdl_inv_row [OF t1(2), of "CAM_REQ_MGR_GET_HDL_IDX (hdl32 h)"] r(2) by (auto simp: row_ok_def)
  let ?r = "r\<lparr>h_state := HDL_FREE, h_ops := None, h_priv := None\<rparr>" let ?t = "remove (CAM_REQ_MGR_GET_HDL_IDX (hdl32 h)) ?r t1"
  have d: "cam_destroy_session_hdl (hdl32 h) (Some t1) = (0, Some ?t)"
    using r ty by (simp add: cam_destroy_session_hdl_def cam_destroy_hdl_find)
  have f: "hdl_find ?t = (hdl_find t1)(hdl32 h := None)" by (rule hdl_remove_active [OF r(1)]) simp
  have own: "owner_inv {} ((cr_session s)(p := None)) (idents (cr_links s1)) (hdl_find ?t)"
    using owner_end_session [OF o1, of p ss'] s1(2,3) f by simp
  have eq: "cam_req_mgr_destroy_session su h b s =
      (0, s1\<lparr>cr_session_head := map_option (removeAll p) (cr_session_head s1), cr_session := (cr_session s1)(p := None), cr_tbl := Some ?t\<rparr>)"
    using p ss d t1(1) by (simp add: cam_req_mgr_destroy_session_def Let_def s1_def)
  have "crm_inv_at ((cr_session s)(p := None)) {} (snd (cam_req_mgr_destroy_session su h b s))"
    unfolding eq
    by (rule crm_inv_atI [of _ ?t "removeAll p ps1"])
      (use ps1 t1 own in \<open>auto simp: hdl_inv_remove distinct_removeAll split: if_splits\<close>)
  then show ?thesis using s1(4) head by (simp add: eq)
qed

lemma created_row:
  assumes "hdl_inv t" "\<not> free_index t \<ge> 256"
  shows "hdl_inv (install (free_index t) (req_entry crm q (new_handle q t)) t)"
    "hdl_find (install (free_index t) (req_entry crm q (new_handle q t)) t) = (hdl_find t)(new_handle q t \<mapsto> req_entry crm q (new_handle q t))"
    "hdl_find t (new_handle q t) = None" "\<not> sint (new_handle q t) < 0"
  using assms row_ok_entry [of t crm q] new_handle_decode(3) [of t q] new_handle_pos [of t q]
  by (simp_all add: create_hdl_find hdl_inv_install new_handle_fresh)

lemma create_session_inv:
  assumes inv: "crm_inv {} s" and p: "\<forall>q. mem = Some q \<longrightarrow> cr_session s q = None"
  shows "crm_inv {} (snd (cam_req_mgr_create_session su mem s))"
proof (cases mem)
  case None
  then show ?thesis using inv by (simp add: cam_req_mgr_create_session_def)
next
  case (Some p)
  obtain t ps where t: "cr_tbl s = Some t" "hdl_inv t" and ps: "cr_session_head s = Some ps" "distinct ps"
      "\<forall>p. p \<in> set ps \<longleftrightarrow> cr_session s p \<noteq> None" and o: "owner_inv {} (cr_session s) (idents (cr_links s)) (hdl_find t)"
    using inv by (rule crm_inv_atE)
  let ?q = "Create_Session (su_rand su) (Some p)" let ?h = "new_handle ?q t" let ?r = "req_entry (su_CAM_CRM su) ?q ?h"
  let ?t = "install (free_index t) ?r t"
  have c: "cam_create_session_hdl (su_CAM_CRM su) (su_rand su) (Some p) (cr_tbl s) =
      (if free_index t \<ge> 256 then (- ENOSR, Some t) else (sint ?h, Some ?t))"
    using create_hdl_eq [of "su_CAM_CRM su" ?q t] t(1) by simp
  show ?thesis
  proof (cases "free_index t \<ge> 256")
    case True
    then have "own (snd (cam_req_mgr_create_session su mem s)) = own s" "cr_session (snd (cam_req_mgr_create_session su mem s)) = cr_session s"
      using Some c t(1) by (simp_all add: cam_req_mgr_create_session_def own_def)
    then show ?thesis using inv crm_inv_own by metis
  next
    case False
    let ?ss = "\<lparr>ss_session_hdl = sint ?h, ss_num_links = 0, ss_links = replicate 4 None,
      ss_force_err_recovery = AUTO_RECOVERY, ss_sync_mode = CAM_REQ_MGR_SYNC_MODE_NO_SYNC\<rparr>"
    note row = created_row(1,2) [OF t(2) False, of "su_CAM_CRM su" ?q] created_row(3,4) [OF t(2) False, of ?q]
    have eq: "snd (cam_req_mgr_create_session su mem s) =
        s\<lparr>cr_tbl := Some ?t, cr_session := (cr_session s)(p \<mapsto> ?ss), cr_session_head := Some (p # ps)\<rparr>"
      using Some c False row(4) ps(1) by (simp add: cam_req_mgr_create_session_def)
    have p0: "cr_session s p = None" using p Some by simp
    have "owner_inv {} ((cr_session s)(p \<mapsto> ?ss)) (idents (cr_links s)) ((hdl_find t)(?h \<mapsto> ?r))"
      by (rule owner_new_session [OF o p0]) (use row(3) in simp_all)
    then have "owner_inv {} ((cr_session s)(p \<mapsto> ?ss)) (idents (cr_links s)) (hdl_find ?t)" unfolding row(2) .
    then show ?thesis unfolding eq
      by (intro crm_inv_atI [of _ ?t "p # ps", OF _ row(1)]) (use ps p0 in auto)
  qed
qed

section \<open>Links\<close>

text \<open>A reserved link belongs to the session but has no handle.\<close>

lemma reserve_link_inv:
  assumes inv: "crm_inv {} s" and ss: "cr_session s p = Some ss" and res: "cam_req_mgr_reserve_link su p s = (r, s')"
  shows "case r of None \<Rightarrow> crm_inv {} s' | Some k \<Rightarrow> k < 4 \<and> crm_inv {k} s' \<and> lk_parent (cr_links s' ! k) = Some p"
proof -
  obtain t ps where t: "cr_tbl s = Some t" "hdl_inv t" and ps: "cr_session_head s = Some ps" "distinct ps"
      "\<forall>p. p \<in> set ps \<longleftrightarrow> cr_session s p \<noteq> None" and o: "owner_inv {} (cr_session s) (idents (cr_links s)) (hdl_find t)"
    using inv by (rule crm_inv_atE)
  have len: "length (cr_links s) = 4" by (rule owned_length [OF inv])
  have ok: "sess_ok (idents (cr_links s)) p ss" by (rule owner_invD(4) [OF o ss])
  show ?thesis
  proof (cases "ss_num_links ss \<ge> 4 \<or> find (\<lambda>i. \<not> lk_is_used (cr_links s ! i)) [0..<4] = None")
    case True
    then have "r = None" "s' = s" using res ss by (auto simp: cam_req_mgr_reserve_link_def Let_def split: if_splits)
    then show ?thesis using inv by simp
  next
    case False
    then obtain k where k: "find (\<lambda>i. \<not> lk_is_used (cr_links s ! i)) [0..<4] = Some k" and n: "ss_num_links ss < 4" by auto
    have k4: "k < 4" "\<not> lk_is_used (cr_links s ! k)" using k by (auto simp: find_Some_iff)
    have par: "id_parent (idents (cr_links s)) k = None"
      using owner_invD(6) [OF o k4(1)] k4 len by (cases "id_parent (idents (cr_links s)) k") (auto simp: idents_nth)
    define f where "f = (\<lambda>l. (cam_req_mgr_core_link_reset (l\<lparr>lk_is_used := True\<rparr>))\<lparr>lk_log := []\<rparr>)"
    define s1 where "s1 = (at_link k f s)\<lparr>cr_workq := (cr_workq s)(k := None)\<rparr>"
    have f: "ident (f l) = (True, None, 0)" for l unfolding f_def by (simp add: ident_simps)
    have ids1: "idents (cr_links s1) = (idents (cr_links s))[k := (True, None, 0)]" by (simp add: s1_def idents_list_upd f)
    have s1f: "cr_session s1 = cr_session s" "cr_tbl s1 = cr_tbl s" "cr_session_head s1 = cr_session_head s" by (simp_all add: s1_def)
    show ?thesis
    proof (cases "su_in_q_mem su")
      case False
      then have "r = None" "s' = s1"
        using res ss k n ps(1) by (simp_all add: cam_req_mgr_reserve_link_def s1_def f_def)
      moreover have "crm_inv {} s1"
        by (rule crm_inv_atI [of _ t ps]) (use t ps s1f ids1 owner_orphan [OF o k4(1) par] in auto)
      ultimately show ?thesis by simp
    next
      case True
      define s2 where "s2 = at_link k (\<lambda>l. l\<lparr>lk_num_devs := 0, lk_max_delay := 0, lk_min_delay := CAM_PIPELINE_DELAY_MAX,
        lk_in_q := Some zero_queue, lk_state := CAM_CRM_LINK_STATE_IDLE, lk_parent := Some p, lk_sync_link := replicate 3 None\<rparr>) s1"
      have l1: "length (cr_links s1) = 4" using len by (simp add: s1_def)
      have ids2: "idents (cr_links s2) = (idents (cr_links s))[k := (True, Some p, 0)]"
      proof -
        have "ident (cr_links s1 ! k) = (True, None, 0)" using k4(1) l1 ids1 len by (metis idents_nth length_map idents_def nth_list_update_eq)
        then show ?thesis using ids1 by (simp add: s2_def idents_list_upd ident_def)
      qed
      have s2f: "cr_session s2 = cr_session s" "cr_tbl s2 = cr_tbl s" "cr_session_head s2 = cr_session_head s" by (simp_all add: s2_def s1f)
      have "find (\<lambda>i. ss_links ss ! i = None) [0..<4] \<noteq> None"
      proof
        assume "find (\<lambda>i. ss_links ss ! i = None) [0..<4] = None"
        then have "\<forall>i < 4. ss_links ss ! i \<noteq> None" by (auto simp: find_None_iff)
        then have "\<forall>e \<in> set (ss_links ss). e \<noteq> None" using ok by (auto simp: sess_ok_def in_set_conv_nth)
        then have "filter (\<lambda>e. e \<noteq> None) (ss_links ss) = ss_links ss" by (simp add: filter_id_conv)
        then show False using ok n by (simp add: sess_ok_def)
      qed
      then obtain i where i: "find (\<lambda>i. ss_links ss ! i = None) [0..<4] = Some i" by blast
      have i4: "i < 4" "ss_links ss ! i = None" using i by (auto simp: find_Some_iff)
      let ?ss = "ss\<lparr>ss_links := (ss_links ss)[i := Some k], ss_num_links := ss_num_links ss + 1\<rparr>"
      have "cam_req_mgr_reserve_link su p s =
          (Some k, at_session p (\<lambda>ss. ss\<lparr>ss_links := (ss_links ss)[i := Some k], ss_num_links := ss_num_links ss + 1\<rparr>) s2)"
        using ss k n ps(1) True i by (simp add: cam_req_mgr_reserve_link_def s1_def s2_def f_def)
      then have rs: "r = Some k" "s' = at_session p (\<lambda>ss. ss\<lparr>ss_links := (ss_links ss)[i := Some k], ss_num_links := ss_num_links ss + 1\<rparr>) s2"
        using res by simp_all
      have sf: "cr_session s' = (cr_session s)(p \<mapsto> ?ss)" "cr_tbl s' = cr_tbl s" "cr_session_head s' = cr_session_head s"
          "cr_links s' = cr_links s2" using rs(2) s2f ss by simp_all
      have "crm_inv {k} s'"
        by (rule crm_inv_atI [of _ t ps])
          (use t ps sf ss ids2 owner_join [OF o k4(1) par ss i4, of 0] in \<open>auto split: if_splits\<close>)
      moreover have "lk_parent (cr_links s' ! k) = Some p"
        using l1 k4(1) by (simp add: sf s2_def link_upd_def)
      ultimately show ?thesis using rs(1) k4(1) by simp
    qed
  qed
qed

lemma link_failed_inv:
  assumes inv: "crm_inv {} s" and k: "k < 4" "lk_parent (cr_links s ! k) = Some p"
  shows "crm_inv {} (link_failed p k s)"
proof -
  have len: "length (cr_links s) = 4" by (rule owned_length [OF inv])
  obtain t where t: "cam_destroy_link_hdl (hdl32 (lk_link_hdl (cr_links s ! k))) (cr_tbl s) = (0, t)"
    "crm_inv {k} (at_link k (\<lambda>l. l\<lparr>lk_link_hdl := lk_link_hdl (cr_links s ! k)\<rparr>) (s\<lparr>cr_tbl := t\<rparr>))"
    using revoke_handle [OF inv k(1) _ k(2), of "lk_link_hdl (cr_links s ! k)"] by auto
  have "at_link k (\<lambda>l. l\<lparr>lk_link_hdl := lk_link_hdl (cr_links s ! k)\<rparr>) (s\<lparr>cr_tbl := t\<rparr>) = s\<lparr>cr_tbl := t\<rparr>"
    by (simp add: at_link_def link_upd_def)
  then have "crm_inv {k} (s\<lparr>cr_tbl := t\<rparr>)" using t(2) by simp
  from unreserve_inv [OF this k(1), of p] k t(1) show ?thesis by (simp add: link_failed_def)
qed

lemma ident_query [ident_simps]: "ident (snd (query_devs su t i hs d n l)) = ident l"
  by (induction hs arbitrary: i d n l) (simp_all add: Let_def case_prod_beta ident_simps)

lemma ident_pd_table: "pd_table su i pd l = Some l1 \<Longrightarrow> ident l1 = ident l"
  by (auto simp: pd_table_def ident_simps split: if_splits option.splits)

lemma ident_setup_devs [ident_simps]: "ident (snd (setup_devs su d n i tr l)) = ident l"
proof (induction n arbitrary: i tr l)
  case (Suc n)
  then show ?case
    by (cases "pd_table su i (di_p_delay (dv_dev_info (lk_l_dev l ! i))) l") (simp_all add: Let_def ident_simps ident_pd_table)
qed simp

lemma ident_setup_info [ident_simps]: "ident (snd (cam_req_mgr_setup_link_info su limit info t l)) = ident l"
  by (simp add: cam_req_mgr_setup_link_info_def cam_req_mgr_setup_in_q_def Let_def case_prod_beta ident_simps split: sum.splits bool.splits option.splits)

lemma own_at_const: "ident l = ident (cr_links s ! k) \<Longrightarrow> own (at_link k (\<lambda>_. l) s) = own s"
  by (simp add: at_link_def link_upd_def own_def ident_simps)

lemma own_payload [ident_simps]: "own (snd (cam_req_mgr_setup_payload m k s)) = own s"
  by (simp add: cam_req_mgr_setup_payload_def ident_simps)

lemma keeps_inv:
  assumes "crm_inv X s" "own s' = own s" "cr_session s' = cr_session s"
  shows "crm_inv X s'"
  using assms crm_inv_own by metis

lemma fails_inv:
  assumes inv: "crm_inv {} s" and own: "own s' = own s" "cr_session s' = cr_session s"
    and k: "k < 4" "lk_parent (cr_links s ! k) = Some p"
  shows "crm_inv {} (link_failed p k s')"
proof (rule link_failed_inv [OF keeps_inv [OF inv own] k(1)])
  show "lk_parent (cr_links s' ! k) = Some p"
    using own_links [OF own(1), of k] owned_length [OF inv] k by (auto simp: ident_def)
qed

lemma link_setup_inv:
  assumes inv: "crm_inv {} s" and k: "k < 4" "lk_parent (cr_links s ! k) = Some p"
  shows "crm_inv {} (snd (link_setup su limit v2 info p k s))"
proof (cases "su_l_dev_mem su")
  case False
  then show ?thesis using link_failed_inv [OF assms] by (simp add: link_setup_def)
next
  case True
  obtain rc l where l: "cam_req_mgr_setup_link_info su limit info (cr_tbl s)
      ((cr_links s ! k)\<lparr>lk_l_dev := replicate (li_num_devices info) zero_dev\<rparr>) = (rc, l)" by fastforce
  have "ident l = ident (cr_links s ! k)"
    using ident_setup_info [of su limit info "cr_tbl s" "(cr_links s ! k)\<lparr>lk_l_dev := replicate (li_num_devices info) zero_dev\<rparr>"]
    by (simp add: l ident_simps)
  note o1 = own_at_const [OF this]
  note fails = fails_inv [OF inv _ _ k]
  show ?thesis
  proof (cases "rc < 0")
    case True
    then show ?thesis using \<open>su_l_dev_mem su\<close> l by (simp add: link_setup_def fails ident_simps o1)
  next
    case False
    define s2 where "s2 = at_link k (\<lambda>l. l\<lparr>lk_state := CAM_CRM_LINK_STATE_READY\<rparr>) (at_link k (\<lambda>_. l) s)"
    obtain rc2 w where w: "cam_req_mgr_workq_create (su_wq_mem su) (su_job_mem su) (su_pool_mem su)
        (workq_name (li_session_hdl info) (lk_link_hdl (cr_links s2 ! k))) CRM_WORKQ_NUM_TASKS (cr_workq s2 k) 0 3 = (rc2, w)" by fastforce
    define s3 where "s3 = s2\<lparr>cr_workq := (cr_workq s2)(k := w)\<rparr>"
    obtain rc4 s4 where s4: "cam_req_mgr_setup_payload (su_payload_mem su) k s3 = (rc4, s4)" by fastforce
    have o3: "own s3 = own s" "cr_session s3 = cr_session s" by (simp_all add: s3_def s2_def ident_simps o1)
    have o4: "own s4 = own s" "cr_session s4 = cr_session s"
      using own_payload [of "su_payload_mem su" k s3] s4 o3
      by (auto simp: cam_req_mgr_setup_payload_def split: if_splits)
    have eq: "snd (link_setup su limit v2 info p k s) =
        (if rc2 < 0 then link_failed p k (at_link k (\<lambda>l. (cam_req_mgr_destroy_link_info l)\<lparr>lk_l_dev := []\<rparr>) s3)
         else if rc4 < 0 then link_failed p k (at_link k (\<lambda>l. (cam_req_mgr_destroy_link_info l)\<lparr>lk_l_dev := []\<rparr>) (destroy_workq k s4))
         else if v2 then at_link k zero_triggers s4 else s4)"
      using True False l w s4 unfolding link_setup_def s2_def s3_def Let_def by simp
    show ?thesis unfolding eq
      by (simp add: fails ident_simps o3 o4 keeps_inv [OF inv])
  qed
qed

lemma link_create_inv:
  assumes inv: "crm_inv {} s"
  shows "crm_inv {} (snd (snd (link_create su limit v2 info s)))"
proof (cases "li_num_devices info > limit \<or> session_of (li_session_hdl info) s = None")
  case True
  then show ?thesis using inv by (auto simp: link_create_def)
next
  case False
  then obtain p where p: "session_of (li_session_hdl info) s = Some p" and n: "\<not> li_num_devices info > limit" by auto
  obtain ss where ss: "cr_session s p = Some ss" using session_of_inv [OF inv p] by blast
  obtain r s1 where r: "cam_req_mgr_reserve_link su p s = (r, s1)" by fastforce
  note res = reserve_link_inv [OF inv ss r]
  show ?thesis
  proof (cases r)
    case None
    then show ?thesis using res p n r by (simp add: link_create_def)
  next
    case (Some k)
    then have k: "k < 4" "crm_inv {k} s1" "lk_parent (cr_links s1 ! k) = Some p" using res by simp_all
    obtain t ps where t: "cr_tbl s1 = Some t" "hdl_inv t" and ps: "cr_session_head s1 = Some ps" "distinct ps"
        "\<forall>p. p \<in> set ps \<longleftrightarrow> cr_session s1 p \<noteq> None" and o: "owner_inv {k} (cr_session s1) (idents (cr_links s1)) (hdl_find t)"
      using k(2) by (rule crm_inv_atE)
    have len: "length (cr_links s1) = 4" by (rule owned_length [OF k(2)])
    have par: "id_parent (idents (cr_links s1)) k = Some p" using k len by (simp add: idents_nth)
    have used: "lk_is_used (cr_links s1 ! k)" using owner_invD(6) [OF o k(1) par] k(1) len by (simp add: idents_nth)
    let ?d = "\<lparr>c_session_hdl = hdl32 (li_session_hdl info), c_dev_id = su_CAM_CRM su, c_ops = None, c_priv = Some k\<rparr>"
    let ?q = "Create_Link (su_rand su) ?d" let ?h = "new_handle ?q t" let ?r = "req_entry (su_CAM_CRM su) ?q ?h"
    let ?t = "install (free_index t) ?r t"
    have c: "cam_create_link_hdl (su_rand su) ?d (cr_tbl s1) =
        (if free_index t \<ge> 256 then (- ENOSR, Some t) else (sint ?h, Some ?t))"
      using create_hdl_eq [of "su_CAM_CRM su" ?q t] t(1) by simp
    show ?thesis
    proof (cases "free_index t \<ge> 256")
      case True
      let ?s2 = "at_link k (\<lambda>l. l\<lparr>lk_link_hdl := - ENOSR\<rparr>) (s1\<lparr>cr_tbl := Some t\<rparr>)"
      have "crm_inv {k} ?s2"
        by (rule crm_inv_atI [of _ t ps])
          (use t ps used k len owner_rehandle [OF o k(1) _ par, of "- ENOSR"] in \<open>auto simp: idents_list_upd ident_def\<close>)
      then have "crm_inv {} (cam_req_mgr_unreserve_link p k ?s2)"
        using unreserve_inv [of ?s2 "{k}" k p] k len by (simp add: link_upd_def)
      then show ?thesis using p n r Some c True by (simp add: link_create_def)
    next
      case False
      note row = created_row(1,2) [OF t(2) False, of "su_CAM_CRM su" ?q] created_row(3,4) [OF t(2) False, of ?q]
      let ?s3 = "at_link k (\<lambda>l. l\<lparr>lk_last_flush_id := 0\<rparr>) (at_link k (\<lambda>l. l\<lparr>lk_link_hdl := sint ?h\<rparr>) (s1\<lparr>cr_tbl := Some ?t\<rparr>))"
      have "owner_inv {} (cr_session s1) ((idents (cr_links s1))[k := (True, Some p, sint ?h)]) ((hdl_find t)(?h \<mapsto> ?r))"
        using owner_grant [OF o k(1) _ par row(3), of ?r] by simp
      then have "owner_inv {} (cr_session s1) ((idents (cr_links s1))[k := (True, Some p, sint ?h)]) (hdl_find ?t)" unfolding row(2) .
      moreover have "idents (cr_links ?s3) = (idents (cr_links s1))[k := (True, Some p, sint ?h)]"
        using k(1,3) len used by (simp add: idents_list_upd ident_def)
      ultimately have "crm_inv {} ?s3"
        by (intro crm_inv_atI [of _ ?t ps, OF _ row(1)]) (use ps in auto)
      moreover have "lk_parent (cr_links ?s3 ! k) = Some p" using k(1,3) len by simp
      ultimately have "crm_inv {} (snd (link_setup su limit v2 info p k ?s3))" using k(1) link_setup_inv by blast
      moreover have "snd (snd (link_create su limit v2 info s)) = snd (link_setup su limit v2 info p k ?s3)"
        using p n r Some c False row(4) by (simp add: link_create_def case_prod_beta Let_def)
      ultimately show ?thesis by simp
    qed
  qed
qed

lemma unlink_inv:
  assumes inv: "crm_inv {} s" and own: "\<forall>k. link_of link_hdl s = Some k \<longrightarrow> lk_parent (cr_links s ! k) = session_of session_hdl s"
  shows "crm_inv {} (snd (cam_req_mgr_unlink su session_hdl link_hdl s))"
proof (cases "session_of session_hdl s = None \<or> link_of link_hdl s = None")
  case True
  then show ?thesis using inv by (auto simp: cam_req_mgr_unlink_def split: option.splits)
next
  case False
  then obtain p k where p: "session_of session_hdl s = Some p" and k: "link_of link_hdl s = Some k" by auto
  have k4: "k < 4" using link_of_inv [OF inv k] by simp
  have u: "crm_inv {k} (snd (cam_req_mgr_unlink_link su k s))" "lk_parent (cr_links (snd (cam_req_mgr_unlink_link su k s)) ! k) = Some p"
    using unlink_link_inv [OF inv k4, of p su] own p k by auto
  show ?thesis using unreserve_inv [OF u(1) k4 _ u(2)] p k by (simp add: cam_req_mgr_unlink_def case_prod_beta Let_def)
qed

section \<open>Calls on a link\<close>

lemma own_post [ident_simps]: "own (snd (crm_post k pl s)) = own s" "cr_session (snd (crm_post k pl s)) = cr_session s"
  by (simp_all add: crm_post_def ident_simps case_prod_beta Let_def split: prod.splits option.splits)

lemma posted: "crm_post k pl s = (x, s1) \<Longrightarrow> own s1 = own s \<and> cr_session s1 = cr_session s"
  using own_post [of k pl s] by simp

lemma drain_keeps:
  assumes "drain (quiet f) i s = Some s'" "\<And>cb priv pl e. P (f cb priv pl e) = P e"
  shows "P (fst s') = P (fst s)"
proof -
  let ?P = "\<lambda>run_cb i s s'. run_cb = quiet f \<longrightarrow> P (fst s') = P (fst s)"
  have "?P (quiet f) i s s'"
  proof (rule drain.raw_induct [where P = ?P, OF _ assms(1)])
    fix dr :: "'a task_cb \<Rightarrow> nat \<Rightarrow> 'a \<times> crm_workq \<Rightarrow> ('a \<times> crm_workq) option" and run_cb i s s'
    assume ih: "\<And>run_cb i s s'. dr run_cb i s = Some s' \<Longrightarrow> ?P run_cb i s s'"
      and step: "(case wq_process_head (snd s) i of [] \<Rightarrow> Some s
        | t # _ \<Rightarrow> (let s1 = (fst s, take_task t (snd s));
             s2 = (if wq_flush (snd s1) = 0 then snd (cam_req_mgr_process_task run_cb (Some t) s1) else s1) in dr run_cb i s2)) = Some s'"
    show "?P run_cb i s s'"
    proof (cases "wq_process_head (snd s) i")
      case (Cons t ts)
      have "P (run_task f w t e) = P e" for w e by (simp add: run_task_def Let_def assms(2) split: option.splits)
      then show ?thesis using step Cons by (auto simp: Let_def process_task_quiet dest: ih split: if_splits)
    qed (use step in simp)
  qed
  then show ?thesis by simp
qed

lemma worker_links:
  assumes "cam_req_mgr_process_workq (quiet (link_cb env mem)) (gs, w) = Some (gs', w')"
  shows "idents gs' = idents gs"
proof -
  obtain s1 where s1: "drain (quiet (link_cb env mem)) 0 (gs, w) = Some s1" "drain (quiet (link_cb env mem)) 1 s1 = Some (gs', w')"
    using assms by (auto simp: cam_req_mgr_process_workq_def Option.bind_eq_Some_conv)
  have cb: "(idents (link_cb env mem cb priv pl e) = idents gs) = (idents e = idents gs)" for cb priv pl e
    by (simp add: link_cb_def ident_simps)
  from drain_keeps [OF s1(1), of "\<lambda>e. idents e = idents gs", OF cb] drain_keeps [OF s1(2), of "\<lambda>e. idents e = idents gs", OF cb]
  show ?thesis by simp
qed

lemma worker_inv:
  assumes inv: "crm_inv {} s" and run: "cam_req_mgr_process_workq_link_worker env k s = Some s'"
  shows "crm_inv {} s'"
proof (rule keeps_inv [OF inv])
  show "own s' = own s" "cr_session s' = cr_session s"
    using run by (auto simp: cam_req_mgr_process_workq_link_worker_def own_def dest: worker_links split: option.splits)
qed

lemma schedule_inv: "crm_inv {} s \<Longrightarrow> crm_inv {} (snd (cam_req_mgr_schedule_request h sq s))"
  by (erule keeps_inv)
    (simp_all add: cam_req_mgr_schedule_request_def ident_simps Let_def case_prod_beta split: option.splits)

lemma flush_inv: "crm_inv {} s \<Longrightarrow> crm_inv {} (snd (cam_req_mgr_flush_requests w sh lh fi s))"
  by (erule keeps_inv)
    (simp_all add: cam_req_mgr_flush_requests_def ident_simps Let_def split: option.splits prod.splits,
     (metis own_post snd_conv)+)

lemma control_own: "own (snd (control_link m ops x k rc s)) = own s" "cr_session (snd (control_link m ops x k rc s)) = cr_session s"
  by (simp_all add: control_link_def case_prod_beta Let_def ident_simps own_at_const)

lemma control_inv: "crm_inv {} s \<Longrightarrow> crm_inv {} (snd (cam_req_mgr_link_control mem ops n cs s))"
proof -
  have "own (snd (control_links mem ops cs i rc s)) = own s \<and> cr_session (snd (control_links mem ops cs i rc s)) = cr_session s" for cs i rc s
    by (induction mem ops cs i rc s rule: control_links.induct) (auto simp: control_own case_prod_beta Let_def split: option.splits)
  then show "crm_inv {} s \<Longrightarrow> crm_inv {} (snd (cam_req_mgr_link_control mem ops n cs s))"
    by (erule_tac keeps_inv) (simp_all add: cam_req_mgr_link_control_def)
qed

lemma ident_count [ident_simps]: "ident (snd (count_trigger i tp l)) = ident l"
  by (simp add: count_trigger_def cam_req_mgr_check_for_dual_trigger_def Let_def ident_simps)

lemma callbacks_inv:
  assumes inv: "crm_inv {} s"
  shows "crm_inv {} (snd (cam_req_mgr_cb_add_req h ad s))" "crm_inv {} (snd (cam_req_mgr_cb_notify_err st h er s))"
    "crm_inv {} (snd (cam_req_mgr_cb_notify_timer h b s))" "crm_inv {} (snd (cam_req_mgr_cb_notify_stop h s))"
    "crm_inv {} (snd (cam_req_mgr_cb_notify_trigger h i td s))" "crm_inv {} (cam_req_mgr_sof_freeze k s)"
proof -
  note keeps = keeps_inv [OF inv]
  show "crm_inv {} (cam_req_mgr_sof_freeze k s)" by (rule keeps) (simp_all add: cam_req_mgr_sof_freeze_def ident_simps)
  show "crm_inv {} (snd (cam_req_mgr_cb_notify_timer h b s))"
    by (rule keeps) (simp_all add: cam_req_mgr_cb_notify_timer_def ident_simps split: option.splits)
  show "crm_inv {} (snd (cam_req_mgr_cb_add_req h ad s))"
    by (rule keeps) (auto simp: cam_req_mgr_cb_add_req_def ident_simps dest: posted split: option.splits prod.splits)
  show "crm_inv {} (snd (cam_req_mgr_cb_notify_err st h er s))"
    by (rule keeps) (auto simp: cam_req_mgr_cb_notify_err_def ident_simps dest!: posted split: option.splits prod.splits)
  show "crm_inv {} (snd (cam_req_mgr_cb_notify_stop h s))"
    by (rule keeps) (auto simp: cam_req_mgr_cb_notify_stop_def ident_simps Let_def dest!: posted split: option.splits prod.splits)
  have at: "ident (snd (count_trigger i tp (if b then set_pause c (cr_links s ! k) else cr_links s ! k))) = ident (cr_links s ! k)" for tp b c k
    by (simp add: ident_simps)
  show "crm_inv {} (snd (cam_req_mgr_cb_notify_trigger h i td s))"
  proof (cases "cam_get_link_priv (cr_tbl s) (hdl32 h)")
    case (Some k)
    let ?b = "tn_trigger td = CAM_TRIGGER_POINT_SOF"
    obtain rc l1 where c: "count_trigger i (tn_trigger td) (if ?b then set_pause False (cr_links s ! k) else cr_links s ! k) = (rc, l1)" by fastforce
    have l1: "ident l1 = ident (cr_links s ! k)" using at [of "tn_trigger td" ?b False k] by (simp add: c)
    obtain x s1 where p: "crm_post k (Pl_Trigger td) (at_link k (\<lambda>_. if ?b then crm_timer_reset l1 else l1) s) = (x, s1)" by fastforce
    have s1: "own s1 = own s" "cr_session s1 = cr_session s" using posted [OF p] l1 by (auto simp: own_at_const ident_simps)
    show ?thesis
      by (rule keeps) (use Some c p in \<open>simp_all add: cam_req_mgr_cb_notify_trigger_def Let_def own_at_const l1 s1 ident_simps
          split: option.splits\<close>)
  qed (use inv in \<open>simp add: cam_req_mgr_cb_notify_trigger_def\<close>)
qed

lemma sync_clear_own: "own (snd (sync_clear n hs s)) = own s" "cr_session (snd (sync_clear n hs s)) = cr_session s"
  by (induction hs arbitrary: s) (simp_all add: Let_def case_prod_beta ident_simps split: option.splits)

lemma fold_own:
  "(\<And>x s. own (f x s) = own s \<and> cr_session (f x s) = cr_session s) \<Longrightarrow> own (fold f xs s) = own s \<and> cr_session (fold f xs s) = cr_session s"
  by (induction xs arbitrary: s) simp_all

lemma fold_pair_own:
  assumes "\<And>j n s. own (snd (f j (n, s))) = own s \<and> cr_session (snd (f j (n, s))) = cr_session s"
  shows "own (snd (fold f js (n, s))) = own s \<and> cr_session (snd (fold f js (n, s))) = cr_session s"
proof (induction js arbitrary: n s)
  case (Cons j js)
  obtain n1 s1 where "f j (n, s) = (n1, s1)" by (cases "f j (n, s)")
  with assms [of j n s] Cons [of n1 s1] show ?case by simp
qed simp

lemma sync_join_own: "own (sync_join ks i s) = own s \<and> cr_session (sync_join ks i s) = cr_session s"
proof -
  let ?f = "\<lambda>j (idx, s). if i \<noteq> j then (Suc idx, at_link (ks ! i) (\<lambda>l. l\<lparr>lk_sync_link := (lk_sync_link l)[idx := Some (ks ! j)],
      lk_num_sync_links := lk_num_sync_links l + 1\<rparr>) s) else (idx, s)"
  have "own (snd (fold ?f [0..<length ks] (0 :: nat, s))) = own s \<and> cr_session (snd (fold ?f [0..<length ks] (0, s))) = cr_session s"
    by (rule fold_pair_own) (simp add: ident_simps)
  then show ?thesis by (simp add: sync_join_def ident_simps)
qed

lemma sync_config_inv:
  assumes inv: "crm_inv {} s"
  shows "crm_inv {} (snd (cam_req_mgr_sync_config sh mode n hs s))"
proof -
  let ?s = "snd (cam_req_mgr_sync_config sh mode n hs s)"
  let ?key = "\<lambda>ss. (ss_session_hdl ss, ss_num_links ss, ss_links ss)"
  have same: "own s1 = own s \<Longrightarrow> (\<forall>p. map_option ?key (cr_session s1 p) = map_option ?key (cr_session s p)) \<Longrightarrow> crm_inv {} s1" for s1
  proof -
    assume o: "own s1 = own s" and k: "\<forall>p. map_option ?key (cr_session s1 p) = map_option ?key (cr_session s p)"
    obtain t ps where t: "cr_tbl s = Some t" "hdl_inv t" and ps: "cr_session_head s = Some ps" "distinct ps"
        "\<forall>p. p \<in> set ps \<longleftrightarrow> cr_session s p \<noteq> None" and ow: "owner_inv {} (cr_session s) (idents (cr_links s)) (hdl_find t)"
      using inv by (rule crm_inv_atE)
    have dom: "cr_session s1 p \<noteq> None \<longleftrightarrow> cr_session s p \<noteq> None" for p
      using k [THEN spec, of p] by (cases "cr_session s p"; cases "cr_session s1 p") simp_all
    have same: "cr_tbl s1 = cr_tbl s" "cr_session_head s1 = cr_session_head s" "idents (cr_links s1) = idents (cr_links s)"
      using o by (simp_all add: own_def)
    have "owner_inv {} (cr_session s1) (idents (cr_links s)) (hdl_find t)"
      by (rule owner_session_keep [OF ow]) (rule k [THEN spec])
    then show "crm_inv {} s1"
      using t ps by (intro crm_inv_atI [of _ t ps]) (simp_all only: same dom)
  qed
  obtain r s1 where c: "sync_clear n (take (nat n) hs) s = (r, s1)" by fastforce
  have s1: "own s1 = own s" "cr_session s1 = cr_session s" using sync_clear_own [of n "take (nat n) hs" s] by (simp_all add: c)
  have joins: "own (fold (sync_join ks) is s1) = own s \<and> cr_session (fold (sync_join ks) is s1) = cr_session s"
    "own (fold (\<lambda>k. at_link k (\<lambda>l. l\<lparr>lk_initial_skip := True, lk_sof_timestamp := 0\<rparr>)) js s1) = own s \<and>
     cr_session (fold (\<lambda>k. at_link k (\<lambda>l. l\<lparr>lk_initial_skip := True, lk_sof_timestamp := 0\<rparr>)) js s1) = cr_session s" for ks "is" js
    using fold_own [of "sync_join ks" "is" s1] fold_own [of "\<lambda>k. at_link k (\<lambda>l. l\<lparr>lk_initial_skip := True, lk_sof_timestamp := 0\<rparr>)" js s1]
    by (simp_all add: sync_join_own ident_simps s1)
  show ?thesis
    unfolding cam_req_mgr_sync_config_def
    by (rule same) (auto simp: c s1 joins ident_simps Let_def option.map_comp comp_def split: option.splits)
qed

text \<open>Closing the device node: every session is destroyed, and with them every link.\<close>

lemma shutdown_inv:
  assumes inv: "crm_inv {} s"
  shows "crm_inv {} (cam_req_mgr_handle_core_shutdown su s) \<and> (\<forall>p. cr_session (cam_req_mgr_handle_core_shutdown su s) p = None)"
proof -
  have go: "crm_inv {} (fold (\<lambda>p s. snd (cam_req_mgr_destroy_session su (ss_session_hdl (the (cr_session s p))) True s)) ps s) \<and>
      (\<forall>p. cr_session (fold (\<lambda>p s. snd (cam_req_mgr_destroy_session su (ss_session_hdl (the (cr_session s p))) True s)) ps s) p = None)"
    if "crm_inv {} s" "distinct ps" "\<forall>p. p \<in> set ps \<longleftrightarrow> cr_session s p \<noteq> None" for ps s
    using that
  proof (induction ps arbitrary: s)
    case Nil
    then show ?case by (auto simp: not_None_eq [symmetric] simp del: not_None_eq)
  next
    case (Cons p ps)
    obtain ss where ss: "cr_session s p = Some ss" using Cons.prems(3) [rule_format, of p] by auto
    have "session_of (ss_session_hdl ss) s = Some p" by (rule session_of_live [OF Cons.prems(1) ss])
    note d = destroy_session_inv [OF Cons.prems(1) this, of su True]
    have at: "ss_session_hdl (the (cr_session s p)) = ss_session_hdl ss" by (simp only: ss option.sel)
    let ?s1 = "snd (cam_req_mgr_destroy_session su (ss_session_hdl ss) True s)"
    have "\<forall>q. q \<in> set ps \<longleftrightarrow> cr_session ?s1 q \<noteq> None" using Cons.prems(2,3) d by auto
    then show ?case unfolding fold_simps at
      using Cons.IH [OF d [THEN conjunct2, THEN conjunct1]] Cons.prems(2) by (meson distinct.simps(2))
  qed
  obtain ps where "cr_session_head s = Some ps" "distinct ps" "\<forall>p. p \<in> set ps \<longleftrightarrow> cr_session s p \<noteq> None"
    using inv by (rule crm_inv_atE)
  with go [OF inv] show ?thesis by (simp add: cam_req_mgr_handle_core_shutdown_def)
qed

end
