(* ===== verification/Crm_Dual.thy ===== *)
theory Crm_Dual imports Crm_Link begin

text \<open>
  Links with two trigger devices: the counters of \<open>__cam_req_mgr_check_for_dual_trigger\<close> against a
  specification that remembers which device is waiting for the other.
\<close>

section \<open>Pairs of triggers\<close>

text \<open>The device that has reported a trigger point and waits for the other. A second report of the
  same device gives the frame up.\<close>

fun pair_run :: "(int \<times> u32) list \<Rightarrow> (u32 \<Rightarrow> int option) \<Rightarrow> bool list" where
  "pair_run [] waiting = []"
| "pair_run ((i, tp) # evs) waiting =
     (case waiting tp of
        None \<Rightarrow> False # pair_run evs (waiting(tp := Some i))
      | Some j \<Rightarrow> (i \<noteq> j) # pair_run evs (waiting(tp := None)))"

text \<open>The triggers of a sequence of reports that are passed on.\<close>

fun count_run :: "(int \<times> u32) list \<Rightarrow> cam_req_mgr_core_link \<Rightarrow> bool list" where
  "count_run [] l = []"
| "count_run ((i, tp) # evs) l =
     (let (rc, l1) = count_trigger i tp l in (rc = 0) # count_run evs l1)"

definition counts_ok :: "(u32 \<Rightarrow> int option) \<Rightarrow> cam_req_mgr_core_link \<Rightarrow> bool" where
  "counts_ok waiting l \<longleftrightarrow> lk_dual_trigger l \<and>
     (\<forall>tp. lk_trigger_cnt l 0 tp = (if waiting tp = Some 0 then 1 else 0) \<and>
           lk_trigger_cnt l 1 tp = (if waiting tp = Some 1 then 1 else 0) \<and> waiting tp \<in> {None, Some 0, Some 1})"

lemma count_trigger_step:
  assumes "counts_ok waiting l" "i \<in> {0, 1}"
  shows "(fst (count_trigger i tp l) = 0 \<longleftrightarrow> (\<exists>j. waiting tp = Some j \<and> i \<noteq> j)) \<and>
    counts_ok (waiting(tp := if waiting tp = None then Some i else None)) (snd (count_trigger i tp l))"
proof -
  have w: "waiting tp \<in> {None, Some 0, Some 1}" "lk_trigger_cnt l 0 tp = (if waiting tp = Some 0 then 1 else 0)"
    "lk_trigger_cnt l 1 tp = (if waiting tp = Some 1 then 1 else 0)" "lk_dual_trigger l"
    using assms(1) unfolding counts_ok_def by blast+
  show ?thesis
    using w assms unfolding count_trigger_def cam_req_mgr_check_for_dual_trigger_def Let_def
    by (elim insertE emptyE) (auto simp: counts_ok_def)
qed

text \<open>
  C7. On a link with two trigger devices a trigger is passed on exactly when the other device has
  reported the same trigger point before, and not been paired with yet; a device that reports
  twice in a row gives up the frame the other one missed. SOF and EOF are paired separately.
\<close>

theorem dual_triggers_pair:
  assumes "lk_dual_trigger l" "\<And>tp. lk_trigger_cnt l 0 tp = 0 \<and> lk_trigger_cnt l 1 tp = 0"
    and "\<forall>(i, tp) \<in> set evs. i \<in> {0, 1}"
  shows "count_run evs l = pair_run evs (\<lambda>_. None)"
proof -
  have "counts_ok waiting l \<Longrightarrow> \<forall>(i, tp) \<in> set evs. i \<in> {0, 1} \<Longrightarrow> count_run evs l = pair_run evs waiting" for waiting
  proof (induction evs arbitrary: l waiting)
    case (Cons e evs)
    obtain i tp where e: "e = (i, tp)" by fastforce
    with Cons.prems have "i \<in> {0, 1}" by simp
    note step = count_trigger_step [OF Cons.prems(1) this, of tp]
    have "\<forall>(i, tp) \<in> set evs. i \<in> {0, 1}" using Cons.prems(2) by simp
    note ih = Cons.IH [OF conjunct2 [OF step] this]
    from step ih e show ?case by (cases "waiting tp") (auto simp: case_prod_beta Let_def fun_upd_def)
  qed simp
  from this [of "\<lambda>_. None"] assms show ?thesis by (simp add: counts_ok_def)
qed

definition dual_link :: cam_req_mgr_core_link where
  "dual_link = \<lparr>lk_link_hdl = 5, lk_num_devs = 0, lk_max_delay = 0, lk_min_delay = 0, lk_pd_mask = 0, lk_l_dev = [], lk_in_q = None,
     lk_l_tbl = [], lk_num_tbl = 0, lk_apply_data = (\<lambda>_. \<lparr>ap_idx = 0, ap_pd = 0, ap_req_id = - 1, ap_skip_idx = 0\<rparr>),
     lk_prev_apply_data = (\<lambda>_. \<lparr>ap_idx = 0, ap_pd = 0, ap_req_id = - 1, ap_skip_idx = 0\<rparr>), lk_watchdog = None,
     lk_state = CAM_CRM_LINK_STATE_READY, lk_parent = Some 0, lk_sync_link = [], lk_num_sync_links = 0,
     lk_sync_link_sof_skip = False, lk_open_req_cnt = 0, lk_last_flush_id = 0, lk_is_used = True, lk_is_master = False,
     lk_initial_skip = True, lk_in_msync_mode = False, lk_initial_sync_req = - 1, lk_retry_cnt = 0, lk_is_shutdown = False,
     lk_sof_timestamp = 0, lk_prev_sof_timestamp = 0, lk_dual_trigger = True, lk_trigger_cnt = (\<lambda>_ _. 0), lk_eof_event_cnt = 0,
     lk_skip_init_frame = False, lk_last_sof_trigger_jiffies = 0, lk_wq_congestion = False, lk_log = []\<rparr>"

theorem dual_triggers_pair_witness:
  "count_run [(0, CAM_TRIGGER_POINT_SOF), (1, CAM_TRIGGER_POINT_SOF), (1, CAM_TRIGGER_POINT_SOF), (1, CAM_TRIGGER_POINT_SOF),
     (0, CAM_TRIGGER_POINT_SOF), (0, CAM_TRIGGER_POINT_EOF), (1, CAM_TRIGGER_POINT_SOF)] dual_link =
   [False, True, False, False, False, False, True]"
  by (subst dual_triggers_pair) (simp_all add: dual_link_def)

end
