(* ===== verification/Crm_Calls.thy ===== *)
theory Crm_Calls imports Crm_Lifecycle Crm_Dual begin

text \<open>
  Any sequence of calls from user space, devices and other drivers, and who owns what after it.
\<close>

section \<open>Any sequence of calls\<close>

text \<open>
  From a driver that has just been loaded, any calls at all; the allocator does not hand out memory that is
  in use (\<open>crm_run_create_session\<close>). The flag tells whether every unlink named the session the link belongs
  to, which the code does not check (\<open>crm_run_unlink\<close>). \<open>crm_run_close\<close> is the closing of the device node,
  \<open>crm_run_create_device\<close> and \<open>crm_run_destroy_device\<close> what other drivers do.
\<close>

definition names_owner :: "int \<Rightarrow> int \<Rightarrow> crm_state \<Rightarrow> bool" where
  "names_owner sh lh s \<longleftrightarrow> (\<forall>k. link_of lh s = Some k \<longrightarrow> lk_parent (cr_links s ! k) = session_of sh s)"

inductive crm_run :: "bool \<Rightarrow> crm_state \<Rightarrow> bool" where
  crm_run_init: "length (cr_links s) = 4 \<Longrightarrow> cr_tbl s = Some zero_hdl_tbl \<Longrightarrow> cr_session_head s = None \<Longrightarrow> (\<forall>p. cr_session s p = None) \<Longrightarrow>
    crm_run True (snd (cam_req_mgr_core_device_init True s))"
| crm_run_create_session: "crm_run ok s \<Longrightarrow> (\<forall>p. mem = Some p \<longrightarrow> cr_session s p = None) \<Longrightarrow> crm_run ok (snd (cam_req_mgr_create_session su mem s))"
| crm_run_destroy_session: "crm_run ok s \<Longrightarrow> crm_run ok (snd (cam_req_mgr_destroy_session su h b s))"
| crm_run_link: "crm_run ok s \<Longrightarrow> crm_run ok (snd (snd (cam_req_mgr_link su info s)))"
| crm_run_link_v2: "crm_run ok s \<Longrightarrow> crm_run ok (snd (snd (cam_req_mgr_link_v2 su info s)))"
| crm_run_unlink: "crm_run ok s \<Longrightarrow> crm_run (ok \<and> names_owner sh lh s) (snd (cam_req_mgr_unlink su sh lh s))"
| crm_run_schedule: "crm_run ok s \<Longrightarrow> crm_run ok (snd (cam_req_mgr_schedule_request h sq s))"
| crm_run_sync_config: "crm_run ok s \<Longrightarrow> crm_run ok (snd (cam_req_mgr_sync_config sh mode n hs s))"
| crm_run_flush: "crm_run ok s \<Longrightarrow> crm_run ok (snd (cam_req_mgr_flush_requests w sh lh fi s))"
| crm_run_control: "crm_run ok s \<Longrightarrow> crm_run ok (snd (cam_req_mgr_link_control mems ops n cs s))"
| crm_run_add_req: "crm_run ok s \<Longrightarrow> crm_run ok (snd (cam_req_mgr_cb_add_req h ad s))"
| crm_run_notify_err: "crm_run ok s \<Longrightarrow> crm_run ok (snd (cam_req_mgr_cb_notify_err stale h er s))"
| crm_run_notify_timer: "crm_run ok s \<Longrightarrow> crm_run ok (snd (cam_req_mgr_cb_notify_timer h b s))"
| crm_run_notify_stop: "crm_run ok s \<Longrightarrow> crm_run ok (snd (cam_req_mgr_cb_notify_stop h s))"
| crm_run_notify_trigger: "crm_run ok s \<Longrightarrow> crm_run ok (snd (cam_req_mgr_cb_notify_trigger h i td s))"
| crm_run_sof_freeze: "crm_run ok s \<Longrightarrow> crm_run ok (cam_req_mgr_sof_freeze k s)"
| crm_run_worker: "crm_run ok s \<Longrightarrow> cam_req_mgr_process_workq_link_worker env k s = Some s' \<Longrightarrow> crm_run ok s'"
| crm_run_create_device: "crm_run ok s \<Longrightarrow> crm_run ok (s\<lparr>cr_tbl := snd (cam_create_device_hdl active r d (cr_tbl s))\<rparr>)"
| crm_run_destroy_device: "crm_run ok s \<Longrightarrow> crm_run ok (s\<lparr>cr_tbl := snd (cam_destroy_device_hdl h (cr_tbl s))\<rparr>)"
| crm_run_close: "crm_run ok s \<Longrightarrow> s' = cam_req_mgr_handle_core_shutdown su s \<Longrightarrow>
    crm_run ok (s'\<lparr>cr_tbl := snd (cam_req_mgr_util_free_hdls (cr_tbl s'))\<rparr>)"

lemma init_inv:
  assumes "length (cr_links s) = 4" "cr_tbl s = Some zero_hdl_tbl" "cr_session_head s = None" "\<forall>p. cr_session s p = None"
  shows "crm_inv {} (snd (cam_req_mgr_core_device_init True s))"
proof -
  have "idents (map (\<lambda>l. cam_req_mgr_core_link_reset (l\<lparr>lk_is_used := False\<rparr>)) (cr_links s)) = replicate 4 (False, None, 0)"
    using assms(1) by (simp add: idents_def comp_def map_replicate_const)
  then have "owner_inv {} (cr_session s) (idents (cr_links (snd (cam_req_mgr_core_device_init True s)))) (hdl_find zero_hdl_tbl)"
    using assms by (simp add: cam_req_mgr_core_device_init_def owner_inv_def hdl_find_zero)
  then show ?thesis
    using assms by (intro crm_inv_atI [of _ zero_hdl_tbl "[]"]) (simp_all add: cam_req_mgr_core_device_init_def hdl_inv_zero)
qed

lemma create_device_inv:
  assumes inv: "crm_inv {} s"
  shows "crm_inv {} (s\<lparr>cr_tbl := snd (cam_create_device_hdl active r d (cr_tbl s))\<rparr>)"
proof -
  obtain t ps where t: "cr_tbl s = Some t" "hdl_inv t" and ps: "cr_session_head s = Some ps" "distinct ps"
      "\<forall>p. p \<in> set ps \<longleftrightarrow> cr_session s p \<noteq> None" and o: "owner_inv {} (cr_session s) (idents (cr_links s)) (hdl_find t)"
    using inv by (rule crm_inv_atE)
  let ?q = "Create_Device r d" let ?r = "req_entry 0 ?q (new_handle ?q t)"
  have c: "cam_create_device_hdl True r d (cr_tbl s) =
      (if free_index t \<ge> 256 then (- ENOSR, Some t) else (sint (new_handle ?q t), Some (install (free_index t) ?r t)))"
    using create_hdl_eq [of 0 ?q t] t(1) by simp
  show ?thesis
  proof (cases "active \<and> \<not> free_index t \<ge> 256")
    case True
    then have n: "\<not> free_index t \<ge> 256" by simp
    note row = created_row(1,2) [OF t(2) n, of 0 ?q] created_row(3) [OF t(2) n, of ?q]
    have "owner_inv {} (cr_session s) (idents (cr_links s)) (hdl_find (install (free_index t) ?r t))"
      unfolding row(2) by (rule owner_dev_row [OF o row(3)]) simp
    moreover have "s\<lparr>cr_tbl := snd (cam_create_device_hdl active r d (cr_tbl s))\<rparr> = s\<lparr>cr_tbl := Some (install (free_index t) ?r t)\<rparr>"
      using c True by simp
    ultimately show ?thesis
      using ps by (intro crm_inv_atI [of _ _ ps, OF _ row(1)]) auto
  next
    case False
    then have "s\<lparr>cr_tbl := snd (cam_create_device_hdl active r d (cr_tbl s))\<rparr> = s"
      using c t(1) by (cases active) (simp_all add: cam_create_device_hdl_def [of False])
    then show ?thesis using inv by simp
  qed
qed

lemma destroy_device_inv:
  assumes inv: "crm_inv {} s"
  shows "crm_inv {} (s\<lparr>cr_tbl := snd (cam_destroy_device_hdl h (cr_tbl s))\<rparr>)"
proof -
  obtain t ps where t: "cr_tbl s = Some t" "hdl_inv t" and ps: "cr_session_head s = Some ps" "distinct ps"
      "\<forall>p. p \<in> set ps \<longleftrightarrow> cr_session s p \<noteq> None" and o: "owner_inv {} (cr_session s) (idents (cr_links s)) (hdl_find t)"
    using inv by (rule crm_inv_atE)
  show ?thesis
  proof (cases "\<exists>r. hdl_find t h = Some r \<and> CAM_REQ_MGR_GET_HDL_TYPE h = HDL_TYPE_DEV")
    case True
    then obtain r where r: "hdl_find t h = Some r" "h_type r = HDL_TYPE_DEV" using row_type [OF t(2)] by auto
    let ?t = "remove (CAM_REQ_MGR_GET_HDL_IDX h) (r\<lparr>h_state := HDL_FREE, h_ops := None, h_priv := None\<rparr>) t"
    have "owner_inv {} (cr_session s) (idents (cr_links s)) (hdl_find ?t)"
      using owner_dev_free [OF o r] hdl_remove_active [OF r(1), of "r\<lparr>h_state := HDL_FREE, h_ops := None, h_priv := None\<rparr>"] by simp
    then show ?thesis
      by (intro crm_inv_atI [of _ ?t ps]) (use ps t r True in \<open>simp_all add: cam_destroy_device_hdl_def cam_destroy_hdl_find hdl_inv_remove\<close>)
  next
    case False
    then have "s\<lparr>cr_tbl := snd (cam_destroy_device_hdl h (cr_tbl s))\<rparr> = s"
      using t(1) by (auto simp: cam_destroy_device_hdl_def cam_destroy_hdl_find split: option.splits)
    then show ?thesis using inv by simp
  qed
qed

lemma close_inv:
  assumes inv: "crm_inv {} s" and s': "s' = cam_req_mgr_handle_core_shutdown su s"
  shows "crm_inv {} (s'\<lparr>cr_tbl := snd (cam_req_mgr_util_free_hdls (cr_tbl s'))\<rparr>)"
proof -
  have d: "crm_inv {} s'" "\<forall>p. cr_session s' p = None" using shutdown_inv [OF inv, of su] s' by simp_all
  obtain t ps where t: "cr_tbl s' = Some t" "hdl_inv t" and ps: "cr_session_head s' = Some ps" "distinct ps"
      "\<forall>p. p \<in> set ps \<longleftrightarrow> cr_session s' p \<noteq> None" and o: "owner_inv {} (cr_session s') (idents (cr_links s')) (hdl_find t)"
    using d(1) by (rule crm_inv_atE)
  obtain t1 where t1: "cam_req_mgr_util_free_hdls (Some t) = (0, Some t1)" "hdl_bits t1 = hdl_bits t"
      "\<forall>i<256. \<not> hdl_active t1 i \<and> \<not> hdl_bitmap t1 i" using free_hdls_eq by blast
  have none: "hdl_find t1 h = None" for h using t1(3) by (simp add: hdl_find_def hdl_active_def)
  have "hdl_inv t1" using t1 t(2) by (simp add: hdl_inv_def)
  moreover have "owner_inv {} (cr_session s') (idents (cr_links s')) (hdl_find t1)"
  proof -
    have "id_parent (idents (cr_links s')) k \<noteq> Some p" if "k < 4" for k p using owner_invD(7) [OF o that, of p] d(2) by auto
    then show ?thesis using owner_invD(1) [OF o] d(2) none by (simp add: owner_inv_def)
  qed
  ultimately show ?thesis using ps t t1(1) by (intro crm_inv_atI [of _ t1 ps]) simp_all
qed

lemma crm_run_owned: "crm_run ok s \<Longrightarrow> ok \<Longrightarrow> crm_inv {} s"
proof (induction rule: crm_run.induct)
  case (crm_run_init s)
  then show ?case by (intro init_inv)
next
  case (crm_run_destroy_session ok s su h b)
  note IH = crm_run_destroy_session.IH [OF crm_run_destroy_session.prems]
  show ?case
  proof (cases "session_of h s")
    case None
    then show ?thesis using IH by (simp add: cam_req_mgr_destroy_session_def)
  next
    case (Some p)
    from destroy_session_inv [OF IH this] show ?thesis by blast
  qed
next
  case (crm_run_close ok s s' su)
  from close_inv [OF crm_run_close.IH [OF crm_run_close.prems] crm_run_close.hyps(2)] show ?case .
next
  case (crm_run_unlink ok s sh lh su)
  then show ?case by (intro unlink_inv) (simp_all add: names_owner_def)
next
  case (crm_run_worker ok s env k s')
  then show ?case using worker_inv by blast
qed (simp_all only: create_session_inv cam_req_mgr_link_def cam_req_mgr_link_v2_def link_create_inv schedule_inv
    sync_config_inv flush_inv control_inv callbacks_inv worker_inv create_device_inv destroy_device_inv)

lemmas crm_run_inv = crm_run_owned [OF _ TrueI]

section \<open>Ownership\<close>

text \<open>
  C4. Whatever calls user space, the devices and other drivers make, as long as every unlink names the
  session the link belongs to: a session handle that resolves names a live session that has this handle; a
  link handle that resolves names a link in use that has this handle and belongs to a live session that
  lists it; and every live session resolves under its handle, counts exactly its links, and all of them
  resolve. The code does not check what an unlink names; what one that names another session does to both
  is C6.
\<close>

theorem sessions_own_links:
  assumes "crm_run True s"
  shows "(\<forall>h p. cam_get_session_priv (cr_tbl s) h = Some p \<longrightarrow> (\<exists>ss. cr_session s p = Some ss \<and> ss_session_hdl ss = sint h)) \<and>
    (\<forall>h k. cam_get_link_priv (cr_tbl s) h = Some k \<longrightarrow>
       k < MAXIMUM_LINKS_PER_SESSION \<and> lk_is_used (cr_links s ! k) \<and> lk_link_hdl (cr_links s ! k) = sint h \<and>
       (\<exists>p ss. lk_parent (cr_links s ! k) = Some p \<and> cr_session s p = Some ss \<and> Some k \<in> set (ss_links ss))) \<and>
    (\<forall>p ss. cr_session s p = Some ss \<longrightarrow>
       session_of (ss_session_hdl ss) s = Some p \<and> p \<in> set (the (cr_session_head s)) \<and>
       ss_num_links ss = card {k. k < MAXIMUM_LINKS_PER_SESSION \<and> lk_parent (cr_links s ! k) = Some p} \<and>
       (\<forall>k. Some k \<in> set (ss_links ss) \<longrightarrow> link_of (lk_link_hdl (cr_links s ! k)) s = Some k))"
proof (intro conjI allI impI)
  note inv = crm_run_inv [OF assms]
  obtain t ps where ps: "cr_session_head s = Some ps" "\<forall>p. p \<in> set ps \<longleftrightarrow> cr_session s p \<noteq> None"
      and o: "owner_inv {} (cr_session s) (idents (cr_links s)) (hdl_find t)" using inv by (rule crm_inv_atE)
  show "\<exists>ss. cr_session s p = Some ss \<and> ss_session_hdl ss = sint h" if "cam_get_session_priv (cr_tbl s) h = Some p" for h p
    by (rule session_priv [OF inv that])
  show "k < 4" "lk_is_used (cr_links s ! k)" "lk_link_hdl (cr_links s ! k) = sint h"
      "\<exists>p ss. lk_parent (cr_links s ! k) = Some p \<and> cr_session s p = Some ss \<and> Some k \<in> set (ss_links ss)"
    if "cam_get_link_priv (cr_tbl s) h = Some k" for h k
    using link_priv [OF inv that] by simp_all
  fix p ss assume ss: "cr_session s p = Some ss"
  show "session_of (ss_session_hdl ss) s = Some p" by (rule session_of_live [OF inv ss])
  show "p \<in> set (the (cr_session_head s))" using ps ss by simp
  show "ss_num_links ss = card {k. k < 4 \<and> lk_parent (cr_links s ! k) = Some p}" by (rule counted_links [OF inv ss])
  show "link_of (lk_link_hdl (cr_links s ! k)) s = Some k" if "Some k \<in> set (ss_links ss)" for k
    using link_of_live [OF inv, of k p] listed_iff [OF inv ss, of k] that by simp
qed

section \<open>Unlinking through another session\<close>

text \<open>
  C6. What an unlink does that names a session the link does not belong to, which the code accepts: it
  succeeds, and the handle of the link is gone, but the session it belongs to lists and counts it as before.
  If the named session has no links, the link stays in use, and nothing that names it is left. Otherwise
  the link is free for anybody, and the named session counts one link less than it has.
\<close>

theorem foreign_unlink_breaks_accounts:
  assumes "crm_run True s" "session_of sh s = Some p" "link_of lh s = Some k" "lk_parent (cr_links s ! k) = Some q" "q \<noteq> p"
  shows "let r = cam_req_mgr_unlink su sh lh s; s' = snd r; ss = the (cr_session s p) in
    fst r = 0 \<and> (\<forall>x. cam_get_link_priv (cr_tbl s') x \<noteq> Some k) \<and>
    cr_session s' q = cr_session s q \<and> Some k \<in> set (ss_links (the (cr_session s q))) \<and>
    (if ss_num_links ss = 0 then lk_is_used (cr_links s' ! k) \<and> cr_session s' p = cr_session s p
     else \<not> lk_is_used (cr_links s' ! k) \<and> cr_session s' p = Some (ss\<lparr>ss_num_links := ss_num_links ss - 1\<rparr>))"
proof -
  note inv = crm_run_inv [OF assms(1)]
  have k: "k < 4" using link_of_inv [OF inv assms(3)] by simp
  define s1 where "s1 = snd (cam_req_mgr_unlink_link su k s)"
  have u: "fst (cam_req_mgr_unlink_link su k s) = 0" "crm_inv_at (cr_session s) {k} s1" "cr_session s1 = cr_session s"
    "lk_parent (cr_links s1 ! k) = Some q"
    using unlink_link_inv [OF inv k _ assms(4), of su] by (simp_all add: s1_def)
  obtain ss where ss: "cr_session s p = Some ss" using session_of_inv [OF inv assms(2)] by blast
  obtain t where o: "owner_inv {} (cr_session s) (idents (cr_links s)) (hdl_find t)" using inv by (rule crm_inv_atE)
  have len4: "length (ss_links ss) = 4" using owner_invD(4) [OF o ss] by (simp add: sess_ok_def)
  have "Some k \<notin> set (ss_links ss)" using listed_iff [OF inv ss, of k] assms(4,5) by simp
  then have same: "drop_link k (ss_links ss) = ss_links ss" by (auto simp: drop_link_def intro!: map_idI)
  obtain sq where sq: "cr_session s q = Some sq" "Some k \<in> set (ss_links sq)"
    using link_priv [OF inv, of "hdl32 lh" k] assms(3,4) by (auto simp: link_of_def split: option.splits if_splits)
  have none: "cam_get_link_priv (cr_tbl s1) x \<noteq> Some k" for x using link_priv [OF u(2), of x k] by auto
  have len: "length (cr_links s1) = 4" by (rule owned_length [OF u(2)])
  have r: "cam_req_mgr_unlink su sh lh s = (0, cam_req_mgr_unreserve_link p k s1)"
    using assms(2,3) u(1) by (simp add: cam_req_mgr_unlink_def s1_def case_prod_beta Let_def)
  show ?thesis
  proof (cases "ss_num_links ss = 0")
    case True
    obtain t1 where "owner_inv {k} (cr_session s) (idents (cr_links s1)) (hdl_find t1)" using u(2) by (rule crm_inv_atE)
    from owner_invD(6) [OF this k, of q] have "lk_is_used (cr_links s1 ! k)" using u(4) len k by (simp add: idents_nth)
    moreover have "cam_req_mgr_unreserve_link p k s1 = s1" using True ss u(3) by (simp add: cam_req_mgr_unreserve_link_def)
    ultimately show ?thesis using True ss sq none u(3) by (simp add: r Let_def)
  next
    case False
    define s2 where "s2 = fold (unreserve_entry p k) [0..<MAXIMUM_LINKS_PER_SESSION] s1"
    have s2: "cr_session s2 = cr_session s" "own s2 = own s1"
      using unreserve_fold [of s1 p ss k] ss u(3) len4 same by (simp_all add: s2_def fun_upd_idem)
    define s3 where "s3 = at_session p (\<lambda>ss. ss\<lparr>ss_num_links := ss_num_links ss - 1\<rparr>) (at_link k (\<lambda>l. l\<lparr>lk_sync_link := replicate 3 None\<rparr>) s2)"
    have s3: "cr_session s3 = (cr_session s)(p \<mapsto> ss\<lparr>ss_num_links := ss_num_links ss - 1\<rparr>)" "own s3 = own s1"
      using s2 ss by (simp_all add: s3_def ident_simps)
    have eq: "cam_req_mgr_unreserve_link p k s1 = cam_req_mgr_free_link k s3"
      using False ss u(3) by (simp add: cam_req_mgr_unreserve_link_def s3_def s2_def Let_def)
    have "cr_tbl s3 = cr_tbl s1" "length (cr_links s3) = 4" using s3(2) len by (auto simp: own_def idents_def dest: map_eq_imp_length_eq)
    then show ?thesis using False ss sq none s3(1) assms(5) k by (simp add: r eq Let_def cam_req_mgr_free_link_def link_upd_def)
  qed
qed

section \<open>From linking to delivery\<close>

lemma reserved_link:
  assumes "cam_req_mgr_reserve_link su p s = (Some k, s1)" "length (cr_links s) = 4"
    "\<forall>l \<in> set (cr_links s). \<forall>pd. 0 \<le> ap_idx (lk_prev_apply_data l pd) \<and> ap_idx (lk_prev_apply_data l pd) < 48"
  shows "k < 4 \<and> reserved (cr_links s1 ! k)"
proof -
  have k: "find (\<lambda>i. \<not> lk_is_used (cr_links s ! i)) [0..<4] = Some k"
    using assms(1) by (auto simp: cam_req_mgr_reserve_link_def Let_def split: if_splits option.splits)
  then have k4: "k < 4" by (auto simp: find_Some_iff)
  then have m: "cr_links s ! k \<in> set (cr_links s)" using assms(2) by simp
  obtain f where "cr_links s1 ! k = f ((cam_req_mgr_core_link_reset ((cr_links s ! k)\<lparr>lk_is_used := True\<rparr>))\<lparr>lk_log := []\<rparr>)"
    "f = (\<lambda>l. l\<lparr>lk_num_devs := 0, lk_max_delay := 0, lk_min_delay := CAM_PIPELINE_DELAY_MAX,
       lk_in_q := Some zero_queue, lk_state := CAM_CRM_LINK_STATE_IDLE, lk_parent := Some p, lk_sync_link := replicate 3 None\<rparr>)"
    using assms(1) k k4 assms(2)
    by (auto simp: cam_req_mgr_reserve_link_def Let_def link_upd_def split: if_splits option.splits)
  then show ?thesis
    using k4 assms(3) m
    by (simp add: reserved_def cam_req_mgr_core_link_reset_def cam_req_mgr_reset_apply_data_def zero_triggers_def)
qed

lemma setup_info_code:
  assumes "good_devices su t (take (li_num_devices info) (li_dev_hdls info))" "lk_in_q l \<noteq> None"
    and "0 \<le> fst (cam_req_mgr_setup_link_info su limit info t l)"
  shows "fst (cam_req_mgr_setup_link_info su limit info t l) = 0"
proof -
  have code: "rc < 0" if "fst (query_devs su t 0 (take (li_num_devices info) (li_dev_hdls info)) 0 0 l1) = Inl rc" for rc l1
    by (rule query_devs_code [of su t 0 "take (li_num_devices info) (li_dev_hdls info)" 0 0 l1 rc])
      (use that assms(1) in \<open>auto simp: good_devices_def\<close>)
  then show ?thesis
    using assms(2,3) by (auto simp: cam_req_mgr_setup_link_info_def cam_req_mgr_setup_in_q_def Let_def case_prod_beta
      dest: code split: sum.splits prod.splits bool.splits if_splits option.splits)
qed

lemma fresh_zero_triggers: "fresh_link (zero_triggers l) = fresh_link l"
  by (simp add: fresh_link_def link_ok_def zero_triggers_def in_q_def devs_def given_def sync_links_def dev_ok_def)

lemma devs_zero_triggers: "devs (zero_triggers l) = devs l"
  by (simp add: devs_def zero_triggers_def)

lemma link_setup_ready:
  assumes l: "reserved (cr_links s ! k)" "k < length (cr_links s)"
    and good: "good_devices su (cr_tbl s) (take (li_num_devices info) (li_dev_hdls info))" "li_num_devices info \<le> length (li_dev_hdls info)"
    and rc: "0 \<le> fst (link_setup su limit v2 info p k s)"
  shows "fresh_link (cr_links (snd (link_setup su limit v2 info p k s)) ! k) \<and>
    ident (cr_links (snd (link_setup su limit v2 info p k s)) ! k) = ident (cr_links s ! k) \<and> fst (link_setup su limit v2 info p k s) = 0 \<and>
    map dv_dev_hdl (devs (cr_links (snd (link_setup su limit v2 info p k s)) ! k)) = take (li_num_devices info) (li_dev_hdls info)"
proof -
  let ?l = "(cr_links s ! k)\<lparr>lk_l_dev := replicate (li_num_devices info) zero_dev\<rparr>"
  obtain rc1 l1 where s1: "cam_req_mgr_setup_link_info su limit info (cr_tbl s) ?l = (rc1, l1)" by fastforce
  have mem: "su_l_dev_mem su" using rc by (auto simp: link_setup_def split: if_splits)
  have pos: "\<not> rc1 < 0" using rc mem s1 by (auto simp: link_setup_def split: if_splits)
  have lr: "reserved ?l" using l(1) by (simp add: reserved_def)
  have "rc1 = 0" using setup_info_code [OF good(1), of ?l limit] s1 pos lr by (simp add: reserved_def)
  have fr: "fresh_link (l1\<lparr>lk_state := CAM_CRM_LINK_STATE_READY\<rparr>)"
    using setup_link_info_fresh(1) [OF lr _ good, of limit l1] s1 \<open>rc1 = 0\<close> by simp
  have hd: "map dv_dev_hdl (devs l1) = take (li_num_devices info) (li_dev_hdls info)"
    using setup_link_info_fresh(2) [OF lr _ good, of limit l1] s1 \<open>rc1 = 0\<close> by simp
  have id1: "ident l1 = ident (cr_links s ! k)"
    using ident_setup_info [of su limit info "cr_tbl s" ?l] s1 by (simp add: ident_simps)
  define s2 where "s2 = at_link k (\<lambda>l. l\<lparr>lk_state := CAM_CRM_LINK_STATE_READY\<rparr>) (at_link k (\<lambda>_. l1) s)"
  obtain rc2 w where w: "cam_req_mgr_workq_create (su_wq_mem su) (su_job_mem su) (su_pool_mem su)
      (workq_name (li_session_hdl info) (lk_link_hdl (cr_links s2 ! k))) CRM_WORKQ_NUM_TASKS (cr_workq s2 k) 0 3 = (rc2, w)" by fastforce
  define s3 where "s3 = s2\<lparr>cr_workq := (cr_workq s2)(k := w)\<rparr>"
  obtain rc4 s4 where s4: "cam_req_mgr_setup_payload (su_payload_mem su) k s3 = (rc4, s4)" by fastforce
  have eq: "link_setup su limit v2 info p k s =
      (if rc2 < 0 then (rc2, link_failed p k (at_link k (\<lambda>l. (cam_req_mgr_destroy_link_info l)\<lparr>lk_l_dev := []\<rparr>) s3))
       else if rc4 < 0 then (rc4, link_failed p k (at_link k (\<lambda>l. (cam_req_mgr_destroy_link_info l)\<lparr>lk_l_dev := []\<rparr>) (destroy_workq k s4)))
       else (rc4, if v2 then at_link k zero_triggers s4 else s4))"
    using mem pos s1 w s4 unfolding link_setup_def s2_def s3_def Let_def by simp
  have codes: "\<not> rc2 < 0" "\<not> rc4 < 0" using rc unfolding eq by (auto split: if_splits)
  have "rc4 = 0" "cr_links s4 = cr_links s3" using s4 codes(2) by (auto simp: cam_req_mgr_setup_payload_def split: if_splits)
  moreover have "cr_links s3 ! k = l1\<lparr>lk_state := CAM_CRM_LINK_STATE_READY\<rparr>" using l(2) by (simp add: s3_def s2_def link_upd_def)
  ultimately have "rc4 = 0" "cr_links s4 ! k = l1\<lparr>lk_state := CAM_CRM_LINK_STATE_READY\<rparr>" "k < length (cr_links s4)"
    using l(2) by (simp_all add: s3_def s2_def link_upd_def)
  then show ?thesis using codes fr id1 hd unfolding eq
    by (simp add: fresh_zero_triggers devs_zero_triggers ident_simps link_upd_def) (simp add: devs_def)
qed

lemma link_create_ready:
  assumes inv: "crm_inv {} s" and rc: "0 \<le> fst (link_create su limit v2 info s)"
    and good: "good_devices su (cr_tbl s) (take (li_num_devices info) (li_dev_hdls info))" "li_num_devices info \<le> length (li_dev_hdls info)"
    and idx: "\<forall>l \<in> set (cr_links s). \<forall>pd. 0 \<le> ap_idx (lk_prev_apply_data l pd) \<and> ap_idx (lk_prev_apply_data l pd) < 48"
  shows "\<exists>h k. fst (snd (link_create su limit v2 info s)) = Some h \<and> link_of h (snd (snd (link_create su limit v2 info s))) = Some k \<and>
    fresh_link (cr_links (snd (snd (link_create su limit v2 info s))) ! k) \<and> k < length (cr_links (snd (snd (link_create su limit v2 info s)))) \<and>
    map dv_dev_hdl (devs (cr_links (snd (snd (link_create su limit v2 info s))) ! k)) = take (li_num_devices info) (li_dev_hdls info)"
proof -
  have n: "\<not> li_num_devices info > limit" using rc by (auto simp: link_create_def split: if_splits)
  obtain p where p: "session_of (li_session_hdl info) s = Some p" using rc n by (auto simp: link_create_def split: option.splits)
  obtain ss where ss: "cr_session s p = Some ss" using session_of_inv [OF inv p] by blast
  obtain k s1 where r: "cam_req_mgr_reserve_link su p s = (Some k, s1)"
    using rc n p by (cases "cam_req_mgr_reserve_link su p s") (auto simp: link_create_def split: option.splits)
  have k: "k < 4" "crm_inv {k} s1" "lk_parent (cr_links s1 ! k) = Some p" using reserve_link_inv [OF inv ss r] by simp_all
  have rv: "reserved (cr_links s1 ! k)" using reserved_link [OF r owned_length [OF inv] idx] by simp
  have tb: "cr_tbl s1 = cr_tbl s" using r by (auto simp: cam_req_mgr_reserve_link_def Let_def split: if_splits option.splits)
  obtain t where t: "cr_tbl s1 = Some t" "hdl_inv t" using k(2) by (rule crm_inv_atE)
  let ?d = "\<lparr>c_session_hdl = hdl32 (li_session_hdl info), c_dev_id = su_CAM_CRM su, c_ops = None, c_priv = Some k\<rparr>"
  let ?q = "Create_Link (su_rand su) ?d" let ?h = "new_handle ?q t" let ?r = "req_entry (su_CAM_CRM su) ?q ?h"
  let ?t = "install (free_index t) ?r t"
  have c: "cam_create_link_hdl (su_rand su) ?d (cr_tbl s1) =
      (if free_index t \<ge> 256 then (- ENOSR, Some t) else (sint ?h, Some ?t))"
    using create_hdl_eq [of "su_CAM_CRM su" ?q t] t(1) by simp
  have nf: "\<not> free_index t \<ge> 256" using rc n p r c by (auto simp: link_create_def)
  note row = created_row(1,2) [OF t(2) nf, of "su_CAM_CRM su" ?q] created_row(3,4) [OF t(2) nf, of ?q]
  define s3 where "s3 = at_link k (\<lambda>l. l\<lparr>lk_last_flush_id := 0\<rparr>) (at_link k (\<lambda>l. l\<lparr>lk_link_hdl := sint ?h\<rparr>) (s1\<lparr>cr_tbl := Some ?t\<rparr>))"
  have eq: "link_create su limit v2 info s =
      (fst (link_setup su limit v2 info p k s3), Some (if fst (link_setup su limit v2 info p k s3) < 0 then - 1 else sint ?h),
       snd (link_setup su limit v2 info p k s3))"
    using p n r c nf row(4) by (simp add: link_create_def case_prod_beta Let_def s3_def)
  have len: "length (cr_links s1) = 4" by (rule owned_length [OF k(2)])
  have l3: "cr_links s3 ! k = (cr_links s1 ! k)\<lparr>lk_link_hdl := sint ?h, lk_last_flush_id := 0\<rparr>" "k < length (cr_links s3)"
    using k(1) len by (simp_all add: s3_def link_upd_def)
  have ops: "cam_get_device_ops (Some ?t) x = Some q \<Longrightarrow> cam_get_device_ops (cr_tbl s) x = Some q" for x q
    unfolding tb [symmetric] t(1) cam_get_device_ops_find [OF row(1)] cam_get_device_ops_find [OF t(2)] row(2)
    by (simp split: if_splits)
  have "good_devices su (cr_tbl s3) (take (li_num_devices info) (li_dev_hdls info))"
    using good(1) ops unfolding good_devices_def by (auto simp: s3_def)
  from link_setup_ready [OF _ l3(2) this good(2), of limit v2 p] rc eq rv l3(1)
  have su: "fresh_link (cr_links (snd (link_setup su limit v2 info p k s3)) ! k)"
    "ident (cr_links (snd (link_setup su limit v2 info p k s3)) ! k) = ident (cr_links s3 ! k)" "fst (link_setup su limit v2 info p k s3) = 0"
    "map dv_dev_hdl (devs (cr_links (snd (link_setup su limit v2 info p k s3)) ! k)) = take (li_num_devices info) (li_dev_hdls info)"
    by (simp_all add: reserved_def)
  let ?s = "snd (link_setup su limit v2 info p k s3)"
  have parts: "lk_parent (cr_links ?s ! k) = Some p" "lk_link_hdl (cr_links ?s ! k) = sint ?h"
    using su(2) k(3) l3(1) by (simp_all add: ident_def)
  have "crm_inv {} ?s" using link_create_inv [OF inv, of su limit v2 info] unfolding eq by simp
  note inv' = this
  from link_of_live [OF this k(1) _ parts(1)] have "link_of (sint ?h) ?s = Some k" unfolding parts(2) by simp
  then show ?thesis unfolding eq fst_conv snd_conv using su(1,3,4) k(1) owned_length [OF inv'] by (intro exI [of _ "sint ?h"] exI [of _ k]) simp
qed


section \<open>Closing\<close>

text \<open>
  C5. When the device node is closed, whatever calls went before, as long as every unlink named the session
  of its link, every session and every link is gone: no session is left on the list or in memory, no link
  has a session, and no handle of a session or a link resolves any more.
\<close>

theorem shutdown_leaves_nothing:
  assumes "crm_run True s"
  shows "let s' = cam_req_mgr_handle_core_shutdown su s in
    cr_session_head s' = Some [] \<and> (\<forall>p. cr_session s' p = None) \<and> (\<forall>k < MAXIMUM_LINKS_PER_SESSION. lk_parent (cr_links s' ! k) = None) \<and>
    (\<forall>h. cam_get_session_priv (cr_tbl s') h = None \<and> cam_get_link_priv (cr_tbl s') h = None)"
proof -
  let ?s = "cam_req_mgr_handle_core_shutdown su s"
  have inv: "crm_inv {} ?s" and none: "\<forall>p. cr_session ?s p = None" using shutdown_inv [OF crm_run_inv [OF assms], of su] by simp_all
  obtain t ps where ps: "cr_session_head ?s = Some ps" "\<forall>p. p \<in> set ps \<longleftrightarrow> cr_session ?s p \<noteq> None"
      and o: "owner_inv {} (cr_session ?s) (idents (cr_links ?s)) (hdl_find t)" using inv by (rule crm_inv_atE)
  have "ps = []" using ps(2) none by (cases ps) auto
  moreover have "lk_parent (cr_links ?s ! k) = None" if "k < 4" for k
    using owner_invD(7) [OF o that] none owned_length [OF inv] that by (cases "lk_parent (cr_links ?s ! k)") (auto simp: idents_nth)
  moreover have "cam_get_session_priv (cr_tbl ?s) h = None" for h
    using session_priv [OF inv, of h] none by (cases "cam_get_session_priv (cr_tbl ?s) h") auto
  moreover have "cam_get_link_priv (cr_tbl ?s) h = None" for h
    using link_priv [OF inv, of h] none by (cases "cam_get_link_priv (cr_tbl ?s) h") auto
  ultimately show ?thesis using ps(1) none by (simp add: Let_def)
qed

section \<open>A concrete run\<close>


text \<open>Two sessions and a device with delay 1, everything allocated.\<close>

definition demo_setup :: crm_setup where
  "demo_setup = \<lparr>su_ops = (\<lambda>_. \<lparr>ko_get_dev_info = True, ko_link_setup = True, ko_apply_req = True, ko_notify_frame_skip = False,
     ko_flush_req = True, ko_process_evt = True\<rparr>),
     su_get_dev_info = (\<lambda>_. (0, \<lparr>di_dev_id = 1, di_p_delay = 1, di_trigger = 1, di_trigger_on = False\<rparr>)),
     su_link_setup = (\<lambda>_. 0), su_in_q_mem = True, su_l_dev_mem = True, su_tbl_mem = (\<lambda>_. True), su_wq_mem = True,
     su_job_mem = True, su_pool_mem = True, su_payload_mem = True, su_rand = 5, su_CAM_CRM = 1\<rparr>"

definition demo_boot :: crm_state where
  "demo_boot = \<lparr>cr_session_head = None, cr_session = (\<lambda>_. None), cr_links = replicate 4 dual_link,
     cr_workq = (\<lambda>_. None), cr_payload = (\<lambda>_ _. Pl_None), cr_tbl = Some zero_hdl_tbl, cr_fault = False\<rparr>"

definition demo_session :: crm_state where
  "demo_session = snd (cam_req_mgr_create_session demo_setup (Some 8) (snd (cam_req_mgr_create_session demo_setup (Some 7)
     (snd (cam_req_mgr_core_device_init True demo_boot)))))"

definition demo_device :: crm_state where
  "demo_device = demo_session\<lparr>cr_tbl := snd (cam_create_device_hdl True 5
     \<lparr>c_session_hdl = hdl32 0x50200, c_dev_id = 1, c_ops = Some 0, c_priv = None\<rparr> (cr_tbl demo_session))\<rparr>"

definition demo_info :: cam_req_mgr_link_info where
  "demo_info = \<lparr>li_session_hdl = 0x50200, li_num_devices = 1, li_dev_hdls = [0x50102]\<rparr>"

lemma demo_facts:
  "session_of 0x50200 demo_device = Some 7" "map lk_is_used (cr_links demo_device) = [False, False, False, False]"
  "cr_session_head demo_device = Some [8, 7]"
  "map_option (\<lambda>ss. (ss_num_links ss, ss_links ss)) (cr_session demo_device 7) = Some (0, [None, None, None, None])"
  "map_option (\<lambda>ss. (ss_session_hdl ss, ss_num_links ss, ss_links ss)) (cr_session demo_device 8) =
     Some (0x50201, 0, [None, None, None, None])"
  "cam_get_device_ops (cr_tbl demo_device) (hdl32 0x50102) = Some 0" "map_option (\<lambda>t. hdl_bitmap t 3) (cr_tbl demo_device) = Some False"
  by code_simp+

lemma demo_idx: "\<forall>l \<in> set (cr_links demo_device). \<forall>pd. 0 \<le> ap_idx (lk_prev_apply_data l pd) \<and> ap_idx (lk_prev_apply_data l pd) < 48"
proof -
  have "cr_links demo_device = map (\<lambda>l. cam_req_mgr_core_link_reset (l\<lparr>lk_is_used := False\<rparr>)) (replicate 4 dual_link)"
    by (simp add: demo_device_def demo_session_def cam_req_mgr_create_session_def cam_req_mgr_core_device_init_def demo_boot_def
        case_prod_beta Let_def)
  then show ?thesis
    by (simp add: cam_req_mgr_core_link_reset_def cam_req_mgr_reset_apply_data_def zero_triggers_def dual_link_def)
qed

lemma demo_run: "crm_run True demo_device"
proof -
  have "crm_run True (snd (cam_req_mgr_core_device_init True demo_boot))" by (rule crm_run_init) (simp_all add: demo_boot_def)
  then have "crm_run True (snd (cam_req_mgr_create_session demo_setup (Some 7) (snd (cam_req_mgr_core_device_init True demo_boot))))"
    by (rule crm_run_create_session) (simp add: cam_req_mgr_core_device_init_def demo_boot_def)
  then have "crm_run True demo_session"
    unfolding demo_session_def by (rule crm_run_create_session)
      (simp add: cam_req_mgr_create_session_def cam_req_mgr_core_device_init_def demo_boot_def case_prod_beta Let_def)
  then show ?thesis unfolding demo_device_def by (rule crm_run_create_device)
qed

text \<open>When a link is reserved and set up.\<close>

lemma reserve_link_ok:
  assumes "cr_session_head s \<noteq> None" "cr_session s p = Some ss" "ss_num_links ss < 4" "su_in_q_mem su" "length (cr_links s) = 4"
    "find (\<lambda>i. \<not> lk_is_used (cr_links s ! i)) [0..<4] = Some k" "find (\<lambda>i. ss_links ss ! i = None) [0..<4] = Some i"
  shows "\<exists>s1. cam_req_mgr_reserve_link su p s = (Some k, s1) \<and> cr_tbl s1 = cr_tbl s \<and> cr_workq s1 k = None"
  using assms by (simp add: cam_req_mgr_reserve_link_def Let_def at_session_def)

lemma link_setup_ok:
  assumes "su_l_dev_mem su" "su_wq_mem su" "su_job_mem su" "su_pool_mem su" "su_payload_mem su" "cr_workq s k = None"
    "fst (cam_req_mgr_setup_link_info su limit info (cr_tbl s) ((cr_links s ! k)\<lparr>lk_l_dev := replicate (li_num_devices info) zero_dev\<rparr>)) = 0"
  shows "fst (link_setup su limit v2 info p k s) = 0"
proof -
  obtain l where l: "cam_req_mgr_setup_link_info su limit info (cr_tbl s)
      ((cr_links s ! k)\<lparr>lk_l_dev := replicate (li_num_devices info) zero_dev\<rparr>) = (0, l)" using assms(7) by (metis prod.collapse)
  have w: "cam_req_mgr_workq_create True True True nm n None q fl = (0, snd (cam_req_mgr_workq_create True True True nm n None q fl))" for nm n q fl
    using workq_create_ok [of nm n q fl] by (cases "cam_req_mgr_workq_create True True True nm n None q fl") simp
  show ?thesis using assms(1-6) by (subst link_setup_def, simp add: l Let_def, subst w, simp add: cam_req_mgr_setup_payload_def)
qed

lemma demo_setup_info:
  assumes "reserved l" "lk_l_dev l = [zero_dev]" "cam_get_device_ops t (hdl32 0x50102) = Some 0"
  shows "fst (cam_req_mgr_setup_link_info demo_setup n demo_info t l) = (if n = 0 then - EPERM else 0)"
  using assms by (simp add: cam_req_mgr_setup_link_info_def demo_info_def cam_req_mgr_setup_in_q_def reserved_def demo_setup_def dev_upd_def
      pd_table_def cam_req_mgr_create_pd_tbl_def Let_def case_prod_beta)

lemma demo_link_code: "fst (cam_req_mgr_link demo_setup demo_info demo_device) = 0"
proof -
  let ?s = demo_device
  note inv = crm_run_inv [OF demo_run]
  have len: "length (cr_links ?s) = 4" by (rule owned_length [OF inv])
  obtain ss where ss: "cr_session ?s 7 = Some ss" "ss_num_links ss = 0" "ss_links ss = [None, None, None, None]"
    using demo_facts(4) by (cases "cr_session demo_device 7") auto
  have used: "\<not> lk_is_used (cr_links ?s ! 0)"
    using arg_cong [OF demo_facts(2), of "\<lambda>xs. xs ! 0"] len by simp
  have f: "find (\<lambda>i. \<not> lk_is_used (cr_links ?s ! i)) [0..<4] = Some 0" "find (\<lambda>i. ss_links ss ! i = None) [0..<4] = Some 0"
    using used ss(3) by (simp_all add: upt_rec [of 0])
  obtain s1 where s1: "cam_req_mgr_reserve_link demo_setup 7 ?s = (Some 0, s1)" "cr_tbl s1 = cr_tbl ?s" "cr_workq s1 0 = None"
    using reserve_link_ok [OF _ ss(1) _ _ len f, of demo_setup] demo_facts(3) ss(2) by (auto simp: demo_setup_def)
  have rv: "reserved (cr_links s1 ! 0)" using reserved_link [OF s1(1) len demo_idx] by simp
  have inv1: "crm_inv {0} s1" using reserve_link_inv [OF inv ss(1) s1(1)] by simp
  obtain t where t: "cr_tbl s1 = Some t" "hdl_inv t" using inv1 by (rule crm_inv_atE)
  have "\<not> hdl_bitmap t 3" using demo_facts(7) t(1) s1(2) by simp
  then have "\<not> 3 < free_index t" unfolding free_index_def using find_first_zero_bit_below by blast
  then have nf: "\<not> free_index t \<ge> 256" by simp
  let ?d = "\<lparr>c_session_hdl = hdl32 0x50200, c_dev_id = su_CAM_CRM demo_setup, c_ops = None, c_priv = Some 0\<rparr>"
  let ?q = "Create_Link (su_rand demo_setup) ?d" let ?h = "new_handle ?q t" let ?t = "install (free_index t) (req_entry (su_CAM_CRM demo_setup) ?q ?h) t"
  have c: "cam_create_link_hdl (su_rand demo_setup) ?d (cr_tbl s1) = (sint ?h, Some ?t)"
    using create_hdl_eq [of "su_CAM_CRM demo_setup" ?q t] t(1) nf by simp
  note row = created_row(1,2) [OF t(2) nf, of "su_CAM_CRM demo_setup" ?q] created_row(3,4) [OF t(2) nf, of ?q]
  have "cam_get_device_ops (Some t) (hdl32 0x50102) = Some 0" using demo_facts(6) t(1) s1(2) by simp
  then have ops: "cam_get_device_ops (Some ?t) (hdl32 0x50102) = Some 0"
    unfolding cam_get_device_ops_find [OF row(1)] cam_get_device_ops_find [OF t(2)] row(2)
    using row(3) by (auto split: option.splits)
  let ?s3 = "at_link 0 (\<lambda>l. l\<lparr>lk_last_flush_id := 0\<rparr>) (at_link 0 (\<lambda>l. l\<lparr>lk_link_hdl := sint ?h\<rparr>) (s1\<lparr>cr_tbl := Some ?t\<rparr>))"
  have l3: "reserved ((cr_links ?s3 ! 0)\<lparr>lk_l_dev := [zero_dev]\<rparr>)"
    using rv owned_length [OF inv1] by (simp add: reserved_def)
  have "fst (link_setup demo_setup 64 False demo_info 7 0 ?s3) = 0"
    by (rule link_setup_ok) (use demo_setup_info [OF l3 _ ops, of 64] s1(3) in \<open>simp_all add: demo_setup_def demo_info_def\<close>)
  moreover have "fst (cam_req_mgr_link demo_setup demo_info ?s) = fst (link_setup demo_setup 64 False demo_info 7 0 ?s3)"
    using demo_facts(1) s1(1) c row(4)
    by (simp add: cam_req_mgr_link_def link_create_def demo_info_def case_prod_beta Let_def)
  ultimately show ?thesis by simp
qed

lemma demo_good: "good_devices demo_setup t (take (li_num_devices demo_info) (li_dev_hdls demo_info))"
  by (simp add: good_devices_def demo_setup_def demo_info_def)

definition demo_linked :: crm_state where
  "demo_linked = snd (snd (cam_req_mgr_link demo_setup demo_info demo_device))"

lemma demo_linked_run: "crm_run True demo_linked"
  unfolding demo_linked_def by (rule crm_run_link [OF demo_run])

lemma demo_linked_fresh:
  obtains h k where "fst (snd (cam_req_mgr_link demo_setup demo_info demo_device)) = Some h" "link_of h demo_linked = Some k"
    "fresh_link (cr_links demo_linked ! k)"
  using link_create_ready [OF crm_run_inv [OF demo_run] _ demo_good _ demo_idx, of 64 False] demo_link_code
  unfolding demo_linked_def cam_req_mgr_link_def by (fastforce simp: demo_info_def)

text \<open>Linking leaves other sessions alone.\<close>

lemma unreserve_other: "q \<noteq> p \<Longrightarrow> cr_session (cam_req_mgr_unreserve_link p k s) q = cr_session s q"
proof -
  assume q: "q \<noteq> p"
  have turn: "cr_session (fold f xs s) q = cr_session s q" if "\<And>x s. cr_session (f x s) q = cr_session s q" for f :: "'b \<Rightarrow> _" and xs s
    using that by (induction xs arbitrary: s) simp_all
  have "cr_session (unreserve_entry p k i s) q = cr_session s q" for i s
    unfolding unreserve_entry_def Let_def by (subst turn) (use q in \<open>auto split: option.splits\<close>)
  then show ?thesis
    using q turn [of "unreserve_entry p k"] by (simp add: cam_req_mgr_unreserve_link_def cam_req_mgr_free_link_def Let_def)
qed

lemma link_create_other:
  assumes "session_of (li_session_hdl info) s = Some p" "q \<noteq> p"
  shows "cr_session (snd (snd (link_create su limit v2 info s))) q = cr_session s q"
proof -
  have failed: "cr_session (link_failed p k s) q = cr_session s q" for k s
    using assms(2) by (simp add: link_failed_def unreserve_other)
  have payload: "cr_session (snd (cam_req_mgr_setup_payload m k s)) = cr_session s" for m k s
    by (simp add: cam_req_mgr_setup_payload_def)
  have destroyed: "cr_session (destroy_workq k s) = cr_session s" for k s by (simp add: ident_simps)
  have linked: "cr_session (snd (link_setup su limit v2 info p k s)) q = cr_session s q" for k s
    using payload by (auto simp: link_setup_def failed destroyed Let_def case_prod_beta split: prod.splits)
  have reserved: "cr_session (snd (cam_req_mgr_reserve_link su p s)) q = cr_session s q"
    using assms(2) by (auto simp: cam_req_mgr_reserve_link_def Let_def split: option.splits)
  then show ?thesis
    using assms by (auto simp: link_create_def linked unreserve_other Let_def case_prod_beta split: option.splits prod.splits)
qed

lemma demo_other: "cr_session demo_linked 8 = cr_session demo_device 8"
  unfolding demo_linked_def cam_req_mgr_link_def
  by (rule link_create_other [of _ _ 7]) (use demo_facts(1) in \<open>simp_all add: demo_info_def\<close>)

section \<open>Witnesses\<close>


theorem foreign_unlink_breaks_accounts_witness:
  "\<exists>h k. link_of h demo_linked = Some k \<and> fst (cam_req_mgr_unlink demo_setup 0x50201 h demo_linked) = 0 \<and>
     lk_is_used (cr_links (snd (cam_req_mgr_unlink demo_setup 0x50201 h demo_linked)) ! k)"
proof -
  note inv = crm_run_inv [OF demo_linked_run]
  obtain h k where k: "link_of h demo_linked = Some k" by (rule demo_linked_fresh)
  obtain ss where ss: "cr_session demo_linked 8 = Some ss" "ss_session_hdl ss = 0x50201" "ss_num_links ss = 0"
    "ss_links ss = [None, None, None, None]"
    using demo_facts(5) demo_other by (cases "cr_session demo_device 8") auto
  have s: "session_of 0x50201 demo_linked = Some 8" using session_of_live [OF inv ss(1)] ss(2) by simp
  obtain q where q: "lk_parent (cr_links demo_linked ! k) = Some q" "q \<noteq> 8"
    using link_of_inv [OF inv k] listed_iff [OF inv ss(1), of k] ss(4) by auto
  from foreign_unlink_breaks_accounts [OF demo_linked_run s k q, of demo_setup] ss(1,3) k show ?thesis
    by (auto simp: Let_def)
qed

theorem sessions_own_links_witness:
  "\<exists>h k p ss. link_of h demo_linked = Some k \<and> lk_is_used (cr_links demo_linked ! k) \<and> cr_session demo_linked p = Some ss \<and>
     Some k \<in> set (ss_links ss) \<and> session_of (ss_session_hdl ss) demo_linked = Some p \<and>
     ss_num_links ss = card {k. k < 4 \<and> lk_parent (cr_links demo_linked ! k) = Some p}"
proof -
  obtain h k where k: "link_of h demo_linked = Some k" by (rule demo_linked_fresh)
  then have "cam_get_link_priv (cr_tbl demo_linked) (hdl32 h) = Some k" by (auto simp: link_of_def split: option.splits if_splits)
  with sessions_own_links [OF demo_linked_run] k show ?thesis by meson
qed

theorem shutdown_leaves_nothing_witness:
  "cr_session_head (cam_req_mgr_handle_core_shutdown demo_setup demo_linked) = Some [] \<and>
   lk_parent (cr_links (cam_req_mgr_handle_core_shutdown demo_setup demo_linked) ! 0) = None"
  using shutdown_leaves_nothing [OF demo_linked_run, of demo_setup] by (simp add: Let_def)

end
