(* ===== verification/Cam_Mem.thy ===== *)
theory Cam_Mem imports Kernel_Prelude begin

text \<open>
  The table of buffers, \<open>cam_req_mgr/cam_mem_mgr.c\<close>: buffers that user space allocates or imports,
  buffers of the kernel, and their release when the last user is gone.

  A \<open>struct dma_buf *\<close> is a number. What the driver does with the dma-buf framework, the heaps, the
  page tables (\<open>cam_smmu_api.c\<close>) and the kernel mappings is a log of events; what these answer is an
  argument, \<open>mem_env\<close>. The code is translated as configured with dma-buf heaps and without the
  presilicon environment. Time stamps only go into log output and are left out.

  \<open>mt_stuck\<close> holds the rows whose mutex \<open>q_lock\<close> a call returned with. A later call that locks it never
  returns: the result of a call is an option, and \<open>None\<close> is the call that blocks, with the table as it
  left it. Otherwise a call is one step, from its first lock to its return.
\<close>

section \<open>Data\<close>

abbreviation CAM_MEM_BUFQ_MAX :: nat where "CAM_MEM_BUFQ_MAX \<equiv> 2048"
abbreviation (input) CAM_MEM_MMU_MAX_HANDLE :: nat where "CAM_MEM_MMU_MAX_HANDLE \<equiv> 16"
abbreviation (input) CAM_MEM_SHARED_BUFFER_PAD_4K :: u64 where "CAM_MEM_SHARED_BUFFER_PAD_4K \<equiv> 4096"

abbreviation (input) CAM_MEM_CLEAN_INV_CACHE :: u32 where "CAM_MEM_CLEAN_INV_CACHE \<equiv> 3"
abbreviation (input) DMA_BIDIRECTIONAL :: int where "DMA_BIDIRECTIONAL \<equiv> 0"
abbreviation (input) DMA_TO_DEVICE :: int where "DMA_TO_DEVICE \<equiv> 1"
abbreviation (input) DMA_FROM_DEVICE :: int where "DMA_FROM_DEVICE \<equiv> 2"
abbreviation (input) CAM_MAX_VMIDS :: nat where "CAM_MAX_VMIDS \<equiv> 4"

abbreviation (input) CAM_MEM_FLAG_HW_READ_WRITE :: u32 where "CAM_MEM_FLAG_HW_READ_WRITE \<equiv> 0x1"
abbreviation (input) CAM_MEM_FLAG_HW_READ_ONLY :: u32 where "CAM_MEM_FLAG_HW_READ_ONLY \<equiv> 0x2"
abbreviation (input) CAM_MEM_FLAG_HW_WRITE_ONLY :: u32 where "CAM_MEM_FLAG_HW_WRITE_ONLY \<equiv> 0x4"
abbreviation (input) CAM_MEM_FLAG_KMD_ACCESS :: u32 where "CAM_MEM_FLAG_KMD_ACCESS \<equiv> 0x8"
abbreviation (input) CAM_MEM_FLAG_PROTECTED_MODE :: u32 where "CAM_MEM_FLAG_PROTECTED_MODE \<equiv> 0x20"
abbreviation (input) CAM_MEM_FLAG_CMD_BUF_TYPE :: u32 where "CAM_MEM_FLAG_CMD_BUF_TYPE \<equiv> 0x40"
abbreviation (input) CAM_MEM_FLAG_CACHE :: u32 where "CAM_MEM_FLAG_CACHE \<equiv> 0x400"
abbreviation (input) CAM_MEM_FLAG_HW_SHARED_ACCESS :: u32 where "CAM_MEM_FLAG_HW_SHARED_ACCESS \<equiv> 0x800"
abbreviation (input) CAM_MEM_FLAG_CDSP_OUTPUT :: u32 where "CAM_MEM_FLAG_CDSP_OUTPUT \<equiv> 0x1000"
abbreviation (input) CAM_MEM_FLAG_DISABLE_DELAYED_UNMAP :: u32 where "CAM_MEM_FLAG_DISABLE_DELAYED_UNMAP \<equiv> 0x2000"
abbreviation (input) CAM_MEM_FLAG_KMD_DEBUG_FLAG :: u32 where "CAM_MEM_FLAG_KMD_DEBUG_FLAG \<equiv> 0x4000"
abbreviation (input) CAM_MEM_FLAG_EVA_NOPIXEL :: u32 where "CAM_MEM_FLAG_EVA_NOPIXEL \<equiv> 0x8000"

definition has_flag :: "u32 \<Rightarrow> u32 \<Rightarrow> bool" where
  "has_flag flags f \<longleftrightarrow> and flags f \<noteq> 0"

datatype cam_smmu_region_id =
    CAM_SMMU_REGION_FIRMWARE | CAM_SMMU_REGION_SHARED | CAM_SMMU_REGION_SCRATCH | CAM_SMMU_REGION_IO
  | CAM_SMMU_REGION_SECHEAP | CAM_SMMU_REGION_QDSS | CAM_SMMU_REGION_FWUNCACHED

datatype cam_smmu_mapping_client = CAM_SMMU_MAPPING_USER | CAM_SMMU_MAPPING_KERNEL

datatype cam_vmid = VMID_CP_CAMERA | VMID_CP_CDSP | VMID_CP_NON_PIXEL

text \<open>
  How a buffer is mapped: with \<open>cam_smmu_map_stage2_iova\<close>, \<open>cam_smmu_map_user_iova\<close> (without delayed
  unmap, region, internal) or \<open>cam_smmu_map_kernel_iova\<close>.
\<close>

datatype smmu_map = Stage2 | User bool cam_smmu_region_id bool | Kernel cam_smmu_region_id
datatype smmu_unmap = Unmap_Stage2 | Unmap_User cam_smmu_region_id | Unmap_Kernel cam_smmu_region_id

text \<open>
  What is taken is logged when the call succeeds, what is given back when it is called.
  \<open>Mv_Fd\<close>: the reference goes to the table of open files; \<open>Mv_Fd_Fail\<close>: no descriptor was left.
\<close>

datatype mem_ev =
    Mv_Alloc nat
  | Mv_Get nat
  | Mv_Put nat
  | Mv_Fd nat int
  | Mv_Fd_Fail nat
  | Mv_Lend nat "cam_vmid list"
  | Mv_Kmap nat
  | Mv_Kunmap nat
  | Mv_Map int smmu_map int nat
  | Mv_Unmap smmu_unmap int ptr
  | Mv_Reserve int nat cam_smmu_region_id
  | Mv_Release_Region int cam_smmu_region_id

record cam_mem_buf_queue =
  bq_dma_buf :: "nat option"
  bq_hdls :: "int list"
  bq_num_hdl :: nat
  bq_fd :: int
  bq_i_ino :: u64
  bq_buf_handle :: u32
  bq_len :: u64
  bq_flags :: u32
  bq_vaddr :: u64
  bq_kmdvaddr :: u64
  bq_active :: bool
  bq_release_deferred :: bool
  bq_is_imported :: bool
  bq_is_internal :: bool
  bq_krefcount :: int
  bq_client :: cam_smmu_mapping_client
  bq_urefcount :: int

record cam_mem_table =
  mt_initialized :: bool
  mt_bitmap :: bitmap
  mt_bits :: nat
  mt_bufq :: "nat \<Rightarrow> cam_mem_buf_queue"
  mt_dbg_buf_idx :: u64
  mt_force_cache_allocs :: bool
  mt_need_padding :: bool
  mt_system_heap :: ptr
  mt_system_uncached_heap :: ptr
  mt_camera_heap :: ptr
  mt_camera_uncached_heap :: ptr
  mt_secure_display_heap :: ptr
  mt_stuck :: "nat set"
  mt_log :: "mem_ev list"

record cam_mem_mgr_alloc_cmd =
  ac_len :: u64
  ac_mmu_hdls :: "int list"
  ac_num_hdl :: nat
  ac_flags :: u32

record cam_mem_mgr_map_cmd =
  mc_mmu_hdls :: "int list"
  mc_num_hdl :: nat
  mc_flags :: u32
  mc_fd :: int

record cam_mem_cache_ops_cmd =
  cc_buf_handle :: u32
  cc_mem_cache_ops :: u32

record cam_mem_mgr_request_desc =
  rq_size :: u64
  rq_smmu_hdl :: int
  rq_flags :: u32

record cam_mem_mgr_memory_desc =
  md_kva :: u64
  md_iova :: u32
  md_smmu_hdl :: int
  md_mem_handle :: u32
  md_len :: u64
  md_region :: cam_smmu_region_id

text \<open>
  What the calls ask of the outside: whether the call comes from a task; the heaps that exist; what
  an allocation from a heap gives (\<open>Inl\<close> an error); inode number and size of a buffer; lending it to
  the secure side; a file descriptor; the buffer of a descriptor; the steps of a kernel mapping;
  mapping into the page tables of the \<open>i\<close>-th handle, with address and length; unmapping; the
  reserved regions.
\<close>

record mem_env =
  me_in_task :: bool
  me_force_cached :: "bool option"
  me_padding :: bool
  me_heap_find :: "string \<Rightarrow> int + nat"
  me_bitmap_mem :: bool
  me_heap_alloc :: "ptr \<Rightarrow> u64 \<Rightarrow> int + nat"
  me_i_ino :: "nat \<Rightarrow> u64"
  me_dmabuf_size :: "nat \<Rightarrow> u64"
  me_lend :: int
  me_dma_buf_fd :: int
  me_dma_buf_get :: ptr
  me_get_flags :: int
  me_begin_cpu :: "int \<Rightarrow> int"
  me_vmap :: "int \<times> u64"
  me_end_cpu :: "int \<Rightarrow> int"
  me_expanded :: bool
  me_shared_region :: "int \<Rightarrow> bool"
  me_map :: "nat \<Rightarrow> int"
  me_map_va :: u64
  me_map_len :: "u64 \<Rightarrow> u64"
  me_unmap :: "nat \<Rightarrow> int"
  me_get_iova :: "bool \<Rightarrow> int \<times> u64 \<times> u64"
  me_reserve :: "int \<times> u64 \<times> u64"
  me_release_region :: int

definition mem_emit :: "mem_ev list \<Rightarrow> cam_mem_table \<Rightarrow> cam_mem_table" where
  "mem_emit es t = t\<lparr>mt_log := mt_log t @ es\<rparr>"

definition bq_upd :: "nat \<Rightarrow> (cam_mem_buf_queue \<Rightarrow> cam_mem_buf_queue) \<Rightarrow> cam_mem_table \<Rightarrow> cam_mem_table" where
  "bq_upd i f t = t\<lparr>mt_bufq := (mt_bufq t)(i := f (mt_bufq t i))\<rparr>"

section \<open>Handles\<close>

definition GET_MEM_HANDLE :: "nat \<Rightarrow> int \<Rightarrow> u32" where
  "GET_MEM_HANDLE idx fd = or (and (of_nat idx) 0x7fff) (push_bit 16 (word_of_int fd))"

definition CAM_MEM_MGR_GET_HDL_IDX :: "u32 \<Rightarrow> nat" where
  "CAM_MEM_MGR_GET_HDL_IDX hdl = unat (and hdl 0x7fff)"

definition CAM_MEM_MGR_SET_SECURE_HDL :: "u32 \<Rightarrow> u32" where
  "CAM_MEM_MGR_SET_SECURE_HDL hdl = or hdl 0x8000"

definition CAM_MEM_MGR_IS_SECURE_HDL :: "u32 \<Rightarrow> bool" where
  "CAM_MEM_MGR_IS_SECURE_HDL hdl \<longleftrightarrow> drop_bit 15 (and hdl 0x8000) \<noteq> 0"

definition bad_idx :: "nat \<Rightarrow> bool" where
  "bad_idx idx \<longleftrightarrow> idx \<ge> CAM_MEM_BUFQ_MAX \<or> idx = 0"

section \<open>Rows\<close>

definition q_lock :: "nat \<Rightarrow> cam_mem_table \<Rightarrow> 'r option \<times> cam_mem_table \<Rightarrow> 'r option \<times> cam_mem_table" where
  "q_lock i t k = (if i \<in> mt_stuck t then (None, t) else k)"

definition cam_mem_get_slot :: "cam_mem_table \<Rightarrow> int option \<times> cam_mem_table" where
  "cam_mem_get_slot t =
     (let idx = find_first_zero_bit (mt_bitmap t) (mt_bits t);
          t1 = t\<lparr>mt_bitmap := set_bit_map idx (mt_bitmap t)\<rparr>
      in
      if bad_idx idx then (Some (- ENOMEM), t)
      else q_lock idx t1
        (Some (int idx), bq_upd idx (\<lambda>r. r\<lparr>bq_active := True, bq_release_deferred := False\<rparr>) t1))"

text \<open>Only called on a row \<open>cam_mem_get_slot\<close> has just locked and unlocked.\<close>

definition cam_mem_put_slot :: "nat \<Rightarrow> cam_mem_table \<Rightarrow> cam_mem_table" where
  "cam_mem_put_slot idx t =
     (bq_upd idx (\<lambda>r. r\<lparr>bq_active := False, bq_release_deferred := False, bq_is_internal := False,
        bq_krefcount := 1, bq_urefcount := 1\<rparr>) t)\<lparr>mt_bitmap := clear_bit_map idx (mt_bitmap t)\<rparr>"

section \<open>Kernel mappings\<close>

definition cam_mem_util_get_dma_dir :: "u32 \<Rightarrow> int" where
  "cam_mem_util_get_dma_dir flags =
     (if has_flag flags CAM_MEM_FLAG_HW_READ_ONLY then DMA_TO_DEVICE
      else if has_flag flags CAM_MEM_FLAG_HW_WRITE_ONLY then DMA_FROM_DEVICE
      else if has_flag flags CAM_MEM_FLAG_HW_READ_WRITE then DMA_BIDIRECTIONAL
      else if has_flag flags CAM_MEM_FLAG_PROTECTED_MODE then DMA_BIDIRECTIONAL
      else - EINVAL)"

text \<open>The result is the code, the address and the length; the last two only count when the code is 0.\<close>

definition cam_mem_util_map_cpu_va :: "mem_env \<Rightarrow> nat \<Rightarrow> cam_mem_table \<Rightarrow> (int \<times> u64 \<times> u64) \<times> cam_mem_table" where
  "cam_mem_util_map_cpu_va env b t =
     (if me_begin_cpu env DMA_BIDIRECTIONAL \<noteq> 0 then ((me_begin_cpu env DMA_BIDIRECTIONAL, 0, 0), t)
      else
        let (rc, va) = me_vmap env in
        if rc \<noteq> 0 then ((rc, 0, 0), t) else ((rc, va, me_dmabuf_size env b), mem_emit [Mv_Kmap b] t))"

definition cam_mem_util_unmap_cpu_va :: "mem_env \<Rightarrow> ptr \<Rightarrow> u64 \<Rightarrow> cam_mem_table \<Rightarrow> int \<times> cam_mem_table" where
  "cam_mem_util_unmap_cpu_va env dmabuf vaddr t =
     (case dmabuf of
        None \<Rightarrow> (- EINVAL, t)
      | Some b \<Rightarrow> if vaddr = 0 then (- EINVAL, t) else (me_end_cpu env DMA_BIDIRECTIONAL, mem_emit [Mv_Kunmap b] t))"

section \<open>Loading\<close>

text \<open>\<open>Inl\<close> is the error of a heap that has to be there.\<close>

definition cam_mem_mgr_get_dma_heaps :: "mem_env \<Rightarrow> cam_mem_table \<Rightarrow> int \<times> cam_mem_table" where
  "cam_mem_mgr_get_dma_heaps env t =
     (let find = me_heap_find env; opt = (\<lambda>h. case h of Inl _ \<Rightarrow> None | Inr p \<Rightarrow> Some p);
          t0 = t\<lparr>mt_system_heap := None, mt_system_uncached_heap := None, mt_camera_heap := None,
                 mt_camera_uncached_heap := None, mt_secure_display_heap := None\<rparr>
      in
      (case find ''qcom,system'' of
         Inl e \<Rightarrow> (e, t0)
       | Inr h \<Rightarrow>
           let t2 = t0\<lparr>mt_system_heap := Some h, mt_system_uncached_heap := opt (find ''qcom,system-uncached'')\<rparr> in
           (case (find ''qcom,system-uncached'', mt_force_cache_allocs t) of
              (Inl e, False) \<Rightarrow> (e, t2)
            | _ \<Rightarrow>
                (case find ''qcom,display'' of
                   Inl e \<Rightarrow> (e, t2)
                 | Inr d \<Rightarrow> (0, t2\<lparr>mt_secure_display_heap := Some d, mt_camera_heap := opt (find ''qcom,camera''),
                                  mt_camera_uncached_heap := opt (find ''qcom,camera-uncached'')\<rparr>)))))"

text \<open>The driver has its table zeroed; nothing has been logged.\<close>

definition zero_bufq :: cam_mem_buf_queue where
  "zero_bufq = \<lparr>bq_dma_buf = None, bq_hdls = replicate CAM_MEM_MMU_MAX_HANDLE 0, bq_num_hdl = 0, bq_fd = 0,
     bq_i_ino = 0, bq_buf_handle = 0, bq_len = 0, bq_flags = 0, bq_vaddr = 0, bq_kmdvaddr = 0,
     bq_active = False, bq_release_deferred = False, bq_is_imported = False, bq_is_internal = False,
     bq_krefcount = 0, bq_client = CAM_SMMU_MAPPING_USER, bq_urefcount = 0\<rparr>"

definition cam_mem_mgr_init :: "mem_env \<Rightarrow> cam_mem_table \<Rightarrow> int \<times> cam_mem_table" where
  "cam_mem_mgr_init env t0 =
     (let t = t0\<lparr>mt_bufq := (\<lambda>i. if i < CAM_MEM_BUFQ_MAX then zero_bufq else mt_bufq t0 i)\<rparr> in
      (case me_force_cached env of
         None \<Rightarrow> (- EINVAL, t)
       | Some fc \<Rightarrow>
           (let (rc, t1) = cam_mem_mgr_get_dma_heaps env
                  (t\<lparr>mt_force_cache_allocs := fc, mt_need_padding := me_padding env\<rparr>) in
            if rc \<noteq> 0 then (rc, t1)
            else if \<not> me_bitmap_mem env then (- ENOMEM, t1\<lparr>mt_bitmap := (\<lambda>_. False)\<rparr>)
            else (0, t1\<lparr>mt_bits := 2048, mt_bitmap := set_bit_map 0 (bitmap_zero 2048 (\<lambda>_. False)),
                        mt_bufq := (\<lambda>i. if 1 \<le> i \<and> i < CAM_MEM_BUFQ_MAX
                                        then (mt_bufq t1 i)\<lparr>bq_fd := - 1, bq_buf_handle := - 1\<rparr>
                                        else mt_bufq t1 i),
                        mt_stuck := {}, mt_initialized := True\<rparr>))))"

section \<open>Allocation\<close>

definition dma_buf_put :: "nat \<Rightarrow> cam_mem_table \<Rightarrow> cam_mem_table" where
  "dma_buf_put b t = mem_emit [Mv_Put b] t"

definition cam_mem_util_get_dma_buf ::
    "mem_env \<Rightarrow> u64 \<Rightarrow> u32 \<Rightarrow> cam_mem_table \<Rightarrow> (int + nat \<times> u64) \<times> cam_mem_table" where
  "cam_mem_util_get_dma_buf env len flags t =
     (let prot = has_flag flags CAM_MEM_FLAG_PROTECTED_MODE;
          nopixel = has_flag flags CAM_MEM_FLAG_EVA_NOPIXEL
      in
      if \<not> (has_flag flags CAM_MEM_FLAG_CACHE \<or> (mt_force_cache_allocs t \<and> \<not> prot)) \<and> \<not> prot
      then (Inl (- EINVAL), t)
      else
        let (try_heap, heap, vmids) =
              (if prot
               then (None, mt_secure_display_heap t,
                     VMID_CP_CAMERA # (if has_flag flags CAM_MEM_FLAG_CDSP_OUTPUT then [VMID_CP_CDSP] else []))
               else if nopixel then (None, mt_secure_display_heap t, [VMID_CP_NON_PIXEL])
               else (mt_camera_heap t, mt_system_heap t, []))
        in
        if try_heap = None \<and> heap = None then (Inl (- EINVAL), t)
        else
          let first = (case try_heap of None \<Rightarrow> Inl 0 | Some h \<Rightarrow> me_heap_alloc env (Some h) len);
              got = (case first of Inl _ \<Rightarrow> me_heap_alloc env heap len | Inr b \<Rightarrow> Inr b)
          in
          (case got of
             Inl e \<Rightarrow> (Inl e, t)
           | Inr b \<Rightarrow>
               let t1 = mem_emit [Mv_Alloc b] t in
               if prot \<or> nopixel
               then if length vmids \<ge> CAM_MAX_VMIDS then (Inl (- EINVAL), dma_buf_put b t1)
                    else if me_lend env \<noteq> 0 then (Inl (me_lend env), dma_buf_put b t1)
                    else (Inr (b, me_i_ino env b), mem_emit [Mv_Lend b vmids] t1)
               else (Inr (b, me_i_ino env b), t1)))"

text \<open>The buffer, its descriptor and its inode number.\<close>

definition cam_mem_util_buffer_alloc ::
    "mem_env \<Rightarrow> u64 \<Rightarrow> u32 \<Rightarrow> cam_mem_table \<Rightarrow> (int + nat \<times> int \<times> u64) \<times> cam_mem_table" where
  "cam_mem_util_buffer_alloc env len flags t =
     (case cam_mem_util_get_dma_buf env len flags t of
        (Inl e, t1) \<Rightarrow> (Inl e, t1)
      | (Inr (b, ino), t1) \<Rightarrow>
          let t2 = mem_emit [Mv_Get b] t1 in
          if me_dma_buf_fd env < 0 then (Inl (- EINVAL), dma_buf_put b (mem_emit [Mv_Fd_Fail b] t2))
          else (Inr (b, me_dma_buf_fd env, ino), mem_emit [Mv_Fd b (me_dma_buf_fd env)] t2))"

definition cam_mem_util_check_alloc_flags :: "cam_mem_mgr_alloc_cmd \<Rightarrow> int" where
  "cam_mem_util_check_alloc_flags cmd =
     (let f = has_flag (ac_flags cmd) in
      if ac_num_hdl cmd > CAM_MEM_MMU_MAX_HANDLE then - EINVAL
      else if f CAM_MEM_FLAG_PROTECTED_MODE \<and> f CAM_MEM_FLAG_KMD_ACCESS then - EINVAL
      else if f CAM_MEM_FLAG_EVA_NOPIXEL \<and> (f CAM_MEM_FLAG_PROTECTED_MODE \<or> f CAM_MEM_FLAG_KMD_ACCESS)
      then - EINVAL
      else 0)"

definition cam_mem_util_check_map_flags :: "cam_mem_mgr_map_cmd \<Rightarrow> int" where
  "cam_mem_util_check_map_flags cmd =
     (let f = has_flag (mc_flags cmd) in
      if mc_flags cmd = 0 then - EINVAL
      else if mc_num_hdl cmd > CAM_MEM_MMU_MAX_HANDLE then - EINVAL
      else if f CAM_MEM_FLAG_PROTECTED_MODE \<and> f CAM_MEM_FLAG_KMD_ACCESS then - EINVAL
      else if f CAM_MEM_FLAG_HW_SHARED_ACCESS then - EINVAL
      else 0)"

section \<open>Page tables\<close>

text \<open>
  The loop over the handles: the code, the number of handles mapped when it stops, and the table. The
  region changes to the shared one for good. \<open>rc\<close> is the code of the handle before.
\<close>

fun map_hw_loop :: "mem_env \<Rightarrow> u32 \<Rightarrow> int \<Rightarrow> nat \<Rightarrow> bool \<Rightarrow> int list \<Rightarrow> nat \<Rightarrow> int \<Rightarrow> cam_smmu_region_id \<Rightarrow>
    cam_mem_table \<Rightarrow> int \<times> nat \<times> cam_mem_table" where
  "map_hw_loop env flags dir b internal [] i rc region t = (rc, i, t)"
| "map_hw_loop env flags dir b internal (h # hs) i rc region t =
     (let region' = (if me_expanded env \<and> me_shared_region env h \<and> has_flag flags CAM_MEM_FLAG_CMD_BUF_TYPE
                     then CAM_SMMU_REGION_SHARED else region);
          how = (if has_flag flags CAM_MEM_FLAG_PROTECTED_MODE then Stage2
                 else User (has_flag flags CAM_MEM_FLAG_DISABLE_DELAYED_UNMAP) region' internal)
      in
      if me_map env i \<noteq> 0 then (me_map env i, i, t)
      else map_hw_loop env flags dir b internal hs (Suc i) 0 region' (mem_emit [Mv_Map dir how h b] t))"

text \<open>The code, the address and the length. Without a handle the code is the initial \<open>- 1\<close>.\<close>

definition cam_mem_util_map_hw_va :: "mem_env \<Rightarrow> u32 \<Rightarrow> int list \<Rightarrow> nat \<Rightarrow> nat \<Rightarrow> u64 \<Rightarrow> cam_smmu_region_id \<Rightarrow>
    bool \<Rightarrow> cam_mem_table \<Rightarrow> (int \<times> u64 \<times> u64) \<times> cam_mem_table" where
  "cam_mem_util_map_hw_va env flags hdls num b len region internal t =
     (let dir = cam_mem_util_get_dma_dir flags in
      if dir < 0 then ((dir, 0, len), t)
      else
        let (rc, i, t1) = map_hw_loop env flags dir b internal (take num hdls) 0 (- 1) region t in
        if rc = 0 then ((0, me_map_va env, me_map_len env len), t1)
        else
          let how = (if has_flag flags CAM_MEM_FLAG_PROTECTED_MODE then Unmap_Stage2 else Unmap_User CAM_SMMU_REGION_IO)
          in ((rc, 0, me_map_len env len),
              mem_emit (map (\<lambda>h. Mv_Unmap how h (Some b)) (rev (take i hdls))) t1))"

fun unmap_hw_loop :: "mem_env \<Rightarrow> smmu_unmap \<Rightarrow> ptr \<Rightarrow> int list \<Rightarrow> nat \<Rightarrow> int \<Rightarrow> cam_mem_table \<Rightarrow> int \<times> cam_mem_table"
where
  "unmap_hw_loop env how p [] i rc t = (rc, t)"
| "unmap_hw_loop env how p (h # hs) i rc t =
     (let t1 = mem_emit [Mv_Unmap how h p] t in
      if me_unmap env i < 0 then (me_unmap env i, t1)
      else unmap_hw_loop env how p hs (Suc i) (me_unmap env i) t1)"

definition cam_mem_util_unmap_hw_va ::
    "mem_env \<Rightarrow> nat \<Rightarrow> cam_smmu_region_id \<Rightarrow> cam_smmu_mapping_client \<Rightarrow> cam_mem_table \<Rightarrow> int \<times> cam_mem_table" where
  "cam_mem_util_unmap_hw_va env idx region client t =
     (if bad_idx idx then (- EINVAL, t)
      else
        let r = mt_bufq t idx;
            how = (if has_flag (bq_flags r) CAM_MEM_FLAG_PROTECTED_MODE then Unmap_Stage2
                   else (case client of CAM_SMMU_MAPPING_USER \<Rightarrow> Unmap_User region
                                      | CAM_SMMU_MAPPING_KERNEL \<Rightarrow> Unmap_Kernel region))
        in unmap_hw_loop env how (bq_dma_buf r) (take (bq_num_hdl r) (bq_hdls r)) 0 0 t)"

end
