(* ===== verification/Cam_Mem_Calls.thy ===== *)
theory Cam_Mem_Calls imports Cam_Mem begin

text \<open>
  The calls of the memory manager: allocate and map, import, use by the kernel, release, and the
  buffers the kernel asks for itself.
\<close>

section \<open>Unmapping a row\<close>

definition region_of :: "u32 \<Rightarrow> cam_smmu_region_id" where
  "region_of flags =
     (if has_flag flags CAM_MEM_FLAG_HW_SHARED_ACCESS then CAM_SMMU_REGION_SHARED
      else if has_flag flags CAM_MEM_FLAG_HW_READ_WRITE then CAM_SMMU_REGION_IO
      else CAM_SMMU_REGION_SHARED)"

definition is_hw_mapped :: "u32 \<Rightarrow> bool" where
  "is_hw_mapped flags \<longleftrightarrow> has_flag flags CAM_MEM_FLAG_HW_READ_WRITE \<or>
     has_flag flags CAM_MEM_FLAG_HW_SHARED_ACCESS \<or> has_flag flags CAM_MEM_FLAG_PROTECTED_MODE"

definition put_ptr :: "ptr \<Rightarrow> cam_mem_table \<Rightarrow> cam_mem_table" where
  "put_ptr p t = (case p of None \<Rightarrow> t | Some b \<Rightarrow> dma_buf_put b t)"

text \<open>The three stages of \<open>cam_mem_util_unmap\<close>: off, unmapped, empty.\<close>

definition unmap_mappings :: "mem_env \<Rightarrow> nat \<Rightarrow> cam_mem_table \<Rightarrow> cam_mem_table" where
  "unmap_mappings env idx t =
     (let r = mt_bufq t idx;
          t1 = (if has_flag (bq_flags r) CAM_MEM_FLAG_KMD_ACCESS \<and> bq_dma_buf r \<noteq> None \<and> bq_kmdvaddr r \<noteq> 0
                then snd (cam_mem_util_unmap_cpu_va env (bq_dma_buf r) (bq_kmdvaddr r) t) else t)
      in if is_hw_mapped (bq_flags r)
         then snd (cam_mem_util_unmap_hw_va env idx (region_of (bq_flags r)) (bq_client r) t1) else t1)"

definition cam_mem_util_unmap :: "mem_env \<Rightarrow> nat \<Rightarrow> cam_mem_table \<Rightarrow> cam_mem_table" where
  "cam_mem_util_unmap env idx t =
     (if bad_idx idx then t
      else if \<not> bq_active (mt_bufq t idx) \<and> bq_vaddr (mt_bufq t idx) = 0 then t
      else
        let t1 = bq_upd idx (\<lambda>r. r\<lparr>bq_active := False, bq_vaddr := 0, bq_buf_handle := - 1,
                                    bq_release_deferred := False\<rparr>) t;
            t2 = put_ptr (bq_dma_buf (mt_bufq t idx)) (unmap_mappings env idx t1);
            t3 = bq_upd idx (\<lambda>r. r\<lparr>bq_flags := 0, bq_hdls := replicate CAM_MEM_MMU_MAX_HANDLE 0, bq_fd := - 1,
                   bq_i_ino := 0, bq_dma_buf := None, bq_is_imported := False, bq_is_internal := False,
                   bq_len := 0, bq_num_hdl := 0, bq_krefcount := 0, bq_urefcount := 0\<rparr>) t2
        in t3\<lparr>mt_bitmap := clear_bit_map idx (mt_bitmap t3)\<rparr>)"

definition cam_mem_util_unmap_wrapper :: "mem_env \<Rightarrow> nat \<Rightarrow> cam_mem_table \<Rightarrow> cam_mem_table" where
  "cam_mem_util_unmap_wrapper env row t =
     (let idx = CAM_MEM_MGR_GET_HDL_IDX (bq_buf_handle (mt_bufq t row)) in
      if bad_idx idx then t else cam_mem_util_unmap env idx t)"

definition cam_mem_mgr_unmap_active_buf :: "mem_env \<Rightarrow> nat \<Rightarrow> cam_mem_table \<Rightarrow> cam_mem_table" where
  "cam_mem_mgr_unmap_active_buf env idx t =
     (let r = mt_bufq t idx;
          t1 = snd (cam_mem_util_unmap_hw_va env idx (region_of (bq_flags r)) CAM_SMMU_MAPPING_USER t)
      in if has_flag (bq_flags r) CAM_MEM_FLAG_KMD_ACCESS
         then snd (cam_mem_util_unmap_cpu_va env (bq_dma_buf r) (bq_kmdvaddr r) t1) else t1)"

section \<open>Unloading\<close>

definition cleanup_row :: "mem_env \<Rightarrow> nat \<Rightarrow> cam_mem_table \<Rightarrow> cam_mem_table" where
  "cleanup_row env i t =
     (bq_upd i (\<lambda>r. r\<lparr>bq_dma_buf := None, bq_fd := - 1, bq_i_ino := 0, bq_flags := 0, bq_buf_handle := - 1,
        bq_vaddr := 0, bq_len := 0, bq_hdls := replicate (bq_num_hdl r) 0 @ drop (bq_num_hdl r) (bq_hdls r),
        bq_num_hdl := 0, bq_active := False, bq_release_deferred := False, bq_is_internal := False,
        bq_krefcount := 1, bq_urefcount := 1\<rparr>)
      (put_ptr (bq_dma_buf (mt_bufq t i)) (cam_mem_mgr_unmap_active_buf env i t)))"

fun cleanup_rows :: "mem_env \<Rightarrow> nat list \<Rightarrow> cam_mem_table \<Rightarrow> unit option \<times> cam_mem_table" where
  "cleanup_rows env [] t = (Some (), t)"
| "cleanup_rows env (i # is) t =
     q_lock i t (cleanup_rows env is (if bq_active (mt_bufq t i) then cleanup_row env i t else t))"

definition cam_mem_mgr_cleanup_table :: "mem_env \<Rightarrow> cam_mem_table \<Rightarrow> unit option \<times> cam_mem_table" where
  "cam_mem_mgr_cleanup_table env t =
     (case cleanup_rows env [1..<CAM_MEM_BUFQ_MAX] t of
        (None, t1) \<Rightarrow> (None, t1)
      | (Some _, t1) \<Rightarrow> (Some (), t1\<lparr>mt_bitmap := set_bit_map 0 (bitmap_zero (mt_bits t1) (mt_bitmap t1))\<rparr>))"

definition cam_mem_mgr_deinit :: "mem_env \<Rightarrow> cam_mem_table \<Rightarrow> unit option \<times> cam_mem_table" where
  "cam_mem_mgr_deinit env t =
     (case cam_mem_mgr_cleanup_table env (t\<lparr>mt_initialized := False\<rparr>) of
        (None, t1) \<Rightarrow> (None, t1)
      | (Some _, t1) \<Rightarrow> (Some (), t1\<lparr>mt_bitmap := (\<lambda>_. False), mt_dbg_buf_idx := - 1\<rparr>))"

section \<open>Allocating and importing for user space\<close>

definition copy_hdls :: "nat \<Rightarrow> int list \<Rightarrow> int list \<Rightarrow> int list" where
  "copy_hdls n src dst = take n src @ drop n dst"

text \<open>\<open>- EALREADY\<close>: the buffer is in the page table already; another length is another error.\<close>

definition already_rc :: "mem_env \<Rightarrow> nat \<Rightarrow> u64 \<Rightarrow> int \<Rightarrow> int" where
  "already_rc env b mlen rc = (if rc = - EALREADY \<and> me_dmabuf_size env b \<noteq> mlen then - EBADR else rc)"

definition alloc_handle :: "nat \<Rightarrow> int \<Rightarrow> u32 \<Rightarrow> u32" where
  "alloc_handle idx fd flags =
     (if has_flag flags CAM_MEM_FLAG_PROTECTED_MODE then CAM_MEM_MGR_SET_SECURE_HDL (GET_MEM_HANDLE idx fd)
      else GET_MEM_HANDLE idx fd)"

text \<open>The second half of \<open>cam_mem_mgr_alloc_and_map\<close>: the row is taken, the page tables are mapped.\<close>

definition alloc_finish :: "mem_env \<Rightarrow> cam_mem_mgr_alloc_cmd \<Rightarrow> nat \<Rightarrow> nat \<Rightarrow> int \<Rightarrow> u64 \<Rightarrow> u64 \<Rightarrow> u64 \<Rightarrow>
    cam_mem_table \<Rightarrow> (int + u32 \<times> int) option \<times> cam_mem_table" where
  "alloc_finish env cmd idx b fd ino va mlen t =
     (let kmd = has_flag (ac_flags cmd) CAM_MEM_FLAG_KMD_ACCESS;
          hdl = alloc_handle idx fd (ac_flags cmd);
          t1 = bq_upd idx (\<lambda>r. r\<lparr>bq_fd := fd, bq_i_ino := ino, bq_dma_buf := None, bq_flags := ac_flags cmd,
                 bq_buf_handle := hdl, bq_is_internal := True\<rparr>) t;
          ((rc, kva, klen), t2) = (if kmd then cam_mem_util_map_cpu_va env b t1 else ((0, 0, 0), t1))
      in
      if rc \<noteq> 0 then (Some (Inl rc), dma_buf_put b (cam_mem_put_slot idx t2))
      else
        let t3 = (if has_flag (ac_flags cmd) CAM_MEM_FLAG_KMD_DEBUG_FLAG
                  then t2\<lparr>mt_dbg_buf_idx := of_nat idx\<rparr> else t2)
        in (Some (Inr (hdl, fd)),
            bq_upd idx (\<lambda>r. r\<lparr>bq_kmdvaddr := kva, bq_vaddr := va, bq_dma_buf := Some b, bq_len := mlen,
              bq_num_hdl := ac_num_hdl cmd, bq_hdls := copy_hdls (ac_num_hdl cmd) (ac_mmu_hdls cmd) (bq_hdls r),
              bq_is_imported := False, bq_krefcount := (if kmd then 1 else bq_krefcount r), bq_urefcount := 1,
              bq_client := CAM_SMMU_MAPPING_USER\<rparr>) t3))"

text \<open>\<open>Inr\<close>: the handle and the descriptor, the output fields of the command.\<close>

definition cam_mem_mgr_alloc_and_map ::
    "mem_env \<Rightarrow> cam_mem_mgr_alloc_cmd \<Rightarrow> cam_mem_table \<Rightarrow> (int + u32 \<times> int) option \<times> cam_mem_table" where
  "cam_mem_mgr_alloc_and_map env cmd t =
     (let flags = ac_flags cmd;
          len = (if mt_need_padding t \<and> has_flag flags CAM_MEM_FLAG_HW_SHARED_ACCESS
                 then ac_len cmd + CAM_MEM_SHARED_BUFFER_PAD_4K else ac_len cmd)
      in
      if \<not> mt_initialized t then (Some (Inl (- EINVAL)), t)
      else if cam_mem_util_check_alloc_flags cmd \<noteq> 0 then (Some (Inl (cam_mem_util_check_alloc_flags cmd)), t)
      else
        (case cam_mem_util_buffer_alloc env len flags t of
           (Inl e, t1) \<Rightarrow> (Some (Inl e), t1)
         | (Inr (b, fd, ino), t1) \<Rightarrow>
             (case cam_mem_get_slot t1 of
                (None, t2) \<Rightarrow> (None, t2)
              | (Some i, t2) \<Rightarrow>
                  if i < 0 then (Some (Inl (- ENOMEM)), dma_buf_put b t2)
                  else
                    let region = (if has_flag flags CAM_MEM_FLAG_PROTECTED_MODE then CAM_SMMU_REGION_IO
                                  else if has_flag flags CAM_MEM_FLAG_HW_SHARED_ACCESS then CAM_SMMU_REGION_SHARED
                                  else CAM_SMMU_REGION_IO);
                        ((rc, va, mlen), t3) =
                          (if is_hw_mapped flags
                           then cam_mem_util_map_hw_va env flags (ac_mmu_hdls cmd) (ac_num_hdl cmd) b len region True t2
                           else ((0, 0, len), t2))
                    in
                    if rc \<noteq> 0
                    then (Some (Inl (already_rc env b mlen rc)), dma_buf_put b (cam_mem_put_slot (nat i) t3))
                    else alloc_finish env cmd (nat i) b fd ino va mlen t3)))"

text \<open>The inode number arrives as an \<open>unsigned\<close>: its low 32 bits.\<close>

definition cam_mem_util_is_map_internal :: "int \<Rightarrow> u32 \<Rightarrow> cam_mem_table \<Rightarrow> bool" where
  "cam_mem_util_is_map_internal fd ino t =
     (case find (\<lambda>i. mt_bitmap t i \<and> bq_fd (mt_bufq t i) = fd \<and> bq_i_ino (mt_bufq t i) = ucast ino)
             [0..<mt_bits t] of
        None \<Rightarrow> False
      | Some i \<Rightarrow> bq_is_internal (mt_bufq t i))"

definition map_finish :: "cam_mem_mgr_map_cmd \<Rightarrow> nat \<Rightarrow> nat \<Rightarrow> u64 \<Rightarrow> bool \<Rightarrow> u64 \<Rightarrow> u64 \<Rightarrow> cam_mem_table \<Rightarrow> cam_mem_table"
where
  "map_finish cmd idx b ino internal va mlen t =
     bq_upd idx (\<lambda>r. r\<lparr>bq_fd := mc_fd cmd, bq_i_ino := ino, bq_flags := mc_flags cmd,
       bq_buf_handle := alloc_handle idx (mc_fd cmd) (mc_flags cmd), bq_kmdvaddr := 0,
       bq_vaddr := (if mc_num_hdl cmd > 0 then va else 0), bq_dma_buf := Some b, bq_len := mlen,
       bq_num_hdl := mc_num_hdl cmd, bq_hdls := copy_hdls (mc_num_hdl cmd) (mc_mmu_hdls cmd) (bq_hdls r),
       bq_is_imported := True, bq_is_internal := internal,
       bq_krefcount := (if has_flag (mc_flags cmd) CAM_MEM_FLAG_KMD_ACCESS then 1 else bq_krefcount r),
       bq_urefcount := 1, bq_client := CAM_SMMU_MAPPING_USER\<rparr>) t"

text \<open>\<open>Inr\<close>: the handle and the size, the output fields of the command.\<close>

definition cam_mem_mgr_map ::
    "mem_env \<Rightarrow> cam_mem_mgr_map_cmd \<Rightarrow> cam_mem_table \<Rightarrow> (int + u32 \<times> u32) option \<times> cam_mem_table" where
  "cam_mem_mgr_map env cmd t =
     (let flags = mc_flags cmd in
      if \<not> mt_initialized t \<or> mc_fd cmd < 0 \<or> mc_num_hdl cmd > CAM_MEM_MMU_MAX_HANDLE then (Some (Inl (- EINVAL)), t)
      else if cam_mem_util_check_map_flags cmd \<noteq> 0 then (Some (Inl (cam_mem_util_check_map_flags cmd)), t)
      else
        (case me_dma_buf_get env of
           None \<Rightarrow> (Some (Inl (- EINVAL)), t)
         | Some b \<Rightarrow>
             let t1 = mem_emit [Mv_Get b] t;
                 ino = me_i_ino env b;
                 internal = cam_mem_util_is_map_internal (mc_fd cmd) (ucast ino) t1
             in
             (case cam_mem_get_slot t1 of
                (None, t2) \<Rightarrow> (None, t2)
              | (Some i, t2) \<Rightarrow>
                  if i < 0 then (Some (Inl (- ENOMEM)), dma_buf_put b t2)
                  else
                    let ((rc, va, mlen), t3) =
                          (if has_flag flags CAM_MEM_FLAG_HW_READ_WRITE \<or> has_flag flags CAM_MEM_FLAG_PROTECTED_MODE
                           then cam_mem_util_map_hw_va env flags (mc_mmu_hdls cmd) (mc_num_hdl cmd) b 0
                                  CAM_SMMU_REGION_IO internal t2
                           else ((0, 0, 0), t2))
                    in
                    if rc \<noteq> 0
                    then (Some (Inl (already_rc env b mlen rc)), dma_buf_put b (cam_mem_put_slot (nat i) t3))
                    else (Some (Inr (alloc_handle (nat i) (mc_fd cmd) flags, ucast mlen)),
                          map_finish cmd (nat i) b ino internal va mlen t3))))"

section \<open>Using a buffer\<close>

text \<open>\<open>Inr\<close>: address, length and flags. On an error the length reads 0 unless the page tables wrote it.\<close>

definition cam_mem_get_io_buf :: "mem_env \<Rightarrow> u32 \<Rightarrow> cam_mem_table \<Rightarrow> (int + u64 \<times> u64 \<times> u32) option" where
  "cam_mem_get_io_buf env hdl t =
     (let idx = CAM_MEM_MGR_GET_HDL_IDX hdl; r = mt_bufq t idx;
          (rc, va, len) = me_get_iova env (CAM_MEM_MGR_IS_SECURE_HDL hdl)
      in
      if \<not> mt_initialized t then Some (Inl (- EINVAL))
      else if bad_idx idx then Some (Inl (- ENOENT))
      else fst (q_lock idx t
        (Some (if \<not> bq_active r then Inl (- EAGAIN)
               else if hdl \<noteq> bq_buf_handle r then Inl (- EINVAL)
               else if rc \<noteq> 0 then Inl rc
               else Inr (va, len, bq_flags r)), t)))"

text \<open>\<open>Inr\<close>: address and length of the kernel mapping.\<close>

definition cam_mem_get_cpu_buf :: "mem_env \<Rightarrow> u32 \<Rightarrow> cam_mem_table \<Rightarrow> (int + u64 \<times> u64) option \<times> cam_mem_table" where
  "cam_mem_get_cpu_buf env hdl t =
     (let idx = CAM_MEM_MGR_GET_HDL_IDX hdl; r = mt_bufq t idx;
          (got, k) = refcount_inc_not_zero (bq_krefcount r)
      in
      if \<not> me_in_task env \<or> \<not> mt_initialized t \<or> hdl = 0 \<or> bad_idx idx then (Some (Inl (- EINVAL)), t)
      else q_lock idx t
        (if \<not> bq_active r then (Some (Inl (- EPERM)), t)
         else if hdl \<noteq> bq_buf_handle r then (Some (Inl (- EINVAL)), t)
         else if \<not> has_flag (bq_flags r) CAM_MEM_FLAG_KMD_ACCESS then (Some (Inl (- EINVAL)), t)
         else if bq_kmdvaddr r \<noteq> 0 \<and> got
         then (Some (Inr (bq_kmdvaddr r, bq_len r)), bq_upd idx (\<lambda>r. r\<lparr>bq_krefcount := k\<rparr>) t)
         else (Some (Inl (- EINVAL)), t)))"

definition cam_mem_mgr_cache_ops :: "mem_env \<Rightarrow> cam_mem_cache_ops_cmd \<Rightarrow> cam_mem_table \<Rightarrow> int option" where
  "cam_mem_mgr_cache_ops env cmd t =
     (let idx = CAM_MEM_MGR_GET_HDL_IDX (cc_buf_handle cmd);
          dir = (if cc_mem_cache_ops cmd = CAM_MEM_CLEAN_INV_CACHE then DMA_BIDIRECTIONAL else DMA_TO_DEVICE)
      in
      if \<not> mt_initialized t \<or> bad_idx idx \<or> \<not> mt_bitmap t idx then Some (- EINVAL)
      else fst (q_lock idx t
        (Some (if cc_buf_handle cmd \<noteq> bq_buf_handle (mt_bufq t idx) then - EINVAL
               else if me_get_flags env \<noteq> 0 then me_get_flags env
               else if me_begin_cpu env dir \<noteq> 0 then me_begin_cpu env dir
               else me_end_cpu env DMA_BIDIRECTIONAL), t)))"

definition cam_mem_put_cpu_buf :: "mem_env \<Rightarrow> u32 \<Rightarrow> cam_mem_table \<Rightarrow> unit option \<times> cam_mem_table" where
  "cam_mem_put_cpu_buf env hdl t =
     (let idx = CAM_MEM_MGR_GET_HDL_IDX hdl; r = mt_bufq t idx;
          k = snd (refcount_dec_and_test (bq_krefcount r));
          t1 = bq_upd idx (\<lambda>r. r\<lparr>bq_krefcount := k\<rparr>) t
      in
      if \<not> me_in_task env \<or> hdl = 0 \<or> bad_idx idx then (Some (), t)
      else q_lock idx t
        (if \<not> bq_active r \<or> hdl \<noteq> bq_buf_handle r then (Some (), t)
         else if k = 1 \<and> bq_urefcount r = 0 then (Some (), cam_mem_util_unmap env idx t1)
         else (Some (), t1)))"

text \<open>Only the spin lock is taken; once user space has released the buffer nothing happens.\<close>

definition cam_mem_put_kref :: "u32 \<Rightarrow> cam_mem_table \<Rightarrow> cam_mem_table" where
  "cam_mem_put_kref hdl t =
     (let idx = CAM_MEM_MGR_GET_HDL_IDX hdl; r = mt_bufq t idx in
      if hdl = 0 \<or> bad_idx idx then t
      else if bq_active r \<and> hdl = bq_buf_handle r \<and> bq_urefcount r \<noteq> 0
      then bq_upd idx (\<lambda>r. r\<lparr>bq_krefcount := snd (refcount_dec_and_test (bq_krefcount r))\<rparr>) t
      else t)"

definition cam_mem_mgr_release :: "mem_env \<Rightarrow> u32 \<Rightarrow> cam_mem_table \<Rightarrow> int option \<times> cam_mem_table" where
  "cam_mem_mgr_release env hdl t =
     (let idx = CAM_MEM_MGR_GET_HDL_IDX hdl; r = mt_bufq t idx;
          u = snd (refcount_dec_and_test (bq_urefcount r));
          t1 = bq_upd idx (\<lambda>r. r\<lparr>bq_urefcount := u\<rparr>) t
      in
      if \<not> mt_initialized t \<or> bad_idx idx then (Some (- EINVAL), t)
      else q_lock idx t
        (if \<not> bq_active r \<or> bq_buf_handle r \<noteq> hdl then (Some (- EINVAL), t)
         else if u = 0 \<and> (has_flag (bq_flags r) CAM_MEM_FLAG_KMD_ACCESS \<longrightarrow> bq_krefcount r = 1)
         then (Some 0, cam_mem_util_unmap env idx t1)
         else (Some (- EINVAL), bq_upd idx (\<lambda>r. r\<lparr>bq_release_deferred := True\<rparr>) t1)))"

section \<open>Buffers of the kernel\<close>

text \<open>The flags of the request as the call leaves them: kernel access is added once there is a buffer.\<close>

definition request_fill :: "nat \<Rightarrow> nat \<Rightarrow> u64 \<Rightarrow> u32 \<Rightarrow> u64 \<Rightarrow> u64 \<Rightarrow> u64 \<Rightarrow> int \<Rightarrow> cam_mem_table \<Rightarrow> cam_mem_table" where
  "request_fill idx b ino flags kva iova len smmu t =
     bq_upd idx (\<lambda>r. r\<lparr>bq_dma_buf := Some b, bq_fd := - 1, bq_i_ino := ino, bq_flags := flags,
       bq_buf_handle := GET_MEM_HANDLE idx (- 1), bq_kmdvaddr := kva, bq_vaddr := iova, bq_len := len,
       bq_num_hdl := 1, bq_hdls := copy_hdls 1 [smmu] (bq_hdls r), bq_is_imported := False, bq_krefcount := 1,
       bq_client := CAM_SMMU_MAPPING_KERNEL\<rparr>) t"

definition unmap_kva :: "mem_env \<Rightarrow> nat \<Rightarrow> u64 \<Rightarrow> cam_mem_table \<Rightarrow> cam_mem_table" where
  "unmap_kva env b kva t = snd (cam_mem_util_unmap_cpu_va env (Some b) kva t)"

text \<open>The code, the description when the code is not an error, and the request as the call leaves it.\<close>

definition cam_mem_mgr_request_mem :: "mem_env \<Rightarrow> cam_mem_mgr_request_desc \<Rightarrow> cam_mem_table \<Rightarrow>
    (int \<times> cam_mem_mgr_memory_desc option \<times> cam_mem_mgr_request_desc) option \<times> cam_mem_table" where
  "cam_mem_mgr_request_mem env inp t =
     (if \<not> mt_initialized t then (Some (- EINVAL, None, inp), t)
      else if \<not> (has_flag (rq_flags inp) CAM_MEM_FLAG_HW_READ_WRITE \<or>
                has_flag (rq_flags inp) CAM_MEM_FLAG_HW_SHARED_ACCESS \<or> has_flag (rq_flags inp) CAM_MEM_FLAG_CACHE)
      then (Some (- EINVAL, None, inp), t)
      else
        (case cam_mem_util_get_dma_buf env (rq_size inp) (rq_flags inp) t of
           (Inl e, t1) \<Rightarrow> (Some (e, None, inp), t1)
         | (Inr (b, ino), t1) \<Rightarrow>
             let flags = or (rq_flags inp) CAM_MEM_FLAG_KMD_ACCESS;
                 inp' = inp\<lparr>rq_flags := flags\<rparr>;
                 region = region_of flags;
                 ((rc, kva, klen), t2) = cam_mem_util_map_cpu_va env b t1
             in
             if rc \<noteq> 0 then (Some (rc, None, inp'), dma_buf_put b t2)
             else if rq_smmu_hdl inp = 0
             then (Some (- EINVAL, None, inp'), dma_buf_put b (unmap_kva env b kva t2))
             else if me_map env 0 < 0
             then (Some (me_map env 0, None, inp'), dma_buf_put b (unmap_kva env b kva t2))
             else
               let t3 = mem_emit [Mv_Map DMA_BIDIRECTIONAL (Kernel region) (rq_smmu_hdl inp) b] t2 in
               (case cam_mem_get_slot t3 of
                  (None, t4) \<Rightarrow> (None, t4)
                | (Some i, t4) \<Rightarrow>
                    if i < 0
                    then (Some (- ENOMEM, None, inp'),
                          dma_buf_put b (unmap_kva env b kva
                            (mem_emit [Mv_Unmap (Unmap_Kernel region) (rq_smmu_hdl inp) (Some b)] t4)))
                    else (Some (me_map env 0,
                            Some \<lparr>md_kva = kva, md_iova = ucast (me_map_va env), md_smmu_hdl = rq_smmu_hdl inp,
                                  md_mem_handle = GET_MEM_HANDLE (nat i) (- 1), md_len = rq_size inp,
                                  md_region = region\<rparr>, inp'),
                          request_fill (nat i) b ino flags kva (me_map_va env) (rq_size inp) (rq_smmu_hdl inp) t4))))"

text \<open>The last reference unmaps the row.\<close>

definition kref_put_row :: "mem_env \<Rightarrow> nat \<Rightarrow> cam_mem_table \<Rightarrow> int option \<times> cam_mem_table" where
  "kref_put_row env idx t =
     (let (last, k) = refcount_dec_and_test (bq_krefcount (mt_bufq t idx));
          t1 = bq_upd idx (\<lambda>r. r\<lparr>bq_krefcount := k\<rparr>) t
      in if last then (Some 0, cam_mem_util_unmap_wrapper env idx t1) else (Some (- EINVAL), t1))"

text \<open>A row that is free already: the call returns 0 with the mutex of the row.\<close>

definition cam_mem_mgr_release_mem ::
    "mem_env \<Rightarrow> cam_mem_mgr_memory_desc \<Rightarrow> cam_mem_table \<Rightarrow> int option \<times> cam_mem_table" where
  "cam_mem_mgr_release_mem env inp t =
     (let idx = CAM_MEM_MGR_GET_HDL_IDX (md_mem_handle inp); r = mt_bufq t idx in
      if \<not> mt_initialized t \<or> bad_idx idx then (Some (- EINVAL), t)
      else q_lock idx t
        (if \<not> bq_active r
         then if bq_vaddr r = 0 then (Some 0, t\<lparr>mt_stuck := insert idx (mt_stuck t)\<rparr>) else (Some (- EINVAL), t)
         else if bq_buf_handle r \<noteq> md_mem_handle inp then (Some (- EINVAL), t)
         else kref_put_row env idx t))"

definition cam_mem_mgr_reserve_memory_region :: "mem_env \<Rightarrow> cam_mem_mgr_request_desc \<Rightarrow> cam_smmu_region_id \<Rightarrow>
    cam_mem_table \<Rightarrow> (int + cam_mem_mgr_memory_desc) option \<times> cam_mem_table" where
  "cam_mem_mgr_reserve_memory_region env inp region t =
     (if \<not> mt_initialized t \<or> rq_smmu_hdl inp = 0 then (Some (Inl (- EINVAL)), t)
      else if region \<noteq> CAM_SMMU_REGION_SECHEAP \<and> region \<noteq> CAM_SMMU_REGION_FWUNCACHED
      then (Some (Inl (- EINVAL)), t)
      else
        (case cam_mem_util_get_dma_buf env (rq_size inp) 0 t of
           (Inl e, t1) \<Rightarrow> (Some (Inl e), t1)
         | (Inr (b, ino), t1) \<Rightarrow>
             let ((rc, kva, klen), t2) =
                   (if has_flag (rq_flags inp) CAM_MEM_FLAG_KMD_ACCESS then cam_mem_util_map_cpu_va env b t1
                    else ((0, 0, 0), t1));
                 (rrc, iova, rlen) = me_reserve env;
                 undo = (\<lambda>t. dma_buf_put b
                           (if region = CAM_SMMU_REGION_FWUNCACHED then unmap_kva env b kva t else t))
             in
             if rc \<noteq> 0 then (Some (Inl rc), dma_buf_put b t2)
             else if rrc \<noteq> 0 then (Some (Inl rrc), undo t2)
             else
               let t3 = mem_emit [Mv_Reserve (rq_smmu_hdl inp) b region] t2 in
               (case cam_mem_get_slot t3 of
                  (None, t4) \<Rightarrow> (None, t4)
                | (Some i, t4) \<Rightarrow>
                    if i < 0
                    then (Some (Inl (- ENOMEM)), undo (mem_emit [Mv_Release_Region (rq_smmu_hdl inp) region] t4))
                    else (Some (Inr \<lparr>md_kva = kva, md_iova = ucast iova, md_smmu_hdl = rq_smmu_hdl inp,
                            md_mem_handle = GET_MEM_HANDLE (nat i) (- 1), md_len = rlen, md_region = region\<rparr>),
                          request_fill (nat i) b ino (rq_flags inp) kva iova rlen (rq_smmu_hdl inp) t4))))"

definition cam_mem_mgr_free_memory_region ::
    "mem_env \<Rightarrow> cam_mem_mgr_memory_desc \<Rightarrow> cam_mem_table \<Rightarrow> int option \<times> cam_mem_table" where
  "cam_mem_mgr_free_memory_region env inp t =
     (let idx = CAM_MEM_MGR_GET_HDL_IDX (md_mem_handle inp); r = mt_bufq t idx in
      if \<not> mt_initialized t then (Some (- EINVAL), t)
      else if md_region inp \<noteq> CAM_SMMU_REGION_SECHEAP \<and> md_region inp \<noteq> CAM_SMMU_REGION_FWUNCACHED
      then (Some (- EINVAL), t)
      else if bad_idx idx then (Some (- EINVAL), t)
      else q_lock idx t
        (if \<not> bq_active r then (Some (if bq_vaddr r = 0 then 0 else - EINVAL), t)
         else if bq_buf_handle r \<noteq> md_mem_handle inp then (Some (- EINVAL), t)
         else if bq_num_hdl r \<noteq> 1 then (Some (- ENODEV), t)
         else if md_smmu_hdl inp \<noteq> bq_hdls r ! 0 then (Some (- ENODEV), t)
         else
           let t1 = mem_emit [Mv_Release_Region (md_smmu_hdl inp) (md_region inp)] t in
           if me_release_region env \<noteq> 0 then (Some (- ENODEV), t1) else kref_put_row env idx t1))"

end
