(* ===== verification/Cam_Mem_Inv.thy ===== *)
theory Cam_Mem_Inv imports Cam_Mem_Calls begin

text \<open>
  The invariant of the table of buffers: a row is in use when its bit is set; a row that is not holds no
  buffer; the handle of a row leads to it; and the references the driver holds on a buffer are those of the
  rows with it. All calls are covered, so it holds after any sequence of them.
\<close>

section \<open>References\<close>

fun ev_ref :: "mem_ev \<Rightarrow> nat \<Rightarrow> int" where
  "ev_ref (Mv_Alloc b') b = of_bool (b = b')"
| "ev_ref (Mv_Get b') b = of_bool (b = b')"
| "ev_ref (Mv_Fd b' _) b = - of_bool (b = b')"
| "ev_ref (Mv_Put b') b = - of_bool (b = b')"
| "ev_ref _ b = 0"

text \<open>The references the driver has taken and neither given back nor handed to a descriptor.\<close>

definition held_refs :: "mem_ev list \<Rightarrow> nat \<Rightarrow> int" where
  "held_refs log b = sum_list (map (\<lambda>e. ev_ref e b) log)"

text \<open>How often no descriptor was left for the buffer.\<close>

definition fd_failures :: "mem_ev list \<Rightarrow> nat \<Rightarrow> int" where
  "fd_failures log b = int (count_list log (Mv_Fd_Fail b))"

definition rows_with :: "cam_mem_table \<Rightarrow> nat \<Rightarrow> int" where
  "rows_with t b = int (card {i. i < CAM_MEM_BUFQ_MAX \<and> bq_dma_buf (mt_bufq t i) = Some b})"

definition surplus :: "cam_mem_table \<Rightarrow> nat \<Rightarrow> int" where
  "surplus t b = held_refs (mt_log t) b - rows_with t b - fd_failures (mt_log t) b"

named_theorems mem_simps \<open>what the steps of the memory manager change\<close>

definition gain :: "mem_ev list \<Rightarrow> nat \<Rightarrow> int" where
  "gain es b = held_refs es b - fd_failures es b"

lemma gain_simps [mem_simps, simp]:
  "gain [] b = 0" "gain (e # es) b = ev_ref e b - of_bool (e = Mv_Fd_Fail b) + gain es b"
  "gain (es @ fs) b = gain es b + gain fs b"
  by (auto simp: gain_def held_refs_def fd_failures_def)

lemma held_refs_append: "held_refs (l @ es) b - fd_failures (l @ es) b = held_refs l b - fd_failures l b + gain es b"
  by (simp add: gain_def held_refs_def fd_failures_def)

lemma mem_emit_simps [mem_simps, simp]:
  "mt_bufq (mem_emit es t) = mt_bufq t" "mt_bitmap (mem_emit es t) = mt_bitmap t" "mt_bits (mem_emit es t) = mt_bits t"
  "mt_stuck (mem_emit es t) = mt_stuck t" "mt_initialized (mem_emit es t) = mt_initialized t"
  "mt_log (mem_emit es t) = mt_log t @ es"
  by (simp_all add: mem_emit_def)

lemma bq_upd_simps [mem_simps, simp]:
  "mt_bufq (bq_upd i f t) = (mt_bufq t)(i := f (mt_bufq t i))" "mt_bitmap (bq_upd i f t) = mt_bitmap t"
  "mt_bits (bq_upd i f t) = mt_bits t" "mt_stuck (bq_upd i f t) = mt_stuck t"
  "mt_initialized (bq_upd i f t) = mt_initialized t" "mt_log (bq_upd i f t) = mt_log t"
  by (simp_all add: bq_upd_def)

lemma mem_emit_append: "mem_emit es (mem_emit ds t) = mem_emit (ds @ es) t"
  by (simp add: mem_emit_def)

lemma mem_emit_Nil: "mem_emit [] t = t"
  by (simp add: mem_emit_def)

lemma surplus_emit: "surplus (mem_emit es t) b = surplus t b + gain es b"
  using held_refs_append [of "mt_log t" es b] by (simp add: surplus_def rows_with_def)

lemma rows_with_sum: "rows_with t b = (\<Sum>i<CAM_MEM_BUFQ_MAX. of_bool (bq_dma_buf (mt_bufq t i) = Some b))"
proof -
  have "{i. i < CAM_MEM_BUFQ_MAX \<and> bq_dma_buf (mt_bufq t i) = Some b} =
        {i \<in> {..<CAM_MEM_BUFQ_MAX}. bq_dma_buf (mt_bufq t i) = Some b}" by auto
  then show ?thesis by (simp add: rows_with_def of_bool_def sum.If_cases Int_def)
qed

lemma surplus_bq_upd:
  assumes "i < CAM_MEM_BUFQ_MAX"
  shows "surplus (bq_upd i f t) b = surplus t b + of_bool (bq_dma_buf (mt_bufq t i) = Some b)
           - of_bool (bq_dma_buf (f (mt_bufq t i)) = Some b)"
proof -
  let ?N = "{..<CAM_MEM_BUFQ_MAX} - {i}"
  have i: "i \<in> {..<CAM_MEM_BUFQ_MAX}" using assms by simp
  have rest: "(\<Sum>j\<in>?N. of_bool (bq_dma_buf (mt_bufq (bq_upd i f t) j) = Some b)) =
              (\<Sum>j\<in>?N. of_bool (bq_dma_buf (mt_bufq t j) = Some b) :: int)"
    by (rule sum.cong) auto
  show ?thesis
    unfolding surplus_def rows_with_sum
    by (simp only: sum.remove [OF finite_lessThan i] rest) simp
qed

lemma surplus_same [mem_simps, simp]:
  "surplus (t\<lparr>mt_bitmap := m\<rparr>) b = surplus t b" "surplus (t\<lparr>mt_dbg_buf_idx := d\<rparr>) b = surplus t b"
  "surplus (t\<lparr>mt_stuck := k\<rparr>) b = surplus t b" "surplus (t\<lparr>mt_initialized := n\<rparr>) b = surplus t b"
  by (simp_all add: surplus_def rows_with_def)

section \<open>Calls that only log\<close>

definition emits :: "cam_mem_table \<Rightarrow> cam_mem_table \<Rightarrow> (nat \<Rightarrow> int) \<Rightarrow> bool" where
  "emits t t' g \<longleftrightarrow> (\<exists>es. t' = mem_emit es t \<and> (\<forall>b. gain es b = g b))"

lemma emits_refl [intro, simp]: "emits t t (\<lambda>_. 0)"
  unfolding emits_def by (rule exI [of _ "[]"]) (simp add: mem_emit_Nil)

lemma emits_emit [simp]: "emits t (mem_emit es t) (gain es)"
  unfolding emits_def by auto

lemma emits_trans: "emits t t1 g \<Longrightarrow> emits t1 t2 h \<Longrightarrow> emits t t2 (\<lambda>b. g b + h b)"
  unfolding emits_def by (metis gain_simps(3) mem_emit_append)

lemma emits_trans0: "emits t t1 g \<Longrightarrow> emits t1 t2 (\<lambda>_. 0) \<Longrightarrow> emits t t2 g"
  using emits_trans [of t t1 g t2 "\<lambda>_. 0"] by simp

lemma emits_cong: "emits t t' g \<Longrightarrow> (\<And>b. g b = h b) \<Longrightarrow> emits t t' h"
  by (simp add: emits_def)

lemma emitsD:
  assumes "emits t t' g"
  shows "mt_bufq t' = mt_bufq t" "mt_bitmap t' = mt_bitmap t" "mt_bits t' = mt_bits t" "mt_stuck t' = mt_stuck t"
    "mt_initialized t' = mt_initialized t" "surplus t' b = surplus t b + g b"
  using assms by (auto simp: emits_def surplus_emit)

lemma emits_step: "emits (mem_emit es t) t' g \<Longrightarrow> (\<And>b. gain es b = 0) \<Longrightarrow> emits t t' g"
  by (auto simp: emits_def mem_emit_append)

lemma map_cpu_va_emits: "emits t (snd (cam_mem_util_map_cpu_va env b t)) (\<lambda>_. 0)"
  by (auto simp: cam_mem_util_map_cpu_va_def split: prod.splits intro: emits_cong [OF emits_emit])

lemma unmap_cpu_va_emits: "emits t (snd (cam_mem_util_unmap_cpu_va env p v t)) (\<lambda>_. 0)"
  by (auto simp: cam_mem_util_unmap_cpu_va_def split: option.splits intro: emits_cong [OF emits_emit])

lemma map_hw_loop_emits:
  "emits t (snd (snd (map_hw_loop env flags dir b internal hs i rc region t))) (\<lambda>_. 0)"
proof (induction hs arbitrary: i rc region t)
  case Nil
  then show ?case by simp
next
  case (Cons h hs)
  have "\<And>how b'. gain [Mv_Map dir how h b] b' = 0" by simp
  then show ?case using emits_step [OF Cons.IH] by (simp add: Let_def)
qed

lemma gain_unmaps [simp]: "gain (map (\<lambda>h. Mv_Unmap how h p) hs) b = 0"
  by (induction hs) auto

lemma map_hw_va_emits: "emits t (snd (cam_mem_util_map_hw_va env flags hdls num b len region internal t)) (\<lambda>_. 0)"
  using map_hw_loop_emits [of t env flags "cam_mem_util_get_dma_dir flags" b internal "take num hdls" 0 "-1" region]
  by (auto simp: cam_mem_util_map_hw_va_def Let_def split: prod.splits
           intro: emits_trans0 [OF _ emits_cong [OF emits_emit]])

lemma unmap_hw_loop_emits: "emits t (snd (unmap_hw_loop env how p hs i rc t)) (\<lambda>_. 0)"
proof (induction hs arbitrary: i rc t)
  case Nil
  then show ?case by simp
next
  case (Cons h hs)
  have g: "\<And>b'. gain [Mv_Unmap how h p] b' = 0" by simp
  show ?case using emits_step [OF Cons.IH g] emits_step [OF emits_refl g] by (simp add: Let_def)
qed

lemma unmap_hw_va_emits: "emits t (snd (cam_mem_util_unmap_hw_va env idx region client t)) (\<lambda>_. 0)"
  by (auto simp: cam_mem_util_unmap_hw_va_def Let_def intro: unmap_hw_loop_emits)

lemma unmap_mappings_emits: "emits t (unmap_mappings env idx t) (\<lambda>_. 0)"
  by (auto simp: unmap_mappings_def Let_def intro: unmap_hw_va_emits unmap_cpu_va_emits
           intro!: emits_trans0 [OF unmap_cpu_va_emits unmap_hw_va_emits])

lemma unmap_active_emits: "emits t (cam_mem_mgr_unmap_active_buf env idx t) (\<lambda>_. 0)"
  by (auto simp: cam_mem_mgr_unmap_active_buf_def Let_def intro: unmap_hw_va_emits
           intro!: emits_trans0 [OF unmap_hw_va_emits unmap_cpu_va_emits])

lemma unmap_kva_emits: "emits t (unmap_kva env b v t) (\<lambda>_. 0)"
  by (simp add: unmap_kva_def unmap_cpu_va_emits)

lemma put_emits: "emits t (dma_buf_put b t) (\<lambda>b'. - of_bool (b' = b))"
  by (auto simp: dma_buf_put_def intro: emits_cong [OF emits_emit])

lemma put_ptr_emits: "emits t (put_ptr p t) (\<lambda>b. - of_bool (p = Some b))"
  by (auto simp: put_ptr_def split: option.splits intro: emits_cong [OF put_emits])

lemma get_dma_buf_emits:
  "emits t (snd (cam_mem_util_get_dma_buf env len flags t))
     (\<lambda>b'. case fst (cam_mem_util_get_dma_buf env len flags t) of Inl _ \<Rightarrow> 0 | Inr (b, _) \<Rightarrow> of_bool (b' = b))"
  by (auto simp: cam_mem_util_get_dma_buf_def Let_def dma_buf_put_def mem_emit_append split: sum.splits prod.splits
           intro: emits_cong [OF emits_emit])

lemma buffer_alloc_emits:
  "emits t (snd (cam_mem_util_buffer_alloc env len flags t))
     (\<lambda>b'. case fst (cam_mem_util_buffer_alloc env len flags t) of Inl _ \<Rightarrow> 0 | Inr (b, _) \<Rightarrow> of_bool (b' = b))"
  using get_dma_buf_emits [of t env len flags]
  by (auto simp: cam_mem_util_buffer_alloc_def Let_def dma_buf_put_def mem_emit_append split: sum.splits prod.splits
           intro: emits_cong [OF emits_trans [OF _ emits_emit]])

end
