(* ===== verification/Cam_Mem_Safe.thy ===== *)
theory Cam_Mem_Safe imports Cam_Mem_Inv begin

text \<open>Every call of the memory manager keeps the invariant of the table.\<close>

section \<open>Handles\<close>

lemma mask15: "(0x7fff :: u32) = mask 15"
  by (simp add: mask_eq_exp_minus_1)

lemma and_mask_push: "and (push_bit 16 (w :: u32)) (mask 15) = 0"
  by (rule bit_word_eqI) (auto simp add: bit_simps)

lemma and_mask_idx: "i < CAM_MEM_BUFQ_MAX \<Longrightarrow> and (of_nat i :: u32) (mask 15) = of_nat i"
  by (simp add: take_bit_eq_mask [symmetric] of_nat_take_bit [symmetric] take_bit_nat_eq_self)

lemma unat_idx: "i < CAM_MEM_BUFQ_MAX \<Longrightarrow> unat (of_nat i :: u32) = i"
  by (rule unat_of_nat_u32) simp

lemma and_mask_secure: "and (0x8000 :: u32) (mask 15) = 0"
  by (simp add: mask_eq_exp_minus_1)

lemma handle_idx:
  assumes "i < CAM_MEM_BUFQ_MAX"
  shows "CAM_MEM_MGR_GET_HDL_IDX (GET_MEM_HANDLE i fd) = i"
    and "CAM_MEM_MGR_GET_HDL_IDX (alloc_handle i fd flags) = i"
  using assms
  by (simp_all add: CAM_MEM_MGR_GET_HDL_IDX_def GET_MEM_HANDLE_def alloc_handle_def CAM_MEM_MGR_SET_SECURE_HDL_def
    mask15 and.commute [of "or _ _"] bit.conj_disj_distrib and_mask_push and_mask_idx unat_idx and_mask_secure
    and.commute [of "mask 15"])

section \<open>The invariant\<close>

definition bufq_ok :: "cam_mem_table \<Rightarrow> nat \<Rightarrow> bool" where
  "bufq_ok t i \<longleftrightarrow>
     mt_bitmap t i = bq_active (mt_bufq t i) \<and>
     (if bq_active (mt_bufq t i)
      then bq_dma_buf (mt_bufq t i) \<noteq> None \<and> CAM_MEM_MGR_GET_HDL_IDX (bq_buf_handle (mt_bufq t i)) = i
      else bq_dma_buf (mt_bufq t i) = None \<and> bq_vaddr (mt_bufq t i) = 0)"

definition bufqs_ok :: "nat set \<Rightarrow> cam_mem_table \<Rightarrow> bool" where
  "bufqs_ok K t \<longleftrightarrow> (\<forall>i. 1 \<le> i \<and> i < CAM_MEM_BUFQ_MAX \<and> i \<notin> K \<longrightarrow> bufq_ok t i) \<and>
     \<not> bq_active (mt_bufq t 0) \<and> bq_dma_buf (mt_bufq t 0) = None"

definition live :: "cam_mem_table \<Rightarrow> bool" where
  "live t \<longleftrightarrow> mt_initialized t \<and> mt_bits t = CAM_MEM_BUFQ_MAX \<and> mt_bitmap t 0 \<and> mt_stuck t = {}"

definition mem_ok :: "cam_mem_table \<Rightarrow> bool" where
  "mem_ok t \<longleftrightarrow> bufqs_ok {} t \<and> (\<forall>b. surplus t b = 0) \<and>
     (if mt_initialized t then mt_bits t = CAM_MEM_BUFQ_MAX \<and> mt_bitmap t 0
      else \<forall>i < CAM_MEM_BUFQ_MAX. \<not> bq_active (mt_bufq t i))"

text \<open>In the middle of a call: the driver holds one more reference on \<open>b\<close> than the rows; then with a row taken for it.\<close>

definition extra :: "nat \<Rightarrow> cam_mem_table \<Rightarrow> bool" where
  "extra b t \<longleftrightarrow> bufqs_ok {} t \<and> (\<forall>b'. surplus t b' = of_bool (b' = b)) \<and> live t"

definition owed :: "nat \<Rightarrow> nat \<Rightarrow> cam_mem_table \<Rightarrow> bool" where
  "owed idx b t \<longleftrightarrow> 1 \<le> idx \<and> idx < CAM_MEM_BUFQ_MAX \<and> bufqs_ok {idx} t \<and> mt_bitmap t idx \<and>
     bq_active (mt_bufq t idx) \<and> bq_dma_buf (mt_bufq t idx) = None \<and> bq_vaddr (mt_bufq t idx) = 0 \<and>
     (\<forall>b'. surplus t b' = of_bool (b' = b)) \<and> live t"

lemma bufqs_ok_cong:
  "mt_bufq t' = mt_bufq t \<Longrightarrow> mt_bitmap t' = mt_bitmap t \<Longrightarrow> bufqs_ok K t' = bufqs_ok K t"
  by (simp add: bufqs_ok_def bufq_ok_def)

lemma emits_rows: "emits t t' g \<Longrightarrow> bufqs_ok K t' = bufqs_ok K t"
  by (rule bufqs_ok_cong) (auto dest: emitsD)

lemma emits_live: "emits t t' g \<Longrightarrow> live t' = live t"
  by (auto simp: live_def dest: emitsD)

lemma ok_live: "mem_ok t \<Longrightarrow> mt_initialized t \<Longrightarrow> mt_stuck t = {} \<Longrightarrow> live t"
  by (simp add: mem_ok_def live_def)

lemma mem_okI: "bufqs_ok {} t \<Longrightarrow> (\<And>b. surplus t b = 0) \<Longrightarrow> live t \<Longrightarrow> mem_ok t"
  by (simp add: mem_ok_def live_def)

lemma ok_emits: "mem_ok t \<Longrightarrow> emits t t' (\<lambda>_. 0) \<Longrightarrow> mem_ok t'"
  by (auto simp: mem_ok_def emits_rows dest: emitsD split: if_splits)

lemma ok_extra: "mem_ok t \<Longrightarrow> live t \<Longrightarrow> emits t t' (\<lambda>b'. of_bool (b' = b)) \<Longrightarrow> extra b t'"
  by (auto simp: extra_def mem_ok_def emits_rows emits_live emitsD(6))

lemma extra_emits: "extra b t \<Longrightarrow> emits t t' (\<lambda>_. 0) \<Longrightarrow> extra b t'"
  by (auto simp: extra_def emits_rows emits_live emitsD(6))

lemma extra_put: "extra b t \<Longrightarrow> mem_ok (dma_buf_put b t)"
  using emits_rows [OF put_emits] emits_live [OF put_emits] emitsD(6) [OF put_emits]
  by (intro mem_okI) (auto simp: extra_def)

lemma owed_emits: "owed i b t \<Longrightarrow> emits t t' (\<lambda>_. 0) \<Longrightarrow> owed i b t'"
  by (auto simp: owed_def emits_rows emits_live emitsD)

lemma bufqs_ok_other:
  assumes "\<And>j. j \<noteq> i \<Longrightarrow> mt_bufq t' j = mt_bufq t j \<and> mt_bitmap t' j = mt_bitmap t j" and "1 \<le> i"
  shows "bufqs_ok {i} t' = bufqs_ok {i} t"
proof -
  have "bufq_ok t' j = bufq_ok t j" if "j \<noteq> i" for j using assms(1) [OF that] by (simp add: bufq_ok_def)
  moreover have "mt_bufq t' 0 = mt_bufq t 0" using assms by auto
  ultimately show ?thesis by (auto simp: bufqs_ok_def)
qed

lemma bufqs_ok_split: "1 \<le> i \<Longrightarrow> i < CAM_MEM_BUFQ_MAX \<Longrightarrow> bufqs_ok {} t \<longleftrightarrow> bufqs_ok {i} t \<and> bufq_ok t i"
  by (auto simp: bufqs_ok_def)

section \<open>Taking, filling and giving back a row\<close>

lemma get_slot_cases:
  assumes "extra b t"
  obtains (full) "cam_mem_get_slot t = (Some (- ENOMEM), t)"
  | (taken) i t' where "cam_mem_get_slot t = (Some (int i), t')" "owed i b t'"
proof -
  let ?i = "find_first_zero_bit (mt_bitmap t) (mt_bits t)"
  have l: "live t" and bits: "mt_bits t = CAM_MEM_BUFQ_MAX" using assms by (auto simp: extra_def live_def)
  show thesis
  proof (cases "bad_idx ?i")
    case True
    then show ?thesis by (intro full) (simp add: cam_mem_get_slot_def Let_def)
  next
    case False
    then have i: "1 \<le> ?i" "?i < CAM_MEM_BUFQ_MAX" and nb: "\<not> mt_bitmap t ?i"
      using find_first_zero_bit_clear [of "mt_bitmap t" "mt_bits t"] bits by (auto simp: bad_idx_def)
    define u where "u = bq_upd ?i (\<lambda>r. r\<lparr>bq_active := True, bq_release_deferred := False\<rparr>)
                      (t\<lparr>mt_bitmap := set_bit_map ?i (mt_bitmap t)\<rparr>)"
    have ok: "bufq_ok t ?i" and oth: "bufqs_ok {?i} t"
      using assms i by (auto simp: extra_def bufqs_ok_split [of ?i])
    then have off: "\<not> bq_active (mt_bufq t ?i)" "bq_dma_buf (mt_bufq t ?i) = None" "bq_vaddr (mt_bufq t ?i) = 0"
      using nb by (auto simp: bufq_ok_def split: if_splits)
    have "bufqs_ok {?i} u = bufqs_ok {?i} t"
      using i by (intro bufqs_ok_other) (auto simp: u_def set_bit_map_def)
    then have "owed ?i b u"
      using assms l oth off i surplus_bq_upd [OF i(2)]
      by (simp add: owed_def extra_def live_def) (simp add: u_def set_bit_map_def)
    moreover have "cam_mem_get_slot t = (Some (int ?i), u)"
      using False l by (simp add: cam_mem_get_slot_def Let_def q_lock_def u_def live_def)
    ultimately show ?thesis by (intro taken)
  qed
qed

lemma owed_put_slot:
  assumes "owed i b t"
  shows "mem_ok (dma_buf_put b (cam_mem_put_slot i t))"
proof (rule extra_put)
  have i: "1 \<le> i" "i < CAM_MEM_BUFQ_MAX" using assms by (auto simp: owed_def)
  have "bufqs_ok {i} (cam_mem_put_slot i t) = bufqs_ok {i} t"
    using i by (intro bufqs_ok_other) (auto simp: cam_mem_put_slot_def clear_bit_map_def)
  then show "extra b (cam_mem_put_slot i t)"
    using assms i surplus_bq_upd [OF i(2), of _ t]
    by (auto simp: extra_def bufqs_ok_split [OF i] owed_def live_def bufq_ok_def cam_mem_put_slot_def clear_bit_map_def)
qed

lemma owed_bq_upd:
  assumes "owed i b t" and "bq_active (f (mt_bufq t i))" "bq_dma_buf (f (mt_bufq t i)) = None"
    "bq_vaddr (f (mt_bufq t i)) = 0"
  shows "owed i b (bq_upd i f t)"
proof -
  have i: "1 \<le> i" "i < CAM_MEM_BUFQ_MAX" using assms by (auto simp: owed_def)
  have "bufqs_ok {i} (bq_upd i f t) = bufqs_ok {i} t" using i by (intro bufqs_ok_other) auto
  then show ?thesis using assms i surplus_bq_upd [OF i(2)] by (simp add: owed_def live_def)
qed

lemma owed_fill:
  assumes "owed i b t" and "bq_active (f (mt_bufq t i))" "bq_dma_buf (f (mt_bufq t i)) = Some b"
    "CAM_MEM_MGR_GET_HDL_IDX (bq_buf_handle (f (mt_bufq t i))) = i"
  shows "mem_ok (bq_upd i f t)"
proof (rule mem_okI)
  have i: "1 \<le> i" "i < CAM_MEM_BUFQ_MAX" using assms by (auto simp: owed_def)
  have "bufqs_ok {i} (bq_upd i f t) = bufqs_ok {i} t" using i by (intro bufqs_ok_other) auto
  then show "bufqs_ok {} (bq_upd i f t)"
    using assms i by (auto simp: bufqs_ok_split [OF i] owed_def bufq_ok_def)
  show "surplus (bq_upd i f t) b' = 0" for b'
    using assms surplus_bq_upd [OF i(2)] by (auto simp: owed_def)
  show "live (bq_upd i f t)" using assms by (simp add: owed_def live_def)
qed

lemma owed_dbg: "owed i b t \<Longrightarrow> owed i b (t\<lparr>mt_dbg_buf_idx := d\<rparr>)"
  using bufqs_ok_cong [of "t\<lparr>mt_dbg_buf_idx := d\<rparr>" t] by (simp add: owed_def live_def)

text \<open>A change of a row in use that keeps buffer and handle.\<close>

lemma ok_bq_upd:
  assumes "mem_ok t" and "1 \<le> i" "i < CAM_MEM_BUFQ_MAX"
    and "bq_active (f (mt_bufq t i)) = bq_active (mt_bufq t i)" "bq_dma_buf (f (mt_bufq t i)) = bq_dma_buf (mt_bufq t i)"
      "bq_buf_handle (f (mt_bufq t i)) = bq_buf_handle (mt_bufq t i)" "bq_vaddr (f (mt_bufq t i)) = bq_vaddr (mt_bufq t i)"
  shows "mem_ok (bq_upd i f t)"
proof -
  have "bufqs_ok {i} (bq_upd i f t) = bufqs_ok {i} t" using assms by (intro bufqs_ok_other) auto
  moreover have "bufq_ok (bq_upd i f t) i = bufq_ok t i" using assms by (simp add: bufq_ok_def)
  ultimately show ?thesis
    using assms surplus_bq_upd [OF assms(3), of f t]
    by (auto simp: mem_ok_def bufqs_ok_split [OF assms(2,3)] split: if_splits)
qed

section \<open>Emptying a row\<close>

text \<open>
  Both ways a row is emptied: its fields are reset, the reference is put, in between only calls that log.
\<close>

lemma ok_empty:
  assumes ok: "bufqs_ok {} t" "\<And>b. surplus t b = 0" and i: "1 \<le> i" "i < CAM_MEM_BUFQ_MAX"
    and rows: "\<And>j. j \<noteq> i \<Longrightarrow> mt_bufq t' j = mt_bufq t j \<and> mt_bitmap t' j = mt_bitmap t j"
    and off: "\<not> bq_active (mt_bufq t' i)" "bq_dma_buf (mt_bufq t' i) = None" "bq_vaddr (mt_bufq t' i) = 0"
      "\<not> mt_bitmap t' i"
    and log: "emits t u (\<lambda>b. - of_bool (bq_dma_buf (mt_bufq t i) = Some b))" "mt_log t' = mt_log u"
  shows "bufqs_ok {} t' \<and> (\<forall>b. surplus t' b = 0)"
proof -
  have "bufqs_ok {i} t' = bufqs_ok {i} t" using rows i by (intro bufqs_ok_other) auto
  then have "bufqs_ok {} t'" using ok i off by (auto simp: bufqs_ok_split [OF i] bufq_ok_def)
  moreover have "surplus t' b = 0" for b
  proof -
    have "mt_bufq t' = (mt_bufq t)(i := mt_bufq t' i)" using rows by (auto simp: fun_eq_iff)
    then have "mt_bufq t' = mt_bufq (bq_upd i (\<lambda>_. mt_bufq t' i) u)" using emitsD(1) [OF log(1)] by simp
    then have "surplus t' b = surplus (bq_upd i (\<lambda>_. mt_bufq t' i) u) b"
      using log(2) by (simp add: surplus_def rows_with_def)
    also have "\<dots> = surplus u b + of_bool (bq_dma_buf (mt_bufq t i) = Some b)"
      using surplus_bq_upd [OF i(2), of "\<lambda>_. mt_bufq t' i" u b] off emitsD(1) [OF log(1)] by simp
    also have "\<dots> = 0" using emitsD(6) [OF log(1)] ok(2) by simp
    finally show ?thesis .
  qed
  ultimately show ?thesis by blast
qed

lemma emits_replay:
  assumes "emits t1 t2 g" "mt_log t1 = mt_log t"
  obtains u where "emits t u g" "mt_log t2 = mt_log u"
proof -
  obtain es where es: "t2 = mem_emit es t1" "\<forall>b. gain es b = g b" using assms(1) by (auto simp: emits_def)
  show thesis by (rule that [of "mem_emit es t"]) (use es assms(2) in \<open>auto simp: emits_def\<close>)
qed

lemma unmap_log:
  "emits t (put_ptr p (unmap_mappings env idx t)) (\<lambda>b. - of_bool (p = Some b))"
  by (rule emits_cong [OF emits_trans [OF unmap_mappings_emits put_ptr_emits]]) simp

lemma unmap_same [mem_simps, simp]:
  "mt_stuck (cam_mem_util_unmap env i t) = mt_stuck t"
  "mt_initialized (cam_mem_util_unmap env i t) = mt_initialized t"
  "mt_bits (cam_mem_util_unmap env i t) = mt_bits t"
  by (simp_all add: cam_mem_util_unmap_def Let_def emitsD [OF unmap_log])

lemma unmap_rows:
  assumes "bq_active (mt_bufq t i)" "\<not> bad_idx i"
  shows "j \<noteq> i \<Longrightarrow> mt_bufq (cam_mem_util_unmap env i t) j = mt_bufq t j"
    and "mt_bitmap (cam_mem_util_unmap env i t) = clear_bit_map i (mt_bitmap t)"
    and "\<not> bq_active (mt_bufq (cam_mem_util_unmap env i t) i)"
    and "bq_dma_buf (mt_bufq (cam_mem_util_unmap env i t) i) = None"
    and "bq_vaddr (mt_bufq (cam_mem_util_unmap env i t) i) = 0"
  using assms by (simp_all add: cam_mem_util_unmap_def Let_def emitsD [OF unmap_log])

lemma unmap_ok:
  assumes "mem_ok t" "\<not> bad_idx i" and act: "bq_active (mt_bufq t i)"
  shows "mem_ok (cam_mem_util_unmap env i t)"
proof -
  have i: "1 \<le> i" "i < CAM_MEM_BUFQ_MAX" using assms(2) by (auto simp: bad_idx_def)
  let ?t1 = "bq_upd i (\<lambda>r. r\<lparr>bq_active := False, bq_vaddr := 0, bq_buf_handle := - 1,
                                    bq_release_deferred := False\<rparr>) t"
  let ?t2 = "put_ptr (bq_dma_buf (mt_bufq t i)) (unmap_mappings env i ?t1)"
  obtain u where u: "emits t u (\<lambda>b. - of_bool (bq_dma_buf (mt_bufq t i) = Some b))" "mt_log ?t2 = mt_log u"
    by (rule emits_replay [OF unmap_log [of ?t1 "bq_dma_buf (mt_bufq t i)" env i]]) auto
  have "mt_log (cam_mem_util_unmap env i t) = mt_log u"
    using u(2) act assms(2) by (simp add: cam_mem_util_unmap_def Let_def)
  then have "bufqs_ok {} (cam_mem_util_unmap env i t) \<and> (\<forall>b. surplus (cam_mem_util_unmap env i t) b = 0)"
    using assms i u(1) unmap_rows [OF act assms(2)]
    by (intro ok_empty [of t i _ u]) (auto simp: mem_ok_def clear_bit_map_def)
  then show ?thesis
    using assms i unmap_rows [OF act assms(2)] by (auto simp: mem_ok_def clear_bit_map_def split: if_splits)
qed

lemma active_log:
  "emits t (put_ptr p (cam_mem_mgr_unmap_active_buf env idx t)) (\<lambda>b. - of_bool (p = Some b))"
  by (rule emits_cong [OF emits_trans [OF unmap_active_emits put_ptr_emits]]) simp

lemma cleanup_row_same:
  "mt_stuck (cleanup_row env i t) = mt_stuck t" "mt_initialized (cleanup_row env i t) = mt_initialized t"
  "mt_bits (cleanup_row env i t) = mt_bits t" "mt_bitmap (cleanup_row env i t) = mt_bitmap t"
  "j \<noteq> i \<Longrightarrow> mt_bufq (cleanup_row env i t) j = mt_bufq t j"
  "\<not> bq_active (mt_bufq (cleanup_row env i t) i)" "bq_dma_buf (mt_bufq (cleanup_row env i t) i) = None"
  "bq_vaddr (mt_bufq (cleanup_row env i t) i) = 0"
  by (simp_all add: cleanup_row_def emitsD [OF active_log])

text \<open>While rows are cleaned up the bit map is behind: it is reset at the end.\<close>

definition ok_but_bits :: "cam_mem_table \<Rightarrow> bool" where
  "ok_but_bits t \<longleftrightarrow> bufqs_ok {} (t\<lparr>mt_bitmap := (\<lambda>i. bq_active (mt_bufq t i))\<rparr>) \<and> (\<forall>b. surplus t b = 0)"

lemma cleanup_row_ok:
  assumes "ok_but_bits t" "1 \<le> i" "i < CAM_MEM_BUFQ_MAX"
  shows "ok_but_bits (cleanup_row env i t)"
proof -
  obtain u where u: "emits (t\<lparr>mt_bitmap := (\<lambda>i. bq_active (mt_bufq t i))\<rparr>) u
      (\<lambda>b. - of_bool (bq_dma_buf (mt_bufq t i) = Some b))" "mt_log (cleanup_row env i t) = mt_log u"
    by (rule emits_replay [OF active_log [of t "bq_dma_buf (mt_bufq t i)" env i],
          of "t\<lparr>mt_bitmap := (\<lambda>i. bq_active (mt_bufq t i))\<rparr>"]) (auto simp: cleanup_row_def)
  let ?t' = "(cleanup_row env i t)\<lparr>mt_bitmap := (\<lambda>j. bq_active (mt_bufq (cleanup_row env i t) j))\<rparr>"
  have "bufqs_ok {} ?t' \<and> (\<forall>b. surplus ?t' b = 0)"
    using assms u by (intro ok_empty [of "t\<lparr>mt_bitmap := (\<lambda>i. bq_active (mt_bufq t i))\<rparr>" i ?t' u])
      (auto simp: ok_but_bits_def cleanup_row_same)
  then show ?thesis by (simp add: ok_but_bits_def)
qed

lemma cleanup_rows_ok:
  assumes "ok_but_bits t" "mt_stuck t = {}" "set js \<subseteq> {1..<CAM_MEM_BUFQ_MAX}"
  shows "\<exists>t'. cleanup_rows env js t = (Some (), t') \<and> ok_but_bits t' \<and> mt_stuck t' = {} \<and>
           mt_initialized t' = mt_initialized t \<and>
           (\<forall>j. bq_active (mt_bufq t' j) \<longleftrightarrow> bq_active (mt_bufq t j) \<and> j \<notin> set js)"
  using assms
proof (induction js arbitrary: t)
  case Nil
  then show ?case by simp
next
  case (Cons i js)
  let ?t = "if bq_active (mt_bufq t i) then cleanup_row env i t else t"
  have "ok_but_bits ?t" "mt_stuck ?t = {}" "mt_initialized ?t = mt_initialized t"
    using Cons.prems by (auto simp: cleanup_row_ok cleanup_row_same)
  moreover have "bq_active (mt_bufq ?t j) \<longleftrightarrow> bq_active (mt_bufq t j) \<and> j \<noteq> i" for j
    by (cases "j = i") (auto simp: cleanup_row_same)
  ultimately show ?case
    using Cons.IH [of ?t] Cons.prems by (auto simp: q_lock_def)
qed

lemma deinit_ok:
  assumes "mem_ok t" "mt_stuck t = {}"
  shows "\<exists>t'. cam_mem_mgr_deinit env t = (Some (), t') \<and> mem_ok t' \<and> mt_stuck t' = {} \<and> \<not> mt_initialized t'"
proof -
  let ?t = "t\<lparr>mt_initialized := False\<rparr>"
  have "ok_but_bits ?t"
    using assms by (auto simp: ok_but_bits_def mem_ok_def bufqs_ok_def bufq_ok_def split: if_splits)
  then obtain t1 where t1: "cleanup_rows env [1..<CAM_MEM_BUFQ_MAX] ?t = (Some (), t1)" "ok_but_bits t1"
    "mt_stuck t1 = {}" "\<not> mt_initialized t1"
    and act: "\<And>j. bq_active (mt_bufq t1 j) \<longleftrightarrow> bq_active (mt_bufq t j) \<and> j \<notin> {1..<CAM_MEM_BUFQ_MAX}"
    using cleanup_rows_ok [of ?t "[1..<CAM_MEM_BUFQ_MAX]" env] assms(2) by auto
  have off: "\<not> bq_active (mt_bufq t1 j)" if "j < CAM_MEM_BUFQ_MAX" for j
    using act [of j] that assms(1) by (cases "j = 0") (auto simp: mem_ok_def bufqs_ok_def)
  let ?t' = "t1\<lparr>mt_bitmap := (\<lambda>_. False), mt_dbg_buf_idx := - 1\<rparr>"
  have "bufqs_ok {} ?t'"
    using t1(2) off by (auto simp: ok_but_bits_def bufqs_ok_def bufq_ok_def)
  moreover have "surplus ?t' b = 0" for b
    using t1(2) by (simp add: ok_but_bits_def surplus_def rows_with_def)
  ultimately have "mem_ok ?t'" using t1 off by (simp add: mem_ok_def)
  moreover have "cam_mem_mgr_deinit env t = (Some (), ?t')"
    using t1(1) by (simp add: cam_mem_mgr_deinit_def cam_mem_mgr_cleanup_table_def)
  ultimately show ?thesis using t1 by simp
qed

end
