(* ===== verification/Cam_Mem_Run.thy ===== *)
theory Cam_Mem_Run imports Cam_Mem_Safe begin

text \<open>
  The calls of the memory manager, any number of them in any order, from loading on; what holds after them.
\<close>

section \<open>Single calls\<close>

lemma mapped_if_emits:
  assumes "(if c then cam_mem_util_map_hw_va env flags hdls num b len region internal t else (x, t)) = (y, t')"
  shows "emits t t' (\<lambda>_. 0)"
  using map_hw_va_emits [of t env flags hdls num b len region internal] assms by (auto split: if_splits)

lemma cpu_if_emits:
  assumes "(if c then cam_mem_util_map_cpu_va env b t else (x, t)) = (y, t')"
  shows "emits t t' (\<lambda>_. 0)"
  using map_cpu_va_emits [of t env b] assms by (auto split: if_splits)

lemma alloc_finish_ok:
  assumes "owed i b t"
  shows "mem_ok (snd (alloc_finish env cmd i b fd ino va mlen t))"
proof -
  let ?t1 = "bq_upd i (\<lambda>r. r\<lparr>bq_fd := fd, bq_i_ino := ino, bq_dma_buf := None, bq_flags := ac_flags cmd,
                 bq_buf_handle := alloc_handle i fd (ac_flags cmd), bq_is_internal := True\<rparr>) t"
  have i: "i < CAM_MEM_BUFQ_MAX" using assms by (simp add: owed_def)
  have o1: "owed i b ?t1" using assms by (intro owed_bq_upd) (auto simp: owed_def)
  obtain rc kva klen t2 where m: "(if has_flag (ac_flags cmd) CAM_MEM_FLAG_KMD_ACCESS
      then cam_mem_util_map_cpu_va env b ?t1 else ((0, 0, 0), ?t1)) = ((rc, kva, klen), t2)"
    by (metis prod_cases3 surj_pair)
  have e: "emits ?t1 t2 (\<lambda>_. 0)" by (rule cpu_if_emits [OF m])
  then have o2: "owed i b t2" using o1 by (rule owed_emits [rotated])
  then have o3: "owed i b (t2\<lparr>mt_dbg_buf_idx := d\<rparr>)" for d by (rule owed_dbg)
  have r: "mt_bufq t2 i = (mt_bufq t i)\<lparr>bq_fd := fd, bq_i_ino := ino, bq_dma_buf := None,
      bq_flags := ac_flags cmd, bq_buf_handle := alloc_handle i fd (ac_flags cmd), bq_is_internal := True\<rparr>"
    using emitsD(1) [OF e] by simp
  have a: "bq_active (mt_bufq t i)" using assms by (simp add: owed_def)
  show ?thesis
    unfolding alloc_finish_def Let_def m
    by (auto intro: owed_put_slot [OF o2] intro!: owed_fill [OF o2] owed_fill [OF o3] simp: r a handle_idx [OF i])
qed

lemma buffer_alloc_extra:
  assumes "mem_ok t" "live t" "cam_mem_util_buffer_alloc env len flags t = (Inr (b, rest), t1)"
  shows "extra b t1"
  using ok_extra [OF assms(1,2)] buffer_alloc_emits [of t env len flags] assms(3) by simp

lemma alloc_and_map_ok:
  assumes "mem_ok t" "mt_stuck t = {}"
  shows "mem_ok (snd (cam_mem_mgr_alloc_and_map env cmd t))"
proof (cases "mt_initialized t \<and> cam_mem_util_check_alloc_flags cmd = 0")
  case False
  then show ?thesis using assms by (auto simp: cam_mem_mgr_alloc_and_map_def Let_def)
next
  case True
  let ?len = "if mt_need_padding t \<and> has_flag (ac_flags cmd) CAM_MEM_FLAG_HW_SHARED_ACCESS
                 then ac_len cmd + CAM_MEM_SHARED_BUFFER_PAD_4K else ac_len cmd"
  note l = ok_live [OF assms(1) conjunct1 [OF True] assms(2)]
  obtain r t1 where ba: "cam_mem_util_buffer_alloc env ?len (ac_flags cmd) t = (r, t1)" by fastforce
  show ?thesis
  proof (cases r)
    case (Inl e)
    then have "emits t t1 (\<lambda>_. 0)" using buffer_alloc_emits [of t env ?len "ac_flags cmd"] ba by simp
    then show ?thesis using True Inl ba ok_emits [OF assms(1)]
      by (simp add: cam_mem_mgr_alloc_and_map_def Let_def)
  next
    case (Inr p)
    obtain b fd ino where p: "p = (b, fd, ino)" by (cases p)
    have x: "extra b t1" by (rule buffer_alloc_extra [OF assms(1) l]) (use ba Inr p in simp)
    show ?thesis
    proof (cases rule: get_slot_cases [OF x])
      case 1
      then show ?thesis using True ba Inr p extra_put [OF x]
        by (simp add: cam_mem_mgr_alloc_and_map_def Let_def)
    next
      case taken: (2 i t2)
      let ?region = "if has_flag (ac_flags cmd) CAM_MEM_FLAG_PROTECTED_MODE then CAM_SMMU_REGION_IO
                     else if has_flag (ac_flags cmd) CAM_MEM_FLAG_HW_SHARED_ACCESS then CAM_SMMU_REGION_SHARED
                     else CAM_SMMU_REGION_IO"
      obtain rc va mlen t3 where m: "(if is_hw_mapped (ac_flags cmd)
          then cam_mem_util_map_hw_va env (ac_flags cmd) (ac_mmu_hdls cmd) (ac_num_hdl cmd) b ?len ?region True t2
          else ((0, 0, ?len), t2)) = ((rc, va, mlen), t3)"
        by (metis prod_cases3 surj_pair)
      have o3: "owed i b t3" by (rule owed_emits [OF taken(2) mapped_if_emits [OF m]])
      have "snd (cam_mem_mgr_alloc_and_map env cmd t) =
          (if rc \<noteq> 0 then dma_buf_put b (cam_mem_put_slot i t3)
           else snd (alloc_finish env cmd i b fd ino va mlen t3))"
        unfolding cam_mem_mgr_alloc_and_map_def Let_def
        using True ba Inr p taken(1) m by (simp del: split_paired_All)
      then show ?thesis using owed_put_slot [OF o3] alloc_finish_ok [OF o3] by simp
    qed
  qed
qed

lemma map_finish_ok:
  assumes "owed i b t"
  shows "mem_ok (map_finish cmd i b ino internal va mlen t)"
  unfolding map_finish_def
  using assms by (intro owed_fill) (auto simp: owed_def handle_idx)

lemma map_ok:
  assumes "mem_ok t" "mt_stuck t = {}"
  shows "mem_ok (snd (cam_mem_mgr_map env cmd t))"
proof (cases "mt_initialized t \<and> \<not> mc_fd cmd < 0 \<and> \<not> mc_num_hdl cmd > CAM_MEM_MMU_MAX_HANDLE \<and>
    cam_mem_util_check_map_flags cmd = 0 \<and> me_dma_buf_get env \<noteq> None")
  case False
  then show ?thesis using assms by (auto simp: cam_mem_mgr_map_def Let_def)
next
  case True
  then obtain b where b: "me_dma_buf_get env = Some b" by auto
  note l = ok_live [OF assms(1) conjunct1 [OF True] assms(2)]
  have x: "extra b (mem_emit [Mv_Get b] t)"
    by (rule ok_extra [OF assms(1) l emits_cong [OF emits_emit]]) simp
  show ?thesis
  proof (cases rule: get_slot_cases [OF x])
    case 1
    then show ?thesis using True b extra_put [OF x] by (simp add: cam_mem_mgr_map_def Let_def)
  next
    case taken: (2 i t2)
    let ?internal = "cam_mem_util_is_map_internal (mc_fd cmd) (ucast (me_i_ino env b)) (mem_emit [Mv_Get b] t)"
    obtain rc va mlen t3 where m: "(if has_flag (mc_flags cmd) CAM_MEM_FLAG_HW_READ_WRITE \<or>
          has_flag (mc_flags cmd) CAM_MEM_FLAG_PROTECTED_MODE
        then cam_mem_util_map_hw_va env (mc_flags cmd) (mc_mmu_hdls cmd) (mc_num_hdl cmd) b 0
               CAM_SMMU_REGION_IO ?internal t2
        else ((0, 0, 0), t2)) = ((rc, va, mlen), t3)"
      by (metis prod_cases3 surj_pair)
    have o3: "owed i b t3" by (rule owed_emits [OF taken(2) mapped_if_emits [OF m]])
    have "snd (cam_mem_mgr_map env cmd t) =
        (if rc \<noteq> 0 then dma_buf_put b (cam_mem_put_slot i t3)
         else map_finish cmd i b (me_i_ino env b) ?internal va mlen t3)"
      unfolding cam_mem_mgr_map_def Let_def
      using True b taken(1) m by simp
    then show ?thesis using owed_put_slot [OF o3] map_finish_ok [OF o3] by simp
  qed
qed

lemma kernel_fill_ok:
  assumes "owed i b t"
  shows "mem_ok (request_fill i b ino flags kva iova len smmu t)"
  unfolding request_fill_def
  using assms by (intro owed_fill) (auto simp: owed_def handle_idx)

lemma get_dma_buf_ok:
  assumes "mem_ok t" "live t" "cam_mem_util_get_dma_buf env len flags t = (r, t1)"
  shows "r = Inl e \<Longrightarrow> mem_ok t1" and "r = Inr (b, ino) \<Longrightarrow> extra b t1"
  using ok_extra [OF assms(1,2)] ok_emits [OF assms(1)] get_dma_buf_emits [of t env len flags] assms(3) by simp_all

lemma kernel_undo_ok: "extra b t \<Longrightarrow> mem_ok (dma_buf_put b (unmap_kva env b kva t))"
  by (rule extra_put [OF extra_emits [OF _ unmap_kva_emits]])

lemma request_mem_ok:
  assumes "mem_ok t" "mt_stuck t = {}"
  shows "mem_ok (snd (cam_mem_mgr_request_mem env inp t))"
proof (cases "mt_initialized t \<and> (has_flag (rq_flags inp) CAM_MEM_FLAG_HW_READ_WRITE \<or>
    has_flag (rq_flags inp) CAM_MEM_FLAG_HW_SHARED_ACCESS \<or> has_flag (rq_flags inp) CAM_MEM_FLAG_CACHE)")
  case False
  then show ?thesis using assms by (auto simp: cam_mem_mgr_request_mem_def)
next
  case True
  note l = ok_live [OF assms(1) conjunct1 [OF True] assms(2)]
  obtain r t1 where g: "cam_mem_util_get_dma_buf env (rq_size inp) (rq_flags inp) t = (r, t1)" by fastforce
  show ?thesis
  proof (cases r)
    case (Inl e)
    then show ?thesis using True g get_dma_buf_ok(1) [OF assms(1) l g] by (simp add: cam_mem_mgr_request_mem_def)
  next
    case (Inr p)
    obtain b ino where p: "p = (b, ino)" by (cases p)
    obtain rc kva klen t2 where m: "cam_mem_util_map_cpu_va env b t1 = ((rc, kva, klen), t2)"
      by (metis prod_cases3 surj_pair)
    have "extra b t1" by (rule get_dma_buf_ok(2) [OF assms(1) l g]) (use Inr p in simp)
    then have x2: "extra b t2" using extra_emits map_cpu_va_emits [of t1 env b] m by simp
    let ?how = "Kernel (region_of (or (rq_flags inp) CAM_MEM_FLAG_KMD_ACCESS))"
    let ?t3 = "mem_emit [Mv_Map DMA_BIDIRECTIONAL ?how (rq_smmu_hdl inp) b] t2"
    have x3: "extra b ?t3" by (rule extra_emits [OF x2 emits_cong [OF emits_emit]]) simp
    have x4: "extra b (mem_emit [Mv_Unmap u h q] ?t3)" for u h q
      by (rule extra_emits [OF x3 emits_cong [OF emits_emit]]) simp
    show ?thesis
      by (cases rule: get_slot_cases [OF x3])
        (use True g Inr p m x2 in \<open>auto simp: cam_mem_mgr_request_mem_def Let_def
           intro: extra_put kernel_undo_ok kernel_undo_ok [OF x4] kernel_fill_ok\<close>)
  qed
qed

lemma reserve_memory_region_ok:
  assumes "mem_ok t" "mt_stuck t = {}"
  shows "mem_ok (snd (cam_mem_mgr_reserve_memory_region env inp region t))"
proof (cases "mt_initialized t \<and> rq_smmu_hdl inp \<noteq> 0 \<and>
    (region = CAM_SMMU_REGION_SECHEAP \<or> region = CAM_SMMU_REGION_FWUNCACHED)")
  case False
  then show ?thesis using assms by (auto simp: cam_mem_mgr_reserve_memory_region_def)
next
  case True
  note l = ok_live [OF assms(1) conjunct1 [OF True] assms(2)]
  obtain r t1 where g: "cam_mem_util_get_dma_buf env (rq_size inp) 0 t = (r, t1)" by fastforce
  show ?thesis
  proof (cases r)
    case (Inl e)
    then show ?thesis using True g get_dma_buf_ok(1) [OF assms(1) l g]
      by (auto simp: cam_mem_mgr_reserve_memory_region_def)
  next
    case (Inr p)
    obtain b ino where p: "p = (b, ino)" by (cases p)
    obtain rc kva klen t2 where m: "(if has_flag (rq_flags inp) CAM_MEM_FLAG_KMD_ACCESS
        then cam_mem_util_map_cpu_va env b t1 else ((0, 0, 0), t1)) = ((rc, kva, klen), t2)"
      by (metis prod_cases3 surj_pair)
    obtain rrc iova rlen where rv: "me_reserve env = (rrc, iova, rlen)" by (metis prod_cases3)
    have "extra b t1" by (rule get_dma_buf_ok(2) [OF assms(1) l g]) (use Inr p in simp)
    then have x2: "extra b t2" by (rule extra_emits [OF _ cpu_if_emits [OF m]])
    let ?t3 = "mem_emit [Mv_Reserve (rq_smmu_hdl inp) b region] t2"
    have x3: "extra b ?t3" by (rule extra_emits [OF x2 emits_cong [OF emits_emit]]) simp
    have x4: "extra b (mem_emit [Mv_Release_Region h rg] ?t3)" for h rg
      by (rule extra_emits [OF x3 emits_cong [OF emits_emit]]) simp
    show ?thesis
    proof (cases rule: get_slot_cases [OF x3])
      case 1
      then show ?thesis
        unfolding cam_mem_mgr_reserve_memory_region_def Let_def
        using True g Inr p m rv extra_put [OF x2] extra_put [OF x4] kernel_undo_ok [OF x2] kernel_undo_ok [OF x4]
        by auto
    next
      case (2 i t4)
      then show ?thesis
        unfolding cam_mem_mgr_reserve_memory_region_def Let_def
        using True g Inr p m rv extra_put [OF x2] kernel_undo_ok [OF x2] kernel_fill_ok [OF 2(2)]
        by auto
    qed
  qed
qed

lemma not_bad_idx: "\<not> bad_idx i \<Longrightarrow> 1 \<le> i \<and> i < CAM_MEM_BUFQ_MAX"
  by (auto simp: bad_idx_def)

lemma ok_count:
  assumes "mem_ok t" "\<not> bad_idx i"
  shows "mem_ok (bq_upd i (\<lambda>r. r\<lparr>bq_krefcount := k\<rparr>) t)" "mem_ok (bq_upd i (\<lambda>r. r\<lparr>bq_urefcount := k\<rparr>) t)"
    "mem_ok (bq_upd i (\<lambda>r. r\<lparr>bq_release_deferred := d\<rparr>) t)"
  using assms not_bad_idx [OF assms(2)] by (auto intro!: ok_bq_upd)

lemma get_cpu_buf_ok: "mem_ok t \<Longrightarrow> mem_ok (snd (cam_mem_get_cpu_buf env hdl t))"
  by (auto simp: cam_mem_get_cpu_buf_def Let_def q_lock_def split: prod.splits intro: ok_count)

lemma put_kref_ok: "mem_ok t \<Longrightarrow> mem_ok (cam_mem_put_kref hdl t)"
  by (auto simp: cam_mem_put_kref_def Let_def intro: ok_bq_upd dest: not_bad_idx)

lemma put_cpu_buf_ok:
  assumes "mem_ok t"
  shows "mem_ok (snd (cam_mem_put_cpu_buf env hdl t))"
  by (auto simp: cam_mem_put_cpu_buf_def Let_def q_lock_def assms intro!: unmap_ok ok_count)

lemma release_ok:
  assumes "mem_ok t"
  shows "mem_ok (snd (cam_mem_mgr_release env hdl t))"
  by (auto simp: cam_mem_mgr_release_def Let_def q_lock_def assms intro!: unmap_ok ok_count)

lemma kref_put_row_ok:
  assumes "mem_ok t" "\<not> bad_idx i" "bq_active (mt_bufq t i)"
  shows "mem_ok (snd (kref_put_row env i t))"
proof -
  have "CAM_MEM_MGR_GET_HDL_IDX (bq_buf_handle (mt_bufq t i)) = i"
    using assms not_bad_idx [OF assms(2)] by (auto simp: mem_ok_def bufqs_ok_def bufq_ok_def)
  then show ?thesis
    using assms
    by (auto simp: kref_put_row_def Let_def cam_mem_util_unmap_wrapper_def split: prod.splits intro!: unmap_ok ok_count)
qed

lemma ok_stuck: "mem_ok (t\<lparr>mt_stuck := k\<rparr>) = mem_ok t"
  by (simp add: mem_ok_def bufqs_ok_def bufq_ok_def)

lemma release_mem_ok: "mem_ok t \<Longrightarrow> mem_ok (snd (cam_mem_mgr_release_mem env inp t))"
  by (auto simp: cam_mem_mgr_release_mem_def Let_def q_lock_def ok_stuck intro: kref_put_row_ok)

lemma free_memory_region_ok:
  assumes "mem_ok t"
  shows "mem_ok (snd (cam_mem_mgr_free_memory_region env inp t))"
proof -
  have "mem_ok (mem_emit [Mv_Release_Region h rg] t)" for h rg
    by (rule ok_emits [OF assms emits_cong [OF emits_emit]]) simp
  then show ?thesis
    using assms by (auto simp: cam_mem_mgr_free_memory_region_def Let_def q_lock_def intro: kref_put_row_ok)
qed

section \<open>Any sequence of calls\<close>

text \<open>The calls that change the table; \<open>cam_mem_get_io_buf\<close> and \<open>cam_mem_mgr_cache_ops\<close> only read it.\<close>

inductive mem_call :: "cam_mem_table \<Rightarrow> cam_mem_table \<Rightarrow> bool" where
  alloc: "mem_call t (snd (cam_mem_mgr_alloc_and_map env acmd t))"
| map_buf: "mem_call t (snd (cam_mem_mgr_map env mcmd t))"
| get_cpu: "mem_call t (snd (cam_mem_get_cpu_buf env hdl t))"
| put_cpu: "mem_call t (snd (cam_mem_put_cpu_buf env hdl t))"
| put_kref: "mem_call t (cam_mem_put_kref hdl t)"
| release: "mem_call t (snd (cam_mem_mgr_release env hdl t))"
| request: "mem_call t (snd (cam_mem_mgr_request_mem env inp t))"
| release_mem: "mem_call t (snd (cam_mem_mgr_release_mem env md t))"
| reserve: "mem_call t (snd (cam_mem_mgr_reserve_memory_region env inp region t))"
| free_region: "mem_call t (snd (cam_mem_mgr_free_memory_region env md t))"
| deinit: "mem_call t (snd (cam_mem_mgr_deinit env t))"

text \<open>
  The tables after loading and any calls. The run ends with the call that returns holding a mutex
  (\<open>mt_stuck\<close>), as \<open>cam_mem_mgr_release_mem\<close> of a free row does.
\<close>

inductive mem_run :: "cam_mem_table \<Rightarrow> bool" where
  load: "cam_mem_mgr_init env t0 = (0, t) \<Longrightarrow> mt_log t0 = [] \<Longrightarrow> mem_run t"
| step: "mem_run t \<Longrightarrow> mt_stuck t = {} \<Longrightarrow> mem_call t t' \<Longrightarrow> mem_run t'"

lemma heaps_same:
  "mt_bufq (snd (cam_mem_mgr_get_dma_heaps env t)) = mt_bufq t"
  "mt_log (snd (cam_mem_mgr_get_dma_heaps env t)) = mt_log t"
  by (auto simp: cam_mem_mgr_get_dma_heaps_def Let_def split: sum.splits bool.splits prod.splits)

lemma zero_bufq_simps [mem_simps, simp]:
  "bq_dma_buf zero_bufq = None" "\<not> bq_active zero_bufq" "bq_vaddr zero_bufq = 0"
  by (simp_all add: zero_bufq_def)

lemma load_bitmap: "cam_mem_mgr_init env t0 = (0, t) \<Longrightarrow> me_bitmap_mem env"
  by (auto simp: cam_mem_mgr_init_def Let_def split: option.splits prod.splits if_splits)

lemma init_ok:
  assumes "cam_mem_mgr_init env t0 = (0, t)" "mt_log t0 = []"
  shows "mem_ok t \<and> mt_stuck t = {} \<and> mt_initialized t"
proof -
  note mem = load_bitmap [OF assms(1)]
  obtain fc where fc: "me_force_cached env = Some fc"
    using assms(1) by (cases "me_force_cached env") (auto simp: cam_mem_mgr_init_def Let_def)
  let ?t1 = "t0\<lparr>mt_bufq := (\<lambda>i. if i < CAM_MEM_BUFQ_MAX then zero_bufq else mt_bufq t0 i),
      mt_force_cache_allocs := fc, mt_need_padding := me_padding env\<rparr>"
  obtain rc t2 where h: "cam_mem_mgr_get_dma_heaps env ?t1 = (rc, t2)" by fastforce
  then have b: "mt_bufq t2 i = zero_bufq" if "i < CAM_MEM_BUFQ_MAX" for i
    using heaps_same(1) [of env ?t1] that by simp
  have l: "mt_log t2 = []" using heaps_same(2) [of env ?t1] h assms(2) by simp
  have rc: "rc = 0" using assms(1) fc h by (auto simp: cam_mem_mgr_init_def Let_def split: if_splits)
  have t: "t = t2\<lparr>mt_bits := 2048, mt_bitmap := set_bit_map 0 (bitmap_zero 2048 (\<lambda>_. False)),
      mt_bufq := (\<lambda>i. if 1 \<le> i \<and> i < CAM_MEM_BUFQ_MAX then (mt_bufq t2 i)\<lparr>bq_fd := - 1, bq_buf_handle := - 1\<rparr>
                     else mt_bufq t2 i), mt_stuck := {}, mt_initialized := True\<rparr>"
    using assms(1) mem fc h rc by (simp add: cam_mem_mgr_init_def Let_def)
  have "rows_with t bb = 0" for bb
  proof -
    have "{i. i < CAM_MEM_BUFQ_MAX \<and> bq_dma_buf (mt_bufq t i) = Some bb} = {}" using b by (auto simp: t)
    then show ?thesis by (simp add: rows_with_def)
  qed
  then have "surplus t bb = 0" for bb using l by (simp add: surplus_def t held_refs_def fd_failures_def)
  then show ?thesis
    using b by (auto simp: mem_ok_def bufqs_ok_def bufq_ok_def t set_bit_map_def bitmap_zero_def)
qed

lemma deinit_snd: "mem_ok t \<Longrightarrow> mt_stuck t = {} \<Longrightarrow> mem_ok (snd (cam_mem_mgr_deinit env t))"
  using deinit_ok [of t env] by auto

lemma call_ok: "mem_call t t' \<Longrightarrow> mem_ok t \<Longrightarrow> mt_stuck t = {} \<Longrightarrow> mem_ok t'"
  by (induction rule: mem_call.induct)
    (auto intro: alloc_and_map_ok map_ok get_cpu_buf_ok put_cpu_buf_ok put_kref_ok release_ok request_mem_ok
      release_mem_ok reserve_memory_region_ok free_memory_region_ok deinit_snd)

lemma mem_run_ok: "mem_run t \<Longrightarrow> mem_ok t"
  by (induction rule: mem_run.induct) (auto intro: call_ok simp: init_ok)

end
