(* ===== verification/Cam_Mem_Props.thy ===== *)
theory Cam_Mem_Props imports Cam_Mem_Run begin

text \<open>
  What the memory manager promises: its table is consistent and its references are balanced whatever is
  called; unloading gives every buffer back; a buffer lives exactly as long as user space or the kernel
  uses it; and what one release too many does.
\<close>

section \<open>References and rows\<close>

text \<open>
  C8. After any calls, no earlier one of which returned with the mutex of a row held (\<open>mem_run\<close>; the release
  of a kernel buffer that is free already does return so): a row of the table is in use exactly when its
  bit is set; a row in use has a buffer and a handle that leads to it, a free row has none; and the references
  the driver holds on a buffer are one for each row with the buffer, and one for each time no descriptor was
  left for it. After a call that kept a mutex this ends with the next allocation of that row, which sets the
  bit and then waits for the mutex for good.
\<close>

theorem mem_table_balanced:
  assumes "mem_run t"
  shows "(\<forall>i. 1 \<le> i \<and> i < CAM_MEM_BUFQ_MAX \<longrightarrow>
            mt_bitmap t i = bq_active (mt_bufq t i) \<and>
            (if bq_active (mt_bufq t i)
             then bq_dma_buf (mt_bufq t i) \<noteq> None \<and> CAM_MEM_MGR_GET_HDL_IDX (bq_buf_handle (mt_bufq t i)) = i
             else bq_dma_buf (mt_bufq t i) = None \<and> bq_vaddr (mt_bufq t i) = 0)) \<and>
         (\<forall>b. held_refs (mt_log t) b = rows_with t b + fd_failures (mt_log t) b)"
proof -
  have ok: "mem_ok t" by (rule mem_run_ok [OF assms])
  have "held_refs (mt_log t) b = rows_with t b + fd_failures (mt_log t) b" for b
    using ok by (auto simp: mem_ok_def surplus_def dest: spec [of _ b])
  then show ?thesis using ok by (auto simp: mem_ok_def bufqs_ok_def bufq_ok_def)
qed

text \<open>A run that allocates a buffer for kernel and hardware, imports it again, and releases the first.\<close>

definition mem_demo_env :: mem_env where
  "mem_demo_env = \<lparr>me_in_task = True, me_force_cached = Some True, me_padding = False,
     me_heap_find = (\<lambda>_. Inr 1), me_bitmap_mem = True, me_heap_alloc = (\<lambda>_ _. Inr 7), me_i_ino = (\<lambda>_. 70),
     me_dmabuf_size = (\<lambda>_. 4096), me_lend = 0, me_dma_buf_fd = 5, me_dma_buf_get = Some 7, me_get_flags = 0,
     me_begin_cpu = (\<lambda>_. 0), me_vmap = (0, 0x1000), me_end_cpu = (\<lambda>_. 0), me_expanded = False,
     me_shared_region = (\<lambda>_. False), me_map = (\<lambda>_. 0), me_map_va = 0x2000, me_map_len = (\<lambda>_. 4096),
     me_unmap = (\<lambda>_. 0), me_get_iova = (\<lambda>_. (0, 0x2000, 4096)), me_reserve = (0, 0x3000, 4096),
     me_release_region = 0\<rparr>"

definition blank_table :: cam_mem_table where
  "blank_table = \<lparr>mt_initialized = False, mt_bitmap = (\<lambda>_. False), mt_bits = 0, mt_bufq = (\<lambda>_. zero_bufq),
     mt_dbg_buf_idx = 0, mt_force_cache_allocs = False, mt_need_padding = False, mt_system_heap = None,
     mt_system_uncached_heap = None, mt_camera_heap = None, mt_camera_uncached_heap = None,
     mt_secure_display_heap = None, mt_stuck = {}, mt_log = []\<rparr>"

definition demo0 :: cam_mem_table where
  "demo0 = snd (cam_mem_mgr_init mem_demo_env blank_table)"

definition demo_alloc :: cam_mem_mgr_alloc_cmd where
  "demo_alloc = \<lparr>ac_len = 4096, ac_mmu_hdls = replicate 16 3, ac_num_hdl = 1, ac_flags = 0x9\<rparr>"

definition demo1 :: cam_mem_table where
  "demo1 = snd (cam_mem_mgr_alloc_and_map mem_demo_env demo_alloc demo0)"

definition demo2 :: cam_mem_table where
  "demo2 = snd (cam_mem_mgr_map mem_demo_env
     \<lparr>mc_mmu_hdls = replicate 16 3, mc_num_hdl = 1, mc_flags = 0x1, mc_fd = 5\<rparr> demo1)"

definition demo_row :: cam_mem_buf_queue where
  "demo_row = zero_bufq\<lparr>bq_fd := - 1, bq_buf_handle := - 1\<rparr>"

lemma demo0_eq:
  "cam_mem_mgr_init mem_demo_env blank_table = (0, demo0)"
  "demo0 = blank_table\<lparr>mt_initialized := True, mt_bitmap := set_bit_map 0 (bitmap_zero 2048 (\<lambda>_. False)),
     mt_bits := 2048, mt_bufq := (\<lambda>i. if 1 \<le> i \<and> i < 2048 then demo_row else zero_bufq),
     mt_force_cache_allocs := True, mt_system_heap := Some 1, mt_system_uncached_heap := Some 1,
     mt_camera_heap := Some 1, mt_camera_uncached_heap := Some 1, mt_secure_display_heap := Some 1\<rparr>"
  by (simp_all add: demo0_def cam_mem_mgr_init_def cam_mem_mgr_get_dma_heaps_def Let_def mem_demo_env_def
    blank_table_def demo_row_def fun_eq_iff)

lemma demo_first_free: "find_first_zero_bit (set_bit_map 0 (bitmap_zero 2048 (\<lambda>_. False))) 2048 = 1"
  by (rule find_first_zero_bit_eqI) (auto simp: set_bit_map_def bitmap_zero_def)

lemma demo_flags:
  "\<not> has_flag 9 0x400" "\<not> has_flag 9 0x20" "\<not> has_flag 9 0x8000" "has_flag 9 1" "has_flag 9 8" "\<not> has_flag 9 0x800"
  "\<not> has_flag 9 0x4000" "\<not> has_flag 9 2" "\<not> has_flag 9 4" "\<not> has_flag 9 0x40" "\<not> has_flag 9 0x2000"
  by (simp_all add: has_flag_def)

lemma demo_buffer:
  "cam_mem_util_buffer_alloc mem_demo_env 4096 9 demo0 =
     (Inr (7, 5, 70), demo0\<lparr>mt_log := [Mv_Alloc 7, Mv_Get 7, Mv_Fd 7 5]\<rparr>)"
  by (simp add: cam_mem_util_buffer_alloc_def cam_mem_util_get_dma_buf_def demo_flags mem_demo_env_def mem_emit_def
    demo0_eq(2) blank_table_def)

lemma demo_slot:
  "cam_mem_get_slot (demo0\<lparr>mt_log := l\<rparr>) =
     (Some 1, demo0\<lparr>mt_log := l, mt_bitmap := set_bit_map 1 (mt_bitmap demo0),
        mt_bufq := (mt_bufq demo0)(1 := demo_row\<lparr>bq_active := True\<rparr>)\<rparr>)"
  by (simp add: cam_mem_get_slot_def demo0_eq(2) demo_first_free bad_idx_def q_lock_def blank_table_def bq_upd_def
    demo_row_def zero_bufq_def)

lemma demo_map:
  "cam_mem_util_map_hw_va mem_demo_env 9 (replicate 16 3) (Suc 0) 7 4096 CAM_SMMU_REGION_IO True t =
     ((0, 0x2000, 4096), mem_emit [Mv_Map 0 (User False CAM_SMMU_REGION_IO True) 3 7] t)"
  by (simp add: cam_mem_util_map_hw_va_def cam_mem_util_get_dma_dir_def demo_flags mem_demo_env_def)

lemma demo_kmap: "cam_mem_util_map_cpu_va mem_demo_env 7 t = ((0, 0x1000, 4096), mem_emit [Mv_Kmap 7] t)"
  by (simp add: cam_mem_util_map_cpu_va_def mem_demo_env_def)

lemma demo_handle: "alloc_handle (Suc 0) 5 9 = 0x50001"
  by (simp add: alloc_handle_def demo_flags GET_MEM_HANDLE_def)

definition demo_log :: "mem_ev list" where
  "demo_log = [Mv_Alloc 7, Mv_Get 7, Mv_Fd 7 5, Mv_Map 0 (User False CAM_SMMU_REGION_IO True) 3 7, Mv_Kmap 7]"

definition demo_buf :: cam_mem_buf_queue where
  "demo_buf = demo_row\<lparr>bq_dma_buf := Some 7, bq_hdls := copy_hdls 1 (replicate 16 3) (bq_hdls demo_row),
       bq_num_hdl := 1, bq_fd := 5, bq_i_ino := 70, bq_buf_handle := 0x50001, bq_len := 4096, bq_flags := 9,
       bq_vaddr := 0x2000, bq_kmdvaddr := 0x1000, bq_active := True, bq_is_internal := True, bq_krefcount := 1,
       bq_urefcount := 1\<rparr>"

lemma demo_finish:
  "alloc_finish mem_demo_env demo_alloc 1 7 5 70 0x2000 4096
     (demo0\<lparr>mt_bitmap := m, mt_bufq := (mt_bufq demo0)(1 := demo_row\<lparr>bq_active := True\<rparr>), mt_log := l\<rparr>) =
   (Some (Inr (0x50001, 5)),
    demo0\<lparr>mt_bitmap := m, mt_bufq := (mt_bufq demo0)(1 := demo_buf), mt_log := l @ [Mv_Kmap 7]\<rparr>)"
  by (simp add: alloc_finish_def demo_alloc_def demo_flags demo_kmap demo_handle bq_upd_def mem_emit_def
      demo_row_def zero_bufq_def demo_buf_def)

lemma demo1_eq:
  "demo1 = demo0\<lparr>mt_bitmap := set_bit_map 1 (mt_bitmap demo0), mt_bufq := (mt_bufq demo0)(1 := demo_buf),
     mt_log := demo_log\<rparr>"
proof -
  have "cam_mem_util_check_alloc_flags demo_alloc = 0"
    by (simp add: cam_mem_util_check_alloc_flags_def demo_alloc_def demo_flags)
  moreover have "mt_initialized demo0" "\<not> mt_need_padding demo0" by (simp_all add: demo0_eq(2) blank_table_def)
  ultimately have "cam_mem_mgr_alloc_and_map mem_demo_env demo_alloc demo0 =
      alloc_finish mem_demo_env demo_alloc 1 7 5 70 0x2000 4096
        (mem_emit [Mv_Map 0 (User False CAM_SMMU_REGION_IO True) 3 7]
          (demo0\<lparr>mt_log := [Mv_Alloc 7, Mv_Get 7, Mv_Fd 7 5], mt_bitmap := set_bit_map 1 (mt_bitmap demo0),
             mt_bufq := (mt_bufq demo0)(1 := demo_row\<lparr>bq_active := True\<rparr>)\<rparr>))"
    by (simp add: cam_mem_mgr_alloc_and_map_def demo_alloc_def demo_flags demo_buffer demo_slot is_hw_mapped_def
      demo_map)
  then show ?thesis
    using demo_finish by (simp add: demo1_def mem_emit_def demo_log_def del: One_nat_def)
qed

lemma demo1_run: "mem_run demo1"
proof (rule mem_run.step [OF mem_run.load [OF demo0_eq(1)]])
  show "mem_call demo0 demo1" unfolding demo1_def by (rule mem_call.alloc)
qed (simp_all add: blank_table_def demo0_eq(2))

theorem mem_table_balanced_witness:
  "bq_active (mt_bufq demo1 1) \<and> mt_bitmap demo1 1 \<and> CAM_MEM_MGR_GET_HDL_IDX (bq_buf_handle (mt_bufq demo1 1)) = 1 \<and>
   held_refs (mt_log demo1) 7 = 1 \<and> rows_with demo1 7 = 1 \<and> fd_failures (mt_log demo1) 7 = 0"
proof -
  have a: "bq_active (mt_bufq demo1 1)" and h: "held_refs (mt_log demo1) 7 = 1" "fd_failures (mt_log demo1) 7 = 0"
    by (simp_all add: demo1_eq demo_buf_def demo_log_def held_refs_def fd_failures_def)
  show ?thesis
    using a h mem_table_balanced [OF demo1_run] by (auto dest: spec [of _ 7])
qed

text \<open>
  C9. Unloading after any calls, none of which kept a mutex, comes to its end: no row is in use and every
  reference on a buffer has been given back, but for the buffers that found no descriptor.
\<close>

theorem unloading_gives_back:
  assumes "mem_run t" "mt_stuck t = {}"
  shows "\<exists>t'. cam_mem_mgr_deinit env t = (Some (), t') \<and> \<not> mt_initialized t' \<and>
           (\<forall>i < CAM_MEM_BUFQ_MAX. \<not> bq_active (mt_bufq t' i)) \<and>
           (\<forall>b. held_refs (mt_log t') b = fd_failures (mt_log t') b)"
proof -
  obtain t' where t': "cam_mem_mgr_deinit env t = (Some (), t')" "mem_ok t'" "\<not> mt_initialized t'"
    using deinit_ok [OF mem_run_ok [OF assms(1)] assms(2)] by blast
  have off: "\<not> bq_active (mt_bufq t' i)" if "i < CAM_MEM_BUFQ_MAX" for i using t' that by (simp add: mem_ok_def)
  have "bq_dma_buf (mt_bufq t' i) = None" if "i < CAM_MEM_BUFQ_MAX" for i
    using t'(2) off [OF that] that by (cases "i = 0") (auto simp: mem_ok_def bufqs_ok_def bufq_ok_def)
  then have none: "{i. i < CAM_MEM_BUFQ_MAX \<and> bq_dma_buf (mt_bufq t' i) = Some b} = {}" for b by auto
  have "rows_with t' b = 0" for b by (simp only: rows_with_def none card.empty of_nat_0)
  then have "held_refs (mt_log t') b = fd_failures (mt_log t') b" for b
    using t'(2) by (simp add: mem_ok_def surplus_def)
  then show ?thesis using t' off by blast
qed

theorem unloading_gives_back_witness:
  "mem_run demo1 \<and> (\<exists>t'. cam_mem_mgr_deinit mem_demo_env demo1 = (Some (), t') \<and> held_refs (mt_log t') 7 = fd_failures (mt_log t') 7)"
proof -
  have "mt_stuck demo1 = {}" by (simp add: demo1_eq demo0_eq(2) blank_table_def)
  then show ?thesis using unloading_gives_back [OF demo1_run, of mem_demo_env] demo1_run by blast
qed

section \<open>How long a buffer lives\<close>

text \<open>What a buffer that the kernel may read promises: it is held by \<open>n\<close> kernel users and perhaps by user space.\<close>

datatype buf_use = Gone | Held nat bool
datatype buf_op = Get_Cpu | Put_Cpu | Release_Buf

fun use_step :: "buf_op \<Rightarrow> buf_use \<Rightarrow> buf_use option" where
  "use_step _ Gone = Some Gone"
| "use_step Get_Cpu (Held n u) = (if int n + 2 \<le> REFCOUNT_MAX then Some (Held (Suc n) u) else None)"
| "use_step Put_Cpu (Held 0 u) = None"
| "use_step Put_Cpu (Held (Suc n) u) = Some (if n = 0 \<and> \<not> u then Gone else Held n u)"
| "use_step Release_Buf (Held n False) = None"
| "use_step Release_Buf (Held n True) = Some (if n = 0 then Gone else Held n False)"

fun use_steps :: "buf_op list \<Rightarrow> buf_use \<Rightarrow> buf_use option" where
  "use_steps [] s = Some s"
| "use_steps (x # xs) s = (case use_step x s of None \<Rightarrow> None | Some s' \<Rightarrow> use_steps xs s')"

definition do_op :: "mem_env \<Rightarrow> u32 \<Rightarrow> buf_op \<Rightarrow> cam_mem_table \<Rightarrow> cam_mem_table" where
  "do_op env hdl x t =
     (case x of Get_Cpu \<Rightarrow> snd (cam_mem_get_cpu_buf env hdl t)
              | Put_Cpu \<Rightarrow> snd (cam_mem_put_cpu_buf env hdl t)
              | Release_Buf \<Rightarrow> snd (cam_mem_mgr_release env hdl t))"

definition usable :: "u32 \<Rightarrow> cam_mem_table \<Rightarrow> bool" where
  "usable hdl t \<longleftrightarrow> mt_initialized t \<and> hdl \<noteq> 0 \<and> \<not> bad_idx (CAM_MEM_MGR_GET_HDL_IDX hdl) \<and>
     CAM_MEM_MGR_GET_HDL_IDX hdl \<notin> mt_stuck t"

fun implements :: "u32 \<Rightarrow> cam_mem_table \<Rightarrow> buf_use \<Rightarrow> bool" where
  "implements hdl t Gone \<longleftrightarrow> usable hdl t \<and>
     \<not> bq_active (mt_bufq t (CAM_MEM_MGR_GET_HDL_IDX hdl)) \<and> bq_dma_buf (mt_bufq t (CAM_MEM_MGR_GET_HDL_IDX hdl)) = None"
| "implements hdl t (Held n u) \<longleftrightarrow> usable hdl t \<and> (u \<or> n > 0) \<and>
     (let r = mt_bufq t (CAM_MEM_MGR_GET_HDL_IDX hdl) in
      bq_active r \<and> bq_buf_handle r = hdl \<and> has_flag (bq_flags r) CAM_MEM_FLAG_KMD_ACCESS \<and> bq_kmdvaddr r \<noteq> 0 \<and>
      bq_dma_buf r \<noteq> None \<and> bq_krefcount r = int n + 1 \<and> bq_urefcount r = of_bool u)"

lemma unmap_gone:
  assumes "usable hdl t" "bq_active (mt_bufq t (CAM_MEM_MGR_GET_HDL_IDX hdl))"
  shows "implements hdl (cam_mem_util_unmap env (CAM_MEM_MGR_GET_HDL_IDX hdl) t) Gone"
  using assms unmap_rows [OF assms(2)] by (simp add: usable_def)

lemma get_implements:
  assumes "implements hdl t (Held n u)" "me_in_task env" "int n + 2 \<le> REFCOUNT_MAX"
  shows "implements hdl (snd (cam_mem_get_cpu_buf env hdl t)) (Held (Suc n) u)"
  using assms by (auto simp: cam_mem_get_cpu_buf_def Let_def q_lock_def usable_def refcount_inc_not_zero_def)

lemma usable_bq_upd: "usable hdl (bq_upd i f t) = usable hdl t"
  by (simp add: usable_def)

lemma put_implements:
  assumes "implements hdl t (Held (Suc n) u)" "me_in_task env"
  shows "implements hdl (snd (cam_mem_put_cpu_buf env hdl t)) (if n = 0 \<and> \<not> u then Gone else Held n u)"
proof -
  let ?i = "CAM_MEM_MGR_GET_HDL_IDX hdl"
  let ?t1 = "bq_upd ?i (\<lambda>r. r\<lparr>bq_krefcount := 1 + int n\<rparr>) t"
  have "snd (cam_mem_put_cpu_buf env hdl t) = (if n = 0 \<and> \<not> u then cam_mem_util_unmap env ?i ?t1 else ?t1)"
    using assms by (auto simp: cam_mem_put_cpu_buf_def Let_def q_lock_def usable_def refcount_dec_and_test_def)
  moreover have "implements hdl (cam_mem_util_unmap env ?i ?t1) Gone"
    by (rule unmap_gone) (use assms in \<open>auto simp: usable_bq_upd Let_def\<close>)
  ultimately show ?thesis using assms by (auto simp: usable_bq_upd Let_def)
qed

lemma release_implements:
  assumes "implements hdl t (Held n True)"
  shows "implements hdl (snd (cam_mem_mgr_release env hdl t)) (if n = 0 then Gone else Held n False)"
proof -
  let ?i = "CAM_MEM_MGR_GET_HDL_IDX hdl"
  let ?t1 = "bq_upd ?i (\<lambda>r. r\<lparr>bq_urefcount := 0\<rparr>) t"
  have "snd (cam_mem_mgr_release env hdl t) =
      (if n = 0 then cam_mem_util_unmap env ?i ?t1
       else bq_upd ?i (\<lambda>r. r\<lparr>bq_release_deferred := True\<rparr>) ?t1)"
    using assms by (auto simp: cam_mem_mgr_release_def Let_def q_lock_def usable_def refcount_dec_and_test_def)
  moreover have "implements hdl (cam_mem_util_unmap env ?i ?t1) Gone"
    by (rule unmap_gone) (use assms in \<open>auto simp: usable_bq_upd Let_def\<close>)
  ultimately show ?thesis using assms by (auto simp: usable_bq_upd Let_def)
qed

lemma gone_stays: "implements hdl t Gone \<Longrightarrow> do_op env hdl x t = t"
  by (cases x) (auto simp: do_op_def cam_mem_get_cpu_buf_def cam_mem_put_cpu_buf_def cam_mem_mgr_release_def
    Let_def q_lock_def split: prod.splits)

lemma op_implements:
  assumes "implements hdl t s" "use_step x s = Some s'" "me_in_task env"
  shows "implements hdl (do_op env hdl x t) s'"
proof (cases s)
  case Gone
  then show ?thesis using assms gone_stays [of hdl t] by auto
next
  case (Held n u)
  show ?thesis
  proof (cases x)
    case Get_Cpu
    then show ?thesis
      using assms Held get_implements [of hdl t n u env]
      by (simp add: do_op_def split: if_splits del: implements.simps)
  next
    case Put_Cpu
    then show ?thesis
      using assms Held put_implements [of hdl t _ u env]
      by (cases n) (auto simp: do_op_def simp del: implements.simps)
  next
    case Release_Buf
    then show ?thesis
      using assms Held release_implements [of hdl t n env]
      by (cases u) (auto simp: do_op_def simp del: implements.simps)
  qed
qed

text \<open>
  C10. A buffer with kernel access implements the count of its users: as long as every put follows a get and
  user space releases once, the buffer is there exactly until both the last kernel user and user space are
  done, in whichever order they end; afterwards its row is free and calls with the old handle do nothing.
\<close>

theorem buffer_lives_while_used:
  assumes "implements hdl t s" "use_steps xs s = Some s'" "me_in_task env"
  shows "implements hdl (fold (do_op env hdl) xs t) s'"
  using assms
proof (induction xs arbitrary: t s)
  case Nil
  then show ?case by simp
next
  case (Cons x xs)
  then obtain s1 where s1: "use_step x s = Some s1" "use_steps xs s1 = Some s'" by (auto split: option.splits)
  show ?case using Cons.IH [OF op_implements [OF Cons.prems(1) s1(1) Cons.prems(3)] s1(2) Cons.prems(3)] by simp
qed

lemma demo1_implements: "implements 0x50001 demo1 (Held 0 True)"
  by (simp add: demo1_eq demo0_eq(2) usable_def bad_idx_def CAM_MEM_MGR_GET_HDL_IDX_def demo_buf_def blank_table_def
    demo_flags Let_def)

theorem buffer_lives_while_used_witness:
  "implements 0x50001 (fold (do_op mem_demo_env 0x50001) [Get_Cpu, Release_Buf, Put_Cpu] demo1) Gone \<and>
   implements 0x50001 (fold (do_op mem_demo_env 0x50001) [Get_Cpu, Release_Buf] demo1) (Held 1 False)"
proof -
  have "me_in_task mem_demo_env" by (simp add: mem_demo_env_def)
  moreover have "use_steps [Get_Cpu, Release_Buf, Put_Cpu] (Held 0 True) = Some Gone"
    "use_steps [Get_Cpu, Release_Buf] (Held 0 True) = Some (Held 1 False)"
    by (simp_all add: REFCOUNT_MAX_def)
  ultimately show ?thesis using buffer_lives_while_used [OF demo1_implements] by blast
qed

text \<open>
  C11. One release too many: when user space releases a buffer twice while the kernel uses it, the second
  release is not refused. The count of user space saturates, and from then on no put and no release unmaps
  the buffer: it stays in the table until the driver is unloaded.
\<close>

definition lost_count :: "u32 \<Rightarrow> cam_mem_table \<Rightarrow> bool" where
  "lost_count hdl t \<longleftrightarrow>
     (let r = mt_bufq t (CAM_MEM_MGR_GET_HDL_IDX hdl) in
      bq_active r \<and> bq_buf_handle r = hdl \<and> bq_dma_buf r \<noteq> None \<and> bq_urefcount r < 0)"

lemma lost_op: "lost_count hdl t \<Longrightarrow> lost_count hdl (do_op env hdl x t)"
  by (cases x)
    (auto simp: lost_count_def do_op_def cam_mem_get_cpu_buf_def cam_mem_put_cpu_buf_def cam_mem_mgr_release_def Let_def
      q_lock_def refcount_dec_and_test_def REFCOUNT_SATURATED_def split: prod.splits)

lemma lost_ops: "lost_count hdl t \<Longrightarrow> lost_count hdl (fold (do_op env hdl) xs t)"
  by (induction xs arbitrary: t) (auto intro: lost_op)

theorem double_release_leaks:
  assumes "implements hdl t (Held n True)" "n > 0"
  shows "let t' = fold (do_op env hdl) (Release_Buf # Release_Buf # xs) t;
             r = mt_bufq t' (CAM_MEM_MGR_GET_HDL_IDX hdl)
         in bq_active r \<and> bq_buf_handle r = hdl \<and> bq_dma_buf r \<noteq> None"
proof -
  have "implements hdl (do_op env hdl Release_Buf t) (Held n False)"
    using release_implements [OF assms(1)] assms(2) by (simp add: do_op_def del: implements.simps)
  then have "lost_count hdl (do_op env hdl Release_Buf (do_op env hdl Release_Buf t))"
    by (auto simp: lost_count_def do_op_def [of _ _ _ "do_op env hdl Release_Buf t"] cam_mem_mgr_release_def Let_def
      usable_def q_lock_def refcount_dec_and_test_def REFCOUNT_SATURATED_def)
  then show ?thesis using lost_ops by (auto simp: lost_count_def Let_def)
qed

theorem double_release_leaks_witness:
  "bq_active (mt_bufq (fold (do_op mem_demo_env 0x50001) [Get_Cpu, Release_Buf, Release_Buf, Put_Cpu, Release_Buf] demo1) 1)"
proof -
  have "me_in_task mem_demo_env" by (simp add: mem_demo_env_def)
  then have "implements 0x50001 (do_op mem_demo_env 0x50001 Get_Cpu demo1) (Held 1 True)"
    using op_implements [OF demo1_implements, of Get_Cpu "Held 1 True" mem_demo_env] by (simp add: REFCOUNT_MAX_def del: implements.simps)
  from double_release_leaks [OF this, of mem_demo_env "[Put_Cpu, Release_Buf]"] show ?thesis
    by (simp add: CAM_MEM_MGR_GET_HDL_IDX_def Let_def)
qed

end
