(* ===== verification/Spec2Isabelle.thy ===== *)
theory Spec2Isabelle imports Cam_Sync_Props Mmrm_Driver Crm_Demo Crm_Calls Cam_Mem_Props begin

text \<open>
  A verification of the driver logic in \<open>src/qcom/opensource\<close> that the camera stack and the
  multimedia resource manager rest on. Paths below are relative to that directory.

  \<^bold>\<open>The program.\<close> The repository holds out-of-tree kernel modules. Most of it programs hardware or
  talks to firmware; the parts verified here carry logic of their own.

  The camera request manager (\<open>camera-kernel/drivers/cam_req_mgr\<close>) keeps the frames of a camera in
  step: user space schedules a request on a \<^emph>\<open>link\<close> of devices, each device reports when it has its
  part of the request, and at every start of frame (SOF) the manager hands each device the request
  it has to work on, as many frames ahead as the device's pipeline delay says. Sessions, devices
  and links are named by handles of one table; everything that happens on a link runs as tasks of
  a work queue. The fence driver (\<open>cam_sync\<close>) lets drivers and user space wait for each other's
  results through fences and merged fences. The memory manager (\<open>cam_req_mgr/cam_mem_mgr.c\<close>) keeps the buffers
  of user space and of the drivers mapped for the hardware as long as somebody uses them. The multimedia resource manager (\<open>mmrm-driver\<close>) admits
  clock rates of video, camera and display as long as the sum of their peak currents stays below a
  limit, throttling clients of low priority when it must.

  \<^bold>\<open>Theories.\<close>

  \<^item> \<open>Kernel_Prelude\<close>: machine integers, return codes, bit maps, reference counts, and the interface
    \<open>id_allocator\<close> of tables that hand out indices.
  \<^item> \<open>Crm_Handles\<close> (\<open>cam_req_mgr_util.c\<close>): the handle table. Its interface is the locale
    \<open>handle_registry\<close>, a finite map from handles to entries, interpreted on the operations.
  \<^item> \<open>Crm_Workq\<close> (\<open>cam_req_mgr_workq.c\<close>): the pool of tasks and the two priority lists, first as whole
    calls, then as interleaved steps of clients, worker and flush.
  \<^item> \<open>Crm_Core\<close>, \<open>Crm_Task\<close> (\<open>cam_req_mgr_core.c\<close>, \<open>cam_req_mgr_timer.c\<close>): the request queue and the
    request tables of a link, the traversal that decides whether a frame can be applied, the
    sending to devices; then the checks between synchronised links and every task of the work
    queue. Operations carry the names of the C functions without their leading underscores.
  \<^item> \<open>Crm_Pipeline\<close>: the traversal and the sending in closed form. \<open>Crm_Window\<close>: the queue as a window
    on an unbounded list of entries. \<open>Crm_Frame\<close>: one frame of a link. \<open>Crm_Delivery\<close>: the invariant
    of the window over all tasks and the order in which devices are given requests.
    \<open>Crm_Liveness\<close>: progress of a ready link. \<open>Crm_Demo\<close>: concrete runs.
  \<^item> \<open>Crm_Link\<close> (\<open>cam_req_mgr_core.c\<close>): the calls from user space on sessions and links, the callbacks
    that post tasks, the worker of a link and loading of the driver. \<open>Crm_Dual\<close>: links with two trigger
    devices. \<open>Crm_Connect\<close>: a link that has been set up is one the delivery theorem starts from.
    \<open>Crm_Ident\<close>: what no task changes of a link. \<open>Crm_Owner\<close>: the invariant of sessions, links and
    handles and the steps that keep it. \<open>Crm_Lifecycle\<close>: every operation keeps it. \<open>Crm_Calls\<close>: any
    sequence of calls.
  \<^item> \<open>Cam_Mem\<close> (\<open>cam_mem_mgr.c\<close>): the table of buffers, allocation and the page tables;
    \<open>Cam_Mem_Calls\<close>: the calls of user space and of other drivers on buffers. \<open>Cam_Mem_Inv\<close>: references
    in the log and calls that only log. \<open>Cam_Mem_Safe\<close>: the invariant and the steps that keep it.
    \<open>Cam_Mem_Run\<close>: every call keeps it. \<open>Cam_Mem_Props\<close>: what follows, and how long a buffer lives.
  \<^item> \<open>Cam_Common\<close> (\<open>cam_common_util.c\<close>), \<open>Cam_Sync\<close> (\<open>cam_sync.c\<close>, \<open>cam_sync_util.c\<close>): the fence table and
    the operations on it up to the ioctl handlers. \<open>Cam_Sync_Invariant\<close>: what each operation
    preserves. \<open>Cam_Sync_System\<close>: any sequence of operations with callers asleep in between.
    \<open>Cam_Sync_Props\<close>: what follows for signals, merged fences, waiters and the last close.
  \<^item> \<open>Mmrm_Fixedpoint\<close> (\<open>mmrm_fixedpoint.h\<close>), \<open>Mmrm_Clk\<close> (\<open>mmrm_clk_rsrc_mgr_sw.c\<close>): fixed-point
    arithmetic, the clock clients and the account of their currents. \<open>Mmrm_Props\<close>: admission
    control, throttling, the interface \<open>rate_store\<close>. \<open>Mmrm_Wf\<close>: ranges of stored indices.
    \<open>Mmrm_Driver\<close> (\<open>mmrm_internal.c\<close>, \<open>mmrm_res_parse.c\<close>, \<open>msm_mmrm.c\<close>): probing, removal and the
    exported calls around it.

  \<^bold>\<open>How code is translated.\<close> A struct is a record, an enum a datatype, a linked list a list. Unsigned
  arithmetic that can wrap is done on words; indices and request numbers that the code compares
  with \<open>-1\<close> are integers. A function that returns an error code returns a pair of the code and the
  new state. The body of a lock is one step; where the code drops a lock in the middle, or tests
  and sets a bit in two steps, the model has several steps. Calls that leave the modelled part (device
  callbacks, events for user space, notifiers) are appended to a log in the state. Everything the
  code asks of the kernel, the hardware or a device is an argument: whether an allocation succeeds,
  a random byte, the result of a callback, the clock, the contents of the device tree. Definitions
  are executable; loops are structural or have a termination proof, so no fuel is used, except the
  search through the 48 slots of a queue and the bubble recovery, which the code bounds by the
  number of slots, and the worker loop of the work queue, which is a \<open>partial_function\<close> with a proof
  that it returns. \<open>cr_fault\<close> in the state of \<open>Crm_Link\<close> records that the code went through a NULL pointer.

  \<^bold>\<open>What the theorems show.\<close> Properties are numbered C1 to C40.

  \<^item> C1: from a link just set up, whatever the interleaving of scheduling, adding and frames, each device is
    given the scheduled requests in order, none twice and none left out, and devices lag each other by no
    more than the difference of their pipeline delays. The link is not synchronised with others and all its
    devices are triggered at the SOF; the tasks (\<open>tasks_ok\<close>, \<open>devices_accept\<close>) do not wait for an end of
    frame, do not schedule while more than 44 of the 48 slots wait (the code overwrites a waiting slot with
    only a warning, and that request is lost), report at a SOF at most 44 slots back, and are accepted.
  \<^item> C2: under the same conditions, when all devices have added what is queued and ask for no delay, fifty
    frames bring every request to every device: 48 slots and the largest delay of two.
  \<^item> C3: linking devices successfully gives a handle to a link from which every run under the conditions of
    C1 delivers in order. The devices are triggered at the SOF and report a known delay (\<open>good_devices\<close>).
  \<^item> C4, C5: after any calls of user space, devices and other drivers (\<open>crm_run\<close>) in which every unlink names
    the session of its link, sessions, links and handles agree on who owns what; closing the device leaves
    nothing behind. The flag of \<open>crm_run\<close> records that condition, which the code does not check. C6: what an
    unlink through another session does to both sessions.
  \<^item> C7: with two trigger devices a frame starts when both have reported it, and a device that
    reports twice in a row gives up the frame the other one missed.
  \<^item> C8, C9: the rows of the memory manager and its bit map agree and it holds one
    reference for each row with a buffer, and one for each time no descriptor was left for it; unloading
    gives them back. The run (\<open>mem_run\<close>) ends with a call that keeps the mutex of a row, as the release of
    a kernel buffer that is free already does: \<open>mt_stuck\<close> has those rows, and \<open>None\<close> as the result of a
    call is a call that blocks on one.
  \<^item> C10, C11: a buffer lives until user space and the last kernel user are done, in either order; one
    release too many and it stays for good.
  \<^item> C12 to C17: the handle table behaves like a finite map of at most 256 handles; destroyed handles
    stay dead until row and random byte are drawn again.
  \<^item> C18 to C20: no task of a work queue is lost or duplicated; the worker returns, having run the waiting
    tasks by priority and in order; and what a flush drops.
  \<^item> C21 to C31: the fence graph and the reference counts stay consistent under any sequence of
    operations with sleeping waiters; a merged fence completes with its last member and the first
    failure; errors restore what they touched; the last close leaves the rows of sleeping waiters only.
  \<^item> C32 to C40: with throttling off, rates below \<open>2 ^ 32\<close> and currents that do not overflow, the accounted
    current is the sum over the active clients and stays below the limit; with throttling on, a request
    of a high-priority client over the limit lowers the first client worth it, and is accepted over the limit
    when there is none; refused requests change nothing; stored indices stay in range;
    a probed driver never dereferences a missing pointer.

  \<^bold>\<open>Not modelled.\<close> The rest of the repository is drivers around hardware registers and firmware
  messages (audio, display, video, computer vision, wireless, IP accelerator) and generated register
  headers; of the camera stack, the hardware blocks and the driver of their page tables, whose answers
  are arguments of the memory manager. Inside the modelled
  files, log output, debug files, dumps (\<open>cam_req_mgr_dump_request\<close>, the mini dump) and trace events are
  left out.
\<close>

end
